(* ===== verification/Prelude.thy ===== *)
theory Prelude
  imports Main "HOL-Library.Word"
begin

text \<open>
  Shared vocabulary of the development: the machine integer types of \<^verbatim>\<open>Define.h\<close>, the
  byte/character conversions, \<^verbatim>\<open>std::map\<close> as a key-sorted association list with the contract
  its clients rely on (locale \<open>keyed_store\<close>), and the generic reachability/invariant rule used
  by the state machines (locale \<open>state_machine\<close>).
\<close>

unbundle bit_operations_syntax

section \<open>Machine integers\<close>

type_synonym u8 = "8 word"
type_synonym u16 = "16 word"
type_synonym u32 = "32 word"
type_synonym u64 = "64 word"
type_synonym guid = u64

named_theorems store_simps \<open>lookup after an update of a keyed store\<close>
named_theorems flag_simps \<open>reading a flag bit after setting or clearing one\<close>

text \<open>\<open>flags & mask\<close> used as a condition, \<open>flags |= mask\<close> and \<open>flags &= ~mask\<close>.\<close>

definition has_flag :: "'a::len word \<Rightarrow> 'a word \<Rightarrow> bool" where
  "has_flag flags m \<longleftrightarrow> flags AND m \<noteq> 0"

definition set_flag :: "'a::len word \<Rightarrow> 'a word \<Rightarrow> 'a word" where
  "set_flag flags m = flags OR m"

definition clear_flag :: "'a::len word \<Rightarrow> 'a word \<Rightarrow> 'a word" where
  "clear_flag flags m = flags AND NOT m"

text \<open>The low 32 bits of a GUID (\<^verbatim>\<open>GUID_LOPART\<close>).\<close>

definition GUID_LOPART :: "guid \<Rightarrow> u32" where
  "GUID_LOPART g = ucast g"

section \<open>Characters and bytes\<close>

definition byte_of_char :: "char \<Rightarrow> u8" where
  "byte_of_char c = of_char c"

definition char_of_byte :: "u8 \<Rightarrow> char" where
  "char_of_byte b = char_of (unat b)"

section \<open>\<^verbatim>\<open>std::map\<close>: a key-sorted association list\<close>

type_synonym ('k, 'v) omap = "('k \<times> 'v) list"

definition om_wf :: "('k::linorder, 'v) omap \<Rightarrow> bool" where
  "om_wf m \<longleftrightarrow> sorted_wrt (<) (map fst m)"

definition om_find :: "('k, 'v) omap \<Rightarrow> 'k \<Rightarrow> 'v option" where
  "om_find m k = map_of m k"

fun om_set :: "'k::linorder \<Rightarrow> 'v \<Rightarrow> ('k, 'v) omap \<Rightarrow> ('k, 'v) omap" where
  "om_set k v [] = [(k, v)]"
| "om_set k v ((k', v') # m) =
     (if k = k' then (k, v) # m
      else if k < k' then (k, v) # (k', v') # m
      else (k', v') # om_set k v m)"

fun om_erase :: "'k \<Rightarrow> ('k, 'v) omap \<Rightarrow> ('k, 'v) omap" where
  "om_erase k [] = []"
| "om_erase k ((k', v') # m) = (if k = k' then m else (k', v') # om_erase k m)"

text \<open>
  \<open>m[k]\<close> used as an lvalue: a missing key is first inserted with the value-initialised element
  \<open>d\<close>, then the element is changed by \<open>f\<close>.
\<close>

definition om_modify :: "'v \<Rightarrow> 'k::linorder \<Rightarrow> ('v \<Rightarrow> 'v) \<Rightarrow> ('k, 'v) omap \<Rightarrow> ('k, 'v) omap" where
  "om_modify d k f m = om_set k (f (case om_find m k of None \<Rightarrow> d | Some v \<Rightarrow> v)) m"

text \<open>The contract of a keyed container, and what a client may conclude from it.\<close>

locale keyed_store =
  fixes find :: "'m \<Rightarrow> 'k \<Rightarrow> 'v option"
    and upd :: "'k \<Rightarrow> 'v \<Rightarrow> 'm \<Rightarrow> 'm"
    and del :: "'k \<Rightarrow> 'm \<Rightarrow> 'm"
    and keys :: "'m \<Rightarrow> 'k list"
    and wf :: "'m \<Rightarrow> bool"
  assumes find_upd: "find (upd k v m) k' = (if k' = k then Some v else find m k')"
    and find_del: "wf m \<Longrightarrow> find (del k m) k' = (if k' = k then None else find m k')"
    and wf_upd: "wf m \<Longrightarrow> wf (upd k v m)"
    and wf_del: "wf m \<Longrightarrow> wf (del k m)"
    and keys_find: "k \<in> set (keys m) \<longleftrightarrow> find m k \<noteq> None"
    and keys_distinct: "wf m \<Longrightarrow> distinct (keys m)"
begin

lemma keys_upd: "set (keys (upd k v m)) = insert k (set (keys m))"
  by (auto simp: keys_find find_upd split: if_splits)

lemma keys_del: "wf m \<Longrightarrow> set (keys (del k m)) = set (keys m) - {k}"
  by (auto simp: keys_find find_del split: if_splits)

lemma length_keys_upd:
  assumes "wf m"
  shows "length (keys (upd k v m)) = (if find m k = None then Suc (length (keys m)) else length (keys m))"
proof -
  have "length (keys (upd k v m)) = card (insert k (set (keys m)))"
    using distinct_card [OF keys_distinct [OF wf_upd [OF assms]]] keys_upd by metis
  also have "\<dots> = (if k \<in> set (keys m) then card (set (keys m)) else Suc (card (set (keys m))))"
    by (simp add: insert_absorb)
  finally show ?thesis
    using distinct_card [OF keys_distinct [OF assms]] keys_find by auto
qed

lemma length_keys_del:
  assumes "wf m"
  shows "length (keys (del k m)) = (if find m k = None then length (keys m) else length (keys m) - 1)"
proof -
  have "length (keys (del k m)) = card (set (keys m) - {k})"
    using distinct_card [OF keys_distinct [OF wf_del [OF assms]]] keys_del [OF assms] by metis
  then show ?thesis
    using distinct_card [OF keys_distinct [OF assms]] keys_find by (auto simp: card_Diff_singleton)
qed

end

subsection \<open>The association list satisfies the contract\<close>

lemma om_find_set: "om_find (om_set k v m) k' = (if k' = k then Some v else om_find m k')"
  by (induction k v m rule: om_set.induct) (auto simp: om_find_def)

lemma om_set_keys: "set (map fst (om_set k v m)) = insert k (set (map fst m))"
  by (induction k v m rule: om_set.induct) auto

lemma om_set_not_Nil [simp]: "om_set k v m \<noteq> []"
  by (induction k v m rule: om_set.induct) simp_all

lemma om_wf_set: "om_wf m \<Longrightarrow> om_wf (om_set k v m)"
proof (induction k v m rule: om_set.induct)
  case (1 k v)
  then show ?case by (simp add: om_wf_def)
next
  case (2 k v k' v' m)
  have keys: "fst ` set (om_set k v m) = insert k (fst ` set m)"
    using om_set_keys [of k v m] by simp
  show ?case
    using 2 keys by (auto simp: om_wf_def)
qed

lemma om_erase_subset: "set (om_erase k m) \<subseteq> set m"
  by (induction k m rule: om_erase.induct) auto

lemma om_wf_erase: "om_wf m \<Longrightarrow> om_wf (om_erase k m)"
proof (induction k m rule: om_erase.induct)
  case (2 k k' v' m)
  then show ?case using om_erase_subset [of k m] by (auto simp: om_wf_def)
qed (simp add: om_wf_def)

lemma om_find_erase: "om_wf m \<Longrightarrow> om_find (om_erase k m) k' = (if k' = k then None else om_find m k')"
proof (induction k m rule: om_erase.induct)
  case (2 k k0 v0 m)
  have "k0 \<notin> fst ` set m" and "om_wf m"
    using 2(2) by (auto simp: om_wf_def)
  then show ?case
    using 2(1) by (force simp: om_find_def map_of_eq_None_iff)
qed (simp add: om_find_def)

lemma om_wf_distinct: "om_wf m \<Longrightarrow> distinct (map fst m)"
  unfolding om_wf_def by (simp add: strict_sorted_iff)

interpretation om: keyed_store om_find om_set om_erase "map fst" om_wf
proof (unfold_locales, goal_cases)
  case (5 k m)
  then show ?case by (simp add: om_find_def map_of_eq_None_iff)
qed (simp_all add: om_find_set om_find_erase om_wf_set om_wf_erase om_wf_distinct)

lemma om_find_modify [store_simps]:
  "om_find (om_modify d k f m) k' =
     (if k' = k then Some (f (case om_find m k of None \<Rightarrow> d | Some v \<Rightarrow> v)) else om_find m k')"
  by (simp add: om_modify_def om_find_set)

lemma om_wf_modify [simp]: "om_wf m \<Longrightarrow> om_wf (om_modify d k f m)"
  by (simp add: om_modify_def om_wf_set)

lemma om_find_in: "om_find m k = Some v \<Longrightarrow> (k, v) \<in> set m"
  by (simp add: om_find_def map_of_SomeD)

lemma om_in_find: "om_wf m \<Longrightarrow> (k, v) \<in> set m \<Longrightarrow> om_find m k = Some v"
  by (simp add: om_find_def om_wf_distinct)

declare om_find_set [store_simps] om_find_erase [store_simps]
declare om_wf_set [simp] om_wf_erase [simp]

lemma om_wf_Nil [simp]: "om_wf []"
  by (simp add: om_wf_def)

lemma om_find_Nil [simp]: "om_find [] k = None"
  by (simp add: om_find_def)

section \<open>Flags\<close>

lemma has_set_flag_same [flag_simps]: "m \<noteq> 0 \<Longrightarrow> has_flag (set_flag f m) m"
  by (simp add: has_flag_def set_flag_def bit.conj_disj_distrib2)

lemma has_clear_flag_same [flag_simps]: "\<not> has_flag (clear_flag f m) m"
  by (simp add: has_flag_def clear_flag_def and.assoc)

lemma has_set_flag_other [flag_simps]: "a AND m = 0 \<Longrightarrow> has_flag (set_flag f a) m = has_flag f m"
  by (simp add: has_flag_def set_flag_def bit.conj_disj_distrib2)

lemma has_clear_flag_other [flag_simps]:
  assumes "a AND m = 0"
  shows "has_flag (clear_flag f a) m = has_flag f m"
proof -
  have *: "\<not> (bit a n \<and> bit m n)" for n
    using assms by (metis bit_0_eq bit_and_iff bot_apply bot_bool_def)
  have "f AND NOT a AND m = f AND m"
    by (rule bit_word_eqI) (use * in \<open>auto simp: bit_and_iff bit_not_iff\<close>)
  then show ?thesis by (simp add: has_flag_def clear_flag_def and.assoc)
qed

section \<open>Characters and bytes\<close>

lemma char_of_byte_of_char [simp]: "char_of_byte (byte_of_char c) = c"
proof -
  have "(of_char c :: u8) = of_nat (of_char c)"
    by (simp add: of_nat_of_char)
  then have "unat (of_char c :: u8) = (of_char c :: nat)"
    by (simp add: unat_of_nat)
  then show ?thesis by (simp add: char_of_byte_def byte_of_char_def)
qed

lemma byte_of_char_of_byte [simp]: "byte_of_char (char_of_byte b) = b"
proof -
  have "unat b < 256"
    by (rule order_less_le_trans [OF unsigned_less]) simp
  then have "(of_char (char_of (unat b)) :: nat) = unat b"
    by simp
  then have "of_nat (of_char (char_of (unat b)) :: nat) = b"
    by simp
  then show ?thesis
    by (simp only: char_of_byte_def byte_of_char_def of_nat_of_char)
qed

lemma byte_of_char_0_iff [simp]: "byte_of_char c = 0 \<longleftrightarrow> c = CHR 0x00"
proof -
  have "byte_of_char (CHR 0x00) = 0" by (simp add: byte_of_char_def)
  then show ?thesis by (metis char_of_byte_of_char)
qed

section \<open>Reachable states and invariants\<close>

inductive reachable :: "('s \<Rightarrow> bool) \<Rightarrow> ('s \<Rightarrow> 'e \<Rightarrow> 's \<Rightarrow> bool) \<Rightarrow> 's \<Rightarrow> bool"
  for initial :: "'s \<Rightarrow> bool" and step :: "'s \<Rightarrow> 'e \<Rightarrow> 's \<Rightarrow> bool" where
  reach_init: "initial s \<Longrightarrow> reachable initial step s"
| reach_step: "reachable initial step s \<Longrightarrow> step s e t \<Longrightarrow> reachable initial step t"

text \<open>
  A transition system with an inductive invariant. Each stateful component interprets this
  locale with its own initial states, its operations as steps and its well-formedness predicate.
\<close>

locale state_machine =
  fixes initial :: "'s \<Rightarrow> bool"
    and step :: "'s \<Rightarrow> 'e \<Rightarrow> 's \<Rightarrow> bool"
    and invar :: "'s \<Rightarrow> bool"
  assumes invar_init: "initial s \<Longrightarrow> invar s"
    and invar_step: "invar s \<Longrightarrow> step s e t \<Longrightarrow> invar t"
begin

lemma reachable_invar: "reachable initial step s \<Longrightarrow> invar s"
  by (induction rule: reachable.induct) (auto intro: invar_init invar_step)

lemma reachable_step_invar: "reachable initial step s \<Longrightarrow> step s e t \<Longrightarrow> invar s \<and> invar t"
  by (blast intro: reachable_invar invar_step)

end

end
