(* ===== verification/ByteBuffer.thy ===== *)
theory ByteBuffer
  imports Prelude
begin

text \<open>
  \<^verbatim>\<open>ByteBuffer\<close> (src/src/server/shared/Packets/ByteBuffer.h): the byte vector with a read
  position, a write position and a bit cursor that every packet of the server is built with and
  parsed from. Writers and readers throw exceptions and have a failed \<^verbatim>\<open>ASSERT\<close>; an operation is
  therefore a function from the buffer to an error or a result with the new buffer.
  Positions are \<open>size_t\<close> values and are natural numbers here. The host is little endian, so
  \<^verbatim>\<open>EndianConvert\<close> is the identity.
\<close>

section \<open>State and errors\<close>

record byte_buffer =
  rpos :: nat
  wpos :: nat
  bitpos :: nat
  curbitval :: u8
  storage :: "u8 list"

text \<open>
  \<open>PositionException add pos size valueSize\<close> and \<open>SourceException pos size valueSize\<close> hold the
  constructor arguments in the order they are declared. \<open>AssertFailed\<close> is the failed \<^verbatim>\<open>ASSERT\<close>
  on the size of the storage, and \<open>BitCursorUnderflow\<close> is the wrap-around of the unsigned bit
  cursor when a bit is written while the cursor is in the state a bit reader leaves it in
  (a shift by about \<open>2 ^ 64\<close> follows, which C++ does not define). \<open>UndefinedShift\<close> is any other
  shift by at least the width of the shifted operand, that is of \<open>T\<close> after its promotion to at least 32 bits.
\<close>

datatype bb_error =
    PositionException bool nat nat nat
  | SourceException nat nat nat
  | AssertFailed
  | BitCursorUnderflow
  | UndefinedShift

type_synonym 'a bb = "byte_buffer \<Rightarrow> bb_error + ('a \<times> byte_buffer)"

definition bb_return :: "'a \<Rightarrow> 'a bb" where
  "bb_return x b = Inr (x, b)"

definition bb_bind :: "'a bb \<Rightarrow> ('a \<Rightarrow> 'b bb) \<Rightarrow> 'b bb" where
  "bb_bind m f b = (case m b of Inl e \<Rightarrow> Inl e | Inr (x, b') \<Rightarrow> f x b')"

definition bb_seq :: "'a bb \<Rightarrow> 'b bb \<Rightarrow> 'b bb" where
  "bb_seq m n = bb_bind m (\<lambda>_. n)"

definition bb_empty :: byte_buffer where
  "bb_empty = \<lparr>rpos = 0, wpos = 0, bitpos = 8, curbitval = 0, storage = []\<rparr>"

definition bb_size :: "byte_buffer \<Rightarrow> nat" where
  "bb_size b = length (storage b)"

definition bb_clear :: "byte_buffer \<Rightarrow> byte_buffer" where
  "bb_clear b = b\<lparr>storage := [], rpos := 0, wpos := 0\<rparr>"

definition bb_resize :: "nat \<Rightarrow> byte_buffer \<Rightarrow> byte_buffer" where
  "bb_resize n b =
     b\<lparr>storage := take n (storage b) @ replicate (n - length (storage b)) 0, rpos := 0, wpos := n\<rparr>"

definition bb_rfinish :: "byte_buffer \<Rightarrow> byte_buffer" where
  "bb_rfinish b = b\<lparr>rpos := wpos b\<rparr>"

definition bitwpos :: "byte_buffer \<Rightarrow> nat" where
  "bitwpos b = wpos b * 8 + 8 - bitpos b"

definition set_bitwpos :: "nat \<Rightarrow> byte_buffer \<Rightarrow> byte_buffer" where
  "set_bitwpos newPos b = b\<lparr>wpos := newPos div 8, bitpos := 8 - newPos mod 8\<rparr>"

section \<open>Little endian values\<close>

definition le_bytes :: "'a::len word \<Rightarrow> u8 list" where
  "le_bytes w = map (\<lambda>i. ucast (drop_bit (8 * i) w)) [0..<LENGTH('a) div 8]"

primrec of_le_bytes :: "u8 list \<Rightarrow> 'a::len word" where
  "of_le_bytes [] = 0"
| "of_le_bytes (b # bs) = ucast b OR push_bit 8 (of_le_bytes bs)"

section \<open>Appending bytes\<close>

text \<open>
  \<open>append(const uint8* src, size_t cnt)\<close>; a null pointer is \<open>None\<close>. The write lands at the write
  position, the storage grows when it is too short.
\<close>

definition append_raw :: "u8 list option \<Rightarrow> nat \<Rightarrow> unit bb" where
  "append_raw src cnt b =
     (if cnt = 0 then Inl (SourceException (wpos b) (bb_size b) cnt)
      else case src of
        None \<Rightarrow> Inl (SourceException (wpos b) (bb_size b) cnt)
      | Some bytes \<Rightarrow>
          if \<not> bb_size b < 10000000 then Inl AssertFailed
          else
            let st = (if bb_size b < wpos b + cnt
                      then storage b @ replicate (wpos b + cnt - bb_size b) 0 else storage b)
            in Inr ((), b\<lparr>storage := take (wpos b) st @ take cnt bytes @ drop (wpos b + cnt) st,
                         wpos := wpos b + cnt\<rparr>))"

definition append_bytes :: "u8 list \<Rightarrow> unit bb" where
  "append_bytes bytes = append_raw (Some bytes) (length bytes)"

definition FlushBits :: "unit bb" where
  "FlushBits b =
     (if bitpos b = 8 then Inr ((), b)
      else case append_bytes [curbitval b] b of
        Inl e \<Rightarrow> Inl e
      | Inr (_, b') \<Rightarrow> Inr ((), b'\<lparr>curbitval := 0, bitpos := 8\<rparr>))"

text \<open>\<open>template <typename T> append(T value)\<close>, the body of every integer \<open>operator<<\<close>.\<close>

definition append_val :: "'a::len word \<Rightarrow> unit bb" where
  "append_val v = bb_seq FlushBits (append_bytes (le_bytes v))"

definition append_buffer :: "byte_buffer \<Rightarrow> unit bb" where
  "append_buffer buf =
     (if wpos buf \<noteq> 0 then append_raw (Some (storage buf)) (wpos buf) else bb_return ())"

section \<open>Bits\<close>

definition WriteBit :: "u32 \<Rightarrow> bool bb" where
  "WriteBit v b =
     (if bitpos b = 0 then Inl BitCursorUnderflow
      else
        let bp = bitpos b - 1;
            cur = (if v \<noteq> 0 then curbitval b OR push_bit bp 1 else curbitval b);
            b1 = b\<lparr>bitpos := bp, curbitval := cur\<rparr>
        in if bp = 0
           then (case append_bytes [cur] (b1\<lparr>bitpos := 8\<rparr>) of
                   Inl e \<Rightarrow> Inl e
                 | Inr (_, b2) \<Rightarrow> Inr (v \<noteq> 0, b2\<lparr>curbitval := 0\<rparr>))
           else Inr (v \<noteq> 0, b1))"

definition shift_defined :: "'a::len word \<Rightarrow> nat \<Rightarrow> bool" where
  "shift_defined v i \<longleftrightarrow> i < max 32 LENGTH('a)"

fun WriteBits :: "'a::len word \<Rightarrow> nat \<Rightarrow> unit bb" where
  "WriteBits v 0 = bb_return ()"
| "WriteBits v (Suc i) =
     (if shift_defined v i then bb_seq (WriteBit (ucast (drop_bit i v AND 1))) (WriteBits v i)
      else (\<lambda>b. Inl UndefinedShift))"

section \<open>Reading values\<close>

text \<open>
  \<open>read<T>(pos)\<close>. The exception is built as \<open>(false, pos, sizeof(T), size())\<close>, so the width of the
  value stands in the constructor's \<open>size\<close> place and the buffer size in its \<open>valueSize\<close> place.
\<close>

definition read_at :: "nat \<Rightarrow> byte_buffer \<Rightarrow> bb_error + 'a::len word" where
  "read_at pos b =
     (if pos + LENGTH('a) div 8 > bb_size b
      then Inl (PositionException False pos (LENGTH('a) div 8) (bb_size b))
      else Inr (of_le_bytes (take (LENGTH('a) div 8) (drop pos (storage b)))))"

definition read_val :: "'a::len word bb" where
  "read_val b =
     (case read_at (rpos b) b of
        Inl e \<Rightarrow> Inl e
      | Inr v \<Rightarrow> Inr (v, b\<lparr>rpos := rpos b + LENGTH('a) div 8\<rparr>))"

definition read_raw :: "nat \<Rightarrow> u8 list bb" where
  "read_raw len b =
     (if rpos b + len > bb_size b then Inl (PositionException False (rpos b) len (bb_size b))
      else Inr (take len (drop (rpos b) (storage b)), b\<lparr>rpos := rpos b + len\<rparr>))"

definition read_skip :: "nat \<Rightarrow> unit bb" where
  "read_skip skip b =
     (if rpos b + skip > bb_size b then Inl (PositionException False (rpos b) skip (bb_size b))
      else Inr ((), b\<lparr>rpos := rpos b + skip\<rparr>))"

text \<open>\<open>operator>>(bool&)\<close>: the byte is compared as a signed \<open>char\<close>.\<close>

definition read_bool :: "bool bb" where
  "read_bool = bb_bind read_val (\<lambda>v :: u8. bb_return (sint v > 0))"

definition byte_at :: "nat \<Rightarrow> byte_buffer \<Rightarrow> bb_error + u8" where
  "byte_at pos b =
     (if pos \<ge> bb_size b then Inl (PositionException False pos 1 (bb_size b))
      else Inr (storage b ! pos))"

definition ReadBit :: "bool bb" where
  "ReadBit b =
     (let b1 = b\<lparr>bitpos := bitpos b + 1\<rparr>
      in if bitpos b1 > 7
         then (case read_val (b1\<lparr>bitpos := 0\<rparr>) of
                 Inl e \<Rightarrow> Inl e
               | Inr (cur, b2) \<Rightarrow> Inr (bit cur 7, b2\<lparr>curbitval := cur\<rparr>))
         else Inr (bit (curbitval b1) (7 - bitpos b1), b1))"

text \<open>The loop of \<^verbatim>\<open>ReadBits\<close>: \<open>i\<close> counts down, the bits are collected in \<open>value\<close> with \<open>1 << i\<close>, a shift of an \<open>int\<close>.\<close>

fun ReadBits_loop :: "nat \<Rightarrow> u32 \<Rightarrow> u32 bb" where
  "ReadBits_loop 0 value = bb_return value"
| "ReadBits_loop (Suc i) value =
     bb_bind ReadBit (\<lambda>x.
       if x \<and> \<not> i < 32 then (\<lambda>b. Inl UndefinedShift)
       else ReadBits_loop i (if x then value OR push_bit i 1 else value))"

definition ReadBits :: "nat \<Rightarrow> u32 bb" where
  "ReadBits n = ReadBits_loop n 0"

section \<open>Masked bytes and packed GUIDs\<close>

definition ReadByteSeq :: "u8 \<Rightarrow> u8 bb" where
  "ReadByteSeq x = (if x \<noteq> 0 then bb_bind read_val (\<lambda>y. bb_return (x XOR y)) else bb_return x)"

definition WriteByteSeq :: "u8 \<Rightarrow> unit bb" where
  "WriteByteSeq x = (if x \<noteq> 0 then append_val (x XOR 1) else bb_return ())"

text \<open>\<open>((uint8*)&guid)[k]\<close> on a little endian host.\<close>

definition guid_byte :: "guid \<Rightarrow> nat \<Rightarrow> u8" where
  "guid_byte g k = ucast (drop_bit (8 * k) g)"

fun WriteGuidMask_loop :: "guid \<Rightarrow> nat list \<Rightarrow> nat \<Rightarrow> nat \<Rightarrow> nat \<Rightarrow> unit bb" where
  "WriteGuidMask_loop g maskOrder maskPos i 0 = bb_return ()"
| "WriteGuidMask_loop g maskOrder maskPos i (Suc k) =
     bb_seq (WriteBit (ucast (guid_byte g (maskOrder ! (i + maskPos)))))
       (WriteGuidMask_loop g maskOrder maskPos (Suc i) k)"

definition WriteGuidMask :: "guid \<Rightarrow> nat list \<Rightarrow> nat \<Rightarrow> nat \<Rightarrow> unit bb" where
  "WriteGuidMask g maskOrder maskCount maskPos = WriteGuidMask_loop g maskOrder maskPos 0 maskCount"

fun WriteGuidBytes_loop :: "guid \<Rightarrow> nat list \<Rightarrow> nat \<Rightarrow> nat \<Rightarrow> nat \<Rightarrow> unit bb" where
  "WriteGuidBytes_loop g byteOrder bytePos i 0 = bb_return ()"
| "WriteGuidBytes_loop g byteOrder bytePos i (Suc k) =
     bb_seq
       (if guid_byte g (byteOrder ! (i + bytePos)) \<noteq> 0
        then append_val (guid_byte g (byteOrder ! (i + bytePos)) XOR 1) else bb_return ())
       (WriteGuidBytes_loop g byteOrder bytePos (Suc i) k)"

definition WriteGuidBytes :: "guid \<Rightarrow> nat list \<Rightarrow> nat \<Rightarrow> nat \<Rightarrow> unit bb" where
  "WriteGuidBytes g byteOrder byteCount bytePos = WriteGuidBytes_loop g byteOrder bytePos 0 byteCount"

text \<open>
  The loop of \<^verbatim>\<open>appendPackGUID\<close>: the mask byte \<open>packGUID[0]\<close> and the non-zero bytes collected so
  far. It ends when the shifted GUID is zero.
\<close>

function packGUID_loop :: "nat \<Rightarrow> guid \<Rightarrow> u8 \<Rightarrow> u8 list \<Rightarrow> u8 \<times> u8 list" where
  "packGUID_loop i g m bytes =
     (if g = 0 then (m, bytes)
      else if (ucast g :: u8) \<noteq> 0
      then packGUID_loop (Suc i) (drop_bit 8 g) (m OR push_bit i 1) (bytes @ [ucast g])
      else packGUID_loop (Suc i) (drop_bit 8 g) m bytes)"
  by pat_completeness auto
termination
proof (relation "measure (\<lambda>(i, g, m, bytes). unat g)", goal_cases)
  case (2 i g m bytes)
  then have "unat g > 0" by (simp add: unat_gt_0)
  then show ?case by (simp add: unat_div drop_bit_eq_div)
next
  case (3 i g m bytes)
  then have "unat g > 0" by (simp add: unat_gt_0)
  then show ?case by (simp add: unat_div drop_bit_eq_div)
qed simp

definition appendPackGUID :: "guid \<Rightarrow> unit bb" where
  "appendPackGUID g = (let (m, bytes) = packGUID_loop 0 g 0 [] in append_bytes (m # bytes))"

fun readPackGUID_loop :: "u8 \<Rightarrow> nat \<Rightarrow> nat \<Rightarrow> guid \<Rightarrow> guid bb" where
  "readPackGUID_loop guidmark i 0 g = bb_return g"
| "readPackGUID_loop guidmark i (Suc k) g =
     (if guidmark AND push_bit i 1 \<noteq> 0
      then (\<lambda>b. if rpos b + 1 > bb_size b
                then Inl (PositionException False (rpos b) 1 (bb_size b))
                else bb_bind read_val
                       (\<lambda>x :: u8. readPackGUID_loop guidmark (Suc i) k (g OR push_bit (i * 8) (ucast x))) b)
      else readPackGUID_loop guidmark (Suc i) k g)"

definition readPackGUID :: "guid bb" where
  "readPackGUID b =
     (if rpos b + 1 > bb_size b then Inl (PositionException False (rpos b) 1 (bb_size b))
      else bb_bind read_val (\<lambda>guidmark. readPackGUID_loop guidmark 0 8 0) b)"

section \<open>Overwriting\<close>

definition put_raw :: "nat \<Rightarrow> u8 list \<Rightarrow> unit bb" where
  "put_raw pos bytes b =
     (if pos + length bytes > bb_size b
      then Inl (PositionException True pos (length bytes) (bb_size b))
      else Inr ((), b\<lparr>storage := take pos (storage b) @ bytes @ drop (pos + length bytes) (storage b)\<rparr>))"

definition put_val :: "nat \<Rightarrow> 'a::len word \<Rightarrow> unit bb" where
  "put_val pos v = put_raw pos (le_bytes v)"

fun PutBits_loop :: "nat \<Rightarrow> 'a::len word \<Rightarrow> nat \<Rightarrow> nat \<Rightarrow> nat \<Rightarrow> u8 list \<Rightarrow> u8 list" where
  "PutBits_loop pos value bitCount i 0 st = st"
| "PutBits_loop pos value bitCount i (Suc k) st =
     PutBits_loop pos value bitCount (Suc i) k
       (let wp = (pos + i) div 8; bt = (pos + i) mod 8
        in st[wp := (if bit value (bitCount - i - 1) then st ! wp OR push_bit (7 - bt) 1
                     else st ! wp AND NOT (push_bit (7 - bt) 1))])"

definition PutBits :: "nat \<Rightarrow> 'a::len word \<Rightarrow> nat \<Rightarrow> unit bb" where
  "PutBits pos value bitCount b =
     (if bitCount = 0 then Inl (SourceException ((pos + bitCount) div 8) (bb_size b) 0)
      else if pos + bitCount > bb_size b * 8
      then Inl (PositionException False ((pos + bitCount) div 8) (bb_size b) ((bitCount - 1) div 8 + 1))
      else if \<not> shift_defined value (bitCount - 1) then Inl UndefinedShift
      else Inr ((), b\<lparr>storage := PutBits_loop pos value bitCount 0 bitCount (storage b)\<rparr>))"

section \<open>Strings\<close>

text \<open>
  \<open>operator<<(std::string)\<close>: the characters go straight to \<open>append(src, cnt)\<close>, which does not flush
  pending bits; only the terminating zero goes through the flushing \<open>append<uint8>\<close>.
\<close>

definition append_string :: "string \<Rightarrow> unit bb" where
  "append_string s =
     bb_seq (if s \<noteq> [] then append_bytes (map byte_of_char s) else bb_return ()) (append_val (0 :: u8))"

fun read_string_loop :: "u8 list \<Rightarrow> string \<times> nat" where
  "read_string_loop [] = ([], 0)"
| "read_string_loop (c # cs) =
     (if c = 0 then ([], 1)
      else let (s, n) = read_string_loop cs in (char_of_byte c # s, Suc n))"

text \<open>\<open>operator>>(std::string&)\<close>: characters up to a zero byte or the end of the storage.\<close>

definition read_string :: "string bb" where
  "read_string b =
     (let (s, n) = read_string_loop (drop (rpos b) (storage b))
      in Inr (s, b\<lparr>rpos := rpos b + n\<rparr>))"

text \<open>\<open>ReadString(length)\<close>: the fixed-size buffer is turned into a string as a C string.\<close>

definition ReadString :: "u32 \<Rightarrow> string bb" where
  "ReadString len =
     (if len = 0 then bb_return []
      else bb_bind (read_raw (unat len))
             (\<lambda>bytes. bb_return (map char_of_byte (takeWhile (\<lambda>c. c \<noteq> 0) bytes))))"

definition WriteString :: "string \<Rightarrow> unit bb" where
  "WriteString s = (if s \<noteq> [] then append_bytes (map byte_of_char s) else bb_return ())"

section \<open>Packed time\<close>

text \<open>
  The fields of \<^verbatim>\<open>struct tm\<close> the packed form carries. \<open>localtime\<close> and \<open>mktime\<close> are parameters of
  the two operations.
\<close>

record tm =
  tm_min :: int
  tm_hour :: int
  tm_wday :: int
  tm_mday :: int
  tm_mon :: int
  tm_year :: int

definition pack_tm :: "tm \<Rightarrow> u32" where
  "pack_tm lt =
     push_bit 24 (word_of_int (tm_year lt - 100)) OR push_bit 20 (word_of_int (tm_mon lt)) OR
     push_bit 14 (word_of_int (tm_mday lt - 1)) OR push_bit 11 (word_of_int (tm_wday lt)) OR
     push_bit 6 (word_of_int (tm_hour lt)) OR word_of_int (tm_min lt)"

definition AppendPackedTime :: "(int \<Rightarrow> tm) \<Rightarrow> int \<Rightarrow> unit bb" where
  "AppendPackedTime localtime time = append_val (pack_tm (localtime time))"

text \<open>The day of the week is not read back (\<^verbatim>\<open>memset\<close> leaves it 0).\<close>

definition unpack_tm :: "u32 \<Rightarrow> tm" where
  "unpack_tm packedDate =
     \<lparr>tm_min = uint (packedDate AND 0x3F),
      tm_hour = uint (drop_bit 6 packedDate AND 0x1F),
      tm_wday = 0,
      tm_mday = uint (drop_bit 14 packedDate AND 0x3F) + 1,
      tm_mon = uint (drop_bit 20 packedDate AND 0xF),
      tm_year = uint (drop_bit 24 packedDate AND 0x1F) + 100\<rparr>"

definition ReadPackedTime :: "(tm \<Rightarrow> int) \<Rightarrow> u32 bb" where
  "ReadPackedTime mktime =
     bb_bind read_val (\<lambda>packedDate. bb_return (word_of_int (mktime (unpack_tm packedDate))))"

section \<open>Containers\<close>

text \<open>
  \<open>operator<<\<close> and \<open>operator>>\<close> of \<open>std::vector<T>\<close>, \<open>std::list<T>\<close> and \<open>std::map<K, V>\<close>, over the
  element operators.
\<close>

fun write_elems :: "('a \<Rightarrow> unit bb) \<Rightarrow> 'a list \<Rightarrow> unit bb" where
  "write_elems put [] = bb_return ()"
| "write_elems put (x # xs) = bb_seq (put x) (write_elems put xs)"

definition write_vector :: "('a \<Rightarrow> unit bb) \<Rightarrow> 'a list \<Rightarrow> unit bb" where
  "write_vector put v = bb_seq (append_val (of_nat (length v) :: u32)) (write_elems put v)"

fun read_elems :: "'a bb \<Rightarrow> nat \<Rightarrow> 'a list bb" where
  "read_elems get 0 = bb_return []"
| "read_elems get (Suc n) =
     bb_bind get (\<lambda>x. bb_bind (read_elems get n) (\<lambda>xs. bb_return (x # xs)))"

definition read_vector :: "'a bb \<Rightarrow> 'a list bb" where
  "read_vector get = bb_bind read_val (\<lambda>vsize :: u32. read_elems get (unat vsize))"

definition write_map :: "('k \<Rightarrow> unit bb) \<Rightarrow> ('v \<Rightarrow> unit bb) \<Rightarrow> ('k, 'v) omap \<Rightarrow> unit bb" where
  "write_map putk putv m =
     bb_seq (append_val (of_nat (length m) :: u32)) (write_elems (\<lambda>(k, v). bb_seq (putk k) (putv v)) m)"

text \<open>\<open>m.insert(make_pair(k, v))\<close> keeps the element already stored under an equal key.\<close>

definition om_insert :: "'k::linorder \<Rightarrow> 'v \<Rightarrow> ('k, 'v) omap \<Rightarrow> ('k, 'v) omap" where
  "om_insert k v m = (case om_find m k of None \<Rightarrow> om_set k v m | Some _ \<Rightarrow> m)"

definition read_map :: "'k::linorder bb \<Rightarrow> 'v bb \<Rightarrow> ('k, 'v) omap bb" where
  "read_map getk getv =
     bb_bind read_val (\<lambda>msize :: u32.
       bb_bind (read_elems (bb_bind getk (\<lambda>k. bb_bind getv (\<lambda>v. bb_return (k, v)))) (unat msize))
         (\<lambda>kvs. bb_return (fold (\<lambda>(k, v) m. om_insert k v m) kvs [])))"

end
