(* ===== verification/ByteBufferBits.thy ===== *)
theory ByteBufferBits
  imports ByteBuffer
begin

text \<open>
  The bit cursor of \<^verbatim>\<open>ByteBuffer\<close> refines a queue of bits: \<open>written\<close> is the abstract content while
  writing, \<open>unread\<close> the abstract rest while reading. \<^verbatim>\<open>WriteBit\<close> appends one bit, \<^verbatim>\<open>FlushBits\<close> pads
  to a byte, \<^verbatim>\<open>ReadBit\<close> takes the first bit or throws at the end, \<^verbatim>\<open>PutBits\<close> overwrites a slice.
\<close>

section \<open>Sequencing\<close>

lemma bb_seq_Inr: "bb_seq m n b = Inr r \<longleftrightarrow> (\<exists>x b'. m b = Inr (x, b') \<and> n b' = Inr r)"
  by (auto simp: bb_seq_def bb_bind_def split: sum.splits)

lemma bb_bind_Inr: "bb_bind m f b = Inr r \<longleftrightarrow> (\<exists>x b'. m b = Inr (x, b') \<and> f x b' = Inr r)"
  by (auto simp: bb_bind_def split: sum.splits)

lemma bb_bind_run: "m b = Inr (x, b') \<Longrightarrow> bb_bind m f b = f x b'"
  by (simp add: bb_bind_def)

lemma bb_seq_run: "m b = Inr (x, b') \<Longrightarrow> bb_seq m n b = n b'"
  by (simp add: bb_seq_def bb_bind_def)

lemma bb_return_run [simp]: "bb_return x b = Inr (x, b)"
  by (simp add: bb_return_def)

section \<open>Little endian bytes\<close>

lemma length_le_bytes [simp]: "length (le_bytes (w :: 'a::len word)) = LENGTH('a) div 8"
  by (simp add: le_bytes_def)

lemma bit_of_le_bytes:
  "bit (of_le_bytes bs :: 'a::len word) n \<longleftrightarrow>
     n < LENGTH('a) \<and> n div 8 < length bs \<and> bit (bs ! (n div 8)) (n mod 8)"
proof (induction bs arbitrary: n)
  case Nil
  then show ?case by simp
next
  case (Cons b bs)
  show ?case
  proof (cases "n < 8")
    case True
    then show ?thesis by (auto simp: bit_or_iff bit_push_bit_iff bit_unsigned_iff)
  next
    case False
    then obtain k where k: "n = 8 + k" by (metis add_diff_inverse_nat)
    have "bit (ucast b :: 'a word) n = False"
      using False bit_imp_le_length [of b n] by (auto simp: bit_unsigned_iff)
    moreover have "bit (push_bit 8 (of_le_bytes bs) :: 'a word) n
        = (n < LENGTH('a) \<and> bit (of_le_bytes bs :: 'a word) k)"
      using k by (auto simp: bit_push_bit_iff)
    moreover have "n div 8 = Suc (k div 8)" "n mod 8 = k mod 8" using k by simp_all
    ultimately show ?thesis
      using k Cons.IH [of k] by (auto simp: bit_or_iff)
  qed
qed

lemma of_le_bytes_le_bytes [simp]:
  assumes "8 dvd LENGTH('a::len)"
  shows "of_le_bytes (le_bytes (w :: 'a word)) = w"
proof (rule bit_word_eqI)
  fix n assume n: "n < LENGTH('a)"
  then have "n div 8 < LENGTH('a) div 8"
    using assms by (metis dvd_div_mult_self less_mult_imp_div_less)
  with n show "bit (of_le_bytes (le_bytes w) :: 'a word) n = bit w n"
    by (simp add: bit_of_le_bytes le_bytes_def bit_unsigned_iff bit_drop_bit_eq)
qed

section \<open>Appending at the end\<close>

lemma append_bytes_end:
  assumes "wpos b = length (storage b)"
  shows "append_bytes bs b =
    (if bs = [] then Inl (SourceException (wpos b) (bb_size b) 0)
     else if bb_size b < 10000000
     then Inr ((), b\<lparr>storage := storage b @ bs, wpos := wpos b + length bs\<rparr>)
     else Inl AssertFailed)"
  using assms by (auto simp: append_bytes_def append_raw_def bb_size_def Let_def)

lemma append_bytes_endD:
  assumes "append_bytes bs b = Inr (u, b')" and "wpos b = length (storage b)"
  shows "b' = b\<lparr>storage := storage b @ bs, wpos := wpos b + length bs\<rparr>"
  using assms by (auto simp: append_bytes_end split: if_splits)

section \<open>Bit lists\<close>

text \<open>The eight bits of a byte, most significant first, and those of a byte string.\<close>

definition byte_bits :: "u8 \<Rightarrow> bool list" where
  "byte_bits w = map (\<lambda>i. bit w (7 - i)) [0..<8]"

definition bytes_bits :: "u8 list \<Rightarrow> bool list" where
  "bytes_bits bs = concat (map byte_bits bs)"

text \<open>The low \<open>n\<close> bits of a value, most significant first, and the value a bit list denotes.\<close>

definition word_bits :: "nat \<Rightarrow> 'a::len word \<Rightarrow> bool list" where
  "word_bits n w = map (bit w) (rev [0..<n])"

primrec bits_val :: "bool list \<Rightarrow> u32" where
  "bits_val [] = 0"
| "bits_val (x # xs) = (if x then push_bit (length xs) 1 else 0) OR bits_val xs"

lemma length_byte_bits [simp]: "length (byte_bits w) = 8"
  by (simp add: byte_bits_def)

lemma length_word_bits [simp]: "length (word_bits n w) = n"
  by (simp add: word_bits_def)

lemma nth_byte_bits [simp]: "i < 8 \<Longrightarrow> byte_bits w ! i = bit w (7 - i)"
  by (simp add: byte_bits_def)

lemma bytes_bits_simps [simp]:
  "bytes_bits [] = []"
  "bytes_bits (b # bs) = byte_bits b @ bytes_bits bs"
  "bytes_bits (bs @ cs) = bytes_bits bs @ bytes_bits cs"
  by (simp_all add: bytes_bits_def)

lemma length_bytes_bits [simp]: "length (bytes_bits bs) = 8 * length bs"
  by (induction bs) auto

lemma word_bits_Suc: "word_bits (Suc n) w = bit w n # word_bits n w"
  by (simp add: word_bits_def)

lemma bits_val_word_bits: "bits_val (word_bits n v) = take_bit n v"
proof (induction n)
  case 0
  then show ?case by (simp add: word_bits_def)
next
  case (Suc n)
  have "take_bit (Suc n) v = (if bit v n then push_bit n 1 else 0) OR take_bit n v"
    by (rule bit_word_eqI)
      (auto simp: bit_take_bit_iff bit_or_iff bit_exp_iff possible_bit_word less_Suc_eq)
  with Suc show ?case by (simp add: word_bits_Suc)
qed

lemma nth_bytes_bits: "j < 8 * length bs \<Longrightarrow> bytes_bits bs ! j = bit (bs ! (j div 8)) (7 - j mod 8)"
proof (induction bs arbitrary: j)
  case Nil
  then show ?case by simp
next
  case (Cons b bs)
  show ?case
  proof (cases "j < 8")
    case True
    then show ?thesis by (simp add: nth_append)
  next
    case False
    then obtain k where k: "j = 8 + k" by (metis add_diff_inverse_nat)
    then have "j div 8 = Suc (k div 8)" "j mod 8 = k mod 8" by simp_all
    with k Cons show ?thesis by (simp add: nth_append)
  qed
qed

section \<open>Writing bits\<close>

text \<open>The state of a buffer that is being written: appending at the end, free cursor bits clear.\<close>

definition write_inv :: "byte_buffer \<Rightarrow> bool" where
  "write_inv b \<longleftrightarrow> wpos b = length (storage b) \<and> 1 \<le> bitpos b \<and> bitpos b \<le> 8
     \<and> (\<forall>i < bitpos b. \<not> bit (curbitval b) i)"

definition aligned :: "byte_buffer \<Rightarrow> bool" where
  "aligned b \<longleftrightarrow> wpos b = length (storage b) \<and> bitpos b = 8 \<and> curbitval b = 0"

definition written :: "byte_buffer \<Rightarrow> bool list" where
  "written b = bytes_bits (storage b) @ take (8 - bitpos b) (byte_bits (curbitval b))"

lemma aligned_write_inv: "aligned b \<Longrightarrow> write_inv b"
  by (simp add: aligned_def write_inv_def)

lemma aligned_empty [simp]: "aligned bb_empty"
  by (simp add: aligned_def bb_empty_def)

lemma written_aligned: "aligned b \<Longrightarrow> written b = bytes_bits (storage b)"
  by (simp add: aligned_def written_def)

lemma take_byte_bits_push:
  assumes "1 \<le> bp" "bp \<le> 8" and "\<forall>i < bp. \<not> bit cur i"
  shows "take (8 - (bp - 1)) (byte_bits (if x then cur OR push_bit (bp - 1) 1 else cur))
       = take (8 - bp) (byte_bits cur) @ [x]" (is "?l = ?r")
proof (rule nth_equalityI)
  show "length ?l = length ?r" using assms by simp
next
  fix i assume "i < length ?l"
  then have i: "i < 9 - bp" and i8: "i < 8" using assms by auto
  show "?l ! i = ?r ! i"
  proof (cases "i < 8 - bp")
    case True
    then have "7 - i \<noteq> bp - 1" using assms by arith
    then show ?thesis
      using True i8 by (auto simp: nth_append bit_or_iff bit_push_bit_iff bit_exp_iff possible_bit_word)
  next
    case False
    then have e: "i = 8 - bp" and e': "7 - i = bp - 1" using i assms by arith+
    have "\<not> bit cur (bp - 1)" using assms by simp
    then show ?thesis
      using e e' i8 i by (auto simp: nth_append bit_or_iff bit_push_bit_iff bit_exp_iff possible_bit_word)
  qed
qed

definition bit_cur :: "u32 \<Rightarrow> byte_buffer \<Rightarrow> u8" where
  "bit_cur v b = (if v \<noteq> 0 then curbitval b OR push_bit (bitpos b - 1) 1 else curbitval b)"

lemma WriteBit_eq:
  assumes "write_inv b"
  shows "WriteBit v b =
    (if bitpos b = 1
     then if bb_size b < 10000000
       then Inr (v \<noteq> 0, b\<lparr>bitpos := 8, curbitval := 0, storage := storage b @ [bit_cur v b],
              wpos := Suc (wpos b)\<rparr>)
       else Inl AssertFailed
     else Inr (v \<noteq> 0, b\<lparr>bitpos := bitpos b - 1, curbitval := bit_cur v b\<rparr>))"
proof -
  have "bitpos b \<noteq> 0" and end_pos: "wpos b = length (storage b)"
    using assms by (auto simp: write_inv_def)
  then show ?thesis
    unfolding WriteBit_def bit_cur_def [symmetric] Let_def
    by (simp add: append_bytes_end bb_size_def)
qed

lemma WriteBit_written:
  assumes inv: "write_inv b" and w: "WriteBit v b = Inr (r, b')"
  shows "write_inv b' \<and> written b' = written b @ [v \<noteq> 0] \<and> rpos b' = rpos b \<and> r = (v \<noteq> 0)"
proof -
  have bits: "take (8 - (bitpos b - 1)) (byte_bits (bit_cur v b))
      = take (8 - bitpos b) (byte_bits (curbitval b)) @ [v \<noteq> 0]"
    unfolding bit_cur_def by (rule take_byte_bits_push) (use inv in \<open>auto simp: write_inv_def\<close>)
  have clear: "\<forall>i < bitpos b - 1. \<not> bit (bit_cur v b) i"
    using inv by (auto simp: bit_cur_def write_inv_def bit_or_iff bit_exp_iff)
  show ?thesis
  proof (cases "bitpos b = 1")
    case True
    with w inv have "r = (v \<noteq> 0)" and
      "b' = b\<lparr>bitpos := 8, curbitval := 0, storage := storage b @ [bit_cur v b], wpos := Suc (wpos b)\<rparr>"
      by (auto simp: WriteBit_eq split: if_splits)
    then show ?thesis
      using bits True inv by (simp add: written_def write_inv_def)
  next
    case False
    with w inv have "r = (v \<noteq> 0)" and "b' = b\<lparr>bitpos := bitpos b - 1, curbitval := bit_cur v b\<rparr>"
      by (auto simp: WriteBit_eq)
    then show ?thesis
      using bits False inv clear by (auto simp: written_def write_inv_def)
  qed
qed

lemma length_written: "write_inv b \<Longrightarrow> length (written b) = 8 * bb_size b + (8 - bitpos b)"
  by (auto simp: written_def bb_size_def write_inv_def)

lemma WriteBit_room:
  assumes "write_inv b" "length (written b) < 80000000"
  shows "\<exists>b'. WriteBit v b = Inr (v \<noteq> 0, b')"
  using assms by (simp add: WriteBit_eq length_written)

lemma bit_arg_nonzero: "(ucast (drop_bit i v AND 1 :: 'a::len word) :: u32) \<noteq> 0 \<longleftrightarrow> bit v i"
proof (cases "bit v i")
  case True
  then have "drop_bit i v AND 1 = 1"
    by (simp add: bit_iff_odd_drop_bit and_one_eq odd_iff_mod_2_eq_one)
  with True show ?thesis by simp
next
  case False
  then have "drop_bit i v AND 1 = 0"
    by (simp add: bit_iff_odd_drop_bit and_one_eq even_iff_mod_2_eq_zero)
  with False show ?thesis by simp
qed

lemma WriteBits_written:
  "write_inv b \<Longrightarrow> WriteBits v n b = Inr (u, b') \<Longrightarrow>
     write_inv b' \<and> written b' = written b @ word_bits n v \<and> rpos b' = rpos b"
proof (induction n arbitrary: b)
  case 0
  then show ?case by (simp add: word_bits_def)
next
  case (Suc n)
  from Suc.prems(2) obtain r b1 where
    b1: "WriteBit (ucast (drop_bit n v AND 1)) b = Inr (r, b1)" and rest: "WriteBits v n b1 = Inr (u, b')"
    by (auto simp: bb_seq_Inr split: if_splits)
  from WriteBit_written [OF Suc.prems(1) b1]
  have "write_inv b1" "written b1 = written b @ [bit v n]" "rpos b1 = rpos b"
    by (simp_all only: bit_arg_nonzero)
  with Suc.IH [OF _ rest] show ?case by (simp add: word_bits_Suc)
qed

lemma WriteBits_room:
  "write_inv b \<Longrightarrow> length (written b) + n \<le> 80000000 \<Longrightarrow> n \<le> 32 \<Longrightarrow> \<exists>b'. WriteBits v n b = Inr ((), b')"
proof (induction n arbitrary: b)
  case 0
  then show ?case by simp
next
  case (Suc n)
  from WriteBit_room [OF Suc.prems(1), of "ucast (drop_bit n v AND 1)"] Suc.prems(2)
  obtain r b1 where b1: "WriteBit (ucast (drop_bit n v AND 1)) b = Inr (r, b1)" by auto
  from WriteBit_written [OF Suc.prems(1) b1] Suc.prems(2,3) Suc.IH [of b1]
  obtain b' where "WriteBits v n b1 = Inr ((), b')" by auto
  with b1 Suc.prems(3) show ?case by (simp add: bb_seq_run shift_defined_def)
qed

lemma FlushBits_room:
  assumes "write_inv b" "length (written b) < 80000000"
  shows "\<exists>b'. FlushBits b = Inr ((), b')"
proof -
  have "bb_size b < 10000000" using assms length_written [of b] by linarith
  then show ?thesis using assms(1) by (simp add: FlushBits_def append_bytes_end write_inv_def)
qed

lemma FlushBits_written:
  assumes inv: "write_inv b" and f: "FlushBits b = Inr (u, b')"
  shows "aligned b' \<and> rpos b' = rpos b
    \<and> bytes_bits (storage b') = written b @ replicate (if bitpos b = 8 then 0 else bitpos b) False"
proof (cases "bitpos b = 8")
  case True
  then have "curbitval b = 0"
    using inv by (intro bit_word_eqI) (auto simp: write_inv_def)
  then show ?thesis
    using True f inv by (simp add: FlushBits_def aligned_def write_inv_def written_def)
next
  case False
  have pad: "byte_bits (curbitval b)
      = take (8 - bitpos b) (byte_bits (curbitval b)) @ replicate (bitpos b) False"
    using inv by (intro nth_equalityI) (auto simp: write_inv_def nth_append)
  from f False inv
  have "b' = b\<lparr>storage := storage b @ [curbitval b], wpos := Suc (wpos b), curbitval := 0, bitpos := 8\<rparr>"
    by (auto simp: FlushBits_def append_bytes_end write_inv_def split: sum.splits if_splits)
  with False inv pad show ?thesis
    by (simp add: aligned_def write_inv_def written_def)
qed

lemma FlushBits_aligned: "aligned b \<Longrightarrow> FlushBits b = Inr ((), b)"
  by (simp add: FlushBits_def aligned_def)

section \<open>Reading bits\<close>

text \<open>The bits a reader has not consumed yet.\<close>

definition unread :: "byte_buffer \<Rightarrow> bool list" where
  "unread b = drop (Suc (bitpos b)) (byte_bits (curbitval b)) @ bytes_bits (drop (rpos b) (storage b))"

lemma read_val_u8:
  "(read_val b :: bb_error + (u8 \<times> byte_buffer)) =
     (if rpos b < length (storage b) then Inr (storage b ! rpos b, b\<lparr>rpos := Suc (rpos b)\<rparr>)
      else Inl (PositionException False (rpos b) 1 (bb_size b)))"
proof (cases "rpos b < length (storage b)")
  case True
  then have "take 1 (drop (rpos b) (storage b)) = [storage b ! rpos b]"
    by (metis Cons_nth_drop_Suc One_nat_def take_Suc_Cons take_eq_Nil)
  with True show ?thesis
    by (simp add: read_val_def read_at_def bb_size_def)
next
  case False
  then show ?thesis
    by (simp add: read_val_def read_at_def bb_size_def)
qed

lemma drop_byte_bits: "k < 8 \<Longrightarrow> drop k (byte_bits w) = bit w (7 - k) # drop (Suc k) (byte_bits w)"
  using Cons_nth_drop_Suc [of k "byte_bits w"] by simp

lemma ReadBit_unread:
  assumes "bitpos b \<le> 8"
  shows "ReadBit b = (case unread b of
      [] \<Rightarrow> Inl (PositionException False (rpos b) 1 (bb_size b))
    | x # _ \<Rightarrow> Inr (x, if bitpos b \<ge> 7
        then b\<lparr>bitpos := 0, rpos := Suc (rpos b), curbitval := storage b ! rpos b\<rparr>
        else b\<lparr>bitpos := Suc (bitpos b)\<rparr>))"
proof (cases "bitpos b \<ge> 7")
  case True
  then have none: "drop (Suc (bitpos b)) (byte_bits (curbitval b)) = []" by simp
  show ?thesis
  proof (cases "rpos b < length (storage b)")
    case in_range: True
    then obtain x xs where st: "drop (rpos b) (storage b) = x # xs"
      by (metis Cons_nth_drop_Suc)
    then have "x = storage b ! rpos b" using in_range by (metis nth_via_drop)
    moreover have "unread b = bit x 7 # drop 1 (byte_bits x) @ bytes_bits xs"
      using none st drop_byte_bits [of 0 x] by (simp add: unread_def)
    ultimately show ?thesis
      using True in_range by (simp add: ReadBit_def read_val_u8)
  next
    case False
    then show ?thesis
      using True none by (simp add: ReadBit_def read_val_u8 unread_def bb_size_def)
  qed
next
  case False
  then have "unread b = bit (curbitval b) (6 - bitpos b) #
      drop (Suc (Suc (bitpos b))) (byte_bits (curbitval b)) @ bytes_bits (drop (rpos b) (storage b))"
    using drop_byte_bits [of "Suc (bitpos b)" "curbitval b"] by (simp add: unread_def)
  then show ?thesis
    using False by (simp add: ReadBit_def)
qed

lemma unread_next:
  assumes "bitpos b \<le> 8" and "unread b = x # xs"
  shows "unread (if bitpos b \<ge> 7
        then b\<lparr>bitpos := 0, rpos := Suc (rpos b), curbitval := storage b ! rpos b\<rparr>
        else b\<lparr>bitpos := Suc (bitpos b)\<rparr>) = xs"
proof (cases "bitpos b \<ge> 7")
  case True
  then have ne: "bytes_bits (drop (rpos b) (storage b)) = x # xs"
    using assms by (simp add: unread_def)
  then have "rpos b < length (storage b)"
    by (metis bytes_bits_simps(1) drop_all list.distinct(1) not_le)
  then have "byte_bits (storage b ! rpos b) @ bytes_bits (drop (Suc (rpos b)) (storage b)) = x # xs"
    using ne by (metis Cons_nth_drop_Suc bytes_bits_simps(2))
  then have "drop 1 (byte_bits (storage b ! rpos b)) @ bytes_bits (drop (Suc (rpos b)) (storage b)) = xs"
    by (metis One_nat_def append_Cons drop0 drop_byte_bits list.inject zero_less_numeral)
  then show ?thesis using True by (simp add: unread_def)
next
  case False
  then show ?thesis
    using assms drop_byte_bits [of "Suc (bitpos b)" "curbitval b"] by (simp add: unread_def)
qed

text \<open>
  The number of bits a reader has taken from a buffer it started to read at byte \<open>p\<close> with an empty
  cursor, as the read position and the cursor record it.
\<close>

definition bits_taken :: "nat \<Rightarrow> nat \<Rightarrow> byte_buffer \<Rightarrow> bool" where
  "bits_taken p k b \<longleftrightarrow> rpos b = p + (k + 7) div 8 \<and> bitpos b = (if k = 0 then 8 else (k - 1) mod 8)"

lemma ReadBit_Cons:
  assumes "bitpos b \<le> 8" and "unread b = x # xs"
  shows "\<exists>b'. ReadBit b = Inr (x, b') \<and> unread b' = xs \<and> bitpos b' \<le> 8 \<and> storage b' = storage b
    \<and> wpos b' = wpos b \<and> (\<forall>p k. bits_taken p k b \<longrightarrow> bits_taken p (Suc k) b')"
proof -
  let ?b = "if bitpos b \<ge> 7
        then b\<lparr>bitpos := 0, rpos := Suc (rpos b), curbitval := storage b ! rpos b\<rparr>
        else b\<lparr>bitpos := Suc (bitpos b)\<rparr>"
  have "ReadBit b = Inr (x, ?b)" using ReadBit_unread [OF assms(1)] assms(2) by simp
  moreover have "unread ?b = xs" by (rule unread_next [OF assms])
  moreover have "bits_taken p (Suc k) ?b" if "bits_taken p k b" for p k
  proof (cases "k = 0")
    case True
    with that show ?thesis by (simp add: bits_taken_def)
  next
    case False
    then obtain m where m: "k = Suc m" by (cases k) auto
    have "(m + 8) div 8 = Suc (m div 8)" "(Suc m + 8) div 8 = Suc (Suc m div 8)"
      by (simp_all only: div_add_self2 Suc_eq_plus1)
    with that m show ?thesis
      by (auto simp: bits_taken_def div_Suc mod_Suc split: if_splits)
  qed
  ultimately show ?thesis using assms(1) by (intro exI [of _ ?b]) auto
qed

lemma ReadBits_loop_unread:
  "bitpos b \<le> 8 \<Longrightarrow> n \<le> length (unread b) \<Longrightarrow> n \<le> 32 \<Longrightarrow>
     \<exists>b'. ReadBits_loop n acc b = Inr (acc OR bits_val (take n (unread b)), b')
       \<and> unread b' = drop n (unread b) \<and> bitpos b' \<le> 8 \<and> storage b' = storage b
       \<and> wpos b' = wpos b \<and> (\<forall>p k. bits_taken p k b \<longrightarrow> bits_taken p (k + n) b')"
proof (induction n arbitrary: acc b)
  case 0
  then show ?case by simp
next
  case (Suc n)
  then obtain x xs where u: "unread b = x # xs" by (cases "unread b") auto
  from ReadBit_Cons [OF Suc.prems(1) u] obtain b1 where b1: "ReadBit b = Inr (x, b1)"
    "unread b1 = xs" "bitpos b1 \<le> 8" "storage b1 = storage b" "wpos b1 = wpos b"
    "\<forall>p k. bits_taken p k b \<longrightarrow> bits_taken p (Suc k) b1"
    by blast
  have "n \<le> length (unread b1)" using Suc.prems(2) u b1(2) by simp
  from Suc.IH [OF b1(3) this _, of "if x then acc OR push_bit n 1 else acc"]
  obtain b2 where b2: "ReadBits_loop n (if x then acc OR push_bit n 1 else acc) b1
      = Inr ((if x then acc OR push_bit n 1 else acc) OR bits_val (take n (unread b1)), b2)"
    "unread b2 = drop n (unread b1)" "bitpos b2 \<le> 8" "storage b2 = storage b1" "wpos b2 = wpos b1"
    "\<forall>p k. bits_taken p k b1 \<longrightarrow> bits_taken p (k + n) b2"
    using Suc.prems(3) by (metis Suc_leD)
  have "ReadBits_loop (Suc n) acc b = Inr (acc OR bits_val (take (Suc n) (unread b)), b2)"
    using b1(1,2) b2(1) Suc.prems(2,3) u
    by (simp add: bb_bind_run or.assoc min_absorb2 del: push_bit_of_1)
  moreover have "\<forall>p k. bits_taken p k b \<longrightarrow> bits_taken p (k + Suc n) b2"
    using b1(6) b2(6) by (metis add_Suc_shift)
  ultimately show ?case
    using b1(2,4,5) b2(2-5) u by auto
qed

lemma ReadBits_unread:
  assumes "bitpos b \<le> 8" and "n \<le> length (unread b)" and "n \<le> 32"
  shows "\<exists>b'. ReadBits n b = Inr (bits_val (take n (unread b)), b')
       \<and> unread b' = drop n (unread b) \<and> bitpos b' \<le> 8 \<and> storage b' = storage b
       \<and> wpos b' = wpos b \<and> (\<forall>p k. bits_taken p k b \<longrightarrow> bits_taken p (k + n) b')"
  using ReadBits_loop_unread [OF assms, of 0] by (simp add: ReadBits_def)

section \<open>Whole bit records\<close>

text \<open>A record of bit fields (value and width) written field by field, and read back by widths.\<close>

fun write_bit_fields :: "(u32 \<times> nat) list \<Rightarrow> unit bb" where
  "write_bit_fields [] = bb_return ()"
| "write_bit_fields ((v, n) # fs) = bb_seq (WriteBits v n) (write_bit_fields fs)"

fun read_bit_fields :: "nat list \<Rightarrow> u32 list bb" where
  "read_bit_fields [] = bb_return []"
| "read_bit_fields (n # ns) =
     bb_bind (ReadBits n) (\<lambda>v. bb_bind (read_bit_fields ns) (\<lambda>vs. bb_return (v # vs)))"

definition fields_bits :: "(u32 \<times> nat) list \<Rightarrow> bool list" where
  "fields_bits fs = concat (map (\<lambda>(v, n). word_bits n v) fs)"

lemma write_bit_fields_written:
  "write_inv b \<Longrightarrow> write_bit_fields fs b = Inr (u, b') \<Longrightarrow>
     write_inv b' \<and> written b' = written b @ fields_bits fs \<and> rpos b' = rpos b"
proof (induction fs arbitrary: b)
  case Nil
  then show ?case by (simp add: fields_bits_def)
next
  case (Cons f fs)
  obtain v n where f: "f = (v, n)" by (cases f)
  from Cons.prems(2) f obtain u1 b1 where
    b1: "WriteBits v n b = Inr (u1, b1)" and rest: "write_bit_fields fs b1 = Inr (u, b')"
    by (auto simp: bb_seq_Inr)
  from WriteBits_written [OF Cons.prems(1) b1] Cons.IH [OF _ rest] f show ?case
    by (simp add: fields_bits_def)
qed

lemma write_bit_fields_room:
  "write_inv b \<Longrightarrow> length (written b) + sum_list (map snd fs) \<le> 80000000 \<Longrightarrow> \<forall>f\<in>set fs. snd f \<le> 32 \<Longrightarrow>
     \<exists>b'. write_bit_fields fs b = Inr ((), b')"
proof (induction fs arbitrary: b)
  case Nil
  then show ?case by simp
next
  case (Cons f fs)
  obtain v n where f: "f = (v, n)" by (cases f)
  with WriteBits_room [OF Cons.prems(1), of n v] Cons.prems(2,3)
  obtain b1 where b1: "WriteBits v n b = Inr ((), b1)" by auto
  from WriteBits_written [OF Cons.prems(1) b1] Cons.prems(2,3) f Cons.IH [of b1]
  obtain b' where "write_bit_fields fs b1 = Inr ((), b')" by auto
  with b1 f show ?case by (simp add: bb_seq_run)
qed

lemma read_bit_fields_unread:
  "bitpos b \<le> 8 \<Longrightarrow> unread b = fields_bits fs @ rest \<Longrightarrow> \<forall>f\<in>set fs. snd f \<le> 32 \<Longrightarrow>
     \<exists>b'. read_bit_fields (map snd fs) b = Inr (map (\<lambda>(v, n). take_bit n v) fs, b')
       \<and> unread b' = rest \<and> storage b' = storage b \<and> wpos b' = wpos b
       \<and> (\<forall>p k. bits_taken p k b \<longrightarrow> bits_taken p (k + sum_list (map snd fs)) b')"
proof (induction fs arbitrary: b)
  case Nil
  then show ?case by (simp add: fields_bits_def)
next
  case (Cons f fs)
  obtain v n where f: "f = (v, n)" by (cases f)
  have u: "unread b = word_bits n v @ fields_bits fs @ rest"
    using Cons.prems(2) f by (simp add: fields_bits_def)
  from ReadBits_unread [OF Cons.prems(1), of n] u obtain b1 where b1:
    "ReadBits n b = Inr (take_bit n v, b1)" "unread b1 = fields_bits fs @ rest" "bitpos b1 \<le> 8"
    "storage b1 = storage b" "wpos b1 = wpos b" "\<forall>p k. bits_taken p k b \<longrightarrow> bits_taken p (k + n) b1"
    using Cons.prems(3) f by (auto simp: bits_val_word_bits)
  from Cons.IH [OF b1(3,2)] Cons.prems(3) obtain b2 where b2:
    "read_bit_fields (map snd fs) b1 = Inr (map (\<lambda>(v, n). take_bit n v) fs, b2)" "unread b2 = rest"
    "storage b2 = storage b1" "wpos b2 = wpos b1"
    "\<forall>p k. bits_taken p k b1 \<longrightarrow> bits_taken p (k + sum_list (map snd fs)) b2"
    by auto
  have "\<forall>p k. bits_taken p k b \<longrightarrow> bits_taken p (k + sum_list (map snd (f # fs))) b2"
    using b1(6) b2(5) f by (simp add: add.assoc [symmetric])
  then show ?case
    using f b1(1,4,5) b2(1-4) by (simp add: bb_bind_run)
qed

text \<open>A buffer in the state the network layer hands to a packet handler: nothing read yet.\<close>

definition fresh_reader :: "byte_buffer \<Rightarrow> bool" where
  "fresh_reader b \<longleftrightarrow> rpos b = 0 \<and> bitpos b = 8"

lemma unread_fresh: "fresh_reader b \<Longrightarrow> unread b = bytes_bits (storage b)"
  by (simp add: fresh_reader_def unread_def)

lemma bits_taken_0: "bitpos b = 8 \<Longrightarrow> bits_taken (rpos b) 0 b"
  by (simp add: bits_taken_def)

section \<open>Overwriting bits\<close>

lemma length_PutBits_loop [simp]: "length (PutBits_loop pos v n i k st) = length st"
  by (induction k arbitrary: i st) (simp_all add: Let_def)

lemma nth_PutBits_loop:
  "pos + i + k \<le> 8 * length st \<Longrightarrow> j < 8 * length st \<Longrightarrow>
   bytes_bits (PutBits_loop pos v n i k st) ! j =
     (if pos + i \<le> j \<and> j < pos + i + k then bit v (n - (j - pos) - 1) else bytes_bits st ! j)"
proof (induction k arbitrary: i st)
  case 0
  then show ?case by auto
next
  case (Suc k)
  define q where "q = pos + i"
  define x where "x = (if bit v (n - i - 1) then st ! (q div 8) OR push_bit (7 - q mod 8) 1
     else st ! (q div 8) AND NOT (push_bit (7 - q mod 8) 1))"
  have q: "q < 8 * length st" using Suc.prems(1) by (simp add: q_def)
  have upd: "bytes_bits (st[q div 8 := x]) ! j = (if j = q then bit v (n - i - 1) else bytes_bits st ! j)"
  proof (cases "j div 8 = q div 8")
    case True
    have "7 - j mod 8 = 7 - q mod 8 \<longleftrightarrow> j = q"
    proof -
      have "j = 8 * (j div 8) + j mod 8" "q = 8 * (q div 8) + q mod 8" "j mod 8 < 8" "q mod 8 < 8"
        by simp_all
      with True show ?thesis by linarith
    qed
    then show ?thesis
      using True q Suc.prems(2)
      by (auto simp: nth_bytes_bits x_def bit_or_iff bit_and_iff bit_not_iff bit_exp_iff)
  next
    case False
    then show ?thesis using q Suc.prems(2) by (auto simp: nth_bytes_bits)
  qed
  have "bytes_bits (PutBits_loop pos v n i (Suc k) st) ! j
      = bytes_bits (PutBits_loop pos v n (Suc i) k (st[q div 8 := x])) ! j"
    by (simp add: q_def x_def Let_def)
  also have "\<dots> = (if pos + Suc i \<le> j \<and> j < pos + Suc i + k then bit v (n - (j - pos) - 1)
      else bytes_bits (st[q div 8 := x]) ! j)"
    using Suc.prems by (intro Suc.IH) auto
  finally show ?case using upd by (auto simp: q_def)
qed

lemma PutBits_slice:
  assumes "0 < n" "pos + n \<le> 8 * bb_size b" "n \<le> 32"
  shows "\<exists>b'. PutBits pos v n b = Inr ((), b') \<and> bb_size b' = bb_size b
    \<and> bytes_bits (storage b')
      = take pos (bytes_bits (storage b)) @ word_bits n v @ drop (pos + n) (bytes_bits (storage b))"
proof -
  let ?st = "PutBits_loop pos v n 0 n (storage b)"
  have "bytes_bits ?st
      = take pos (bytes_bits (storage b)) @ word_bits n v @ drop (pos + n) (bytes_bits (storage b))"
    using assms
    by (intro nth_equalityI)
      (auto simp: nth_PutBits_loop bb_size_def nth_append word_bits_def rev_nth)
  then show ?thesis
    using assms by (auto simp: PutBits_def bb_size_def shift_defined_def)
qed

end
