(* ===== verification/ByteBufferCodec.thy ===== *)
theory ByteBufferCodec
  imports ByteBufferBits
begin

text \<open>
  Byte-level codecs over \<^verbatim>\<open>ByteBuffer\<close>: the contract between an \<open>operator<<\<close> and the \<open>operator>>\<close>
  of the same type (locale \<open>codec\<close>), its instances for the integers, strings and packed GUIDs, and
  its closure under pairs, vectors and maps. Field lists describe the payload of a packet.
\<close>

section \<open>Aligned appends\<close>

definition push_bytes :: "u8 list \<Rightarrow> byte_buffer \<Rightarrow> byte_buffer" where
  "push_bytes bs b = b\<lparr>storage := storage b @ bs, wpos := wpos b + length bs\<rparr>"

lemma push_bytes_simps [simp]:
  "storage (push_bytes bs b) = storage b @ bs"
  "wpos (push_bytes bs b) = wpos b + length bs"
  "rpos (push_bytes bs b) = rpos b"
  "bitpos (push_bytes bs b) = bitpos b"
  "curbitval (push_bytes bs b) = curbitval b"
  "push_bytes cs (push_bytes bs b) = push_bytes (bs @ cs) b"
  "push_bytes [] b = b"
  by (simp_all add: push_bytes_def)

lemma aligned_push [simp]: "aligned b \<Longrightarrow> aligned (push_bytes bs b)"
  by (simp add: aligned_def)

lemma bb_size_push [simp]: "bb_size (push_bytes bs b) = bb_size b + length bs"
  by (simp add: bb_size_def)

lemma append_bytes_push:
  assumes "aligned b" and "bs \<noteq> []" and "bb_size b + length bs \<le> 10000000"
  shows "append_bytes bs b = Inr ((), push_bytes bs b)"
proof -
  have "bb_size b < 10000000" using assms(2,3) by (cases bs) auto
  then show ?thesis using assms(1,2) by (simp add: append_bytes_end aligned_def push_bytes_def)
qed

lemma append_val_room:
  assumes "aligned b" and "bb_size b < 10000000" and "LENGTH('a::len) \<ge> 8"
  shows "append_val (v :: 'a word) b = Inr ((), push_bytes (le_bytes v) b)"
proof -
  have "le_bytes v \<noteq> []" using assms(3) by (simp add: le_bytes_def)
  then show ?thesis
    using assms(1,2)
    by (simp add: append_val_def bb_seq_def bb_bind_def FlushBits_aligned append_bytes_end aligned_def
        push_bytes_def)
qed

lemma read_val_at:
  assumes "storage b = pre @ le_bytes (v :: 'a::len word) @ post" and "rpos b = length pre"
    and "8 dvd LENGTH('a)"
  shows "read_val b = Inr (v, b\<lparr>rpos := length pre + LENGTH('a) div 8\<rparr>)"
  using assms by (simp add: read_val_def read_at_def bb_size_def)

section \<open>The codec contract\<close>

locale codec =
  fixes put :: "'a \<Rightarrow> unit bb"
    and get :: "'a bb"
    and enc :: "'a \<Rightarrow> u8 list"
    and valid :: "'a \<Rightarrow> bool"
  assumes put_enc: "aligned b \<Longrightarrow> valid x \<Longrightarrow> bb_size b + length (enc x) \<le> 10000000 \<Longrightarrow>
      put x b = Inr ((), push_bytes (enc x) b)"
    and get_enc: "valid x \<Longrightarrow> storage b = pre @ enc x @ post \<Longrightarrow> rpos b = length pre \<Longrightarrow>
      get b = Inr (x, b\<lparr>rpos := length pre + length (enc x)\<rparr>)"
begin

lemma roundtrip:
  assumes "aligned b" "rpos b = bb_size b" "valid x" "bb_size b + length (enc x) \<le> 10000000"
  shows "\<exists>b'. put x b = Inr ((), b') \<and> get b' = Inr (x, b'\<lparr>rpos := wpos b'\<rparr>)"
  using put_enc [OF assms(1,3,4)] assms(1,2)
    get_enc [OF assms(3), of "push_bytes (enc x) b" "storage b" "[]"]
  by (simp add: bb_size_def aligned_def)

lemma write_elems_enc:
  "aligned b \<Longrightarrow> list_all valid xs \<Longrightarrow> bb_size b + length (concat (map enc xs)) \<le> 10000000 \<Longrightarrow>
     write_elems put xs b = Inr ((), push_bytes (concat (map enc xs)) b)"
  by (induction xs arbitrary: b) (simp_all add: put_enc bb_seq_run)

lemma read_elems_enc:
  "list_all valid xs \<Longrightarrow> storage b = pre @ concat (map enc xs) @ post \<Longrightarrow> rpos b = length pre \<Longrightarrow>
     read_elems get (length xs) b = Inr (xs, b\<lparr>rpos := length pre + length (concat (map enc xs))\<rparr>)"
proof (induction xs arbitrary: b pre)
  case Nil
  then show ?case by simp
next
  case (Cons x xs)
  let ?b = "b\<lparr>rpos := length pre + length (enc x)\<rparr>"
  have g: "get b = Inr (x, ?b)"
    using Cons.prems get_enc [of x b pre "concat (map enc xs) @ post"] by simp
  have "read_elems get (length xs) ?b
      = Inr (xs, ?b\<lparr>rpos := length (pre @ enc x) + length (concat (map enc xs))\<rparr>)"
    using Cons.prems by (intro Cons.IH) simp_all
  with g show ?case by (simp add: bb_bind_run add.assoc)
qed

lemma vector_codec:
  "codec (write_vector put) (read_vector get)
     (\<lambda>v. le_bytes (of_nat (length v) :: u32) @ concat (map enc v))
     (\<lambda>v. list_all valid v \<and> length v < 2 ^ 32)"
proof (unfold_locales, goal_cases)
  case (1 b v)
  then show ?case by (simp add: write_vector_def append_val_room bb_seq_run write_elems_enc)
next
  case (2 v b pre post)
  let ?n = "of_nat (length v) :: u32"
  have n: "unat ?n = length v" using 2 by (simp add: unat_of_nat take_bit_nat_eq_self)
  let ?b = "b\<lparr>rpos := length pre + 4\<rparr>"
  have h: "read_val b = Inr (?n, ?b)"
    using 2 read_val_at [of b pre ?n "concat (map enc v) @ post"] by simp
  have "read_elems get (length v) ?b
      = Inr (v, ?b\<lparr>rpos := length (pre @ le_bytes ?n) + length (concat (map enc v))\<rparr>)"
    using 2 by (intro read_elems_enc) simp_all
  with h n show ?case by (simp add: read_vector_def bb_bind_run add.assoc)
qed

end

text \<open>Two codecs in sequence.\<close>

lemma pair_codec:
  assumes "codec putk getk enck validk" and "codec putv getv encv validv"
  shows "codec (\<lambda>(k, v). bb_seq (putk k) (putv v)) (bb_bind getk (\<lambda>k. bb_bind getv (\<lambda>v. bb_return (k, v))))
    (\<lambda>(k, v). enck k @ encv v) (\<lambda>(k, v). validk k \<and> validv v)"
proof (unfold_locales, goal_cases)
  case (1 b x)
  obtain k v where x: "x = (k, v)" by (cases x)
  with 1 show ?case
    using codec.put_enc [OF assms(1), of b k] codec.put_enc [OF assms(2), of "push_bytes (enck k) b" v]
    by (simp add: bb_seq_run)
next
  case (2 x b pre post)
  obtain k v where x: "x = (k, v)" by (cases x)
  let ?b = "b\<lparr>rpos := length pre + length (enck k)\<rparr>"
  have "getk b = Inr (k, ?b)"
    using codec.get_enc [OF assms(1), of k b pre "encv v @ post"] 2 x by simp
  moreover have "getv ?b = Inr (v, ?b\<lparr>rpos := length (pre @ enck k) + length (encv v)\<rparr>)"
    using codec.get_enc [OF assms(2), of v ?b "pre @ enck k" post] 2 x by simp
  ultimately show ?case using x by (simp add: bb_bind_run add.assoc)
qed

section \<open>Integers\<close>

lemma val_codec:
  assumes "8 dvd LENGTH('a::len)"
  shows "codec (append_val :: 'a word \<Rightarrow> unit bb) read_val le_bytes (\<lambda>_. True)"
proof -
  have "LENGTH('a) \<ge> 8" using assms by (simp add: dvd_imp_le)
  moreover from this have "LENGTH('a) div 8 > 0" by (simp add: div_greater_zero_iff)
  ultimately show ?thesis
    using assms by unfold_locales (simp_all add: append_val_room read_val_at)
qed

interpretation u8_codec: codec "append_val :: u8 \<Rightarrow> unit bb" read_val le_bytes "\<lambda>_. True"
  by (rule val_codec) simp

interpretation u16_codec: codec "append_val :: u16 \<Rightarrow> unit bb" read_val le_bytes "\<lambda>_. True"
  by (rule val_codec) simp

interpretation u32_codec: codec "append_val :: u32 \<Rightarrow> unit bb" read_val le_bytes "\<lambda>_. True"
  by (rule val_codec) simp

interpretation u64_codec: codec "append_val :: u64 \<Rightarrow> unit bb" read_val le_bytes "\<lambda>_. True"
  by (rule val_codec) simp

section \<open>Strings\<close>

definition nul_free :: "string \<Rightarrow> bool" where
  "nul_free s \<longleftrightarrow> CHR 0x00 \<notin> set s"

lemma read_string_loop_enc:
  "nul_free s \<Longrightarrow> read_string_loop (map byte_of_char s @ 0 # post) = (s, Suc (length s))"
  by (induction s) (auto simp: nul_free_def)

interpretation string_codec: codec append_string read_string
  "\<lambda>s. map byte_of_char s @ [0]" nul_free
proof (unfold_locales, goal_cases)
  case (1 b s)
  then have "(if s \<noteq> [] then append_bytes (map byte_of_char s) else bb_return ()) b
      = Inr ((), push_bytes (map byte_of_char s) b)"
    by (simp add: append_bytes_push)
  moreover have "le_bytes (0 :: u8) = [0]" by (simp add: le_bytes_def)
  ultimately show ?case
    using 1 append_val_room [of "push_bytes (map byte_of_char s) b" "0 :: u8"]
    by (simp add: append_string_def bb_seq_run)
next
  case (2 s b pre post)
  then show ?case by (simp add: read_string_def read_string_loop_enc)
qed

lemma ReadString_at:
  assumes "storage b = pre @ map byte_of_char s @ post" "rpos b = length pre"
    and "nul_free s" "unat len = length s"
  shows "ReadString len b = Inr (s, b\<lparr>rpos := length pre + length s\<rparr>)"
proof (cases "len = 0")
  case True
  then show ?thesis using assms by (simp add: ReadString_def)
next
  case False
  have all: "takeWhile (\<lambda>c. c \<noteq> 0) (map byte_of_char s) = map byte_of_char s"
    using assms(3) by (intro takeWhile_eq_all_conv [THEN iffD2]) (auto simp: nul_free_def)
  from False assms(1,2,4) show ?thesis
    by (simp add: ReadString_def bb_bind_def read_raw_def bb_size_def comp_def all
        del: takeWhile_eq_all_conv)
qed

section \<open>Packed GUIDs\<close>

text \<open>The list form of the packing: the mask and the non-zero bytes, from byte number \<open>i\<close> on.\<close>

fun pack_list :: "nat \<Rightarrow> u8 list \<Rightarrow> u8 \<times> u8 list" where
  "pack_list i [] = (0, [])"
| "pack_list i (x # xs) =
     (let (m, bytes) = pack_list (Suc i) xs
      in if x \<noteq> 0 then (push_bit i 1 OR m, x # bytes) else (m, bytes))"

lemma pack_list_zero: "\<forall>x \<in> set xs. x = 0 \<Longrightarrow> pack_list i xs = (0, [])"
  by (induction xs arbitrary: i) auto

definition bytes_from :: "guid \<Rightarrow> nat \<Rightarrow> u8 list" where
  "bytes_from g n = map (guid_byte g) [0..<n]"

lemma bytes_from_Suc: "bytes_from g (Suc n) = ucast g # bytes_from (drop_bit 8 g) n"
proof -
  have "[0..<Suc n] = 0 # map Suc [0..<n]" by (simp add: upt_conv_Cons map_Suc_upt del: upt_Suc)
  then show ?thesis
    by (simp add: bytes_from_def guid_byte_def comp_def drop_bit_drop_bit add.commute del: upt_Suc)
qed

lemma packGUID_loop_list:
  "drop_bit (8 * n) g = 0 \<Longrightarrow>
     packGUID_loop i g m bytes = (let (m', bs) = pack_list i (bytes_from g n) in (m OR m', bytes @ bs))"
proof (induction n arbitrary: i g m bytes)
  case 0
  then show ?case by (simp add: bytes_from_def)
next
  case (Suc n)
  show ?case
  proof (cases "g = 0")
    case True
    have "\<forall>x \<in> set (bytes_from 0 (Suc n)). x = 0"
      by (auto simp: bytes_from_def guid_byte_def)
    with True pack_list_zero show ?thesis by simp
  next
    case False
    have "drop_bit (8 * n) (drop_bit 8 g) = 0"
      using Suc.prems by (simp add: drop_bit_drop_bit add.commute)
    from Suc.IH [OF this] False show ?thesis
      by (auto simp: bytes_from_Suc packGUID_loop.simps [of i g] or.assoc Let_def split: prod.splits
          simp del: packGUID_loop.simps)
  qed
qed

lemma packGUID_bytes: "packGUID_loop 0 g 0 [] = pack_list 0 (bytes_from g 8)"
  using packGUID_loop_list [of 8 g 0 0 "[]"] by (simp add: Let_def split: prod.splits)

lemma pack_list_mask:
  "i + length xs \<le> 8 \<Longrightarrow> bit (fst (pack_list i xs)) j \<longleftrightarrow> i \<le> j \<and> j < i + length xs \<and> xs ! (j - i) \<noteq> 0"
proof (induction xs arbitrary: i)
  case Nil
  then show ?case by simp
next
  case (Cons x xs)
  have IH: "bit (fst (pack_list (Suc i) xs)) j
      \<longleftrightarrow> Suc i \<le> j \<and> j < Suc i + length xs \<and> xs ! (j - Suc i) \<noteq> 0"
    using Cons.IH [of "Suc i"] Cons.prems by simp
  show ?case
  proof (cases "j = i")
    case True
    with IH Cons.prems show ?thesis
      by (auto simp: Let_def bit_or_iff bit_exp_iff split: prod.splits)
  next
    case False
    then have "i \<le> j \<Longrightarrow> (x # xs) ! (j - i) = xs ! (j - Suc i)"
      by (simp add: nth_Cons')
    with False IH show ?thesis
      by (auto simp: Let_def bit_or_iff bit_exp_iff split: prod.splits)
  qed
qed

lemma and_bit_test: "w AND push_bit i 1 \<noteq> 0 \<longleftrightarrow> bit (w :: 'a::len word) i"
proof -
  have "w AND push_bit i 1 = (if bit w i then push_bit i 1 else 0)"
    by (rule bit_word_eqI) (auto simp: bit_and_iff bit_exp_iff)
  moreover have "bit w i \<Longrightarrow> push_bit i (1 :: 'a word) \<noteq> 0"
    using bit_imp_le_length [of w i] by (metis bit_0_eq bit_push_bit_iff bot_apply bot_bool_def
        diff_self_eq_0 le_refl bit_1_0 possible_bit_word)
  ultimately show ?thesis by auto
qed

lemma readPackGUID_loop_list:
  "length xs = k \<Longrightarrow> \<forall>j < k. bit guidmark (i + j) = (xs ! j \<noteq> 0) \<Longrightarrow>
   storage b = pre @ snd (pack_list i xs) @ post \<Longrightarrow> rpos b = length pre \<Longrightarrow>
   readPackGUID_loop guidmark i k g b
     = Inr (g OR push_bit (8 * i) (of_le_bytes xs), b\<lparr>rpos := length pre + length (snd (pack_list i xs))\<rparr>)"
proof (induction k arbitrary: xs i b pre g)
  case 0
  then show ?case by simp
next
  case (Suc k)
  then obtain x ys where xs: "xs = x # ys" by (cases xs) auto
  have test: "guidmark AND push_bit i 1 \<noteq> 0 \<longleftrightarrow> x \<noteq> 0"
    using Suc.prems(2) xs by (auto simp: and_bit_test simp del: push_bit_of_1)
  have rest: "\<forall>j < k. bit guidmark (Suc i + j) = (ys ! j \<noteq> 0)"
    using Suc.prems(2) xs by fastforce
  have value_Cons: "push_bit (8 * i) (of_le_bytes xs :: guid)
      = push_bit (i * 8) (ucast x) OR push_bit (8 * Suc i) (of_le_bytes ys)"
    by (simp add: xs push_bit_or mult.commute add.commute)
  show ?case
  proof (cases "x = 0")
    case True
    then have data: "snd (pack_list i xs) = snd (pack_list (Suc i) ys)"
      by (simp add: xs Let_def split: prod.splits)
    from Suc.IH [of ys "Suc i" b pre g] rest Suc.prems xs data True test show ?thesis
      unfolding value_Cons by (simp add: or.assoc del: push_bit_of_1)
  next
    case False
    then have data: "snd (pack_list i xs) = x # snd (pack_list (Suc i) ys)"
      by (simp add: xs Let_def split: prod.splits)
    let ?b = "b\<lparr>rpos := Suc (length pre)\<rparr>"
    have rd: "(read_val b :: bb_error + (u8 \<times> byte_buffer)) = Inr (x, ?b)"
      using Suc.prems(3,4) data by (simp add: read_val_u8)
    have "readPackGUID_loop guidmark (Suc i) k (g OR push_bit (i * 8) (ucast x)) ?b
        = Inr ((g OR push_bit (i * 8) (ucast x)) OR push_bit (8 * Suc i) (of_le_bytes ys),
            ?b\<lparr>rpos := length (pre @ [x]) + length (snd (pack_list (Suc i) ys))\<rparr>)"
      using Suc.prems rest xs data by (intro Suc.IH) simp_all
    with rd test False Suc.prems(3,4) data show ?thesis
      unfolding value_Cons by (simp add: bb_bind_run bb_size_def or.assoc del: push_bit_of_1)
  qed
qed

definition enc_guid :: "guid \<Rightarrow> u8 list" where
  "enc_guid g = (let (m, bytes) = pack_list 0 (bytes_from g 8) in m # bytes)"

lemma of_bytes_from: "of_le_bytes (bytes_from g 8) = g"
proof -
  have "bytes_from g 8 = le_bytes g" by (simp add: bytes_from_def le_bytes_def guid_byte_def)
  then show ?thesis by simp
qed

interpretation guid_codec: codec appendPackGUID readPackGUID enc_guid "\<lambda>_. True"
proof (unfold_locales, goal_cases)
  case (1 b g)
  have "appendPackGUID g = append_bytes (enc_guid g)"
    unfolding appendPackGUID_def packGUID_bytes enc_guid_def by (simp split: prod.splits)
  moreover have "enc_guid g \<noteq> []" by (simp add: enc_guid_def split: prod.splits)
  ultimately show ?case using 1 by (simp add: append_bytes_push)
next
  case (2 g b pre post)
  obtain m bytes where mb: "pack_list 0 (bytes_from g 8) = (m, bytes)" by fastforce
  then have m: "\<forall>j < 8. bit m (0 + j) = (bytes_from g 8 ! j \<noteq> 0)"
    using pack_list_mask [of 0 "bytes_from g 8"] by (auto simp: bytes_from_def)
  let ?b = "b\<lparr>rpos := Suc (length pre)\<rparr>"
  have "readPackGUID_loop m 0 8 0 ?b = Inr (0 OR push_bit (8 * 0) (of_le_bytes (bytes_from g 8)),
      ?b\<lparr>rpos := length (pre @ [m]) + length (snd (pack_list 0 (bytes_from g 8)))\<rparr>)"
    using 2 mb m by (intro readPackGUID_loop_list) (simp_all add: enc_guid_def bytes_from_def)
  moreover have "(read_val b :: bb_error + (u8 \<times> byte_buffer)) = Inr (m, ?b)"
    using 2 mb by (simp add: read_val_u8 enc_guid_def)
  ultimately show ?case
    using 2 mb by (simp add: readPackGUID_def bb_bind_run bb_size_def enc_guid_def of_bytes_from)
qed

section \<open>Masked GUIDs\<close>

text \<open>
  How a packet handler reads a GUID that is sent as a bit mask and a byte sequence: one bit per byte
  in the mask order (\<open>guid[k] = ReadBit()\<close>), then \<open>ReadByteSeq(guid[k])\<close> in the byte order.
\<close>

fun read_guid_mask :: "nat list \<Rightarrow> (nat \<Rightarrow> u8) \<Rightarrow> (nat \<Rightarrow> u8) bb" where
  "read_guid_mask [] arr = bb_return arr"
| "read_guid_mask (k # ks) arr = bb_bind ReadBit (\<lambda>x. read_guid_mask ks (arr(k := of_bool x)))"

fun read_guid_bytes :: "nat list \<Rightarrow> (nat \<Rightarrow> u8) \<Rightarrow> (nat \<Rightarrow> u8) bb" where
  "read_guid_bytes [] arr = bb_return arr"
| "read_guid_bytes (k # ks) arr = bb_bind (ReadByteSeq (arr k)) (\<lambda>y. read_guid_bytes ks (arr(k := y)))"

definition mask_bits :: "guid \<Rightarrow> nat list \<Rightarrow> bool list" where
  "mask_bits g ks = map (\<lambda>k. guid_byte g k \<noteq> 0) ks"

definition seq_bytes :: "guid \<Rightarrow> nat list \<Rightarrow> u8 list" where
  "seq_bytes g ks = map (\<lambda>k. guid_byte g k XOR 1) (filter (\<lambda>k. guid_byte g k \<noteq> 0) ks)"

lemma ucast_u8_u32_0 [simp]: "(ucast (x :: u8) :: u32) = 0 \<longleftrightarrow> x = 0"
proof -
  have "unat x < 2 ^ 32" by (rule order_less_le_trans [OF unsigned_less]) simp
  then have "unat (ucast x :: u32) = unat x"
    by (simp add: unsigned_ucast_eq take_bit_nat_eq_self)
  then show ?thesis by (metis unat_0_iff)
qed

lemma WriteGuidMask_written:
  "write_inv b \<Longrightarrow> i + p + k \<le> length ord \<Longrightarrow> length (written b) + k \<le> 80000000 \<Longrightarrow>
     \<exists>b'. WriteGuidMask_loop g ord p i k b = Inr ((), b') \<and> write_inv b'
       \<and> written b' = written b @ mask_bits g (take k (drop (i + p) ord)) \<and> rpos b' = rpos b"
proof (induction k arbitrary: i b)
  case 0
  then show ?case by (simp add: mask_bits_def)
next
  case (Suc k)
  from WriteBit_room [OF Suc.prems(1), of "ucast (guid_byte g (ord ! (i + p)))"] Suc.prems(3)
  obtain r b1 where b1: "WriteBit (ucast (guid_byte g (ord ! (i + p)))) b = Inr (r, b1)"
    by auto
  have t: "take (Suc k) (drop (i + p) ord) = ord ! (i + p) # take k (drop (Suc i + p) ord)"
    using Suc.prems(2) by (simp add: Cons_nth_drop_Suc [symmetric])
  note w = WriteBit_written [OF Suc.prems(1) b1]
  then obtain b' where "WriteGuidMask_loop g ord p (Suc i) k b1 = Inr ((), b')" "write_inv b'"
    "written b' = written b1 @ mask_bits g (take k (drop (Suc i + p) ord))" "rpos b' = rpos b1"
    using Suc.IH [of b1 "Suc i"] Suc.prems(2,3) by auto
  with w b1 t show ?case by (simp add: mask_bits_def bb_seq_run)
qed

lemma WriteGuidBytes_aligned:
  "aligned b \<Longrightarrow> i + p + k \<le> length ord \<Longrightarrow> bb_size b + k \<le> 10000000 \<Longrightarrow>
     WriteGuidBytes_loop g ord p i k b = Inr ((), push_bytes (seq_bytes g (take k (drop (i + p) ord))) b)"
proof (induction k arbitrary: i b)
  case 0
  then show ?case by (simp add: seq_bytes_def)
next
  case (Suc k)
  let ?x = "guid_byte g (ord ! (i + p))"
  let ?bs = "if ?x \<noteq> 0 then [?x XOR 1] else []"
  have "take (Suc k) (drop (i + p) ord) = ord ! (i + p) # take k (drop (Suc i + p) ord)"
    using Suc.prems(2) by (simp add: Cons_nth_drop_Suc [symmetric])
  moreover have "(if ?x \<noteq> 0 then append_val (?x XOR 1) else bb_return ()) b = Inr ((), push_bytes ?bs b)"
    using Suc.prems(1,3) by (simp add: append_val_room le_bytes_def)
  moreover have "WriteGuidBytes_loop g ord p (Suc i) k (push_bytes ?bs b)
      = Inr ((), push_bytes (seq_bytes g (take k (drop (Suc i + p) ord))) (push_bytes ?bs b))"
    using Suc.prems by (intro Suc.IH) auto
  ultimately show ?case
    by (simp add: seq_bytes_def bb_seq_run)
qed

lemma read_guid_mask_unread:
  "bitpos b \<le> 8 \<Longrightarrow> unread b = mask_bits g ks @ rest \<Longrightarrow> distinct ks \<Longrightarrow>
     \<exists>b'. read_guid_mask ks arr b
         = Inr (\<lambda>k. if k \<in> set ks then of_bool (guid_byte g k \<noteq> 0) else arr k, b')
       \<and> storage b' = storage b \<and> (\<forall>p n. bits_taken p n b \<longrightarrow> bits_taken p (n + length ks) b')"
proof (induction ks arbitrary: b arr)
  case Nil
  then show ?case by simp
next
  case (Cons k ks)
  have u: "unread b = (guid_byte g k \<noteq> 0) # mask_bits g ks @ rest"
    using Cons.prems(2) by (simp add: mask_bits_def)
  from ReadBit_Cons [OF Cons.prems(1) u] obtain b1 where b1: "ReadBit b = Inr (guid_byte g k \<noteq> 0, b1)"
    "unread b1 = mask_bits g ks @ rest" "bitpos b1 \<le> 8" "storage b1 = storage b"
    "\<forall>p n. bits_taken p n b \<longrightarrow> bits_taken p (Suc n) b1"
    by blast
  let ?arr = "arr(k := of_bool (guid_byte g k \<noteq> 0))"
  have "distinct ks" using Cons.prems(3) by simp
  from Cons.IH [OF b1(3,2) this, of ?arr] obtain b2 where b2:
    "read_guid_mask ks ?arr b1
       = Inr (\<lambda>j. if j \<in> set ks then of_bool (guid_byte g j \<noteq> 0) else ?arr j, b2)"
    "storage b2 = storage b1" "\<forall>p n. bits_taken p n b1 \<longrightarrow> bits_taken p (n + length ks) b2"
    by blast
  have "(\<lambda>j. if j \<in> set ks then of_bool (guid_byte g j \<noteq> 0) else ?arr j)
      = (\<lambda>j. if j \<in> set (k # ks) then of_bool (guid_byte g j \<noteq> 0) else arr j)"
    using Cons.prems(3) by auto
  moreover have "\<forall>p n. bits_taken p n b \<longrightarrow> bits_taken p (n + length (k # ks)) b2"
    using b1(5) b2(3) by (metis add_Suc_shift length_Cons)
  ultimately show ?case
    using b1(1,4) b2(1,2) by (simp add: bb_bind_run)
qed

lemma xor_one_twice: "1 XOR (x XOR 1) = (x :: u8)"
  by (metis xor.assoc xor.commute xor_self_eq xor.right_neutral)

lemma read_guid_bytes_at:
  "storage b = pre @ seq_bytes g ks @ post \<Longrightarrow> rpos b = length pre \<Longrightarrow> distinct ks \<Longrightarrow>
   \<forall>k \<in> set ks. arr k = of_bool (guid_byte g k \<noteq> 0) \<Longrightarrow>
   read_guid_bytes ks arr b = Inr (\<lambda>k. if k \<in> set ks then guid_byte g k else arr k,
     b\<lparr>rpos := length pre + length (seq_bytes g ks)\<rparr>)"
proof (induction ks arbitrary: b pre arr)
  case Nil
  then show ?case by (simp add: seq_bytes_def)
next
  case (Cons k ks)
  let ?x = "guid_byte g k"
  let ?pre = "pre @ (if ?x \<noteq> 0 then [?x XOR 1] else [])"
  let ?b = "b\<lparr>rpos := length ?pre\<rparr>"
  have st: "storage b = ?pre @ seq_bytes g ks @ post"
    using Cons.prems(1) by (simp add: seq_bytes_def)
  have "ReadByteSeq (arr k) b = Inr (?x, ?b)"
    using Cons.prems(2,4) st
    by (auto simp: ReadByteSeq_def bb_bind_def read_val_u8 xor_one_twice)
  moreover have "read_guid_bytes ks (arr(k := ?x)) ?b
      = Inr (\<lambda>j. if j \<in> set ks then guid_byte g j else (arr(k := ?x)) j,
          ?b\<lparr>rpos := length ?pre + length (seq_bytes g ks)\<rparr>)"
    using Cons.prems st by (intro Cons.IH) auto
  moreover have "(\<lambda>j. if j \<in> set ks then guid_byte g j else (arr(k := ?x)) j)
      = (\<lambda>j. if j \<in> set (k # ks) then guid_byte g j else arr j)"
    by auto
  ultimately show ?case
    by (simp add: bb_bind_run seq_bytes_def)
qed

section \<open>Maps\<close>

lemma om_insert_new: "om_wf (m @ [(k, v)]) \<Longrightarrow> om_insert k v m = m @ [(k, v)]"
proof -
  assume wf: "om_wf (m @ [(k, v)])"
  then have "\<forall>k' \<in> set (map fst m). k' < k" by (auto simp: om_wf_def sorted_wrt_append)
  then have "om_find m k = None" and "om_set k v m = m @ [(k, v)]"
    by (induction m) (auto simp: om_find_def)
  then show ?thesis by (simp add: om_insert_def)
qed

lemma fold_om_insert: "om_wf (m @ kvs) \<Longrightarrow> fold (\<lambda>(k, v) m. om_insert k v m) kvs m = m @ kvs"
proof (induction kvs arbitrary: m)
  case Nil
  then show ?case by simp
next
  case (Cons kv kvs)
  obtain k v where kv: "kv = (k, v)" by (cases kv)
  have "om_wf ((m @ [(k, v)]) @ kvs)" using Cons.prems kv by simp
  then have "fold (\<lambda>(k, v) m. om_insert k v m) kvs (m @ [(k, v)]) = (m @ [(k, v)]) @ kvs"
    and "om_wf (m @ [(k, v)])"
    by (rule Cons.IH, auto simp: om_wf_def sorted_wrt_append)
  then show ?case using kv om_insert_new [of m k v] by simp
qed

lemma map_codec:
  assumes "codec putk getk enck validk" and "codec putv getv encv validv"
  shows "codec (write_map putk putv) (read_map getk getv)
    (\<lambda>m. le_bytes (of_nat (length m) :: u32) @ concat (map (\<lambda>(k, v). enck k @ encv v) m))
    (\<lambda>m. om_wf m \<and> list_all (\<lambda>(k, v). validk k \<and> validv v) m \<and> length m < 2 ^ 32)"
proof (unfold_locales, goal_cases)
  note pairs = pair_codec [OF assms, THEN codec.vector_codec]
  case (1 b m)
  then show ?case
    using codec.put_enc [OF pairs 1(1), of m] by (simp add: write_map_def write_vector_def)
next
  note pairs = pair_codec [OF assms, THEN codec.vector_codec]
  case (2 m b pre post)
  have "fold (\<lambda>(k, v) m. om_insert k v m) m [] = m" using fold_om_insert [of "[]" m] 2(1) by simp
  moreover note codec.get_enc [OF pairs _ 2(2,3)] 2(1)
  ultimately show ?case
    by (auto simp: read_map_def read_vector_def bb_bind_def split: sum.splits)
qed

section \<open>Field lists\<close>

text \<open>
  The payload of a packet as the sequence of values the code streams into it with \<open>operator<<\<close> and
  \<^verbatim>\<open>appendPackGUID\<close>, and the reader for a sequence of types.
\<close>

datatype field = F8 u8 | F16 u16 | F32 u32 | F64 u64 | FStr string | FGuid guid

datatype ftype = T8 | T16 | T32 | T64 | TStr | TGuid

fun field_type :: "field \<Rightarrow> ftype" where
  "field_type (F8 _) = T8"
| "field_type (F16 _) = T16"
| "field_type (F32 _) = T32"
| "field_type (F64 _) = T64"
| "field_type (FStr _) = TStr"
| "field_type (FGuid _) = TGuid"

fun put_field :: "field \<Rightarrow> unit bb" where
  "put_field (F8 v) = append_val v"
| "put_field (F16 v) = append_val v"
| "put_field (F32 v) = append_val v"
| "put_field (F64 v) = append_val v"
| "put_field (FStr s) = append_string s"
| "put_field (FGuid g) = appendPackGUID g"

fun get_field :: "ftype \<Rightarrow> field bb" where
  "get_field T8 = bb_bind read_val (\<lambda>v. bb_return (F8 v))"
| "get_field T16 = bb_bind read_val (\<lambda>v. bb_return (F16 v))"
| "get_field T32 = bb_bind read_val (\<lambda>v. bb_return (F32 v))"
| "get_field T64 = bb_bind read_val (\<lambda>v. bb_return (F64 v))"
| "get_field TStr = bb_bind read_string (\<lambda>s. bb_return (FStr s))"
| "get_field TGuid = bb_bind readPackGUID (\<lambda>g. bb_return (FGuid g))"

fun get_fields :: "ftype list \<Rightarrow> field list bb" where
  "get_fields [] = bb_return []"
| "get_fields (t # ts) = bb_bind (get_field t) (\<lambda>f. bb_bind (get_fields ts) (\<lambda>fs. bb_return (f # fs)))"

fun field_ok :: "field \<Rightarrow> bool" where
  "field_ok (FStr s) = nul_free s"
| "field_ok _ = True"

fun enc_field :: "field \<Rightarrow> u8 list" where
  "enc_field (F8 v) = le_bytes v"
| "enc_field (F16 v) = le_bytes v"
| "enc_field (F32 v) = le_bytes v"
| "enc_field (F64 v) = le_bytes v"
| "enc_field (FStr s) = map byte_of_char s @ [0]"
| "enc_field (FGuid g) = enc_guid g"

lemma put_field_enc:
  assumes "aligned b" "field_ok f" "bb_size b + length (enc_field f) \<le> 10000000"
  shows "put_field f b = Inr ((), push_bytes (enc_field f) b)"
  using assms
  by (cases f) (simp_all add: append_val_room string_codec.put_enc guid_codec.put_enc)

lemma get_field_enc:
  assumes "field_ok f" "storage b = pre @ enc_field f @ post" "rpos b = length pre"
  shows "get_field (field_type f) b = Inr (f, b\<lparr>rpos := length pre + length (enc_field f)\<rparr>)"
proof (cases f)
  case (FStr s)
  then show ?thesis using assms string_codec.get_enc [of s b pre post] by (simp add: bb_bind_run)
next
  case (FGuid g)
  then show ?thesis using assms guid_codec.get_enc [where x = g and b = b and pre = pre and post = post] by (simp add: bb_bind_run)
qed (use assms in \<open>simp_all add: bb_bind_def read_val_at\<close>)

lemma put_fields_enc:
  "aligned b \<Longrightarrow> list_all field_ok fs \<Longrightarrow> bb_size b + length (concat (map enc_field fs)) \<le> 10000000 \<Longrightarrow>
     write_elems put_field fs b = Inr ((), push_bytes (concat (map enc_field fs)) b)"
  by (induction fs arbitrary: b) (simp_all add: put_field_enc bb_seq_run)

lemma get_fields_enc:
  "list_all field_ok fs \<Longrightarrow> storage b = pre @ concat (map enc_field fs) @ post \<Longrightarrow> rpos b = length pre \<Longrightarrow>
     get_fields (map field_type fs) b
       = Inr (fs, b\<lparr>rpos := length pre + length (concat (map enc_field fs))\<rparr>)"
proof (induction fs arbitrary: b pre)
  case Nil
  then show ?case by simp
next
  case (Cons f fs)
  let ?b = "b\<lparr>rpos := length pre + length (enc_field f)\<rparr>"
  have g: "get_field (field_type f) b = Inr (f, ?b)"
    using Cons.prems get_field_enc [of f b pre "concat (map enc_field fs) @ post"] by simp
  have "get_fields (map field_type fs) ?b
      = Inr (fs, ?b\<lparr>rpos := length (pre @ enc_field f) + length (concat (map enc_field fs))\<rparr>)"
    using Cons.prems by (intro Cons.IH) simp_all
  with g show ?case by (simp add: bb_bind_run add.assoc)
qed

text \<open>\<open>put\<close> over a placeholder written earlier: the later value ends up in its place.\<close>

lemma put_val_placeholder:
  assumes "storage b = pre @ le_bytes (v :: 'a::len word) @ post"
  shows "put_val (length pre) (w :: 'a word) b = Inr ((), b\<lparr>storage := pre @ le_bytes w @ post\<rparr>)"
  using assms by (simp add: put_val_def put_raw_def bb_size_def)

section \<open>Packed time\<close>

text \<open>The calendar times the packed form can carry (years 2000 to 2031).\<close>

definition tm_packable :: "tm \<Rightarrow> bool" where
  "tm_packable t \<longleftrightarrow> 0 \<le> tm_min t \<and> tm_min t < 60 \<and> 0 \<le> tm_hour t \<and> tm_hour t < 24
     \<and> 0 \<le> tm_wday t \<and> tm_wday t < 7 \<and> 1 \<le> tm_mday t \<and> tm_mday t \<le> 31
     \<and> 0 \<le> tm_mon t \<and> tm_mon t < 12 \<and> 100 \<le> tm_year t \<and> tm_year t < 132"

lemma word_of_int_small_bit:
  assumes "0 \<le> x" "x < 2 ^ k" "bit (word_of_int x :: u32) n"
  shows "n < k"
proof (rule ccontr)
  assume n: "\<not> n < k"
  have "bit x n" using assms(3) by (simp add: bit_word_of_int_iff)
  moreover have "take_bit k x = x" using assms(1,2) by (simp add: take_bit_int_eq_self)
  ultimately show False using n by (metis bit_take_bit_iff)
qed

lemma uint_word_of_int_small: "0 \<le> x \<Longrightarrow> x < 4294967296 \<Longrightarrow> uint (word_of_int x :: u32) = x"
  by (simp add: uint_word_of_int take_bit_int_eq_self)

lemma field_of_packed:
  fixes y mo d w h m :: int
  assumes "0 \<le> y" "y < 2^5" "0 \<le> mo" "mo < 2^4" "0 \<le> d" "d < 2^6" "0 \<le> w" "w < 2^3" "0 \<le> h" "h < 2^5" "0 \<le> m" "m < 2^6"
  defines "P \<equiv> push_bit 24 (word_of_int y) OR push_bit 20 (word_of_int mo) OR
     push_bit 14 (word_of_int d) OR push_bit 11 (word_of_int w) OR
     push_bit 6 (word_of_int h) OR (word_of_int m :: u32)"
  shows "P AND mask 6 = word_of_int m" "drop_bit 6 P AND mask 5 = word_of_int h"
   "drop_bit 14 P AND mask 6 = word_of_int d" "drop_bit 20 P AND mask 4 = word_of_int mo"
   "drop_bit 24 P AND mask 5 = word_of_int y"
proof -
  note sm = word_of_int_small_bit [OF assms(1,2)] word_of_int_small_bit [OF assms(3,4)]
    word_of_int_small_bit [OF assms(5,6)] word_of_int_small_bit [OF assms(7,8)]
    word_of_int_small_bit [OF assms(9,10)] word_of_int_small_bit [OF assms(11,12)]
  have bP: "bit P n \<longleftrightarrow> n < 32 \<and> ((24 \<le> n \<and> bit (word_of_int y :: u32) (n - 24)) \<or> (20 \<le> n \<and> bit (word_of_int mo :: u32) (n - 20))
    \<or> (14 \<le> n \<and> bit (word_of_int d :: u32) (n - 14)) \<or> (11 \<le> n \<and> bit (word_of_int w :: u32) (n - 11))
    \<or> (6 \<le> n \<and> bit (word_of_int h :: u32) (n - 6)) \<or> bit (word_of_int m :: u32) n)" for n
    unfolding P_def by (auto simp: bit_or_iff bit_push_bit_iff dest: bit_imp_le_length)
  show "P AND mask 6 = word_of_int m"
    by (rule bit_word_eqI) (auto simp: bP bit_and_iff bit_mask_iff dest: sm)
  show "drop_bit 6 P AND mask 5 = word_of_int h"
    by (rule bit_word_eqI) (auto simp: bP bit_and_iff bit_mask_iff bit_drop_bit_eq dest: sm)
  show "drop_bit 14 P AND mask 6 = word_of_int d"
    by (rule bit_word_eqI) (auto simp: bP bit_and_iff bit_mask_iff bit_drop_bit_eq dest: sm)
  show "drop_bit 20 P AND mask 4 = word_of_int mo"
    by (rule bit_word_eqI) (auto simp: bP bit_and_iff bit_mask_iff bit_drop_bit_eq dest: sm)
  show "drop_bit 24 P AND mask 5 = word_of_int y"
    by (rule bit_word_eqI) (auto simp: bP bit_and_iff bit_mask_iff bit_drop_bit_eq dest: sm)
qed

lemma unpack_pack_tm:
  assumes "tm_packable t"
  shows "unpack_tm (pack_tm t) = t\<lparr>tm_wday := 0\<rparr>"
proof -
  have r: "0 \<le> tm_year t - 100" "tm_year t - 100 < 2 ^ 5" "0 \<le> tm_mon t" "tm_mon t < 2 ^ 4"
    "0 \<le> tm_mday t - 1" "tm_mday t - 1 < 2 ^ 6" "0 \<le> tm_wday t" "tm_wday t < 2 ^ 3"
    "0 \<le> tm_hour t" "tm_hour t < 2 ^ 5" "0 \<le> tm_min t" "tm_min t < 2 ^ 6"
    using assms by (auto simp: tm_packable_def)
  have masks: "(0x3F :: u32) = mask 6" "(0x1F :: u32) = mask 5" "(0xF :: u32) = mask 4"
    by (simp_all add: mask_eq_exp_minus_1)
  show ?thesis
    unfolding pack_tm_def unpack_tm_def masks field_of_packed [OF r]
    using r by (simp add: uint_word_of_int_small del: of_int_diff)
qed

end
