(* ===== verification/ByteBufferSpec.thy ===== *)
theory ByteBufferSpec
  imports ByteBufferCodec
begin

text \<open>
  What a packet writer and a packet reader may rely on: the round trips of bit fields, GUIDs,
  strings, containers and packet payloads, the bit queue that \<^verbatim>\<open>ReadBit\<close> implements, and the
  bounds of every read. The storage limit of 10,000,000 bytes is the \<^verbatim>\<open>ASSERT\<close> of \<^verbatim>\<open>append\<close>.
\<close>

section \<open>Helpers\<close>

lemma bytes_bits_drop: "bytes_bits (drop k bs) = drop (8 * k) (bytes_bits bs)"
proof (induction bs arbitrary: k)
  case (Cons b bs)
  then show ?case by (cases k) simp_all
qed simp

lemma byte_bits_inj: "byte_bits x = byte_bits y \<Longrightarrow> x = y"
proof (rule bit_word_eqI)
  fix n assume eq: "byte_bits x = byte_bits y" and "n < LENGTH(8)"
  then have "byte_bits w ! (7 - n) = bit w n" for w by simp
  with eq show "bit x n = bit y n" by metis
qed

lemma bytes_bits_inj: "bytes_bits xs = bytes_bits ys \<Longrightarrow> xs = ys"
proof (induction xs arbitrary: ys)
  case Nil
  then show ?case using length_bytes_bits [of ys] by simp
next
  case (Cons x xs)
  from arg_cong [OF Cons.prems, of length] obtain y ys' where ys: "ys = y # ys'" by (cases ys) auto
  with Cons byte_bits_inj show ?case by simp
qed

lemma bytes_bits_append_byte:
  assumes "bytes_bits st = bytes_bits st0 @ bs" "length bs = 8"
  shows "\<exists>m. st = st0 @ [m] \<and> byte_bits m = bs"
proof -
  let ?k = "length st0"
  have len: "length st = Suc ?k" using arg_cong [OF assms(1), of length] assms(2) by simp
  then have split: "st = take ?k st @ [st ! ?k]" by (simp add: take_Suc_conv_app_nth [symmetric])
  then have "bytes_bits st = bytes_bits (take ?k st) @ byte_bits (st ! ?k)"
    by (metis append_Nil2 bytes_bits_simps)
  then have "bytes_bits (take ?k st) = bytes_bits st0" "byte_bits (st ! ?k) = bs"
    using assms len by (simp_all add: append_eq_append_conv)
  with split bytes_bits_inj show ?thesis by metis
qed

lemma unread_aligned:
  assumes "aligned b" "rpos b = k" "bytes_bits (storage b) = xs @ ys" "length xs = 8 * k"
  shows "unread b = ys"
  using assms by (simp add: unread_def bytes_bits_drop aligned_def)

text \<open>Read positions only move forward, and never past the end.\<close>

definition reads_within :: "byte_buffer \<Rightarrow> byte_buffer \<Rightarrow> bool" where
  "reads_within b b' \<longleftrightarrow> rpos b \<le> rpos b' \<and> rpos b' \<le> bb_size b' \<and> storage b' = storage b \<and> wpos b' = wpos b"

lemma reads_within_trans: "reads_within a b \<Longrightarrow> reads_within b c \<Longrightarrow> reads_within a c"
  by (auto simp: reads_within_def)

lemma read_val_within:
  "read_val b = Inr (v :: 'a::len word, b') \<Longrightarrow> reads_within b b'"
  by (auto simp: read_val_def read_at_def reads_within_def bb_size_def split: if_splits)

lemma read_string_loop_length: "snd (read_string_loop bs) \<le> length bs"
  by (induction bs rule: read_string_loop.induct) (auto simp: Let_def split: prod.splits)

lemma read_string_within:
  "rpos b \<le> bb_size b \<Longrightarrow> read_string b = Inr (s, b') \<Longrightarrow> reads_within b b'"
  using read_string_loop_length [of "drop (rpos b) (storage b)"]
  by (auto simp: read_string_def reads_within_def bb_size_def split: prod.splits)

lemma readPackGUID_loop_within:
  "rpos b \<le> bb_size b \<Longrightarrow> readPackGUID_loop m i k g b = Inr (g', b') \<Longrightarrow> reads_within b b'"
proof (induction k arbitrary: i g b)
  case 0
  then show ?case by (auto simp: reads_within_def)
next
  case (Suc k)
  show ?case
  proof (cases "m AND push_bit i 1 \<noteq> 0")
    case True
    with Suc.prems(2) obtain x :: u8 and b1 where x: "read_val b = Inr (x, b1)"
      and r: "readPackGUID_loop m (Suc i) k (g OR push_bit (i * 8) (ucast x)) b1 = Inr (g', b')"
      by (auto simp: bb_bind_Inr split: if_splits simp del: push_bit_of_1)
    from read_val_within [OF x] have w: "reads_within b b1" .
    then have "rpos b1 \<le> bb_size b1" by (simp add: reads_within_def)
    from Suc.IH [OF this r] w show ?thesis by (blast intro: reads_within_trans)
  next
    case False
    with Suc.prems Suc.IH show ?thesis by simp
  qed
qed

lemma readPackGUID_within:
  assumes "readPackGUID b = Inr (g, b')"
  shows "reads_within b b'"
proof -
  from assms obtain x :: u8 and b1 where x: "read_val b = Inr (x, b1)"
    and r: "readPackGUID_loop x 0 8 0 b1 = Inr (g, b')"
    by (auto simp: readPackGUID_def bb_bind_Inr split: if_splits)
  from read_val_within [OF x] have w: "reads_within b b1" .
  moreover from w have "rpos b1 \<le> bb_size b1" by (simp add: reads_within_def)
  ultimately show ?thesis using readPackGUID_loop_within [OF _ r] by (blast intro: reads_within_trans)
qed

lemma get_field_within:
  "rpos b \<le> bb_size b \<Longrightarrow> get_field t b = Inr (f, b') \<Longrightarrow> reads_within b b' \<and> field_type f = t"
  by (cases t) (auto simp: bb_bind_Inr intro: read_val_within read_string_within readPackGUID_within)

lemma get_fields_within:
  "rpos b \<le> bb_size b \<Longrightarrow> get_fields ts b = Inr (fs, b') \<Longrightarrow> reads_within b b' \<and> map field_type fs = ts"
proof (induction ts arbitrary: b fs)
  case Nil
  then show ?case by (auto simp: reads_within_def)
next
  case (Cons t ts)
  from Cons.prems(2) obtain f gs b1 where f: "get_field t b = Inr (f, b1)"
    and gs: "get_fields ts b1 = Inr (gs, b')" and fs: "fs = f # gs"
    by (auto simp: bb_bind_Inr)
  from get_field_within [OF Cons.prems(1) f] have w: "reads_within b b1" "field_type f = t" by auto
  then have "rpos b1 \<le> bb_size b1" by (simp add: reads_within_def)
  from Cons.IH [OF this gs] w fs show ?case by (auto intro: reads_within_trans)
qed

text \<open>Reading back a GUID sent as a mask and a byte sequence.\<close>

definition read_masked_guid :: "nat list \<Rightarrow> nat list \<Rightarrow> guid bb" where
  "read_masked_guid maskOrder byteOrder =
     bb_bind (read_guid_mask maskOrder (\<lambda>_. 0))
       (\<lambda>arr. bb_bind (read_guid_bytes byteOrder arr) (\<lambda>arr. bb_return (of_le_bytes (map arr [0..<8]))))"

definition write_masked_guid :: "guid \<Rightarrow> nat list \<Rightarrow> nat list \<Rightarrow> unit bb" where
  "write_masked_guid g maskOrder byteOrder =
     bb_seq (WriteGuidMask g maskOrder 8 0) (bb_seq FlushBits (WriteGuidBytes g byteOrder 8 0))"

lemma bits_taken_8: "bits_taken p 8 b \<Longrightarrow> rpos b = Suc p"
  by (simp add: bits_taken_def)

lemma write_masked_guid_bytes:
  assumes "aligned b" "length mo = 8" "length bo = 8" "bb_size b \<le> 9999990"
  shows "\<exists>m b'. write_masked_guid g mo bo b = Inr ((), b') \<and> byte_bits m = mask_bits g mo
    \<and> b' = push_bytes (m # seq_bytes g bo) b"
proof -
  have inv: "write_inv b" and wr: "written b = bytes_bits (storage b)"
    using assms(1) by (simp_all add: aligned_write_inv written_aligned)
  then obtain b1 where b1: "WriteGuidMask_loop g mo 0 0 8 b = Inr ((), b1)" "write_inv b1"
    "written b1 = written b @ mask_bits g mo" "rpos b1 = rpos b"
    using WriteGuidMask_written [of b 0 0 8 mo g] assms(2,4) by (auto simp: bb_size_def)
  have len: "length (mask_bits g mo) = 8" using assms(2) by (simp add: mask_bits_def)
  have "8 - bitpos b1 = 8 * (bb_size b + 1 - bb_size b1)" "8 * bb_size b1 + (8 - bitpos b1) = 8 * (bb_size b + 1)"
    using length_written [OF b1(2)] b1(3) wr len by (auto simp: bb_size_def)
  then have al: "aligned b1" "bb_size b1 = bb_size b + 1"
    using b1(2) by (auto simp: aligned_def write_inv_def intro!: bit_word_eqI)
  then have bits: "bytes_bits (storage b1) = bytes_bits (storage b) @ mask_bits g mo"
    using b1(3) wr by (simp add: written_aligned)
  obtain m where m: "storage b1 = storage b @ [m]" "byte_bits m = mask_bits g mo"
    using bytes_bits_append_byte [OF bits len] by blast
  have "b1 = push_bytes [m] b"
    using al(1) assms(1) m(1) b1(4) by (simp add: aligned_def push_bytes_def)
  moreover have "WriteGuidBytes_loop g bo 0 0 8 b1 = Inr ((), push_bytes (seq_bytes g bo) b1)"
    using WriteGuidBytes_aligned [OF al(1), of 0 0 8 bo g] assms(3,4) al(2) by simp
  ultimately show ?thesis
    using b1(1) m(2) al(1)
    by (auto simp: write_masked_guid_def WriteGuidMask_def WriteGuidBytes_def bb_seq_run FlushBits_aligned)
qed

lemma read_masked_guid_at:
  assumes "storage b = pre @ (m # seq_bytes g bo) @ post" "rpos b = length pre" "bitpos b = 8"
    and "byte_bits m = mask_bits g mo" "distinct mo" "set mo = {..<8}" "distinct bo" "set bo = {..<8}"
  shows "\<exists>b'. read_masked_guid mo bo b = Inr (g, b') \<and> rpos b' = length pre + 1 + length (seq_bytes g bo)"
proof -
  have lmo: "length mo = 8" using assms(5,6) distinct_card [of mo] by simp
  let ?arr = "\<lambda>k. if k \<in> set mo then of_bool (guid_byte g k \<noteq> 0) else 0 :: u8"
  have "unread b = mask_bits g mo @ bytes_bits (seq_bytes g bo @ post)"
    using assms(1-4) by (simp add: unread_def)
  from read_guid_mask_unread [OF _ this assms(5), of "\<lambda>_. 0"] assms(3)
  obtain b1 where b1: "read_guid_mask mo (\<lambda>_. 0) b = Inr (?arr, b1)" "storage b1 = storage b"
    "\<forall>p n. bits_taken p n b \<longrightarrow> bits_taken p (n + length mo) b1"
    by auto
  have "rpos b1 = length (pre @ [m])"
    using b1(3) bits_taken_0 [OF assms(3)] lmo assms(2) by (metis add_0 bits_taken_8 length_append_singleton)
  then have "read_guid_bytes bo ?arr b1 = Inr (\<lambda>k. if k \<in> set bo then guid_byte g k else ?arr k,
      b1\<lparr>rpos := length (pre @ [m]) + length (seq_bytes g bo)\<rparr>)"
    using assms(1,6-8) b1(2) by (intro read_guid_bytes_at) auto
  moreover have "map (\<lambda>k. if k \<in> set bo then guid_byte g k else ?arr k) [0..<8] = bytes_from g 8"
    using assms(8) by (simp add: bytes_from_def)
  ultimately show ?thesis
    using b1(1) by (simp add: read_masked_guid_def bb_bind_run of_bytes_from)
qed

lemma length_pack_list: "length (snd (pack_list i xs)) \<le> length xs"
proof (induction xs arbitrary: i)
  case (Cons x xs)
  have "length (snd (pack_list (Suc i) xs)) \<le> length xs" by (rule Cons.IH)
  then show ?case by (simp add: Let_def split_def)
qed simp

lemma length_enc_guid: "length (enc_guid g) \<le> 9"
  using length_pack_list [of 0 "bytes_from g 8"] by (simp add: enc_guid_def bytes_from_def split_def Let_def)

section \<open>Properties\<close>

text \<open>
  C13: Bit fields of at most 32 bits written with \<^verbatim>\<open>WriteBits\<close> and flushed are read back by \<^verbatim>\<open>ReadBits\<close> with the same
  widths: every value comes back reduced to its width, and the reader ends at the end of the
  flushed bytes. The write succeeds as long as the bits fit under the storage limit.
\<close>

theorem bit_fields_roundtrip:
  assumes "aligned b" "rpos b = bb_size b" "8 * bb_size b + sum_list (map snd fs) < 80000000" "\<forall>f\<in>set fs. snd f \<le> 32"
  shows "\<exists>b1 b2 b3. write_bit_fields fs b = Inr ((), b1) \<and> FlushBits b1 = Inr ((), b2)
    \<and> read_bit_fields (map snd fs) b2 = Inr (map (\<lambda>(v, n). take_bit n v) fs, b3)
    \<and> rpos b3 = bb_size b2"
proof -
  have inv: "write_inv b" and wr: "written b = bytes_bits (storage b)"
    using assms(1) by (simp_all add: aligned_write_inv written_aligned)
  then obtain b1 where b1: "write_bit_fields fs b = Inr ((), b1)"
    using write_bit_fields_room [of b fs] assms(3,4) by (auto simp: bb_size_def)
  note w1 = write_bit_fields_written [OF inv b1]
  have len: "length (fields_bits fs) = sum_list (map snd fs)"
    by (simp add: fields_bits_def length_concat comp_def split_def)
  then obtain b2 where b2: "FlushBits b1 = Inr ((), b2)"
    using FlushBits_room [of b1] w1 wr assms(3) by (auto simp: bb_size_def)
  obtain pad where w2: "aligned b2" "rpos b2 = rpos b"
    "bytes_bits (storage b2) = bytes_bits (storage b) @ fields_bits fs @ pad" "length pad < 8"
    using FlushBits_written [OF _ b2] w1 wr by (fastforce simp: write_inv_def)
  have "unread b2 = fields_bits fs @ pad"
    using unread_aligned [OF w2(1,2,3)] assms(2) by (simp add: bb_size_def)
  from read_bit_fields_unread [OF _ this assms(4)] w2(1) obtain b3 where
    b3: "read_bit_fields (map snd fs) b2 = Inr (map (\<lambda>(v, n). take_bit n v) fs, b3)"
    and "\<forall>p k. bits_taken p k b2 \<longrightarrow> bits_taken p (k + sum_list (map snd fs)) b3"
    by (auto simp: aligned_def)
  then have "bits_taken (rpos b2) (0 + sum_list (map snd fs)) b3"
    using bits_taken_0 [of b2] w2(1) unfolding aligned_def by blast
  moreover have "8 * bb_size b2 = 8 * bb_size b + sum_list (map snd fs) + length pad"
    using arg_cong [OF w2(3), of length] len by (simp add: bb_size_def)
  ultimately have "rpos b3 = bb_size b2"
    using w2(2,4) assms(2) by (simp add: bits_taken_def)
  with b1 b2 b3 show ?thesis by blast
qed

theorem bit_fields_roundtrip_witness:
  "\<exists>b1 b2 b3. write_bit_fields [(5, 3), (1, 1), (300, 9)] bb_empty = Inr ((), b1)
    \<and> FlushBits b1 = Inr ((), b2)
    \<and> read_bit_fields [3, 1, 9] b2 = Inr ([5, 1, 300], b3) \<and> rpos b3 = bb_size b2"
  using bit_fields_roundtrip [of bb_empty "[(5, 3), (1, 1), (300, 9)]"]
  by (simp add: bb_empty_def aligned_def bb_size_def)

text \<open>
  C26: \<^verbatim>\<open>ReadBit\<close> implements a queue of bits: on a buffer whose unread bits are a list, it takes the
  head of the list and leaves its tail, and it throws exactly when no bit is left, at the read
  position.
\<close>

theorem ReadBit_refines_queue:
  assumes "bitpos b \<le> 8"
  shows "case unread b of
      [] \<Rightarrow> ReadBit b = Inl (PositionException False (rpos b) 1 (bb_size b))
    | x # xs \<Rightarrow> \<exists>b'. ReadBit b = Inr (x, b') \<and> unread b' = xs \<and> bitpos b' \<le> 8 \<and> storage b' = storage b"
proof (cases "unread b")
  case Nil
  then show ?thesis using ReadBit_unread [OF assms] by simp
next
  case (Cons x xs)
  then show ?thesis using ReadBit_Cons [OF assms Cons] by auto
qed

theorem ReadBit_refines_queue_witness:
  "\<exists>b'. ReadBit (bb_empty\<lparr>storage := [128]\<rparr>) = Inr (True, b') \<and> unread b' = replicate 7 False"
proof -
  have u: "unread (bb_empty\<lparr>storage := [128]\<rparr>) = True # replicate 7 False"
    by (simp add: unread_def bb_empty_def byte_bits_def bit_numeral_rec upt_rec numeral_eq_Suc)
  have "bitpos (bb_empty\<lparr>storage := [128]\<rparr>) \<le> 8" by (simp add: bb_empty_def)
  from ReadBit_refines_queue [OF this] u show ?thesis by auto
qed

text \<open>
  \<^verbatim>\<open>PutBits\<close> overwrites exactly the bits \<open>pos\<close> to \<open>pos + n - 1\<close> of a buffer with the low \<open>n\<close> bits of
  the value, most significant bit first, and keeps every other bit and the size; it succeeds
  whenever the slice has at most 32 bits and lies in the buffer.
\<close>

theorem PutBits_overwrites_slice:
  assumes "0 < n" "pos + n \<le> 8 * bb_size b" "n \<le> 32"
  shows "\<exists>b'. PutBits pos v n b = Inr ((), b') \<and> bb_size b' = bb_size b
    \<and> bytes_bits (storage b')
      = take pos (bytes_bits (storage b)) @ word_bits n v @ drop (pos + n) (bytes_bits (storage b))"
  by (rule PutBits_slice [OF assms])

theorem PutBits_overwrites_slice_witness:
  "\<exists>b'. PutBits 6 (0b101 :: u32) 3 (bb_empty\<lparr>storage := [0, 0]\<rparr>) = Inr ((), b') \<and> bb_size b' = 2
    \<and> take 9 (drop 6 (bytes_bits (storage b'))) = [True, False, True, False, False, False, False, False, False]"
proof -
  have "(0 :: nat) < 3" "6 + 3 \<le> 8 * bb_size (bb_empty\<lparr>storage := [0, 0]\<rparr>)" "(3 :: nat) \<le> 32" by (simp_all add: bb_size_def)
  from PutBits_overwrites_slice [OF this, of "0b101 :: u32"] show ?thesis
    by (auto simp: bb_size_def word_bits_def byte_bits_def bit_numeral_rec upt_rec)
qed

text \<open>
  C22: A GUID written with \<^verbatim>\<open>appendPackGUID\<close> is read back by \<^verbatim>\<open>readPackGUID\<close>, for all GUIDs, and the
  reader consumes exactly the packed bytes.
\<close>

theorem packGUID_roundtrip:
  assumes "aligned b" "rpos b = bb_size b" "bb_size b \<le> 9999990"
  shows "\<exists>b'. appendPackGUID g b = Inr ((), b') \<and> readPackGUID b' = Inr (g, b'\<lparr>rpos := wpos b'\<rparr>)"
proof -
  have "length (enc_guid g) \<le> 9" by (rule length_enc_guid)
  with assms guid_codec.roundtrip [where b = b and x = g] show ?thesis by simp
qed

theorem packGUID_roundtrip_witness:
  "\<exists>b'. appendPackGUID 0xF130002300000001 bb_empty = Inr ((), b')
     \<and> readPackGUID b' = Inr (0xF130002300000001, b'\<lparr>rpos := wpos b'\<rparr>)"
  using packGUID_roundtrip [where b = bb_empty and g = "0xF130002300000001"] by (simp add: bb_empty_def bb_size_def aligned_def)

text \<open>
  A GUID sent as a bit mask and a byte sequence, in any two orders of its eight bytes, is read
  back by a handler that uses the same orders.
\<close>

theorem masked_guid_roundtrip:
  assumes "aligned b" "rpos b = bb_size b" "bb_size b \<le> 9999990"
    and "distinct mo" "set mo = {..<8}" "distinct bo" "set bo = {..<8}"
  shows "\<exists>b' b''. write_masked_guid g mo bo b = Inr ((), b') \<and> read_masked_guid mo bo b' = Inr (g, b'')
    \<and> rpos b'' = bb_size b'"
proof -
  have "length mo = 8" "length bo = 8" using assms(4-7) distinct_card [of mo] distinct_card [of bo] by simp_all
  from write_masked_guid_bytes [OF assms(1) this assms(3)] obtain m b' where
    b': "write_masked_guid g mo bo b = Inr ((), b')" "byte_bits m = mask_bits g mo"
    "b' = push_bytes (m # seq_bytes g bo) b" by blast
  from b'(3) assms(1,2) read_masked_guid_at [OF _ _ _ b'(2) assms(4-7), of b' "storage b" "[]"]
  obtain b'' where "read_masked_guid mo bo b' = Inr (g, b'')" "rpos b'' = bb_size b'"
    by (auto simp: aligned_def bb_size_def)
  with b'(1) show ?thesis by blast
qed

theorem masked_guid_roundtrip_witness:
  "\<exists>b' b''. write_masked_guid 0x00000012000000FF [6, 2, 0, 1, 3, 4, 7, 5] [1, 3, 5, 7, 0, 2, 4, 6] bb_empty
      = Inr ((), b')
    \<and> read_masked_guid [6, 2, 0, 1, 3, 4, 7, 5] [1, 3, 5, 7, 0, 2, 4, 6] b' = Inr (0x00000012000000FF, b'')
    \<and> rpos b'' = bb_size b'"
proof (rule masked_guid_roundtrip)
  have "{..<8 :: nat} = {0, 1, 2, 3, 4, 5, 6, 7}" by (auto simp: lessThan_nat_numeral)
  then show "set [6, 2, 0, 1, 3, 4, 7, 5] = {..<8 :: nat}" "set [1, 3, 5, 7, 0, 2, 4, 6] = {..<8 :: nat}"
    by auto
qed (simp_all add: bb_empty_def bb_size_def aligned_def)

text \<open>
  C5: The payload of a packet, any sequence of integers, zero-terminated strings and packed GUIDs
  streamed into a buffer, is read back by the same sequence of types, with nothing left over.
\<close>

theorem payload_roundtrip:
  assumes "aligned b" "rpos b = bb_size b" "list_all field_ok fs"
    and "bb_size b + length (concat (map enc_field fs)) \<le> 10000000"
  shows "\<exists>b'. write_elems put_field fs b = Inr ((), b')
    \<and> get_fields (map field_type fs) b' = Inr (fs, b'\<lparr>rpos := bb_size b'\<rparr>)"
proof -
  let ?bs = "concat (map enc_field fs)"
  have "write_elems put_field fs b = Inr ((), push_bytes ?bs b)"
    using assms by (intro put_fields_enc)
  moreover have "get_fields (map field_type fs) (push_bytes ?bs b)
      = Inr (fs, push_bytes ?bs b\<lparr>rpos := length (storage b) + length ?bs\<rparr>)"
    using assms(2,3) by (intro get_fields_enc [where post = "[]"]) (simp_all add: bb_size_def)
  ultimately show ?thesis by (simp add: bb_size_def)
qed

theorem payload_roundtrip_witness:
  "\<exists>b'. write_elems put_field [F8 2, FStr ''World'', F32 7, FGuid 9] bb_empty = Inr ((), b')
    \<and> get_fields [T8, TStr, T32, TGuid] b' = Inr ([F8 2, FStr ''World'', F32 7, FGuid 9], b'\<lparr>rpos := bb_size b'\<rparr>)"
proof -
  have "length (enc_guid 9) \<le> 9" by (rule length_enc_guid)
  then show ?thesis
    using payload_roundtrip [of bb_empty "[F8 2, FStr ''World'', F32 7, FGuid 9]"]
    by (simp add: bb_empty_def bb_size_def aligned_def nul_free_def)
qed

text \<open>
  C37: Reading any sequence of values never leaves the read position past the end of the storage,
  never moves it back and never changes the bytes, whatever bytes the client sent; what it
  returns has the types that were asked for. A value that does not fit is an exception.
\<close>

theorem get_fields_in_bounds:
  assumes "rpos b \<le> bb_size b" "get_fields ts b = Inr (fs, b')"
  shows "rpos b \<le> rpos b' \<and> rpos b' \<le> bb_size b' \<and> storage b' = storage b \<and> map field_type fs = ts"
  using get_fields_within [OF assms] by (simp add: reads_within_def)

theorem get_fields_in_bounds_witness:
  "\<exists>fs b'. get_fields [T8, T16] (bb_empty\<lparr>storage := [1, 2, 3, 4]\<rparr>) = Inr (fs, b')
     \<and> rpos b' \<le> 4 \<and> map field_type fs = [T8, T16]"
proof -
  let ?b = "bb_empty\<lparr>storage := [1, 2, 3, 4]\<rparr>"
  have "rpos ?b \<le> bb_size ?b" by (simp add: bb_empty_def bb_size_def)
  moreover obtain fs b' where r: "get_fields [T8, T16] ?b = Inr (fs, b')"
    by (simp add: bb_bind_def read_val_def read_at_def bb_empty_def bb_size_def)
  ultimately show ?thesis
    using get_fields_in_bounds [of ?b "[T8, T16]" fs b'] by (auto simp: bb_size_def)
qed

text \<open>
  A map with 32-bit keys and string values streamed with \<open>operator<<\<close> is rebuilt by \<open>operator>>\<close>,
  keys, values and order.
\<close>

theorem map_roundtrip:
  assumes "aligned b" "rpos b = bb_size b" "om_wf (m :: (u32, string) omap)" "list_all (\<lambda>(_, s). nul_free s) m"
    and "bb_size b + 4 + sum_list (map (\<lambda>(_, s). 5 + length s) m) \<le> 10000000"
  shows "\<exists>b'. write_map append_val append_string m b = Inr ((), b')
    \<and> read_map read_val read_string b' = Inr (m, b'\<lparr>rpos := wpos b'\<rparr>)"
proof -
  have len: "length (concat (map (\<lambda>(k :: u32, v). le_bytes k @ map byte_of_char v @ [0]) m))
      = sum_list (map (\<lambda>(_, s). 5 + length s) m)"
    by (induction m) (auto simp: length_concat)
  moreover have "length m \<le> sum_list (map (\<lambda>(_, s). 5 + length s) m)"
    by (induction m) auto
  ultimately show ?thesis
    using assms codec.roundtrip [OF map_codec [OF u32_codec.codec_axioms string_codec.codec_axioms], of b m]
    by simp
qed

theorem map_roundtrip_witness:
  "\<exists>b'. write_map append_val append_string [(2 :: u32, ''b''), (7, ''a'')] bb_empty = Inr ((), b')
    \<and> read_map read_val read_string b' = Inr ([(2 :: u32, ''b''), (7, ''a'')], b'\<lparr>rpos := wpos b'\<rparr>)"
  using map_roundtrip [of bb_empty "[(2 :: u32, ''b''), (7, ''a'')]"]
  by (simp add: bb_empty_def bb_size_def aligned_def nul_free_def om_wf_def)

text \<open>
  The packed time that \<^verbatim>\<open>AppendPackedTime\<close> writes is read back by \<^verbatim>\<open>ReadPackedTime\<close> as \<open>mktime\<close> of
  the same broken-down time with the day of the week cleared, for the years 2000 to 2031.
\<close>

theorem packed_time_roundtrip:
  assumes "aligned b" "rpos b = bb_size b" "bb_size b \<le> 9999990" "tm_packable (localtime t)"
  shows "\<exists>b'. AppendPackedTime localtime t b = Inr ((), b')
    \<and> ReadPackedTime mktime b' = Inr (word_of_int (mktime ((localtime t)\<lparr>tm_wday := 0\<rparr>)), b'\<lparr>rpos := wpos b'\<rparr>)"
proof -
  from u32_codec.roundtrip [where b = b and x = "pack_tm (localtime t)"] assms(1-3)
  obtain b' where "append_val (pack_tm (localtime t)) b = Inr ((), b')"
    "read_val b' = Inr (pack_tm (localtime t), b'\<lparr>rpos := wpos b'\<rparr>)" by auto
  then show ?thesis
    using assms(4) by (simp add: AppendPackedTime_def ReadPackedTime_def bb_bind_run unpack_pack_tm)
qed

theorem packed_time_roundtrip_witness:
  "\<exists>b'. AppendPackedTime (\<lambda>_. \<lparr>tm_min = 59, tm_hour = 23, tm_wday = 6, tm_mday = 31, tm_mon = 11, tm_year = 131\<rparr>) 0
        bb_empty = Inr ((), b')
    \<and> ReadPackedTime tm_year b' = Inr (131, b'\<lparr>rpos := wpos b'\<rparr>)"
  using packed_time_roundtrip [of bb_empty
      "\<lambda>_. \<lparr>tm_min = 59, tm_hour = 23, tm_wday = 6, tm_mday = 31, tm_mon = 11, tm_year = 131\<rparr>" 0 tm_year]
  by (simp add: bb_empty_def bb_size_def aligned_def tm_packable_def)

text \<open>
  \<open>operator<<(std::string)\<close> does not flush pending bits before the characters: on a buffer with
  pending bits the characters of a non-empty string land in front of the byte that holds the bits
  written before it, and only then the terminating zero.
\<close>

theorem string_overtakes_pending_bits:
  assumes "write_inv b" "bitpos b < 8" "s \<noteq> []" "bb_size b + length s \<le> 9999990"
  shows "\<exists>b'. append_string s b = Inr ((), b')
    \<and> storage b' = storage b @ map byte_of_char s @ [curbitval b, 0]"
proof -
  let ?b1 = "b\<lparr>storage := storage b @ map byte_of_char s, wpos := wpos b + length s\<rparr>"
  have w: "append_bytes (map byte_of_char s) b = Inr ((), ?b1)"
    using assms by (simp add: append_bytes_end write_inv_def)
  have "\<exists>b'. append_val (0 :: u8) ?b1 = Inr ((), b') \<and> storage b' = storage ?b1 @ [curbitval b, 0]"
    using assms
    by (auto simp: append_val_def bb_seq_def bb_bind_def FlushBits_def append_bytes_end write_inv_def bb_size_def
        le_bytes_def)
  with w assms(3) show ?thesis by (auto simp: append_string_def bb_seq_run)
qed

theorem string_overtakes_pending_bits_witness:
  "\<exists>b'. append_string ''x'' (bb_empty\<lparr>bitpos := 7, curbitval := 128\<rparr>) = Inr ((), b')
    \<and> storage b' = [byte_of_char (CHR ''x''), 128, 0]"
proof -
  have "write_inv (bb_empty\<lparr>bitpos := 7, curbitval := 128\<rparr>)"
    by (auto simp: write_inv_def bb_empty_def less_Suc_eq numeral_eq_Suc bit_numeral_rec)
  from string_overtakes_pending_bits [OF this, of "''x''"] show ?thesis
    by (simp add: bb_empty_def bb_size_def)
qed

end
