(* ===== verification/Util.thy ===== *)
theory Util
  imports Prelude
begin

text \<open>
  The text utilities of src/src/server/shared/Utilities/Util.cpp and Util.h: tokenizer, line
  clean-up, printing and parsing of durations and money, the wide-character case maps and classes,
  name declension and hexadecimal dumps; and what they use of the C library (\<open>isdigit\<close>, \<open>atol\<close>,
  decimal output of an unsigned integer).
\<close>

section \<open>C library\<close>

definition isdigit :: "char \<Rightarrow> bool" where
  "isdigit c \<longleftrightarrow> 48 \<le> (of_char c :: nat) \<and> (of_char c :: nat) \<le> 57"

definition digit_val :: "char \<Rightarrow> nat" where
  "digit_val c = of_char c - 48"

definition isspace :: "char \<Rightarrow> bool" where
  "isspace c \<longleftrightarrow> (of_char c :: nat) = 32 \<or> (9 \<le> (of_char c :: nat) \<and> (of_char c :: nat) \<le> 13)"

definition c_str :: "string \<Rightarrow> string" where
  "c_str s = takeWhile (\<lambda>c. c \<noteq> CHR 0x00) s"

text \<open>\<open>stream << n\<close> for an unsigned integer.\<close>

fun print_nat :: "nat \<Rightarrow> string" where
  "print_nat n = (if n < 10 then [char_of (48 + n)] else print_nat (n div 10) @ [char_of (48 + n mod 10)])"

declare print_nat.simps [simp del]

fun parse_digits :: "nat \<Rightarrow> string \<Rightarrow> nat" where
  "parse_digits acc [] = acc"
| "parse_digits acc (c # cs) = (if isdigit c then parse_digits (acc * 10 + digit_val c) cs else acc)"

text \<open>\<open>atol\<close>: leading white space, an optional sign, digits; saturates at the bounds of a 64-bit \<open>long\<close>.\<close>

definition atol :: "string \<Rightarrow> int" where
  "atol s =
     (let t = dropWhile isspace (c_str s);
          v = (case t of
                 [] \<Rightarrow> 0
               | c # cs \<Rightarrow> if c = CHR ''-'' then - int (parse_digits 0 cs)
                           else if c = CHR ''+'' then int (parse_digits 0 cs)
                           else int (parse_digits 0 t))
      in max (- (2 ^ 63)) (min (2 ^ 63 - 1) v))"

section \<open>Tokenizer\<close>

text \<open>
  The scan of the copied buffer: \<open>cur\<close> is the text between \<open>posold\<close> and \<open>posnew\<close>. A separator ends a
  token, possibly an empty one; the end of the C string ends a last token only if it is not empty.
  The separator is not the zero character.
\<close>

fun tokenize_loop :: "char \<Rightarrow> string \<Rightarrow> string \<Rightarrow> string list" where
  "tokenize_loop sep cur [] = (if cur \<noteq> [] then [cur] else [])"
| "tokenize_loop sep cur (c # cs) =
     (if c = sep then cur # tokenize_loop sep [] cs
      else if c = CHR 0x00 then (if cur \<noteq> [] then [cur] else [])
      else tokenize_loop sep (cur @ [c]) cs)"

definition Tokenizer :: "string \<Rightarrow> char \<Rightarrow> string list" where
  "Tokenizer src sep = tokenize_loop sep [] src"

section \<open>Cleaning a chat line\<close>

definition invChar :: "char \<Rightarrow> bool" where
  "invChar c \<longleftrightarrow> c \<in> {CHR '' '', CHR 0x09, CHR 0x07, CHR 0x0A}"

text \<open>The in-place loop: \<open>k\<close> characters are left, from \<open>pos\<close> on; \<open>wpos\<close> is where the next one goes.\<close>

fun strip_loop :: "nat \<Rightarrow> nat \<Rightarrow> nat \<Rightarrow> bool \<Rightarrow> string \<Rightarrow> nat \<times> string" where
  "strip_loop 0 pos wpos space str = (wpos, str)"
| "strip_loop (Suc k) pos wpos space str =
     (if invChar (str ! pos)
      then if \<not> space then strip_loop k (Suc pos) (Suc wpos) True (str[wpos := CHR '' ''])
           else strip_loop k (Suc pos) wpos space str
      else strip_loop k (Suc pos) (Suc wpos) False (if wpos \<noteq> pos then str[wpos := str ! pos] else str))"

fun contains_sub :: "string \<Rightarrow> string \<Rightarrow> bool" where
  "contains_sub [] pat \<longleftrightarrow> pat = []"
| "contains_sub (c # cs) pat \<longleftrightarrow> take (length pat) (c # cs) = pat \<or> contains_sub cs pat"

definition stripLineInvisibleChars :: "string \<Rightarrow> string" where
  "stripLineInvisibleChars str =
     (let (wpos, s) = strip_loop (length str) 0 0 False str;
          s = (if wpos < length s then take wpos s else s)
      in if contains_sub s ''|TInterface'' then [] else s)"

section \<open>Durations and money\<close>

definition MINUTE :: u64 where "MINUTE = 60"
definition HOUR :: u64 where "HOUR = MINUTE * 60"
definition DAY :: u64 where "DAY = HOUR * 24"

definition secsToTimeString :: "u64 \<Rightarrow> bool \<Rightarrow> bool \<Rightarrow> string" where
  "secsToTimeString timeInSecs shortText hoursOnly =
     (let secs = timeInSecs mod MINUTE;
          minutes = timeInSecs mod HOUR div MINUTE;
          hours = timeInSecs mod DAY div HOUR;
          days = timeInSecs div DAY
      in (if days \<noteq> 0 then print_nat (unat days) @ (if shortText then ''d'' else '' Tag(en) '') else []) @
         (if hours \<noteq> 0 \<or> hoursOnly then print_nat (unat hours) @ (if shortText then ''h'' else '' Stunde(n) '') else []) @
         (if \<not> hoursOnly then
            (if minutes \<noteq> 0 then print_nat (unat minutes) @ (if shortText then ''m'' else '' Minute(n) '') else []) @
            (if secs \<noteq> 0 \<or> (days = 0 \<and> hours = 0 \<and> minutes = 0)
             then print_nat (unat secs) @ (if shortText then ''s'' else '' Sekunde(n).'') else [])
          else []))"

definition time_unit :: "char \<Rightarrow> u32 option" where
  "time_unit c =
     (if c = CHR ''d'' then Some 86400
      else if c = CHR ''h'' then Some 3600
      else if c = CHR ''m'' then Some 60
      else if c = CHR ''s'' then Some 1
      else None)"

fun TimeStringToSecs_loop :: "u32 \<Rightarrow> u32 \<Rightarrow> string \<Rightarrow> u32" where
  "TimeStringToSecs_loop secs buffer [] = secs"
| "TimeStringToSecs_loop secs buffer (c # cs) =
     (if isdigit c then TimeStringToSecs_loop secs (buffer * 10 + of_nat (digit_val c)) cs
      else case time_unit c of
        None \<Rightarrow> 0
      | Some multiplier \<Rightarrow> TimeStringToSecs_loop (secs + buffer * multiplier) 0 cs)"

definition TimeStringToSecs :: "string \<Rightarrow> u32" where
  "TimeStringToSecs timestring = TimeStringToSecs_loop 0 0 timestring"

text \<open>\<open>money\<close> is an \<open>int64\<close> and \<open>amount\<close> an \<open>uint64\<close>: the sums are taken modulo \<open>2 ^ 64\<close>.\<close>

fun MoneyStringToMoney_loop :: "u64 \<Rightarrow> string list \<Rightarrow> u64" where
  "MoneyStringToMoney_loop money [] = money"
| "MoneyStringToMoney_loop money (tok # toks) =
     (let gCount = count_list tok (CHR ''g'');
          sCount = count_list tok (CHR ''s'');
          cCount = count_list tok (CHR ''c'')
      in if gCount + sCount + cCount \<noteq> 1 then 0
         else let amount = word_of_int (atol tok)
              in MoneyStringToMoney_loop
                   (if gCount = 1 then money + amount * 100 * 100
                    else if sCount = 1 then money + amount * 100
                    else if cCount = 1 then money + amount
                    else money) toks)"

definition MoneyStringToMoney :: "string \<Rightarrow> u64" where
  "MoneyStringToMoney moneyString =
     (if \<not> (count_list moneyString (CHR ''g'') = 1 \<or> count_list moneyString (CHR ''s'') = 1
            \<or> count_list moneyString (CHR ''c'') = 1) then 0
      else MoneyStringToMoney_loop 0 (Tokenizer moneyString (CHR '' '')))"

section \<open>Wide characters\<close>

text \<open>A decoded character (\<open>wchar_t\<close>) is a natural number; \<open>uint16(w)\<close> reduces it modulo \<open>2 ^ 16\<close>.\<close>

type_synonym wchar = nat
type_synonym wstring = "wchar list"

definition isBasicLatinCharacter :: "wchar \<Rightarrow> bool" where
  "isBasicLatinCharacter w \<longleftrightarrow> (0x61 \<le> w \<and> w \<le> 0x7A) \<or> (0x41 \<le> w \<and> w \<le> 0x5A)"

definition isExtendedLatinCharacter :: "wchar \<Rightarrow> bool" where
  "isExtendedLatinCharacter w \<longleftrightarrow> isBasicLatinCharacter w \<or> (0xC0 \<le> w \<and> w \<le> 0xD6)
     \<or> (0xD8 \<le> w \<and> w \<le> 0xDF) \<or> w = 0xDF \<or> (0xE0 \<le> w \<and> w \<le> 0xF6) \<or> (0xF8 \<le> w \<and> w \<le> 0xFE)
     \<or> (0x100 \<le> w \<and> w \<le> 0x12F) \<or> w = 0x1E9E"

definition isCyrillicCharacter :: "wchar \<Rightarrow> bool" where
  "isCyrillicCharacter w \<longleftrightarrow> (0x410 \<le> w \<and> w \<le> 0x44F) \<or> w = 0x401 \<or> w = 0x451"

definition isEastAsianCharacter :: "wchar \<Rightarrow> bool" where
  "isEastAsianCharacter w \<longleftrightarrow> (0x1100 \<le> w \<and> w \<le> 0x11F9) \<or> (0x3041 \<le> w \<and> w \<le> 0x30FF)
     \<or> (0x3131 \<le> w \<and> w \<le> 0x318E) \<or> (0x31F0 \<le> w \<and> w \<le> 0x31FF) \<or> (0x3400 \<le> w \<and> w \<le> 0x4DB5)
     \<or> (0x4E00 \<le> w \<and> w \<le> 0x9FC3) \<or> (0xAC00 \<le> w \<and> w \<le> 0xD7A3) \<or> (0xFF01 \<le> w \<and> w \<le> 0xFFEE)"

definition isNumeric_w :: "wchar \<Rightarrow> bool" where
  "isNumeric_w w \<longleftrightarrow> 0x30 \<le> w \<and> w \<le> 0x39"

definition isNumericOrSpace :: "wchar \<Rightarrow> bool" where
  "isNumericOrSpace w \<longleftrightarrow> isNumeric_w w \<or> w = 0x20"

definition isBasicLatinString :: "wstring \<Rightarrow> bool \<Rightarrow> bool" where
  "isBasicLatinString s numericOrSpace \<longleftrightarrow>
     list_all (\<lambda>w. isBasicLatinCharacter w \<or> (numericOrSpace \<and> isNumericOrSpace w)) s"

definition isExtendedLatinString :: "wstring \<Rightarrow> bool \<Rightarrow> bool" where
  "isExtendedLatinString s numericOrSpace \<longleftrightarrow>
     list_all (\<lambda>w. isExtendedLatinCharacter w \<or> (numericOrSpace \<and> isNumericOrSpace w)) s"

definition isCyrillicString :: "wstring \<Rightarrow> bool \<Rightarrow> bool" where
  "isCyrillicString s numericOrSpace \<longleftrightarrow>
     list_all (\<lambda>w. isCyrillicCharacter w \<or> (numericOrSpace \<and> isNumericOrSpace w)) s"

definition isEastAsianString :: "wstring \<Rightarrow> bool \<Rightarrow> bool" where
  "isEastAsianString s numericOrSpace \<longleftrightarrow>
     list_all (\<lambda>w. isEastAsianCharacter w \<or> (numericOrSpace \<and> isNumericOrSpace w)) s"

definition wcharToUpper :: "wchar \<Rightarrow> wchar" where
  "wcharToUpper w =
     (if 0x61 \<le> w \<and> w \<le> 0x7A then w mod 65536 - 0x20
      else if w = 0xDF then 0x1E9E
      else if 0xE0 \<le> w \<and> w \<le> 0xF6 then w mod 65536 - 0x20
      else if 0xF8 \<le> w \<and> w \<le> 0xFE then w mod 65536 - 0x20
      else if (0x101 \<le> w \<and> w \<le> 0x12F) \<and> w mod 2 = 1 then w mod 65536 - 1
      else if 0x430 \<le> w \<and> w \<le> 0x44F then w mod 65536 - 0x20
      else if w = 0x451 then 0x401
      else w)"

definition wcharToLower :: "wchar \<Rightarrow> wchar" where
  "wcharToLower w =
     (if 0x41 \<le> w \<and> w \<le> 0x5A then w mod 65536 + 0x20
      else if 0xC0 \<le> w \<and> w \<le> 0xD6 then w mod 65536 + 0x20
      else if 0xD8 \<le> w \<and> w \<le> 0xDE then w mod 65536 + 0x20
      else if (0x100 \<le> w \<and> w \<le> 0x12E) \<and> w mod 2 = 0 then w mod 65536 + 1
      else if w = 0x1E9E then 0xDF
      else if w = 0x401 then 0x451
      else if 0x410 \<le> w \<and> w \<le> 0x42F then w mod 65536 + 0x20
      else w)"

definition wcharToUpperOnlyLatin :: "wchar \<Rightarrow> wchar" where
  "wcharToUpperOnlyLatin w = (if isBasicLatinCharacter w then wcharToUpper w else w)"

definition wstrToUpper :: "wstring \<Rightarrow> wstring" where
  "wstrToUpper s = map wcharToUpper s"

definition wstrToLower :: "wstring \<Rightarrow> wstring" where
  "wstrToLower s = map wcharToLower s"

section \<open>Declension of Cyrillic names\<close>

datatype util_error = OutOfRange

definition dropEnds :: "nat \<Rightarrow> wstring list" where
  "dropEnds declension =
     (let a_End = [0x430]; o_End = [0x43E]; ya_End = [0x44F]; ie_End = [0x435]; i_End = [0x438];
          yeru_End = [0x44B]; u_End = [0x443]; yu_End = [0x44E]; oj_End = [0x43E, 0x439];
          ie_j_End = [0x435, 0x439]; io_j_End = [0x451, 0x439]; o_m_End = [0x43E, 0x43C];
          io_m_End = [0x451, 0x43C]; ie_m_End = [0x435, 0x43C]; soft_End = [0x44C]; j_End = [0x439]
      in [[a_End, o_End, ya_End, ie_End, soft_End, j_End],
          [a_End, ya_End, yeru_End, i_End],
          [ie_End, u_End, yu_End, i_End],
          [u_End, yu_End, o_End, ie_End, soft_End, ya_End, a_End],
          [oj_End, io_j_End, ie_j_End, o_m_End, io_m_End, ie_m_End, yu_End],
          [ie_End, i_End]] ! declension)"

text \<open>
  The loop over the endings. \<open>wname.substr(wname.size() - len, len)\<close> throws when the ending is longer
  than the name: the unsigned difference is then past the end.
\<close>

fun dropEnds_loop :: "wstring list \<Rightarrow> wstring \<Rightarrow> util_error + wstring" where
  "dropEnds_loop [] wname = Inr wname"
| "dropEnds_loop (e # es) wname =
     (if length e > length wname then Inl OutOfRange
      else if drop (length wname - length e) wname = e then Inr (take (length wname - length e) wname)
      else dropEnds_loop es wname)"

definition GetMainPartOfName :: "wstring \<Rightarrow> nat \<Rightarrow> util_error + wstring" where
  "GetMainPartOfName wname declension =
     (if length wname < 1 \<or> \<not> isCyrillicCharacter (wname ! 0) \<or> declension > 5 then Inr wname
      else dropEnds_loop (dropEnds declension) wname)"

section \<open>Escaping, hexadecimal dumps, networks\<close>

definition my_escape_char :: "string \<Rightarrow> char \<Rightarrow> string" where
  "my_escape_char s c = concat (map (\<lambda>x. if x = c then [CHR 0x5C, x] else [x]) s)"

definition hex_digit :: "nat \<Rightarrow> char" where
  "hex_digit n = (if n < 10 then char_of (48 + n) else char_of (55 + n))"

definition ByteArrayToHexStr :: "u8 list \<Rightarrow> bool \<Rightarrow> string" where
  "ByteArrayToHexStr bytes reverse =
     concat (map (\<lambda>b. [hex_digit (unat b div 16), hex_digit (unat b mod 16)]) (if reverse then rev bytes else bytes))"

definition IsIPAddrInNetwork :: "u32 \<Rightarrow> u32 \<Rightarrow> u32 \<Rightarrow> bool" where
  "IsIPAddrInNetwork net addr subnetMask \<longleftrightarrow> net AND subnetMask = addr AND subnetMask"

section \<open>Decimal numbers\<close>

lemma of_char_digit: "n < 10 \<Longrightarrow> (of_char (char_of (48 + n) :: char) :: nat) = 48 + n"
  by simp

lemma digit_char [simp]:
  "n < 10 \<Longrightarrow> isdigit (char_of (48 + n))"
  "n < 10 \<Longrightarrow> digit_val (char_of (48 + n)) = n"
  using of_char_digit [of n] by (simp_all add: isdigit_def digit_val_def del: of_char_of)

lemma print_nat_digits: "list_all isdigit (print_nat n)"
  by (induction n rule: print_nat.induct) (subst print_nat.simps, auto)

lemma print_nat_not_Nil [simp]: "print_nat n \<noteq> []"
  by (subst print_nat.simps) simp

lemma parse_digits_stop: "(cs = [] \<or> \<not> isdigit (hd cs)) \<Longrightarrow> parse_digits acc cs = acc"
  by (cases cs) auto

lemma parse_digits_print:
  "parse_digits acc (print_nat n @ cs) = parse_digits (acc * 10 ^ length (print_nat n) + n) cs"
proof (induction n arbitrary: acc cs rule: print_nat.induct)
  case (1 n)
  show ?case
  proof (cases "n < 10")
    case True
    then show ?thesis by (simp add: print_nat.simps [of n])
  next
    case False
    have "acc * 10 ^ length (print_nat (n div 10)) * 10 + n div 10 * 10 + n mod 10
        = acc * 10 ^ Suc (length (print_nat (n div 10))) + n"
      by simp
    then show ?thesis
      using False 1 [OF False] by (simp add: print_nat.simps [of n] algebra_simps)
  qed
qed

lemma TimeStringToSecs_digits:
  "TimeStringToSecs_loop s b (print_nat n @ cs) = TimeStringToSecs_loop s (b * 10 ^ length (print_nat n) + of_nat n) cs"
proof (induction n arbitrary: b cs rule: print_nat.induct)
  case (1 n)
  show ?case
  proof (cases "n < 10")
    case True
    then show ?thesis by (simp add: print_nat.simps [of n])
  next
    case False
    have "(of_nat (n div 10) * 10 + of_nat (n mod 10) :: u32) = of_nat (n div 10 * 10 + n mod 10)"
      by (simp only: of_nat_add of_nat_mult of_nat_numeral)
    then have n: "(of_nat n :: u32) = of_nat (n div 10) * 10 + of_nat (n mod 10)"
      by (simp only: div_mult_mod_eq)
    have "TimeStringToSecs_loop s b (print_nat n @ cs) = TimeStringToSecs_loop s
        ((b * 10 ^ length (print_nat (n div 10)) + of_nat (n div 10)) * 10 + of_nat (n mod 10)) cs"
      using False 1 [OF False] by (simp add: print_nat.simps [of n])
    also have "(b * 10 ^ length (print_nat (n div 10)) + of_nat (n div 10)) * 10 + of_nat (n mod 10)
        = b * 10 ^ length (print_nat n) + of_nat n"
      unfolding n using False by (simp add: print_nat.simps [of n] algebra_simps)
    finally show ?thesis .
  qed
qed

lemma not_digit_units [simp]:
  "\<not> isdigit (CHR ''d'')" "\<not> isdigit (CHR ''h'')" "\<not> isdigit (CHR ''m'')" "\<not> isdigit (CHR ''s'')"
  "\<not> isdigit (CHR ''g'')" "\<not> isdigit (CHR ''c'')" "\<not> isdigit (CHR '' '')" "\<not> isdigit (CHR 0x00)"
  "\<not> isdigit (CHR ''-'')" "\<not> isdigit (CHR ''+'')"
  by (simp_all add: isdigit_def)

lemma split_seconds:
  "n div 86400 * 86400 + n mod 86400 div 3600 * 3600 + n mod 3600 div 60 * 60 + n mod 60 = (n :: nat)"
proof -
  have "n mod 86400 mod 3600 = n mod 3600" "n mod 3600 mod 60 = n mod 60"
    by (simp_all add: mod_mod_cancel)
  then show ?thesis
    using div_mult_mod_eq [of n 86400] div_mult_mod_eq [of "n mod 86400" 3600]
      div_mult_mod_eq [of "n mod 3600" 60] by linarith
qed

lemma TimeStringToSecs_part:
  assumes "time_unit c = Some m" "\<not> isdigit c"
  shows "TimeStringToSecs_loop s 0 ((if p then print_nat n @ [c] else []) @ cs)
    = TimeStringToSecs_loop (if p then s + of_nat n * m else s) 0 cs"
  using assms TimeStringToSecs_digits [of s 0 n "c # cs"] by simp

text \<open>
  Parsing the short form of a printed duration gives the duration back, modulo the 32 bits of
  the parser's result; in particular exactly, for every duration below \<open>2 ^ 32\<close> seconds.
\<close>

theorem time_string_roundtrip:
  "TimeStringToSecs (secsToTimeString t True False) = ucast t"
proof -
  let ?d = "t div 86400" and ?h = "t mod 86400 div 3600" and ?m = "t mod 3600 div 60" and ?s = "t mod 60"
  let ?p = "?s \<noteq> 0 \<or> (?d = 0 \<and> ?h = 0 \<and> ?m = 0)"
  have u: "time_unit (CHR ''d'') = Some 86400" "time_unit (CHR ''h'') = Some 3600"
    "time_unit (CHR ''m'') = Some 60" "time_unit (CHR ''s'') = Some 1"
    by (simp_all add: time_unit_def)
  have shape: "secsToTimeString t True False =
      (if ?d \<noteq> 0 then print_nat (unat ?d) @ [CHR ''d''] else []) @
      (if ?h \<noteq> 0 then print_nat (unat ?h) @ [CHR ''h''] else []) @
      (if ?m \<noteq> 0 then print_nat (unat ?m) @ [CHR ''m''] else []) @
      (if ?p then print_nat (unat ?s) @ [CHR ''s''] else []) @ []"
    by (simp add: secsToTimeString_def Let_def DAY_def HOUR_def MINUTE_def)
  have parsed: "TimeStringToSecs (secsToTimeString t True False)
      = of_nat (unat ?d) * 86400 + of_nat (unat ?h) * 3600 + of_nat (unat ?m) * 60 + of_nat (unat ?s)"
    unfolding TimeStringToSecs_def shape
    by (simp only: TimeStringToSecs_part [OF u(1) not_digit_units(1)] TimeStringToSecs_part [OF u(2) not_digit_units(2)]
        TimeStringToSecs_part [OF u(3) not_digit_units(3)] TimeStringToSecs_part [OF u(4) not_digit_units(4)]) auto
  also have "\<dots> = of_nat (unat ?d * 86400 + unat ?h * 3600 + unat ?m * 60 + unat ?s)"
    by (simp only: of_nat_add of_nat_mult of_nat_numeral)
  also have "unat ?d * 86400 + unat ?h * 3600 + unat ?m * 60 + unat ?s = unat t"
    using split_seconds [of "unat t"] by (simp add: unat_div unat_mod)
  finally show ?thesis by simp
qed

section \<open>Cleaning a chat line\<close>

text \<open>The reference: every run of invisible characters becomes one space.\<close>

fun squeeze :: "bool \<Rightarrow> string \<Rightarrow> string" where
  "squeeze sp [] = []"
| "squeeze sp (c # cs) =
     (if invChar c then if sp then squeeze True cs else CHR '' '' # squeeze True cs
      else c # squeeze False cs)"

lemma strip_loop_squeeze:
  "wpos \<le> pos \<Longrightarrow> pos + k = length str \<Longrightarrow>
     length (snd (strip_loop k pos wpos sp str)) = length str
     \<and> take (fst (strip_loop k pos wpos sp str)) (snd (strip_loop k pos wpos sp str))
        = take wpos str @ squeeze sp (drop pos str)"
proof (induction k arbitrary: pos wpos sp str)
  case 0
  then show ?case by simp
next
  case (Suc k)
  have lt: "pos < length str" "wpos < length str" using Suc.prems by simp_all
  then have d: "drop pos str = str ! pos # drop (Suc pos) str" by (simp add: Cons_nth_drop_Suc)
  have upd: "take (Suc wpos) (str[wpos := c]) = take wpos str @ [c]"
    "drop (Suc pos) (str[wpos := c]) = drop (Suc pos) str" for c
    using lt Suc.prems(1) by (simp_all add: take_Suc_conv_app_nth)
  have same: "take (Suc pos) str = take pos str @ [str ! pos]"
    using lt by (simp add: take_Suc_conv_app_nth)
  consider "invChar (str ! pos)" "\<not> sp" | "invChar (str ! pos)" sp | "\<not> invChar (str ! pos)" by blast
  then show ?case
  proof cases
    case 1
    with Suc.IH [of "Suc wpos" "Suc pos" "str[wpos := CHR '' '']" True] Suc.prems d upd show ?thesis by simp
  next
    case 2
    with Suc.IH [of wpos "Suc pos" str sp] Suc.prems d show ?thesis by simp
  next
    case 3
    let ?str = "if wpos \<noteq> pos then str[wpos := str ! pos] else str"
    have "take (Suc wpos) ?str = take wpos str @ [str ! pos]" "drop (Suc pos) ?str = drop (Suc pos) str"
      "length ?str = length str"
      using upd same by simp_all
    with 3 Suc.IH [of "Suc wpos" "Suc pos" ?str False] Suc.prems d show ?thesis by simp
  qed
qed

lemma stripLineInvisibleChars_squeeze:
  "stripLineInvisibleChars str =
     (if contains_sub (squeeze False str) ''|TInterface'' then [] else squeeze False str)"
  using strip_loop_squeeze [of 0 0 "length str" str False]
  by (auto simp: stripLineInvisibleChars_def Let_def split_def take_all)

fun no_double_space :: "bool \<Rightarrow> string \<Rightarrow> bool" where
  "no_double_space sp [] = True"
| "no_double_space sp (c # cs) = (if c = CHR '' '' then \<not> sp \<and> no_double_space True cs else no_double_space False cs)"

lemma no_double_space_squeeze: "no_double_space sp (squeeze sp s)"
  by (induction sp s rule: squeeze.induct) (auto simp: invChar_def)

lemma set_squeeze: "set (squeeze sp s) \<inter> {CHR 0x09, CHR 0x07, CHR 0x0A} = {}"
  by (induction sp s rule: squeeze.induct) (auto simp: invChar_def)

lemma squeeze_id:
  "no_double_space sp s \<Longrightarrow> set s \<inter> {CHR 0x09, CHR 0x07, CHR 0x0A} = {} \<Longrightarrow> squeeze sp s = s"
  by (induction sp s rule: squeeze.induct) (auto simp: invChar_def split: if_splits)

text \<open>
  The in-place clean-up of a chat line leaves no tab, bell or newline and no two adjacent
  spaces, leaves no embedded interface markup, and cleaning a second time changes nothing.
\<close>

theorem stripLineInvisibleChars_clean:
  "stripLineInvisibleChars (stripLineInvisibleChars str) = stripLineInvisibleChars str
   \<and> set (stripLineInvisibleChars str) \<inter> {CHR 0x09, CHR 0x07, CHR 0x0A} = {}
   \<and> no_double_space False (stripLineInvisibleChars str)
   \<and> contains_sub (stripLineInvisibleChars str) ''|TInterface'' = False"
proof -
  have "squeeze False (squeeze False str) = squeeze False str"
    by (rule squeeze_id [OF no_double_space_squeeze set_squeeze])
  then show ?thesis
    using set_squeeze [of False str] no_double_space_squeeze [of False str]
    by (simp add: stripLineInvisibleChars_squeeze)
qed

section \<open>Tokenizer\<close>

fun join_with :: "char \<Rightarrow> string list \<Rightarrow> string" where
  "join_with sep [] = []"
| "join_with sep (t # ts) = t @ sep # join_with sep ts"

lemma tokenize_token:
  "sep \<notin> set t \<Longrightarrow> CHR 0x00 \<notin> set t \<Longrightarrow> tokenize_loop sep cur (t @ sep # cs) = (cur @ t) # tokenize_loop sep [] cs"
  by (induction t arbitrary: cur) auto

lemma Tokenizer_join:
  "list_all (\<lambda>t. sep \<notin> set t \<and> CHR 0x00 \<notin> set t) ts \<Longrightarrow> Tokenizer (join_with sep ts) sep = ts"
  unfolding Tokenizer_def by (induction ts) (auto simp: tokenize_token)

lemma tokenize_last:
  "sep \<notin> set t \<Longrightarrow> CHR 0x00 \<notin> set t \<Longrightarrow> tokenize_loop sep cur t = (if cur @ t \<noteq> [] then [cur @ t] else [])"
  by (induction t arbitrary: cur) auto

section \<open>\<open>atol\<close> and money\<close>

lemma digits_free: "\<not> isdigit c \<Longrightarrow> c \<notin> set (print_nat n)"
  using print_nat_digits [of n] by (auto simp: list_all_iff)

lemma c_str_id: "CHR 0x00 \<notin> set s \<Longrightarrow> c_str s = s"
  by (auto simp: c_str_def takeWhile_eq_all_conv)

lemma isdigit_not_space: "isdigit c \<Longrightarrow> \<not> isspace c \<and> c \<noteq> CHR ''-'' \<and> c \<noteq> CHR ''+''"
  by (auto simp: isdigit_def isspace_def)

lemma atol_print:
  assumes "CHR 0x00 \<notin> set cs" "cs = [] \<or> \<not> isdigit (hd cs)" "n < 2 ^ 63"
  shows "atol (print_nat n @ cs) = int n"
proof -
  obtain d ds where p: "print_nat n = d # ds" by (meson print_nat_not_Nil neq_Nil_conv)
  then have "isdigit d" using print_nat_digits [of n] by simp
  note d = isdigit_not_space [OF this]
  have "c_str (print_nat n @ cs) = d # ds @ cs"
    using assms(1) digits_free [of "CHR 0x00" n] p by (simp add: c_str_id)
  moreover have "parse_digits 0 (d # ds @ cs) = n"
    using parse_digits_print [of 0 n cs] parse_digits_stop [OF assms(2)] p by simp
  ultimately show ?thesis
    using d assms(3) by (simp add: atol_def Let_def del: parse_digits.simps)
qed

lemma count_print:
  assumes "\<not> isdigit c"
  shows "count_list (print_nat n) c = 0"
  using digits_free [OF assms, of n] by (simp add: count_list_0_iff)

lemma money_token:
  assumes "n < 2 ^ 63" "u \<in> {CHR ''g'', CHR ''s'', CHR ''c''}"
  shows "MoneyStringToMoney_loop m ((print_nat n @ [u]) # toks)
    = MoneyStringToMoney_loop (m + of_nat n * (if u = CHR ''g'' then 10000 else if u = CHR ''s'' then 100 else 1)) toks"
proof -
  have "atol (print_nat n @ [u]) = int n" using assms by (intro atol_print) auto
  then show ?thesis
    using assms(2) by (auto simp: Let_def count_print mult.assoc)
qed

text \<open>
  An amount written as gold, silver and copper is parsed to its value in copper, modulo \<open>2 ^ 64\<close>,
  for all numbers that fit a \<open>long\<close>.
\<close>

theorem money_string_value:
  assumes "g < 2 ^ 63" "s < 2 ^ 63" "c < 2 ^ 63"
  shows "MoneyStringToMoney (print_nat g @ ''g '' @ print_nat s @ ''s '' @ print_nat c @ ''c'')
    = of_nat (g * 10000 + s * 100 + c)"
proof -
  let ?str = "print_nat g @ ''g '' @ print_nat s @ ''s '' @ print_nat c @ ''c''"
  have str: "?str = (print_nat g @ ''g'') @ CHR '' '' # (print_nat s @ ''s'') @ CHR '' '' # (print_nat c @ ''c'')"
    by simp
  have "Tokenizer ?str (CHR '' '') = [print_nat g @ ''g'', print_nat s @ ''s'', print_nat c @ ''c'']"
    unfolding str Tokenizer_def
    by (subst tokenize_token; (subst tokenize_token)?; (subst tokenize_last)?; simp add: digits_free)
  moreover have "count_list ?str (CHR ''g'') = 1"
    by (simp add: count_print)
  ultimately show ?thesis
    using assms by (simp add: MoneyStringToMoney_def money_token del: MoneyStringToMoney_loop.simps(2))
qed

theorem money_string_value_witness:
  "MoneyStringToMoney (print_nat 1 @ ''g '' @ print_nat 20 @ ''s '' @ print_nat 3 @ ''c'') = 12003"
  using money_string_value [of 1 20 3] by simp

section \<open>Case maps and declension\<close>

lemma lower_cases:
  obtains "0x41 \<le> w" "w \<le> 0x5A" "wcharToLower w = w + 0x20"
  | "0xC0 \<le> w" "w \<le> 0xD6" "wcharToLower w = w + 0x20"
  | "0xD8 \<le> w" "w \<le> 0xDE" "wcharToLower w = w + 0x20"
  | "0x100 \<le> w" "w \<le> 0x12E" "w mod 2 = 0" "wcharToLower w = w + 1"
  | "w = 0x1E9E" "wcharToLower w = 0xDF"
  | "w = 0x401" "wcharToLower w = 0x451"
  | "0x410 \<le> w" "w \<le> 0x42F" "wcharToLower w = w + 0x20"
  | "wcharToLower w = w"
  unfolding wcharToLower_def by (simp, fastforce split: if_splits)

lemma lower_lower: "wcharToLower (wcharToLower w) = wcharToLower w"
proof (cases w rule: lower_cases)
  case 4
  then have "odd (w + 1)" by presburger
  with 4 show ?thesis by (simp add: wcharToLower_def mod_Suc)
qed (simp_all add: wcharToLower_def)

lemma upper_cases:
  obtains "0x61 \<le> w" "w \<le> 0x7A" "wcharToUpper w = w - 0x20"
  | "w = 0xDF" "wcharToUpper w = 0x1E9E"
  | "0xE0 \<le> w" "w \<le> 0xF6" "wcharToUpper w = w - 0x20"
  | "0xF8 \<le> w" "w \<le> 0xFE" "wcharToUpper w = w - 0x20"
  | "0x101 \<le> w" "w \<le> 0x12F" "w mod 2 = 1" "wcharToUpper w = w - 1"
  | "0x430 \<le> w" "w \<le> 0x44F" "wcharToUpper w = w - 0x20"
  | "w = 0x451" "wcharToUpper w = 0x401"
  | "wcharToUpper w = w"
  unfolding wcharToUpper_def by (simp, fastforce split: if_splits)

lemma lower_upper: "wcharToLower (wcharToUpper w) = wcharToLower w"
proof (cases w rule: upper_cases)
  case 5
  then obtain v where "w = Suc v" "even v" by (cases w) (auto simp: mod_Suc split: if_splits)
  with 5 show ?thesis by (simp add: wcharToLower_def)
qed (simp_all add: wcharToLower_def, presburger+)

lemma upper_upper: "wcharToUpper (wcharToUpper w) = wcharToUpper w"
proof (cases w rule: upper_cases)
  case 5
  then obtain v where "w = Suc v" "even v" by (cases w) (auto simp: mod_Suc split: if_splits)
  with 5 show ?thesis by (simp add: wcharToUpper_def)
qed (simp_all add: wcharToUpper_def, presburger+)

text \<open>
  The case maps agree with each other: lower case is unchanged by a preceding upper-casing, and
  both maps are idempotent, so names that differ only in case have the same lower-case key.
\<close>

theorem case_maps_agree:
  "wstrToLower (wstrToUpper s) = wstrToLower s \<and> wstrToLower (wstrToLower s) = wstrToLower s
   \<and> wstrToUpper (wstrToUpper s) = wstrToUpper s"
  by (simp add: wstrToLower_def wstrToUpper_def lower_upper lower_lower upper_upper)

lemma dropEnds_loop_prefix:
  "dropEnds_loop es wname = Inr r \<Longrightarrow> \<exists>e \<in> insert [] (set es). wname = r @ e"
proof (induction es wname rule: dropEnds_loop.induct)
  case (2 e es wname)
  show ?case
  proof (cases "drop (length wname - length e) wname = e")
    case True
    have "wname = take (length wname - length e) wname @ drop (length wname - length e) wname" by simp
    with 2(2) True show ?thesis by (auto split: if_splits)
  next
    case False
    with 2 show ?thesis by (auto split: if_splits)
  qed
qed simp

lemma dropEnds_loop_throws:
  "dropEnds_loop es wname = Inl x \<Longrightarrow> \<exists>e \<in> set es. length e > length wname"
  by (induction es wname rule: dropEnds_loop.induct) (auto split: if_splits)

lemma dropEnds_short: "d \<le> 5 \<Longrightarrow> d \<noteq> 4 \<Longrightarrow> e \<in> set (dropEnds d) \<Longrightarrow> length e = 1"
proof -
  assume "d \<le> 5" "d \<noteq> 4" and e: "e \<in> set (dropEnds d)"
  then consider "d = 0" | "d = 1" | "d = 2" | "d = 3" | "d = 5" by linarith
  then show ?thesis by cases (use e in \<open>auto simp: dropEnds_def\<close>)
qed

lemma dropEnds_4: "e \<in> set (dropEnds 4) \<Longrightarrow> length e \<le> 2"
  by (auto simp: dropEnds_def)

lemma dropEnds_4_single: "dropEnds_loop (dropEnds 4) [w] = Inl OutOfRange"
  by (simp add: dropEnds_def)

lemma dropEnds_throws_iff:
  assumes "d \<le> 5" "wname \<noteq> []"
  shows "(\<exists>x. dropEnds_loop (dropEnds d) wname = Inl x) \<longleftrightarrow> length wname = 1 \<and> d = 4"
proof
  assume "\<exists>x. dropEnds_loop (dropEnds d) wname = Inl x"
  then obtain e where "e \<in> set (dropEnds d)" "length e > length wname"
    by (blast dest: dropEnds_loop_throws)
  moreover have "length wname \<ge> 1" using assms(2) by (cases wname) auto
  ultimately show "length wname = 1 \<and> d = 4"
    using dropEnds_short [OF assms(1)] dropEnds_4 by (cases "d = 4") force+
next
  assume "length wname = 1 \<and> d = 4"
  then show "\<exists>x. dropEnds_loop (dropEnds d) wname = Inl x"
    by (auto simp: length_Suc_conv dropEnds_4_single)
qed

text \<open>
  \<^verbatim>\<open>GetMainPartOfName\<close> returns the name itself or the name without one of the endings of the
  declension, except on a one-letter Cyrillic name with declension 4: there the two-letter ending
  makes \<open>substr\<close> start past the end, and the function throws.
\<close>

theorem GetMainPartOfName_result:
  "case GetMainPartOfName wname d of
     Inl _ \<Rightarrow> length wname = 1 \<and> isCyrillicCharacter (wname ! 0) \<and> d = 4
   | Inr r \<Rightarrow> \<not> (length wname = 1 \<and> isCyrillicCharacter (wname ! 0) \<and> d = 4)
       \<and> (\<exists>e \<in> insert [] (set (dropEnds d)). wname = r @ e)"
proof (cases "length wname < 1 \<or> \<not> isCyrillicCharacter (wname ! 0) \<or> d > 5")
  case True
  then show ?thesis by (auto simp: GetMainPartOfName_def)
next
  case False
  then have "d \<le> 5" "wname \<noteq> []" by auto
  note throws = dropEnds_throws_iff [OF this]
  from False show ?thesis
    using throws dropEnds_loop_prefix [of "dropEnds d" wname]
    by (auto simp: GetMainPartOfName_def split: sum.split)
qed

end
