(* ===== verification/Channel.thy ===== *)
theory Channel
  imports ByteBufferCodec Util
begin

text \<open>
  Chat channels (src/src/server/game/Chat/Channels/Channel.h and Channel.cpp): membership, ownership,
  moderation, bans and their persistence, and every packet a channel sends.

  A channel is a record with the members of the class; an operation takes the environment (who is
  in the world, the configuration, the channel DBC store, the stored channels), its arguments and the
  channel, and returns the channel and the list of effects in program order: packets put on a
  session, database statements, and the changes of a player's own channel list. A packet is an opcode
  and the sequence of values streamed into it.
\<close>

section \<open>Players and the environment\<close>

record player =
  p_guid :: guid
  p_name :: string
  p_security :: nat
  p_oteam :: u32
  p_team :: u32
  p_group :: bool
  p_ignores :: "u32 list"
  p_gm_visible :: bool
  p_visible :: bool
  p_chat_tag :: u8
  p_guild :: u32

record db_channel =
  row_announce :: bool
  row_ownership :: bool
  row_password :: string
  row_banlist :: "string option"

record env =
  world :: "player list"
  char_name :: "guid \<Rightarrow> string option"
  cfg_two_side_channel :: bool
  cfg_restricted_lfg :: bool
  cfg_silent_gm_join :: bool
  cfg_preserve_custom :: bool
  cfg_gm_level_who :: nat
  cfg_preserve_duration :: u32
  chat_channels :: "u32 \<Rightarrow> u32 option"
  db_channels :: "string \<Rightarrow> u32 \<Rightarrow> db_channel option"

text \<open>Account levels (\<^verbatim>\<open>AccountMgr.cpp\<close>; \<open>SEC_PLAYER\<close> 0 to \<open>SEC_CONSOLE\<close> 4).\<close>

definition IsPlayerAccount :: "nat \<Rightarrow> bool" where
  "IsPlayerAccount gmlevel \<longleftrightarrow> gmlevel = 0"

definition IsModeratorAccount :: "nat \<Rightarrow> bool" where
  "IsModeratorAccount gmlevel \<longleftrightarrow> gmlevel \<ge> 1 \<and> gmlevel \<le> 4"

definition IsGMAccount :: "nat \<Rightarrow> bool" where
  "IsGMAccount gmlevel \<longleftrightarrow> gmlevel \<ge> 2 \<and> gmlevel \<le> 4"

definition IsAdminAccount :: "nat \<Rightarrow> bool" where
  "IsAdminAccount gmlevel \<longleftrightarrow> gmlevel \<ge> 3 \<and> gmlevel \<le> 4"

text \<open>The lookups of \<^verbatim>\<open>ObjectAccessor\<close> over the players in the world.\<close>

definition ascii_tolower :: "char \<Rightarrow> char" where
  "ascii_tolower c = (if 65 \<le> (of_char c :: nat) \<and> (of_char c :: nat) \<le> 90 then char_of (of_char c + 32 :: nat) else c)"

definition FindPlayer :: "env \<Rightarrow> guid \<Rightarrow> player option" where
  "FindPlayer env g = find (\<lambda>p. p_guid p = g) (world env)"

definition FindPlayerByName :: "env \<Rightarrow> string \<Rightarrow> player option" where
  "FindPlayerByName env name =
     find (\<lambda>p. map ascii_tolower name = map ascii_tolower (p_name p)) (world env)"

definition GetPlayerNameByGUID :: "env \<Rightarrow> guid \<Rightarrow> string option" where
  "GetPlayerNameByGUID env g =
     (case FindPlayer env g of Some p \<Rightarrow> Some (p_name p) | None \<Rightarrow> char_name env g)"

definition HasIgnore :: "player \<Rightarrow> u32 \<Rightarrow> bool" where
  "HasIgnore p low \<longleftrightarrow> low \<in> set (p_ignores p)"

text \<open>\<open>this->IsVisibleGloballyFor(u)\<close>.\<close>

definition IsVisibleGloballyFor :: "player \<Rightarrow> player \<Rightarrow> bool" where
  "IsVisibleGloballyFor this u \<longleftrightarrow>
     (if p_guid u = p_guid this then True
      else if p_visible this then True
      else if \<not> IsPlayerAccount (p_security u) then p_security this \<le> p_security u
      else False)"

section \<open>Flags and notices\<close>

definition CHANNEL_FLAG_CUSTOM :: u8 where "CHANNEL_FLAG_CUSTOM = 0x01"
definition CHANNEL_FLAG_TRADE :: u8 where "CHANNEL_FLAG_TRADE = 0x04"
definition CHANNEL_FLAG_NOT_LFG :: u8 where "CHANNEL_FLAG_NOT_LFG = 0x08"
definition CHANNEL_FLAG_GENERAL :: u8 where "CHANNEL_FLAG_GENERAL = 0x10"
definition CHANNEL_FLAG_CITY :: u8 where "CHANNEL_FLAG_CITY = 0x20"
definition CHANNEL_FLAG_LFG :: u8 where "CHANNEL_FLAG_LFG = 0x40"

definition CHANNEL_DBC_FLAG_TRADE :: u32 where "CHANNEL_DBC_FLAG_TRADE = 0x00008"
definition CHANNEL_DBC_FLAG_CITY_ONLY2 :: u32 where "CHANNEL_DBC_FLAG_CITY_ONLY2 = 0x00020"
definition CHANNEL_DBC_FLAG_LFG :: u32 where "CHANNEL_DBC_FLAG_LFG = 0x40000"

definition MEMBER_FLAG_NONE :: u8 where "MEMBER_FLAG_NONE = 0x00"
definition MEMBER_FLAG_OWNER :: u8 where "MEMBER_FLAG_OWNER = 0x01"
definition MEMBER_FLAG_MODERATOR :: u8 where "MEMBER_FLAG_MODERATOR = 0x02"
definition MEMBER_FLAG_MUTED :: u8 where "MEMBER_FLAG_MUTED = 0x08"

datatype opcode =
    SMSG_CHANNEL_NOTIFY | SMSG_CHANNEL_LIST | SMSG_MESSAGECHAT
  | SMSG_USERLIST_ADD | SMSG_USERLIST_UPDATE | SMSG_USERLIST_REMOVE | SMSG_CHANNEL_MEMBER_COUNT

datatype packet = Packet opcode "field list"

section \<open>State and effects\<close>

record player_info =
  pi_player :: guid
  pi_flags :: u8

record channel =
  c_announce :: bool
  c_ownership :: bool
  c_saved :: bool
  c_flags :: u8
  c_id :: u32
  c_team :: u32
  c_owner :: guid
  c_name :: string
  c_password :: string
  playersStore :: "(guid, player_info) omap"
  bannedStore :: "guid list"

datatype effect =
    Send guid packet
  | DbInsertChannel string u32
  | DbUpdateChannel string u32 db_channel
  | DbUpdateUsage string u32
  | DbDeleteOldChannels u32
  | JoinedChannel guid
  | LeftChannel guid

type_synonym chan_result = "channel \<times> effect list"

text \<open>A value-initialised \<^verbatim>\<open>PlayerInfo\<close>, what \<open>playersStore[guid]\<close> creates for a missing key.\<close>

definition no_info :: player_info where
  "no_info = \<lparr>pi_player = 0, pi_flags = 0\<rparr>"

definition IsOwner :: "player_info \<Rightarrow> bool" where
  "IsOwner i \<longleftrightarrow> has_flag (pi_flags i) MEMBER_FLAG_OWNER"

definition IsModerator :: "player_info \<Rightarrow> bool" where
  "IsModerator i \<longleftrightarrow> has_flag (pi_flags i) MEMBER_FLAG_MODERATOR"

definition IsMuted :: "player_info \<Rightarrow> bool" where
  "IsMuted i \<longleftrightarrow> has_flag (pi_flags i) MEMBER_FLAG_MUTED"

definition info_flag :: "u8 \<Rightarrow> bool \<Rightarrow> player_info \<Rightarrow> player_info" where
  "info_flag m state i = i\<lparr>pi_flags := (if state then set_flag (pi_flags i) m else clear_flag (pi_flags i) m)\<rparr>"

abbreviation info_SetOwner :: "bool \<Rightarrow> player_info \<Rightarrow> player_info" where
  "info_SetOwner \<equiv> info_flag MEMBER_FLAG_OWNER"

abbreviation info_SetModerator :: "bool \<Rightarrow> player_info \<Rightarrow> player_info" where
  "info_SetModerator \<equiv> info_flag MEMBER_FLAG_MODERATOR"

abbreviation info_SetMuted :: "bool \<Rightarrow> player_info \<Rightarrow> player_info" where
  "info_SetMuted \<equiv> info_flag MEMBER_FLAG_MUTED"

definition IsConstant :: "channel \<Rightarrow> bool" where
  "IsConstant ch \<longleftrightarrow> c_id ch \<noteq> 0"

definition IsLFG :: "channel \<Rightarrow> bool" where
  "IsLFG ch \<longleftrightarrow> has_flag (c_flags ch) CHANNEL_FLAG_LFG"

definition GetNumPlayers :: "channel \<Rightarrow> u32" where
  "GetNumPlayers ch = of_nat (length (playersStore ch))"

definition IsOn :: "channel \<Rightarrow> guid \<Rightarrow> bool" where
  "IsOn ch who \<longleftrightarrow> om_find (playersStore ch) who \<noteq> None"

definition IsBanned :: "channel \<Rightarrow> guid \<Rightarrow> bool" where
  "IsBanned ch g \<longleftrightarrow> g \<in> set (bannedStore ch)"

definition GetPlayerFlags :: "channel \<Rightarrow> guid \<Rightarrow> u8" where
  "GetPlayerFlags ch g = (case om_find (playersStore ch) g of Some i \<Rightarrow> pi_flags i | None \<Rightarrow> 0)"

text \<open>\<open>playersStore[guid]\<close> read after an \<open>IsOn(guid)\<close> guard, and \<open>playersStore[guid]\<close> as an lvalue.\<close>

definition info_of :: "channel \<Rightarrow> guid \<Rightarrow> player_info" where
  "info_of ch g = (case om_find (playersStore ch) g of Some i \<Rightarrow> i | None \<Rightarrow> no_info)"

definition modify_info :: "guid \<Rightarrow> (player_info \<Rightarrow> player_info) \<Rightarrow> channel \<Rightarrow> channel" where
  "modify_info g f ch = ch\<lparr>playersStore := om_modify no_info g f (playersStore ch)\<rparr>"

section \<open>Packets\<close>

definition MakeNotifyPacket :: "channel \<Rightarrow> u8 \<Rightarrow> field list \<Rightarrow> packet" where
  "MakeNotifyPacket ch notify_type rest = Packet SMSG_CHANNEL_NOTIFY ([F8 notify_type, FStr (c_name ch)] @ rest)"

definition MakeJoined :: "channel \<Rightarrow> guid \<Rightarrow> packet" where
  "MakeJoined ch g = MakeNotifyPacket ch 0x00 [F64 g]"

definition MakeLeft :: "channel \<Rightarrow> guid \<Rightarrow> packet" where
  "MakeLeft ch g = MakeNotifyPacket ch 0x01 [F64 g]"

definition MakeYouJoined :: "channel \<Rightarrow> packet" where
  "MakeYouJoined ch = MakeNotifyPacket ch 0x02 [F8 (c_flags ch), F32 (c_id ch), F32 0]"

definition MakeYouLeft :: "channel \<Rightarrow> packet" where
  "MakeYouLeft ch = MakeNotifyPacket ch 0x03 [F32 (c_id ch), F8 (of_bool (IsConstant ch))]"

definition MakeWrongPassword :: "channel \<Rightarrow> packet" where
  "MakeWrongPassword ch = MakeNotifyPacket ch 0x04 []"

definition MakeNotMember :: "channel \<Rightarrow> packet" where
  "MakeNotMember ch = MakeNotifyPacket ch 0x05 []"

definition MakeNotModerator :: "channel \<Rightarrow> packet" where
  "MakeNotModerator ch = MakeNotifyPacket ch 0x06 []"

definition MakePasswordChanged :: "channel \<Rightarrow> guid \<Rightarrow> packet" where
  "MakePasswordChanged ch g = MakeNotifyPacket ch 0x07 [F64 g]"

definition MakeOwnerChanged :: "channel \<Rightarrow> guid \<Rightarrow> packet" where
  "MakeOwnerChanged ch g = MakeNotifyPacket ch 0x08 [F64 g]"

definition MakePlayerNotFound :: "channel \<Rightarrow> string \<Rightarrow> packet" where
  "MakePlayerNotFound ch name = MakeNotifyPacket ch 0x09 [FStr name]"

definition MakeNotOwner :: "channel \<Rightarrow> packet" where
  "MakeNotOwner ch = MakeNotifyPacket ch 0x0A []"


definition MakeChannelOwner :: "env \<Rightarrow> channel \<Rightarrow> packet" where
  "MakeChannelOwner env ch =
     (let name = (case GetPlayerNameByGUID env (c_owner ch) of
                    Some n \<Rightarrow> (if n = [] then ''PLAYER_NOT_FOUND'' else n)
                  | None \<Rightarrow> ''PLAYER_NOT_FOUND'')
      in MakeNotifyPacket ch 0x0B [FStr (if IsConstant ch \<or> c_owner ch = 0 then ''Nobody'' else name)])"

definition MakeModeChange :: "channel \<Rightarrow> guid \<Rightarrow> u8 \<Rightarrow> packet" where
  "MakeModeChange ch g oldflags = MakeNotifyPacket ch 0x0C [F64 g, F8 oldflags, F8 (GetPlayerFlags ch g)]"

definition MakeAnnouncementsOn :: "channel \<Rightarrow> guid \<Rightarrow> packet" where
  "MakeAnnouncementsOn ch g = MakeNotifyPacket ch 0x0D [F64 g]"

definition MakeAnnouncementsOff :: "channel \<Rightarrow> guid \<Rightarrow> packet" where
  "MakeAnnouncementsOff ch g = MakeNotifyPacket ch 0x0E [F64 g]"

definition MakeMuted :: "channel \<Rightarrow> packet" where
  "MakeMuted ch = MakeNotifyPacket ch 0x11 []"

definition MakePlayerKicked :: "channel \<Rightarrow> guid \<Rightarrow> guid \<Rightarrow> packet" where
  "MakePlayerKicked ch bad good = MakeNotifyPacket ch 0x12 [F64 bad, F64 good]"

definition MakeBanned :: "channel \<Rightarrow> packet" where
  "MakeBanned ch = MakeNotifyPacket ch 0x13 []"

definition MakePlayerBanned :: "channel \<Rightarrow> guid \<Rightarrow> guid \<Rightarrow> packet" where
  "MakePlayerBanned ch bad good = MakeNotifyPacket ch 0x14 [F64 bad, F64 good]"

definition MakePlayerUnbanned :: "channel \<Rightarrow> guid \<Rightarrow> guid \<Rightarrow> packet" where
  "MakePlayerUnbanned ch bad good = MakeNotifyPacket ch 0x15 [F64 bad, F64 good]"

definition MakePlayerNotBanned :: "channel \<Rightarrow> string \<Rightarrow> packet" where
  "MakePlayerNotBanned ch name = MakeNotifyPacket ch 0x16 [FStr name]"

definition MakePlayerAlreadyMember :: "channel \<Rightarrow> guid \<Rightarrow> packet" where
  "MakePlayerAlreadyMember ch g = MakeNotifyPacket ch 0x17 [F64 g]"

definition MakeInvite :: "channel \<Rightarrow> guid \<Rightarrow> packet" where
  "MakeInvite ch g = MakeNotifyPacket ch 0x18 [F64 g]"

definition MakeInviteWrongFaction :: "channel \<Rightarrow> packet" where
  "MakeInviteWrongFaction ch = MakeNotifyPacket ch 0x19 []"

definition MakeWrongFaction :: "channel \<Rightarrow> packet" where
  "MakeWrongFaction ch = MakeNotifyPacket ch 0x1A []"

definition MakeInvalidName :: "channel \<Rightarrow> packet" where
  "MakeInvalidName ch = MakeNotifyPacket ch 0x1B []"

definition MakeNotModerated :: "channel \<Rightarrow> packet" where
  "MakeNotModerated ch = MakeNotifyPacket ch 0x1C []"

definition MakePlayerInvited :: "channel \<Rightarrow> string \<Rightarrow> packet" where
  "MakePlayerInvited ch name = MakeNotifyPacket ch 0x1D [FStr name]"

definition MakePlayerInviteBanned :: "channel \<Rightarrow> string \<Rightarrow> packet" where
  "MakePlayerInviteBanned ch name = MakeNotifyPacket ch 0x1E [FStr name]"

definition MakeThrottled :: "channel \<Rightarrow> packet" where
  "MakeThrottled ch = MakeNotifyPacket ch 0x1F []"

definition MakeNotInArea :: "channel \<Rightarrow> packet" where
  "MakeNotInArea ch = MakeNotifyPacket ch 0x20 []"

definition MakeNotInLfg :: "channel \<Rightarrow> packet" where
  "MakeNotInLfg ch = MakeNotifyPacket ch 0x21 []"

definition MakeVoiceOn :: "channel \<Rightarrow> guid \<Rightarrow> packet" where
  "MakeVoiceOn ch g = MakeNotifyPacket ch 0x22 [F64 g]"

definition MakeVoiceOff :: "channel \<Rightarrow> guid \<Rightarrow> packet" where
  "MakeVoiceOff ch g = MakeNotifyPacket ch 0x23 [F64 g]"


section \<open>Sending\<close>

text \<open>The loops over the members, in key order; a member that is not in the world gets nothing.\<close>

definition SendToAll :: "env \<Rightarrow> channel \<Rightarrow> packet \<Rightarrow> guid \<Rightarrow> effect list" where
  "SendToAll env ch data g =
     concat (map (\<lambda>(k, _). case FindPlayer env k of
                     Some p \<Rightarrow> if g = 0 \<or> \<not> HasIgnore p (GUID_LOPART g) then [Send (p_guid p) data] else []
                   | None \<Rightarrow> []) (playersStore ch))"

definition SendToAllButOne :: "env \<Rightarrow> channel \<Rightarrow> packet \<Rightarrow> guid \<Rightarrow> effect list" where
  "SendToAllButOne env ch data who =
     concat (map (\<lambda>(k, _). if k \<noteq> who
                   then (case FindPlayer env k of Some p \<Rightarrow> [Send (p_guid p) data] | None \<Rightarrow> []) else [])
               (playersStore ch))"

definition SendToOne :: "env \<Rightarrow> packet \<Rightarrow> guid \<Rightarrow> effect list" where
  "SendToOne env data who = (case FindPlayer env who of Some p \<Rightarrow> [Send (p_guid p) data] | None \<Rightarrow> [])"

definition JoinNotify :: "env \<Rightarrow> channel \<Rightarrow> guid \<Rightarrow> effect list" where
  "JoinNotify env ch g =
     (let data = Packet (if IsConstant ch then SMSG_USERLIST_ADD else SMSG_USERLIST_UPDATE)
                   [F64 g, F8 (GetPlayerFlags ch g), F8 (c_flags ch), F32 (GetNumPlayers ch), FStr (c_name ch)]
      in if IsConstant ch then SendToAllButOne env ch data g else SendToAll env ch data 0)"

definition LeaveNotify :: "env \<Rightarrow> channel \<Rightarrow> guid \<Rightarrow> effect list" where
  "LeaveNotify env ch g =
     (let data = Packet SMSG_USERLIST_REMOVE
                   [F64 g, F8 (c_flags ch), F32 (GetNumPlayers ch), FStr (c_name ch)]
      in if IsConstant ch then SendToAllButOne env ch data g else SendToAll env ch data 0)"

section \<open>Construction and persistence\<close>

text \<open>\<open>bannedStore\<close> is a \<^verbatim>\<open>std::set\<close>: a strictly sorted list.\<close>

definition ban_insert :: "guid \<Rightarrow> guid list \<Rightarrow> guid list" where
  "ban_insert g bs = insort_insert g bs"

fun load_banlist :: "string list \<Rightarrow> guid list \<Rightarrow> guid list" where
  "load_banlist [] bs = bs"
| "load_banlist (t # ts) bs =
     (let banned_guid = word_of_int (atol t) :: guid
      in load_banlist ts (if banned_guid \<noteq> 0 then ban_insert banned_guid bs else bs))"

definition builtin_flags :: "u32 \<Rightarrow> u8" where
  "builtin_flags f =
     (let fl = set_flag 0 CHANNEL_FLAG_GENERAL;
          fl = (if has_flag f CHANNEL_DBC_FLAG_TRADE then set_flag fl CHANNEL_FLAG_TRADE else fl);
          fl = (if has_flag f CHANNEL_DBC_FLAG_CITY_ONLY2 then set_flag fl CHANNEL_FLAG_CITY else fl)
      in if has_flag f CHANNEL_DBC_FLAG_LFG then set_flag fl CHANNEL_FLAG_LFG
         else set_flag fl CHANNEL_FLAG_NOT_LFG)"

definition new_channel :: "env \<Rightarrow> string \<Rightarrow> u32 \<Rightarrow> u32 \<Rightarrow> chan_result" where
  "new_channel env name channelId team =
     (let ch = \<lparr>c_announce = True, c_ownership = True, c_saved = False, c_flags = 0, c_id = channelId,
                c_team = team, c_owner = 0, c_name = name, c_password = [], playersStore = [],
                bannedStore = []\<rparr>
      in case chat_channels env channelId of
           Some f \<Rightarrow> (ch\<lparr>c_announce := False, c_ownership := False, c_flags := builtin_flags f\<rparr>, [])
         | None \<Rightarrow>
             let ch = ch\<lparr>c_flags := set_flag 0 CHANNEL_FLAG_CUSTOM\<rparr>
             in if cfg_preserve_custom env
                then case db_channels env name team of
                       Some row \<Rightarrow>
                         (ch\<lparr>c_announce := row_announce row, c_ownership := row_ownership row,
                             c_password := row_password row,
                             bannedStore := (case row_banlist row of
                                               None \<Rightarrow> []
                                             | Some l \<Rightarrow> load_banlist (Tokenizer l (CHR '' '')) []),
                             c_saved := True\<rparr>, [])
                     | None \<Rightarrow> (ch\<lparr>c_saved := True\<rparr>, [DbInsertChannel name team])
                else (ch, []))"

definition print_banlist :: "guid list \<Rightarrow> string" where
  "print_banlist bs = concat (map (\<lambda>g. print_nat (unat g) @ '' '') bs)"

definition channel_row :: "channel \<Rightarrow> db_channel" where
  "channel_row ch =
     \<lparr>row_announce = c_announce ch, row_ownership = c_ownership ch, row_password = c_password ch,
      row_banlist = Some (print_banlist (bannedStore ch))\<rparr>"

definition UpdateChannelInDB :: "channel \<Rightarrow> effect list" where
  "UpdateChannelInDB ch =
     (if c_saved ch then [DbUpdateChannel (c_name ch) (c_team ch) (channel_row ch)] else [])"

definition UpdateChannelUseageInDB :: "channel \<Rightarrow> effect list" where
  "UpdateChannelUseageInDB ch = [DbUpdateUsage (c_name ch) (c_team ch)]"

definition CleanOldChannelsInDB :: "env \<Rightarrow> effect list" where
  "CleanOldChannelsInDB env =
     (if cfg_preserve_duration env > 0 then [DbDeleteOldChannels (cfg_preserve_duration env * 86400)] else [])"

section \<open>Operations\<close>

definition SetOwner :: "env \<Rightarrow> guid \<Rightarrow> bool \<Rightarrow> channel \<Rightarrow> chan_result" where
  "SetOwner env g exclaim ch =
     (let ch1 = (if c_owner ch \<noteq> 0 \<and> IsOn ch (c_owner ch)
                 then modify_info (c_owner ch) (info_SetOwner False) ch else ch);
          ch2 = ch1\<lparr>c_owner := g\<rparr>
      in if g \<noteq> 0
         then let oldFlag = GetPlayerFlags ch2 g;
                  ch3 = modify_info g (info_SetOwner True) (modify_info g (info_SetModerator True) ch2)
              in (ch3, SendToAll env ch3 (MakeModeChange ch3 g oldFlag) 0 @
                       (if exclaim then SendToAll env ch3 (MakeOwnerChanged ch3 g) 0 else []) @
                       UpdateChannelInDB ch3)
         else (ch2, []))"

definition JoinChannel :: "env \<Rightarrow> player \<Rightarrow> string \<Rightarrow> channel \<Rightarrow> chan_result" where
  "JoinChannel env p pass ch =
     (let g = p_guid p in
      if IsOn ch g
      then (ch, if \<not> IsConstant ch then SendToOne env (MakePlayerAlreadyMember ch g) g else [])
      else if IsBanned ch g then (ch, SendToOne env (MakeBanned ch) g)
      else if c_password ch \<noteq> [] \<and> pass \<noteq> c_password ch then (ch, SendToOne env (MakeWrongPassword ch) g)
      else if has_flag (c_flags ch) CHANNEL_FLAG_LFG \<and> cfg_restricted_lfg env
              \<and> IsPlayerAccount (p_security p) \<and> p_group p
      then (ch, SendToOne env (MakeNotInLfg ch) g)
      else
        let joined = (if c_announce ch \<and> (\<not> IsGMAccount (p_security p) \<or> \<not> cfg_silent_gm_join env)
                      then SendToAll env ch (MakeJoined ch g) 0 else []);
            ch1 = ch\<lparr>playersStore := om_set g \<lparr>pi_player = g, pi_flags = MEMBER_FLAG_NONE\<rparr> (playersStore ch)\<rparr>;
            effs = [JoinedChannel g] @ joined @ SendToOne env (MakeYouJoined ch1) g @ JoinNotify env ch1 g
        in if \<not> IsConstant ch1
           then let usage = (if playersStore ch1 \<noteq> [] then UpdateChannelUseageInDB ch1 else [])
                in if c_owner ch1 = 0 \<and> c_ownership ch1
                   then let (ch2, own) = SetOwner env g (length (playersStore ch1) > 1) ch1
                        in (modify_info g (info_SetModerator True) ch2, effs @ usage @ own)
                   else (ch1, effs @ usage)
           else (ch1, effs))"

definition LeaveChannel :: "env \<Rightarrow> player \<Rightarrow> bool \<Rightarrow> channel \<Rightarrow> chan_result" where
  "LeaveChannel env p send ch =
     (let g = p_guid p in
      if \<not> IsOn ch g then (ch, if send then SendToOne env (MakeNotMember ch) g else [])
      else
        let youleft = (if send then SendToOne env (MakeYouLeft ch) g @ [LeftChannel g] else []);
            changeowner = IsOwner (info_of ch g);
            ch1 = ch\<lparr>playersStore := om_erase g (playersStore ch)\<rparr>;
            left = (if c_announce ch1 \<and> (\<not> IsGMAccount (p_security p) \<or> \<not> cfg_silent_gm_join env)
                    then SendToAll env ch1 (MakeLeft ch1 g) 0 else []);
            effs = youleft @ left @ LeaveNotify env ch1 g
        in if \<not> IsConstant ch1
           then if changeowner \<and> c_ownership ch1 \<and> playersStore ch1 \<noteq> []
                then let newowner = pi_player (snd (hd (playersStore ch1)));
                         (ch2, own) = SetOwner env newowner True (modify_info newowner (info_SetModerator True) ch1)
                     in (ch2, effs @ UpdateChannelUseageInDB ch1 @ own)
                else (ch1, effs @ UpdateChannelUseageInDB ch1)
           else (ch1, effs))"

definition KickOrBan :: "env \<Rightarrow> player \<Rightarrow> string \<Rightarrow> bool \<Rightarrow> channel \<Rightarrow> chan_result" where
  "KickOrBan env p badname ban ch =
     (let sec = p_security p; good = p_guid p in
      if \<not> IsOn ch good then (ch, SendToOne env (MakeNotMember ch) good)
      else if \<not> IsModerator (info_of ch good) \<and> \<not> IsGMAccount sec
      then (ch, SendToOne env (MakeNotModerator ch) good)
      else
        let bad = FindPlayerByName env badname;
            victim = (case bad of Some b \<Rightarrow> p_guid b | None \<Rightarrow> 0)
        in if victim = 0 \<or> \<not> IsOn ch victim
           then (ch, SendToOne env (MakePlayerNotFound ch badname) good)
           else
             let changeowner = (c_owner ch = victim)
             in if \<not> IsGMAccount sec \<and> changeowner \<and> good \<noteq> c_owner ch
                then (ch, SendToOne env (MakeNotOwner ch) good)
                else
                  let notify = (\<not> (IsGMAccount sec \<and> cfg_silent_gm_join env));
                      (ch1, e1) =
                        (if ban \<and> \<not> IsBanned ch victim
                         then let ch1 = ch\<lparr>bannedStore := ban_insert victim (bannedStore ch)\<rparr>
                              in (ch1, UpdateChannelInDB ch1 @
                                       (if notify then SendToAll env ch1 (MakePlayerBanned ch1 victim good) 0 else []))
                         else (ch, if notify then SendToAll env ch (MakePlayerKicked ch victim good) 0 else []));
                      ch2 = ch1\<lparr>playersStore := om_erase victim (playersStore ch1)\<rparr>;
                      e2 = e1 @ [LeftChannel victim]
                  in if changeowner \<and> c_ownership ch2 \<and> playersStore ch2 \<noteq> []
                     then let (ch3, e3) = SetOwner env good True (modify_info good (info_SetModerator True) ch2)
                          in (ch3, e2 @ e3)
                     else (ch2, e2))"

definition Kick :: "env \<Rightarrow> player \<Rightarrow> string \<Rightarrow> channel \<Rightarrow> chan_result" where
  "Kick env p badname = KickOrBan env p badname False"

definition Ban :: "env \<Rightarrow> player \<Rightarrow> string \<Rightarrow> channel \<Rightarrow> chan_result" where
  "Ban env p badname = KickOrBan env p badname True"

definition UnBan :: "env \<Rightarrow> player \<Rightarrow> string \<Rightarrow> channel \<Rightarrow> chan_result" where
  "UnBan env p badname ch =
     (let sec = p_security p; good = p_guid p in
      if \<not> IsOn ch good then (ch, SendToOne env (MakeNotMember ch) good)
      else if \<not> IsModerator (info_of ch good) \<and> \<not> IsGMAccount sec
      then (ch, SendToOne env (MakeNotModerator ch) good)
      else
        let victim = (case FindPlayerByName env badname of Some b \<Rightarrow> p_guid b | None \<Rightarrow> 0)
        in if victim = 0 \<or> \<not> IsBanned ch victim
           then (ch, SendToOne env (MakePlayerNotFound ch badname) good)
           else let ch1 = ch\<lparr>bannedStore := remove1 victim (bannedStore ch)\<rparr>
                in (ch1, SendToAll env ch1 (MakePlayerUnbanned ch1 victim good) 0 @ UpdateChannelInDB ch1))"

definition Password :: "env \<Rightarrow> player \<Rightarrow> string \<Rightarrow> channel \<Rightarrow> chan_result" where
  "Password env p pass ch =
     (let g = p_guid p in
      if \<not> IsOn ch g then (ch, SendToOne env (MakeNotMember ch) g)
      else if \<not> IsModerator (info_of ch g) \<and> \<not> IsGMAccount (p_security p)
      then (ch, SendToOne env (MakeNotModerator ch) g)
      else let ch1 = ch\<lparr>c_password := pass\<rparr>
           in (ch1, SendToAll env ch1 (MakePasswordChanged ch1 g) 0 @ UpdateChannelInDB ch1))"

text \<open>
  \<open>SetModerator(guid, set)\<close> and \<open>SetMute(guid, set)\<close> of the header: the comparison already uses
  \<open>playersStore[guid]\<close>.
\<close>

definition SetMemberFlag :: "u8 \<Rightarrow> env \<Rightarrow> guid \<Rightarrow> bool \<Rightarrow> channel \<Rightarrow> chan_result" where
  "SetMemberFlag m env g on ch =
     (let ch0 = modify_info g (\<lambda>i. i) ch
      in if has_flag (pi_flags (info_of ch0 g)) m \<noteq> on
         then let oldFlag = GetPlayerFlags ch0 g; ch1 = modify_info g (info_flag m on) ch0
              in (ch1, SendToAll env ch1 (MakeModeChange ch1 g oldFlag) 0)
         else (ch0, []))"

definition SetModerator :: "env \<Rightarrow> guid \<Rightarrow> bool \<Rightarrow> channel \<Rightarrow> chan_result" where
  "SetModerator = SetMemberFlag MEMBER_FLAG_MODERATOR"

definition SetMute :: "env \<Rightarrow> guid \<Rightarrow> bool \<Rightarrow> channel \<Rightarrow> chan_result" where
  "SetMute = SetMemberFlag MEMBER_FLAG_MUTED"

definition SetMode :: "env \<Rightarrow> player \<Rightarrow> string \<Rightarrow> bool \<Rightarrow> bool \<Rightarrow> channel \<Rightarrow> chan_result" where
  "SetMode env p p2n md on ch =
     (let g = p_guid p; sec = p_security p in
      if \<not> IsOn ch g then (ch, SendToOne env (MakeNotMember ch) g)
      else if \<not> IsModerator (info_of ch g) \<and> \<not> IsGMAccount sec
      then (ch, SendToOne env (MakeNotModerator ch) g)
      else if g = c_owner ch \<and> p2n = p_name p \<and> md then (ch, [])
      else case FindPlayerByName env p2n of
             None \<Rightarrow> (ch, SendToOne env (MakePlayerNotFound ch p2n) g)
           | Some newp \<Rightarrow>
               let victim = p_guid newp
               in if victim = 0 \<or> \<not> IsOn ch victim
                     \<or> ((\<not> IsGMAccount sec \<or> \<not> IsGMAccount (p_security newp))
                         \<and> p_oteam p \<noteq> p_oteam newp \<and> \<not> cfg_two_side_channel env)
                  then (ch, SendToOne env (MakePlayerNotFound ch p2n) g)
                  else if c_owner ch = victim \<and> c_owner ch \<noteq> g
                  then (ch, SendToOne env (MakeNotOwner ch) g)
                  else if md then SetModerator env victim on ch
                  else SetMute env victim on ch)"

definition SetOwner_byname :: "env \<Rightarrow> player \<Rightarrow> string \<Rightarrow> channel \<Rightarrow> chan_result" where
  "SetOwner_byname env p newname ch =
     (let g = p_guid p; sec = p_security p in
      if \<not> IsOn ch g then (ch, SendToOne env (MakeNotMember ch) g)
      else if \<not> IsGMAccount sec \<and> g \<noteq> c_owner ch then (ch, SendToOne env (MakeNotOwner ch) g)
      else case FindPlayerByName env newname of
             None \<Rightarrow> (ch, SendToOne env (MakePlayerNotFound ch newname) g)
           | Some newp \<Rightarrow>
               let victim = p_guid newp
               in if victim = 0 \<or> \<not> IsOn ch victim
                     \<or> (p_oteam newp \<noteq> p_oteam p \<and> \<not> cfg_two_side_channel env)
                  then (ch, SendToOne env (MakePlayerNotFound ch newname) g)
                  else SetOwner env victim True (modify_info victim (info_SetModerator True) ch))"

definition SendWhoOwner :: "env \<Rightarrow> guid \<Rightarrow> channel \<Rightarrow> chan_result" where
  "SendWhoOwner env g ch =
     (ch, SendToOne env (if IsOn ch g then MakeChannelOwner env ch else MakeNotMember ch) g)"

text \<open>
  The entries \<open>List\<close> streams; \<open>count\<close> is written over the placeholder at \<open>pos\<close> after the loop, so the
  packet carries the number of entries in front of them.
\<close>

definition list_entries :: "env \<Rightarrow> player \<Rightarrow> channel \<Rightarrow> (guid \<times> u8) list" where
  "list_entries env p ch =
     map (\<lambda>(k, i). (k, pi_flags i))
       (filter (\<lambda>(k, i). case FindPlayer env k of
                   None \<Rightarrow> False
                 | Some member \<Rightarrow> (\<not> IsPlayerAccount (p_security p) \<or> p_security member \<le> cfg_gm_level_who env)
                     \<and> IsVisibleGloballyFor member p)
         (playersStore ch))"

definition List_members :: "env \<Rightarrow> player \<Rightarrow> channel \<Rightarrow> chan_result" where
  "List_members env p ch =
     (let g = p_guid p in
      if \<not> IsOn ch g then (ch, SendToOne env (MakeNotMember ch) g)
      else let es = list_entries env p ch
           in (ch, SendToOne env
                 (Packet SMSG_CHANNEL_LIST
                    ([F8 1, FStr (c_name ch), F8 (c_flags ch), F32 (of_nat (length es))] @
                     concat (map (\<lambda>(k, fl). [F64 k, F8 fl]) es))) g))"

definition Announce :: "env \<Rightarrow> player \<Rightarrow> channel \<Rightarrow> chan_result" where
  "Announce env p ch =
     (let g = p_guid p; sec = p_security p in
      if \<not> IsOn ch g then (ch, SendToOne env (MakeNotMember ch) g)
      else if \<not> IsModerator (info_of ch g) \<and> \<not> IsGMAccount sec
      then (ch, SendToOne env (MakeNotModerator ch) g)
      else let ch1 = ch\<lparr>c_announce := \<not> c_announce ch\<rparr>
           in (ch1, SendToAll env ch1
                      (if c_announce ch1 then MakeAnnouncementsOn ch1 g else MakeAnnouncementsOff ch1 g) 0 @
                    UpdateChannelInDB ch1))"

definition say_packet :: "env \<Rightarrow> channel \<Rightarrow> guid \<Rightarrow> string \<Rightarrow> u32 \<Rightarrow> packet" where
  "say_packet env ch g what lang =
     Packet SMSG_MESSAGECHAT
       [F8 0x11, F32 lang, F64 g, F32 0, FStr (c_name ch), F64 g, F32 (of_nat (length what + 1)), FStr what,
        F8 (case FindPlayer env g of Some p \<Rightarrow> p_chat_tag p | None \<Rightarrow> 0)]"

definition Say :: "env \<Rightarrow> guid \<Rightarrow> string \<Rightarrow> u32 \<Rightarrow> channel \<Rightarrow> chan_result" where
  "Say env g what lang ch =
     (if what = [] then (ch, [])
      else
        let lang = (if cfg_two_side_channel env then 0 else lang)
        in if \<not> IsOn ch g then (ch, SendToOne env (MakeNotMember ch) g)
           else if IsMuted (info_of ch g) then (ch, SendToOne env (MakeMuted ch) g)
           else (ch, SendToAll env ch (say_packet env ch g what lang)
                       (if \<not> IsModerator (info_of ch g) then g else 0)))"

definition Invite :: "env \<Rightarrow> player \<Rightarrow> string \<Rightarrow> channel \<Rightarrow> chan_result" where
  "Invite env p newname ch =
     (let g = p_guid p in
      if \<not> IsOn ch g then (ch, SendToOne env (MakeNotMember ch) g)
      else case FindPlayerByName env newname of
             None \<Rightarrow> (ch, SendToOne env (MakePlayerNotFound ch newname) g)
           | Some newp \<Rightarrow>
               if \<not> p_gm_visible newp then (ch, SendToOne env (MakePlayerNotFound ch newname) g)
               else if IsBanned ch (p_guid newp) then (ch, SendToOne env (MakePlayerInviteBanned ch newname) g)
               else if p_oteam newp \<noteq> p_oteam p \<and> \<not> cfg_two_side_channel env
               then (ch, SendToOne env (MakeInviteWrongFaction ch) g)
               else if IsOn ch (p_guid newp)
               then (ch, SendToOne env (MakePlayerAlreadyMember ch (p_guid newp)) g)
               else (ch, (if \<not> HasIgnore newp (GUID_LOPART g) then SendToOne env (MakeInvite ch g) (p_guid newp) else []) @
                         SendToOne env (MakePlayerInvited ch (p_name newp)) g))"

end
