(* ===== verification/Utf8.thy ===== *)
theory Utf8
  imports Util
begin

text \<open>
  Decoding and encoding of names: the checked decoder and encoder of the bundled utf8cpp library
  (src/dep/utf8cpp/utf8), the conversion wrappers of Util.cpp that use them, and the name
  normalisation of ObjectMgr.cpp. Octets, UTF-16 units and code points are natural numbers; shifts
  and masks on them are written as multiplication, division and remainder, and the disjunction of two
  numbers that share no bit as their sum.

  The wrappers size the output buffer by the number of code points, but \<^verbatim>\<open>utf8to16\<close> writes two units for
  a code point beyond the basic plane. A write past the buffer is the error \<open>BufferOverrun\<close>.
\<close>

section \<open>The library\<close>

datatype utf_error =
    NOT_ENOUGH_ROOM | INVALID_LEAD | INCOMPLETE_SEQUENCE | OVERLONG_SEQUENCE | INVALID_CODE_POINT | INVALID_UTF16

type_synonym octets = "nat list"

definition is_trail :: "nat \<Rightarrow> bool" where
  "is_trail oc \<longleftrightarrow> oc div 64 = 2"

definition is_lead_surrogate :: "nat \<Rightarrow> bool" where
  "is_lead_surrogate cp \<longleftrightarrow> 0xD800 \<le> cp \<and> cp \<le> 0xDBFF"

definition is_trail_surrogate :: "nat \<Rightarrow> bool" where
  "is_trail_surrogate cp \<longleftrightarrow> 0xDC00 \<le> cp \<and> cp \<le> 0xDFFF"

definition is_surrogate :: "nat \<Rightarrow> bool" where
  "is_surrogate cp \<longleftrightarrow> 0xD800 \<le> cp \<and> cp \<le> 0xDFFF"

definition is_code_point_valid :: "nat \<Rightarrow> bool" where
  "is_code_point_valid cp \<longleftrightarrow> cp \<le> 0x10FFFF \<and> \<not> is_surrogate cp"

definition sequence_length :: "nat \<Rightarrow> nat" where
  "sequence_length lead =
     (if lead < 0x80 then 1
      else if lead div 32 = 0x6 then 2
      else if lead div 16 = 0xE then 3
      else if lead div 8 = 0x1E then 4
      else 0)"

definition is_overlong_sequence :: "nat \<Rightarrow> nat \<Rightarrow> bool" where
  "is_overlong_sequence cp len \<longleftrightarrow>
     (if cp < 0x80 then len \<noteq> 1 else if cp < 0x800 then len \<noteq> 2 else if cp < 0x10000 then len \<noteq> 3 else False)"

text \<open>\<^verbatim>\<open>increase_safely\<close>: the next octet, which has to be a trail octet.\<close>

fun next_trail :: "octets \<Rightarrow> utf_error + (nat \<times> octets)" where
  "next_trail [] = Inl NOT_ENOUGH_ROOM"
| "next_trail (t # rest) = (if is_trail t then Inr (t, rest) else Inl INCOMPLETE_SEQUENCE)"

definition get_sequence_2 :: "nat \<Rightarrow> octets \<Rightarrow> utf_error + (nat \<times> octets)" where
  "get_sequence_2 lead rest =
     (case next_trail rest of
        Inl e \<Rightarrow> Inl e
      | Inr (t, rest) \<Rightarrow> Inr ((lead * 2 ^ 6) mod 0x800 + t mod 0x40, rest))"

definition get_sequence_3 :: "nat \<Rightarrow> octets \<Rightarrow> utf_error + (nat \<times> octets)" where
  "get_sequence_3 lead rest =
     (case next_trail rest of
        Inl e \<Rightarrow> Inl e
      | Inr (t, rest) \<Rightarrow>
          case next_trail rest of
            Inl e \<Rightarrow> Inl e
          | Inr (t', rest) \<Rightarrow>
              Inr ((lead * 2 ^ 12) mod 0x10000 + (t * 2 ^ 6) mod 0x1000 + t' mod 0x40, rest))"

definition get_sequence_4 :: "nat \<Rightarrow> octets \<Rightarrow> utf_error + (nat \<times> octets)" where
  "get_sequence_4 lead rest =
     (case next_trail rest of
        Inl e \<Rightarrow> Inl e
      | Inr (t, rest) \<Rightarrow>
          case next_trail rest of
            Inl e \<Rightarrow> Inl e
          | Inr (t', rest) \<Rightarrow>
              case next_trail rest of
                Inl e \<Rightarrow> Inl e
              | Inr (t'', rest) \<Rightarrow>
                  Inr ((lead * 2 ^ 18) mod 0x200000 + (t * 2 ^ 12) mod 0x40000 + (t' * 2 ^ 6) mod 0x1000
                       + t'' mod 0x40, rest))"

definition validate_next :: "nat \<Rightarrow> octets \<Rightarrow> utf_error + (nat \<times> octets)" where
  "validate_next lead rest =
     (let len = sequence_length lead;
          r = (if len = 1 then Inr (lead, rest)
               else if len = 2 then get_sequence_2 lead rest
               else if len = 3 then get_sequence_3 lead rest
               else if len = 4 then get_sequence_4 lead rest
               else Inl INVALID_LEAD)
      in case r of
           Inl e \<Rightarrow> Inl e
         | Inr (cp, rest) \<Rightarrow>
             if is_code_point_valid cp
             then if \<not> is_overlong_sequence cp len then Inr (cp, rest) else Inl OVERLONG_SEQUENCE
             else Inl INVALID_CODE_POINT)"

text \<open>The loop of \<^verbatim>\<open>distance\<close> and \<^verbatim>\<open>utf8to16\<close>: all code points of a string.\<close>

lemma next_trail_shorter: "next_trail bs = Inr (t, rest) \<Longrightarrow> length rest < length bs"
  by (cases bs) (auto split: if_splits)

lemma validate_next_shorter: "validate_next b bs = Inr (cp, rest) \<Longrightarrow> length rest \<le> length bs"
  by (auto simp: validate_next_def Let_def get_sequence_2_def get_sequence_3_def get_sequence_4_def
      split: if_splits sum.splits dest!: next_trail_shorter)

function decode_all :: "octets \<Rightarrow> utf_error + nat list" where
  "decode_all [] = Inr []"
| "decode_all (b # bs) =
     (case validate_next b bs of
        Inl e \<Rightarrow> Inl e
      | Inr (cp, rest) \<Rightarrow>
          case decode_all rest of
            Inl e \<Rightarrow> Inl e
          | Inr cps \<Rightarrow> Inr (cp # cps))"
  by pat_completeness auto
termination
  by (relation "measure length") (auto dest!: validate_next_shorter)

text \<open>\<^verbatim>\<open>utf8to16\<close> of one code point.\<close>

definition units_of :: "nat \<Rightarrow> nat list" where
  "units_of cp =
     (if cp > 0xFFFF then [cp div 2 ^ 10 + (0xD800 - 0x40), cp mod 0x400 + 0xDC00] else [cp])"

definition utf8_append :: "nat \<Rightarrow> utf_error + octets" where
  "utf8_append cp =
     (if \<not> is_code_point_valid cp then Inl INVALID_CODE_POINT
      else Inr
        (if cp < 0x80 then [cp]
         else if cp < 0x800 then [0xC0 + cp div 2 ^ 6, 0x80 + cp mod 0x40]
         else if cp < 0x10000 then [0xE0 + cp div 2 ^ 12, 0x80 + cp div 2 ^ 6 mod 0x40, 0x80 + cp mod 0x40]
         else [0xF0 + cp div 2 ^ 18, 0x80 + cp div 2 ^ 12 mod 0x40, 0x80 + cp div 2 ^ 6 mod 0x40, 0x80 + cp mod 0x40]))"

fun utf16to8 :: "nat list \<Rightarrow> utf_error + octets" where
  "utf16to8 [] = Inr []"
| "utf16to8 (w # ws) =
     (let u = w mod 0x10000
      in if is_lead_surrogate u
         then (case ws of
                 [] \<Rightarrow> Inl INVALID_UTF16
               | w' # ws' \<Rightarrow>
                   let t = w' mod 0x10000
                   in if is_trail_surrogate t
                      then (case utf8_append (u * 2 ^ 10 + t - (0xD800 * 2 ^ 10 + 0xDC00 - 0x10000)) of
                              Inl e \<Rightarrow> Inl e
                            | Inr os \<Rightarrow> (case utf16to8 ws' of Inl e \<Rightarrow> Inl e | Inr os' \<Rightarrow> Inr (os @ os')))
                      else Inl INVALID_UTF16)
         else if is_trail_surrogate u then Inl INVALID_UTF16
         else (case utf8_append u of
                 Inl e \<Rightarrow> Inl e
               | Inr os \<Rightarrow> (case utf16to8 ws of Inl e \<Rightarrow> Inl e | Inr os' \<Rightarrow> Inr (os @ os'))))"

section \<open>The wrappers\<close>

datatype conv_error = ConversionFailed | BufferOverrun

definition string_octets :: "string \<Rightarrow> octets" where
  "string_octets s = map of_char s"

definition octets_string :: "octets \<Rightarrow> string" where
  "octets_string os = map char_of os"

text \<open>\<open>Utf8toWStr(std::string const&, std::wstring&)\<close>; a conversion error leaves the empty string.\<close>

definition Utf8toWStr :: "string \<Rightarrow> conv_error + wstring" where
  "Utf8toWStr s =
     (case decode_all (string_octets s) of
        Inl _ \<Rightarrow> Inl ConversionFailed
      | Inr cps \<Rightarrow>
          let units = concat (map units_of cps)
          in if length units > length cps then Inl BufferOverrun else Inr units)"

text \<open>
  \<open>Utf8toWStr(char const*, size_t, wchar_t*, size_t& wsize)\<close> into a buffer with room for
  \<open>wsize + 1\<close> units; the result is the first \<open>wsize'\<close> units, \<open>wsize'\<close> the number of code points.
\<close>

definition Utf8toWStr_buf :: "string \<Rightarrow> nat \<Rightarrow> conv_error + wstring" where
  "Utf8toWStr_buf s wsize =
     (case decode_all (string_octets s) of
        Inl _ \<Rightarrow> Inl ConversionFailed
      | Inr cps \<Rightarrow>
          if length cps > wsize then Inl ConversionFailed
          else let units = concat (map units_of cps)
               in if length units > wsize + 1 then Inl BufferOverrun else Inr (take (length cps) units))"

definition WStrToUtf8 :: "wstring \<Rightarrow> conv_error + string" where
  "WStrToUtf8 w = (case utf16to8 w of Inl _ \<Rightarrow> Inl ConversionFailed | Inr os \<Rightarrow> Inr (octets_string os))"

text \<open>\<^verbatim>\<open>Utf8FitTo\<close>: the lower-cased name contains the search text.\<close>

fun contains_w :: "wstring \<Rightarrow> wstring \<Rightarrow> bool" where
  "contains_w [] pat \<longleftrightarrow> pat = []"
| "contains_w (c # cs) pat \<longleftrightarrow> take (length pat) (c # cs) = pat \<or> contains_w cs pat"

definition Utf8FitTo :: "string \<Rightarrow> wstring \<Rightarrow> conv_error + bool" where
  "Utf8FitTo str search =
     (case Utf8toWStr str of
        Inl ConversionFailed \<Rightarrow> Inr False
      | Inl BufferOverrun \<Rightarrow> Inl BufferOverrun
      | Inr temp \<Rightarrow> Inr (contains_w (wstrToLower temp) search))"

section \<open>Player names\<close>

definition MAX_INTERNAL_PLAYER_NAME :: nat where
  "MAX_INTERNAL_PLAYER_NAME = 15"

text \<open>The new name, or nothing where the function returns false; the buffer may overrun.\<close>

definition normalizePlayerName :: "string \<Rightarrow> conv_error + string option" where
  "normalizePlayerName name =
     (if name = [] then Inr None
      else case Utf8toWStr_buf name MAX_INTERNAL_PLAYER_NAME of
             Inl ConversionFailed \<Rightarrow> Inr None
           | Inl BufferOverrun \<Rightarrow> Inl BufferOverrun
           | Inr w \<Rightarrow>
               let w' = (case w of [] \<Rightarrow> [] | c # cs \<Rightarrow> wcharToUpper c # wstrToLower cs)
               in case WStrToUtf8 w' of Inl _ \<Rightarrow> Inr None | Inr n \<Rightarrow> Inr (Some n))"

section \<open>One character\<close>

lemma add_div_const: "x < q \<Longrightarrow> (q * k + x) div q = (k :: nat)" "x < q \<Longrightarrow> (q * k + x) mod q = x"
  by simp_all

lemma trail_octet: "y < 64 \<Longrightarrow> is_trail (128 + y)" "y < 64 \<Longrightarrow> (128 + y) mod 64 = y"
  unfolding is_trail_def using add_div_const [of y 64 2] by simp_all

lemma validate_1: "cp < 0x80 \<Longrightarrow> validate_next cp rest = Inr (cp, rest)"
  by (simp add: validate_next_def sequence_length_def is_code_point_valid_def is_surrogate_def is_overlong_sequence_def)

lemma validate_2:
  assumes "x < 32" "y < 64" "is_code_point_valid (64 * x + y)" "0x80 \<le> 64 * x + y"
  shows "validate_next (0xC0 + x) ((0x80 + y) # rest) = Inr (64 * x + y, rest)"
proof -
  have "(192 + x) div 32 = 6" "(192 + x) * 64 mod 2048 = 64 * x"
    using assms(1) add_div_const [of x 32 6] add_div_const [of "64 * x" 2048 6] by (simp_all add: mult.commute)
  then show ?thesis
    using assms trail_octet [OF assms(2)]
    by (simp add: validate_next_def sequence_length_def get_sequence_2_def is_overlong_sequence_def)
qed

lemma validate_3:
  assumes "x < 16" "y < 64" "z < 64" "is_code_point_valid (4096 * x + 64 * y + z)" "0x800 \<le> 4096 * x + 64 * y + z"
  shows "validate_next (0xE0 + x) ((0x80 + y) # (0x80 + z) # rest) = Inr (4096 * x + 64 * y + z, rest)"
proof -
  have "(224 + x) div 32 = 7" "(224 + x) div 16 = 14" "(224 + x) * 4096 mod 65536 = 4096 * x" "(128 + y) * 64 mod 4096 = 64 * y"
    using assms(1,2) add_div_const [of x 32 7] add_div_const [of x 16 14] add_div_const [of "4096 * x" 65536 14]
      add_div_const [of "64 * y" 4096 2] by (simp_all add: mult.commute)
  then show ?thesis
    using assms trail_octet [OF assms(2)] trail_octet [OF assms(3)]
    by (simp add: validate_next_def sequence_length_def get_sequence_3_def is_overlong_sequence_def)
qed

lemma validate_4:
  assumes "x < 8" "y < 64" "z < 64" "u < 64" "is_code_point_valid (262144 * x + 4096 * y + 64 * z + u)"
    "0x10000 \<le> 262144 * x + 4096 * y + 64 * z + u"
  shows "validate_next (0xF0 + x) ((0x80 + y) # (0x80 + z) # (0x80 + u) # rest) = Inr (262144 * x + 4096 * y + 64 * z + u, rest)"
proof -
  have "(240 + x) div 32 = 7" using assms(1) add_div_const(1) [of "16 + x" 32 7] by simp
  moreover have "(240 + x) div 16 = 15" using assms(1) add_div_const(1) [of x 16 15] by simp
  moreover have "(240 + x) div 8 = 30" using assms(1) add_div_const(1) [of x 8 30] by simp
  moreover have "(240 + x) * 262144 mod 2097152 = 262144 * x"
    using assms(1) add_div_const(2) [of "262144 * x" 2097152 30] by (simp add: mult.commute)
  moreover have "(128 + y) * 4096 mod 262144 = 4096 * y"
    using assms(2) add_div_const(2) [of "4096 * y" 262144 2] by (simp add: mult.commute)
  moreover have "(128 + z) * 64 mod 4096 = 64 * z"
    using assms(3) add_div_const(2) [of "64 * z" 4096 2] by (simp add: mult.commute)
  ultimately show ?thesis
    using assms trail_octet [OF assms(2)] trail_octet [OF assms(3)] trail_octet [OF assms(4)]
    by (simp add: validate_next_def sequence_length_def get_sequence_4_def is_overlong_sequence_def)
qed

lemma split_3: "4096 * (n div 4096) + 64 * (n div 64 mod 64) + n mod 64 = (n :: nat)"
proof -
  have "64 * (64 * (n div 64 div 64) + n div 64 mod 64) + n mod 64 = n" by (simp only: mult_div_mod_eq)
  then show ?thesis by (simp add: div_mult2_eq [symmetric] algebra_simps)
qed

lemma split_4: "262144 * (n div 262144) + 4096 * (n div 4096 mod 64) + 64 * (n div 64 mod 64) + n mod 64 = (n :: nat)"
proof -
  have "64 * (64 * (64 * (n div 64 div 64 div 64) + n div 64 div 64 mod 64) + n div 64 mod 64) + n mod 64 = n"
    by (simp only: mult_div_mod_eq)
  then show ?thesis by (simp add: div_mult2_eq [symmetric] algebra_simps)
qed

lemma validate_append:
  assumes "utf8_append cp = Inr os"
  shows "\<exists>b bs. os = b # bs \<and> validate_next b (bs @ rest) = Inr (cp, rest) \<and> list_all (\<lambda>b. b < 256) os"
proof -
  from assms have v: "is_code_point_valid cp" by (simp add: utf8_append_def split: if_splits)
  then have max: "cp \<le> 0x10FFFF" by (simp add: is_code_point_valid_def)
  consider "cp < 0x80" | "0x80 \<le> cp" "cp < 0x800" | "0x800 \<le> cp" "cp < 0x10000" | "0x10000 \<le> cp" by linarith
  then show ?thesis
  proof cases
    case 1
    with assms v have "os = [cp]" by (simp add: utf8_append_def)
    with 1 validate_1 [OF 1] show ?thesis by simp
  next
    case 2
    have e: "64 * (cp div 64) + cp mod 64 = cp" by simp
    have "cp div 64 < 32" using 2 by (simp add: div_less_iff_less_mult)
    with 2 e v assms validate_2 [of "cp div 64" "cp mod 64"] show ?thesis
      by (auto simp: utf8_append_def)
  next
    case 3
    have e: "4096 * (cp div 4096) + 64 * (cp div 64 mod 64) + cp mod 64 = cp"
      by (rule split_3)
    have "cp div 4096 < 16" using 3 by (simp add: div_less_iff_less_mult)
    with 3 e v assms validate_3 [of "cp div 4096" "cp div 64 mod 64" "cp mod 64"] show ?thesis
      by (auto simp: utf8_append_def)
  next
    case 4
    have e: "262144 * (cp div 262144) + 4096 * (cp div 4096 mod 64) + 64 * (cp div 64 mod 64) + cp mod 64 = cp"
      by (rule split_4)
    have "cp div 262144 < 8" using max by (simp add: div_less_iff_less_mult)
    with 4 e v assms validate_4 [of "cp div 262144" "cp div 4096 mod 64" "cp div 64 mod 64" "cp mod 64"] show ?thesis
      by (auto simp: utf8_append_def)
  qed
qed
section \<open>Strings\<close>

lemma decode_append:
  assumes "utf8_append cp = Inr os"
  shows "decode_all (os @ rest) = (case decode_all rest of Inl e \<Rightarrow> Inl e | Inr cps \<Rightarrow> Inr (cp # cps))"
  using validate_append [OF assms, of rest] by auto

text \<open>A unit of the basic plane that is not a surrogate: one unit, one code point.\<close>

definition bmp :: "nat \<Rightarrow> bool" where
  "bmp u \<longleftrightarrow> u < 0x10000 \<and> \<not> is_surrogate u"

lemma utf16to8_bmp:
  "list_all bmp ws \<Longrightarrow> \<exists>os. utf16to8 ws = Inr os \<and> decode_all os = Inr ws \<and> list_all (\<lambda>b. b < 256) os"
proof (induction ws)
  case Nil
  then show ?case by simp
next
  case (Cons w ws)
  then obtain os where os: "utf16to8 ws = Inr os" "decode_all os = Inr ws" "list_all (\<lambda>b. b < 256) os" by auto
  have w: "w mod 0x10000 = w" "\<not> is_lead_surrogate w" "\<not> is_trail_surrogate w" "is_code_point_valid w"
    using Cons.prems by (auto simp: bmp_def is_surrogate_def is_lead_surrogate_def is_trail_surrogate_def is_code_point_valid_def)
  then obtain os1 where a: "utf8_append w = Inr os1" by (simp add: utf8_append_def)
  have "utf16to8 (w # ws) = Inr (os1 @ os)" using w a os by simp
  then show ?case using decode_append [OF a, of os] validate_append [OF a, of os] os by auto
qed

lemma octets_inverse: "list_all (\<lambda>b. b < 256) os \<Longrightarrow> string_octets (octets_string os) = os"
  by (induction os) (auto simp: string_octets_def octets_string_def)

lemma units_length: "length (concat (map units_of cps)) = length cps + length (filter (\<lambda>cp. cp > 0xFFFF) cps)"
  by (induction cps) (auto simp: units_of_def)

lemma units_bmp: "list_all (\<lambda>cp. cp \<le> 0xFFFF) cps \<Longrightarrow> concat (map units_of cps) = cps"
  by (induction cps) (auto simp: units_of_def)

lemma decode_all_valid: "decode_all bs = Inr cps \<Longrightarrow> list_all is_code_point_valid cps"
proof (induction bs arbitrary: cps rule: decode_all.induct)
  case (2 b bs)
  then obtain cp rest cps' where v: "validate_next b bs = Inr (cp, rest)" and d: "decode_all rest = Inr cps'"
    and cps: "cps = cp # cps'"
    by (auto split: sum.splits)
  have "is_code_point_valid cp" using v by (auto simp: validate_next_def Let_def split: sum.splits if_splits)
  with 2(1) [OF v refl d] cps show ?case by simp
qed simp

lemma bmp_upper: "bmp u \<Longrightarrow> bmp (wcharToUpper u)"
  by (cases u rule: upper_cases) (auto simp: bmp_def is_surrogate_def)

lemma bmp_lower: "bmp u \<Longrightarrow> bmp (wcharToLower u)"
  by (cases u rule: lower_cases) (auto simp: bmp_def is_surrogate_def)

text \<open>
  C35: Every wide string of basic-plane characters is encoded to UTF-8, and decoding the result gives
  the string back.
\<close>

theorem utf8_roundtrip:
  assumes "list_all bmp w"
  shows "\<exists>s. WStrToUtf8 w = Inr s \<and> Utf8toWStr s = Inr w"
proof -
  from utf16to8_bmp [OF assms] obtain os where
    os: "utf16to8 w = Inr os" "decode_all os = Inr w" "list_all (\<lambda>b. b < 256) os" by blast
  have "concat (map units_of w) = w"
    using assms by (intro units_bmp) (auto simp: list_all_iff bmp_def)
  then have "Utf8toWStr (octets_string os) = Inr w"
    using os by (simp add: Utf8toWStr_def octets_inverse)
  then show ?thesis using os(1) by (simp add: WStrToUtf8_def)
qed

theorem utf8_roundtrip_witness:
  "\<exists>s. WStrToUtf8 [0x41, 0x436, 0x4E2D] = Inr s \<and> Utf8toWStr s = Inr [0x41, 0x436, 0x4E2D]"
  using utf8_roundtrip [of "[0x41, 0x436, 0x4E2D]"] by (simp add: bmp_def is_surrogate_def)

lemma decode_emoji: "decode_all (concat (replicate n [240, 159, 152, 128])) = Inr (replicate n 0x1F600)"
proof (induction n)
  case (Suc n)
  have "utf8_append 0x1F600 = Inr [240, 159, 152, 128]"
    by (simp add: utf8_append_def is_code_point_valid_def is_surrogate_def)
  from decode_append [OF this, of "concat (replicate n [240, 159, 152, 128])"] Suc show ?case by simp
qed simp

lemma normalize_overrun_iff:
  "normalizePlayerName name = Inl BufferOverrun \<longleftrightarrow>
     (\<exists>cps. name \<noteq> [] \<and> decode_all (string_octets name) = Inr cps \<and> length cps \<le> 15
        \<and> length cps + length (filter (\<lambda>cp. cp > 0xFFFF) cps) > 16)"
proof -
  have "normalizePlayerName name = Inl BufferOverrun \<longleftrightarrow> name \<noteq> [] \<and> Utf8toWStr_buf name 15 = Inl BufferOverrun"
    by (simp add: normalizePlayerName_def MAX_INTERNAL_PLAYER_NAME_def Let_def split: sum.split conv_error.split)
  moreover have "Utf8toWStr_buf name 15 = Inl BufferOverrun \<longleftrightarrow>
     (\<exists>cps. decode_all (string_octets name) = Inr cps \<and> length cps \<le> 15
        \<and> length cps + length (filter (\<lambda>cp. cp > 0xFFFF) cps) > 16)"
    unfolding Utf8toWStr_buf_def Let_def units_length by (cases "decode_all (string_octets name)") auto
  ultimately show ?thesis by blast
qed

text \<open>
  C40: Normalising a name writes past its fixed buffer exactly when the name is well-formed UTF-8 of at
  most 15 code points whose UTF-16 form needs more than 16 units, that is, when it has enough code
  points beyond the basic plane; a name of nine such characters does.
\<close>

theorem normalizePlayerName_overrun:
  "(normalizePlayerName name = Inl BufferOverrun \<longleftrightarrow>
     (\<exists>cps. name \<noteq> [] \<and> decode_all (string_octets name) = Inr cps \<and> length cps \<le> 15
        \<and> length cps + length (filter (\<lambda>cp. cp > 0xFFFF) cps) > 16))
   \<and> normalizePlayerName (concat (replicate 9 [CHR 0xF0, CHR 0x9F, CHR 0x98, CHR 0x80])) = Inl BufferOverrun"
proof -
  let ?n = "concat (replicate 9 [CHR 0xF0, CHR 0x9F, CHR 0x98, CHR 0x80])"
  have "string_octets ?n = concat (replicate 9 [240, 159, 152, 128])"
    by (simp add: string_octets_def map_concat)
  then have "decode_all (string_octets ?n) = Inr (replicate 9 0x1F600)" by (simp only: decode_emoji)
  moreover have "?n \<noteq> []" by (simp add: numeral_eq_Suc)
  ultimately have "normalizePlayerName ?n = Inl BufferOverrun"
    unfolding normalize_overrun_iff by (intro exI [of _ "replicate 9 0x1F600"]) simp
  then show ?thesis using normalize_overrun_iff by simp
qed

lemma normalize_bmp:
  assumes "name \<noteq> []" "decode_all (string_octets name) = Inr (c # cs)" "list_all bmp (c # cs)" "length (c # cs) \<le> 15"
  shows "\<exists>m. normalizePlayerName name = Inr (Some m) \<and> m \<noteq> [] \<and> WStrToUtf8 (wcharToUpper c # wstrToLower cs) = Inr m
    \<and> decode_all (string_octets m) = Inr (wcharToUpper c # wstrToLower cs)"
proof -
  let ?w = "wcharToUpper c # wstrToLower cs"
  have "list_all bmp ?w"
    using assms(3) bmp_upper bmp_lower by (auto simp: wstrToLower_def list_all_iff)
  from utf16to8_bmp [OF this] obtain os where
    os: "utf16to8 ?w = Inr os" "decode_all os = Inr ?w" "list_all (\<lambda>b. b < 256) os" by blast
  have units: "concat (map units_of (c # cs)) = c # cs"
    using assms(3) by (intro units_bmp) (auto simp: list_all_iff bmp_def)
  have buf: "Utf8toWStr_buf name MAX_INTERNAL_PLAYER_NAME = Inr (c # cs)"
    unfolding Utf8toWStr_buf_def assms(2) sum.case units Let_def
    using assms(4) by (simp add: MAX_INTERNAL_PLAYER_NAME_def)
  have norm: "normalizePlayerName name = Inr (Some (octets_string os))"
    unfolding normalizePlayerName_def buf
    using assms(1) os(1) by (simp add: WStrToUtf8_def)
  have "os \<noteq> []" using os(2) by auto
  then have "octets_string os \<noteq> []" by (simp add: octets_string_def)
  then show ?thesis using norm os by (simp add: octets_inverse WStrToUtf8_def)
qed

text \<open>
  For a name of at most 15 basic-plane characters, normalisation succeeds, and a normalised name is
  its own normal form.
\<close>

theorem normalizePlayerName_idempotent:
  assumes "name \<noteq> []" "decode_all (string_octets name) = Inr cps" "list_all bmp cps" "length cps \<le> 15"
  shows "\<exists>m. normalizePlayerName name = Inr (Some m) \<and> normalizePlayerName m = Inr (Some m)"
proof -
  obtain c cs where cps: "cps = c # cs"
    using assms(1,2) by (cases name) (auto simp: string_octets_def split: sum.splits)
  let ?w = "wcharToUpper c # wstrToLower cs"
  from normalize_bmp [of name c cs] assms cps obtain m where
    m: "normalizePlayerName name = Inr (Some m)" "m \<noteq> []" "WStrToUtf8 ?w = Inr m"
    "decode_all (string_octets m) = Inr ?w" by auto
  have ok: "list_all bmp ?w" "length ?w \<le> 15"
    using assms(3,4) cps bmp_upper bmp_lower by (auto simp: wstrToLower_def list_all_iff)
  have "wcharToUpper (wcharToUpper c) # wstrToLower (wstrToLower cs) = ?w"
    by (simp add: upper_upper wstrToLower_def lower_lower)
  with normalize_bmp [OF m(2,4) ok] m(3) have "normalizePlayerName m = Inr (Some m)" by auto
  with m(1) show ?thesis by auto
qed

theorem normalizePlayerName_idempotent_witness:
  "\<exists>m. normalizePlayerName ''tHRALL'' = Inr (Some m) \<and> normalizePlayerName m = Inr (Some m)"
proof (rule normalizePlayerName_idempotent)
  show "decode_all (string_octets ''tHRALL'') = Inr [0x74, 0x48, 0x52, 0x41, 0x4C, 0x4C]"
    by (simp add: string_octets_def validate_1)
qed (simp_all add: bmp_def is_surrogate_def)

end
