(* ===== verification/ChannelMgr.thy ===== *)
theory ChannelMgr
  imports Channel Utf8 "HOL-Library.List_Lexorder"
begin

text \<open>
  The channel managers of the two factions (src/src/server/game/Chat/Channels/ChannelMgr.cpp), the
  channel packets of a session (src/src/server/game/Handlers/ChannelHandler.cpp) and the channel list of
  a player (the channel part of src/src/server/game/Entities/Player/Player.cpp).

  A \<^verbatim>\<open>Channel*\<close> is a reference: the manager that owns the channel and the key it is stored under.
  Following a reference to a channel that was deleted is the error \<open>UseAfterFree\<close>; the handlers also
  fail with the exception of a short packet or an overrun of a conversion buffer.
\<close>

section \<open>State\<close>

datatype mgr_id = AllianceChannelMgr | HordeChannelMgr

record channel_mgr =
  mgr_channels :: "(wstring, channel) omap"
  mgr_team :: u32

type_synonym cref = "mgr_id \<times> wstring"

record chat_state =
  managers :: "mgr_id \<Rightarrow> channel_mgr"
  m_channels :: "guid \<Rightarrow> cref list"

datatype chat_error = PacketError bb_error | ConvError conv_error | UseAfterFree

type_synonym 'a chat = "chat_state \<Rightarrow> chat_error + ('a \<times> chat_state \<times> effect list)"

definition chat_return :: "'a \<Rightarrow> 'a chat" where
  "chat_return x st = Inr (x, st, [])"

definition chat_fail :: "chat_error \<Rightarrow> 'a chat" where
  "chat_fail e st = Inl e"

definition chat_emit :: "effect list \<Rightarrow> unit chat" where
  "chat_emit effs st = Inr ((), st, effs)"

definition chat_bind :: "'a chat \<Rightarrow> ('a \<Rightarrow> 'b chat) \<Rightarrow> 'b chat" where
  "chat_bind m f st =
     (case m st of
        Inl e \<Rightarrow> Inl e
      | Inr (x, st1, e1) \<Rightarrow>
          case f x st1 of
            Inl e \<Rightarrow> Inl e
          | Inr (y, st2, e2) \<Rightarrow> Inr (y, st2, e1 @ e2))"

definition chat_parse :: "'a bb \<Rightarrow> byte_buffer \<Rightarrow> 'a chat" where
  "chat_parse get data =
     (case get data of Inl e \<Rightarrow> chat_fail (PacketError e) | Inr (x, _) \<Rightarrow> chat_return x)"

definition chat_conv :: "conv_error + 'a \<Rightarrow> 'a chat" where
  "chat_conv r = (case r of Inl e \<Rightarrow> chat_fail (ConvError e) | Inr x \<Rightarrow> chat_return x)"

section \<open>The managers\<close>

definition ALLIANCE :: u32 where "ALLIANCE = 469"
definition HORDE :: u32 where "HORDE = 67"

definition forTeam :: "env \<Rightarrow> u32 \<Rightarrow> mgr_id option" where
  "forTeam env team =
     (if cfg_two_side_channel env then Some AllianceChannelMgr
      else if team = ALLIANCE then Some AllianceChannelMgr
      else if team = HORDE then Some HordeChannelMgr
      else None)"

text \<open>The lower-cased wide form of a name; a name that is not UTF-8 leaves the empty string.\<close>

definition channel_key :: "string \<Rightarrow> conv_error + wstring" where
  "channel_key name =
     (case Utf8toWStr name of
        Inl ConversionFailed \<Rightarrow> Inr []
      | Inl BufferOverrun \<Rightarrow> Inl BufferOverrun
      | Inr w \<Rightarrow> Inr (wstrToLower w))"

definition channel_at :: "chat_state \<Rightarrow> cref \<Rightarrow> channel option" where
  "channel_at st r = om_find (mgr_channels (managers st (fst r))) (snd r)"

definition put_channel :: "cref \<Rightarrow> channel \<Rightarrow> chat_state \<Rightarrow> chat_state" where
  "put_channel r ch st =
     st\<lparr>managers := (managers st)(fst r :=
          (managers st (fst r))\<lparr>mgr_channels := om_set (snd r) ch (mgr_channels (managers st (fst r)))\<rparr>)\<rparr>"

definition delete_channel :: "cref \<Rightarrow> chat_state \<Rightarrow> chat_state" where
  "delete_channel r st =
     st\<lparr>managers := (managers st)(fst r :=
          (managers st (fst r))\<lparr>mgr_channels := om_erase (snd r) (mgr_channels (managers st (fst r)))\<rparr>)\<rparr>"

definition setTeam :: "mgr_id \<Rightarrow> u32 \<Rightarrow> unit chat" where
  "setTeam m team st =
     Inr ((), st\<lparr>managers := (managers st)(m := (managers st m)\<lparr>mgr_team := team\<rparr>)\<rparr>, [])"

definition GetJoinChannel :: "env \<Rightarrow> mgr_id \<Rightarrow> string \<Rightarrow> u32 \<Rightarrow> cref chat" where
  "GetJoinChannel env m name channelId =
     chat_bind (chat_conv (channel_key name))
       (\<lambda>wname st.
          case channel_at st (m, wname) of
            None \<Rightarrow> (let (nchan, effs) = new_channel env name channelId (mgr_team (managers st m))
                      in Inr ((m, wname), put_channel (m, wname) nchan st, effs))
          | Some _ \<Rightarrow> Inr ((m, wname), st, []))"

definition MakeNotOnPacket :: "string \<Rightarrow> packet" where
  "MakeNotOnPacket name = Packet SMSG_CHANNEL_NOTIFY [F8 5, FStr name]"

definition GetChannel :: "mgr_id \<Rightarrow> string \<Rightarrow> player \<Rightarrow> bool \<Rightarrow> cref option chat" where
  "GetChannel m name p pkt =
     chat_bind (chat_conv (channel_key name))
       (\<lambda>wname st.
          case channel_at st (m, wname) of
            None \<Rightarrow> Inr (None, st, if pkt then [Send (p_guid p) (MakeNotOnPacket name)] else [])
          | Some _ \<Rightarrow> Inr (Some (m, wname), st, []))"

text \<open>
  \<open>!channel->GetNumPlayers()\<close> is the emptiness of the store: the narrowing of its size to 32 bits is exact,
  since the members are players and players are numbered by non-zero 32-bit counters.
\<close>

definition Mgr_LeftChannel :: "mgr_id \<Rightarrow> string \<Rightarrow> unit chat" where
  "Mgr_LeftChannel m name =
     chat_bind (chat_conv (channel_key name))
       (\<lambda>wname st.
          case channel_at st (m, wname) of
            None \<Rightarrow> Inr ((), st, [])
          | Some channel \<Rightarrow>
              if playersStore channel = [] \<and> \<not> IsConstant channel
              then Inr ((), delete_channel (m, wname) st, [])
              else Inr ((), st, []))"

section \<open>A channel operation on the shared state\<close>

text \<open>\<^verbatim>\<open>Player::JoinedChannel\<close> and \<^verbatim>\<open>Player::LeftChannel\<close>.\<close>

definition Player_JoinedChannel :: "guid \<Rightarrow> cref \<Rightarrow> chat_state \<Rightarrow> chat_state" where
  "Player_JoinedChannel g c st = st\<lparr>m_channels := (m_channels st)(g := m_channels st g @ [c])\<rparr>"

definition Player_LeftChannel :: "guid \<Rightarrow> cref \<Rightarrow> chat_state \<Rightarrow> chat_state" where
  "Player_LeftChannel g c st = st\<lparr>m_channels := (m_channels st)(g := filter (\<lambda>d. d \<noteq> c) (m_channels st g))\<rparr>"

fun apply_effect :: "cref \<Rightarrow> effect \<Rightarrow> chat_state \<Rightarrow> chat_state" where
  "apply_effect c (JoinedChannel g) st = Player_JoinedChannel g c st"
| "apply_effect c (LeftChannel g) st = Player_LeftChannel g c st"
| "apply_effect c _ st = st"

definition run_on :: "cref \<Rightarrow> (channel \<Rightarrow> chan_result) \<Rightarrow> unit chat" where
  "run_on c f st =
     (case channel_at st c of
        None \<Rightarrow> Inl UseAfterFree
      | Some ch \<Rightarrow>
          let (ch', effs) = f ch
          in Inr ((), fold (apply_effect c) effs (put_channel c ch' st), effs))"

section \<open>Packets of a session\<close>

definition parse_join :: "(u32 \<times> string \<times> string) bb" where
  "parse_join =
     bb_bind read_val (\<lambda>channelId :: u32.
     bb_bind ReadBit (\<lambda>unknown1.
     bb_bind ReadBit (\<lambda>unknown2.
     bb_bind (ReadBits 8) (\<lambda>channelLength.
     bb_bind (ReadBits 8) (\<lambda>passLength.
     bb_bind (ReadString channelLength) (\<lambda>channelName.
     bb_bind (ReadString passLength) (\<lambda>password.
     bb_return (channelId, channelName, password))))))))"

definition parse_leave :: "string bb" where
  "parse_leave =
     bb_bind read_val (\<lambda>unk :: u32.
     bb_bind (ReadBits 8) (\<lambda>length.
     ReadString length))"

definition parse_name :: "string bb" where
  "parse_name = bb_bind (ReadBits 8) ReadString"

text \<open>
  Two lengths of \<open>w1\<close> and \<open>w2\<close> bits, then the two strings: \<open>parse_same\<close> in the order of the lengths,
  \<open>parse_swapped\<close> in the opposite order; the results are in the order of the lengths.
\<close>

definition parse_same :: "nat \<Rightarrow> nat \<Rightarrow> (string \<times> string) bb" where
  "parse_same w1 w2 =
     bb_bind (ReadBits w1) (\<lambda>l1.
     bb_bind (ReadBits w2) (\<lambda>l2.
     bb_bind (ReadString l1) (\<lambda>s1.
     bb_bind (ReadString l2) (\<lambda>s2.
     bb_return (s1, s2)))))"

definition parse_swapped :: "nat \<Rightarrow> nat \<Rightarrow> (string \<times> string) bb" where
  "parse_swapped w1 w2 =
     bb_bind (ReadBits w1) (\<lambda>l1.
     bb_bind (ReadBits w2) (\<lambda>l2.
     bb_bind (ReadString l2) (\<lambda>s2.
     bb_bind (ReadString l1) (\<lambda>s1.
     bb_return (s1, s2)))))"

text \<open>The common tail of the handlers: the channel of that name in the manager of the player's team.\<close>

definition with_channel :: "env \<Rightarrow> player \<Rightarrow> string \<Rightarrow> (cref \<Rightarrow> unit chat) \<Rightarrow> unit chat" where
  "with_channel env p channelName f =
     (case forTeam env (p_team p) of
        None \<Rightarrow> chat_return ()
      | Some m \<Rightarrow>
          chat_bind (GetChannel m channelName p True)
            (\<lambda>c. case c of None \<Rightarrow> chat_return () | Some c \<Rightarrow> f c))"

definition with_target :: "string \<Rightarrow> (string \<Rightarrow> unit chat) \<Rightarrow> unit chat" where
  "with_target targetName f =
     chat_bind (chat_conv (normalizePlayerName targetName))
       (\<lambda>n. case n of None \<Rightarrow> chat_return () | Some n \<Rightarrow> f n)"

definition CHANNEL_DBC_FLAG_ZONE_DEP :: u32 where "CHANNEL_DBC_FLAG_ZONE_DEP = 0x00002"
definition CHANNEL_DBC_FLAG_GLOBAL :: u32 where "CHANNEL_DBC_FLAG_GLOBAL = 0x00004"
definition CHANNEL_DBC_FLAG_CITY_ONLY :: u32 where "CHANNEL_DBC_FLAG_CITY_ONLY = 0x00010"
definition CHANNEL_DBC_FLAG_GUILD_REQ :: u32 where "CHANNEL_DBC_FLAG_GUILD_REQ = 0x20000"
definition AREA_FLAG_SLAVE_CAPITAL :: u32 where "AREA_FLAG_SLAVE_CAPITAL = 0x00000008"
definition AREA_FLAG_ARENA_INSTANCE :: u32 where "AREA_FLAG_ARENA_INSTANCE = 0x00010000"

text \<open>The channel's id and flags, and the flags of the zone.\<close>

definition CanJoinConstantChannelInZone :: "env \<Rightarrow> player \<Rightarrow> u32 \<Rightarrow> u32 \<Rightarrow> u32 \<Rightarrow> bool" where
  "CanJoinConstantChannelInZone env p channelID flags zone_flags =
     (if channelID = 26 \<and> \<not> cfg_restricted_lfg env then True
      else if has_flag flags CHANNEL_DBC_FLAG_ZONE_DEP \<and> has_flag zone_flags AREA_FLAG_ARENA_INSTANCE then False
      else if has_flag flags CHANNEL_DBC_FLAG_CITY_ONLY \<and> \<not> has_flag zone_flags AREA_FLAG_SLAVE_CAPITAL then False
      else if has_flag flags CHANNEL_DBC_FLAG_GUILD_REQ \<and> p_guild p \<noteq> 0 then False
      else True)"

text \<open>\<open>zone\<close> is the area entry of the player's zone, if there is one.\<close>

definition HandleJoinChannel :: "env \<Rightarrow> player \<Rightarrow> u32 option \<Rightarrow> byte_buffer \<Rightarrow> unit chat" where
  "HandleJoinChannel env p zone recvPacket =
     chat_bind (chat_parse parse_join recvPacket) (\<lambda>(channelId, channelName, password).
       if channelId \<noteq> 0 \<and>
          (case chat_channels env channelId of
             None \<Rightarrow> True
           | Some flags \<Rightarrow> (case zone of
               None \<Rightarrow> True
             | Some z \<Rightarrow> \<not> CanJoinConstantChannelInZone env p channelId flags z))
       then chat_return ()
       else if channelName = [] then chat_return ()
       else if isdigit (channelName ! 0) then chat_return ()
       else case forTeam env (p_team p) of
              None \<Rightarrow> chat_return ()
            | Some m \<Rightarrow>
                chat_bind (setTeam m (p_team p)) (\<lambda>_.
                chat_bind (GetJoinChannel env m channelName channelId) (\<lambda>c.
                run_on c (JoinChannel env p password))))"

definition HandleLeaveChannel :: "env \<Rightarrow> player \<Rightarrow> byte_buffer \<Rightarrow> unit chat" where
  "HandleLeaveChannel env p recvPacket =
     chat_bind (chat_parse parse_leave recvPacket) (\<lambda>channelName.
       if channelName = [] then chat_return ()
       else case forTeam env (p_team p) of
              None \<Rightarrow> chat_return ()
            | Some m \<Rightarrow>
                chat_bind (GetChannel m channelName p True) (\<lambda>c.
                chat_bind (case c of None \<Rightarrow> chat_return () | Some c \<Rightarrow> run_on c (LeaveChannel env p True)) (\<lambda>_.
                Mgr_LeftChannel m channelName)))"

definition HandleChannelList :: "env \<Rightarrow> player \<Rightarrow> byte_buffer \<Rightarrow> unit chat" where
  "HandleChannelList env p recvPacket =
     chat_bind (chat_parse parse_name recvPacket) (\<lambda>channelName.
       with_channel env p channelName (\<lambda>c. run_on c (List_members env p)))"

definition HandleChannelPassword :: "env \<Rightarrow> player \<Rightarrow> byte_buffer \<Rightarrow> unit chat" where
  "HandleChannelPassword env p recvPacket =
     chat_bind (chat_parse (parse_same 8 7) recvPacket) (\<lambda>(channelName, password).
       with_channel env p channelName (\<lambda>c. run_on c (Password env p password)))"

definition HandleChannelSetOwner :: "env \<Rightarrow> player \<Rightarrow> byte_buffer \<Rightarrow> unit chat" where
  "HandleChannelSetOwner env p recvPacket =
     chat_bind (chat_parse (parse_swapped 8 7) recvPacket) (\<lambda>(channelName, targetName).
       with_target targetName (\<lambda>n. with_channel env p channelName (\<lambda>c. run_on c (SetOwner_byname env p n))))"

definition HandleChannelOwner :: "env \<Rightarrow> player \<Rightarrow> byte_buffer \<Rightarrow> unit chat" where
  "HandleChannelOwner env p recvPacket =
     chat_bind (chat_parse parse_name recvPacket) (\<lambda>channelName.
       with_channel env p channelName (\<lambda>c. run_on c (SendWhoOwner env (p_guid p))))"

definition HandleChannelModerator :: "env \<Rightarrow> player \<Rightarrow> byte_buffer \<Rightarrow> unit chat" where
  "HandleChannelModerator env p recvPacket =
     chat_bind (chat_parse (parse_swapped 8 7) recvPacket) (\<lambda>(channelName, targetName).
       with_target targetName (\<lambda>n. with_channel env p channelName (\<lambda>c. run_on c (SetMode env p n True True))))"

definition HandleChannelUnmoderator :: "env \<Rightarrow> player \<Rightarrow> byte_buffer \<Rightarrow> unit chat" where
  "HandleChannelUnmoderator env p recvPacket =
     chat_bind (chat_parse (parse_swapped 7 8) recvPacket) (\<lambda>(targetName, channelName).
       with_target targetName (\<lambda>n. with_channel env p channelName (\<lambda>c. run_on c (SetMode env p n True False))))"

definition HandleChannelMute :: "env \<Rightarrow> player \<Rightarrow> byte_buffer \<Rightarrow> unit chat" where
  "HandleChannelMute env p recvPacket =
     chat_bind (chat_parse (parse_same 8 7) recvPacket) (\<lambda>(channelName, targetName).
       with_target targetName (\<lambda>n. with_channel env p channelName (\<lambda>c. run_on c (SetMode env p n False True))))"

definition HandleChannelUnmute :: "env \<Rightarrow> player \<Rightarrow> byte_buffer \<Rightarrow> unit chat" where
  "HandleChannelUnmute env p recvPacket =
     chat_bind (chat_parse (parse_same 8 7) recvPacket) (\<lambda>(targetName, channelName).
       with_target targetName (\<lambda>n. with_channel env p channelName (\<lambda>c. run_on c (SetMode env p n False False))))"

definition HandleChannelInvite :: "env \<Rightarrow> player \<Rightarrow> byte_buffer \<Rightarrow> unit chat" where
  "HandleChannelInvite env p recvPacket =
     chat_bind (chat_parse (parse_same 7 8) recvPacket) (\<lambda>(targetName, channelName).
       with_target targetName (\<lambda>n. with_channel env p channelName (\<lambda>c. run_on c (Invite env p n))))"

definition HandleChannelKick :: "env \<Rightarrow> player \<Rightarrow> byte_buffer \<Rightarrow> unit chat" where
  "HandleChannelKick env p recvPacket =
     chat_bind (chat_parse (parse_same 8 7) recvPacket) (\<lambda>(channelName, targetName).
       with_target targetName (\<lambda>n. with_channel env p channelName (\<lambda>c. run_on c (Kick env p n))))"

definition HandleChannelBan :: "env \<Rightarrow> player \<Rightarrow> byte_buffer \<Rightarrow> unit chat" where
  "HandleChannelBan env p recvPacket =
     chat_bind (chat_parse (parse_swapped 8 7) recvPacket) (\<lambda>(channelName, targetName).
       with_target targetName (\<lambda>n. with_channel env p channelName (\<lambda>c. run_on c (Ban env p n))))"

definition HandleChannelUnban :: "env \<Rightarrow> player \<Rightarrow> byte_buffer \<Rightarrow> unit chat" where
  "HandleChannelUnban env p recvPacket =
     chat_bind (chat_parse (parse_swapped 7 8) recvPacket) (\<lambda>(channelName, targetName).
       with_target targetName (\<lambda>n. with_channel env p channelName (\<lambda>c. run_on c (UnBan env p n))))"

definition HandleChannelAnnouncements :: "env \<Rightarrow> player \<Rightarrow> byte_buffer \<Rightarrow> unit chat" where
  "HandleChannelAnnouncements env p recvPacket =
     chat_bind (chat_parse parse_name recvPacket) (\<lambda>channelName.
       with_channel env p channelName (\<lambda>c. run_on c (Announce env p)))"

definition HandleChannelDisplayListQuery :: "env \<Rightarrow> player \<Rightarrow> byte_buffer \<Rightarrow> unit chat" where
  "HandleChannelDisplayListQuery = HandleChannelList"

definition HandleGetChannelMemberCount :: "env \<Rightarrow> player \<Rightarrow> byte_buffer \<Rightarrow> unit chat" where
  "HandleGetChannelMemberCount env p recvPacket =
     chat_bind (chat_parse read_string recvPacket) (\<lambda>channelName.
       with_channel env p channelName (\<lambda>c. run_on c (\<lambda>ch.
         (ch, [Send (p_guid p) (Packet SMSG_CHANNEL_MEMBER_COUNT
                 [FStr (c_name ch), F8 (c_flags ch), F32 (GetNumPlayers ch)])]))))"

definition HandleSetChannelWatch :: "byte_buffer \<Rightarrow> unit chat" where
  "HandleSetChannelWatch recvPacket =
     chat_bind (chat_parse read_string recvPacket) (\<lambda>channelName. chat_return ())"

section \<open>A player's channels\<close>

text \<open>
  \<^verbatim>\<open>CleanupChannels\<close>: the list shrinks with every pass, so the loop is a recursion on its length; \<open>n\<close> is
  an upper bound of it.
\<close>

fun CleanupChannels_loop :: "nat \<Rightarrow> env \<Rightarrow> player \<Rightarrow> unit chat" where
  "CleanupChannels_loop 0 env p st = Inr ((), st, [])"
| "CleanupChannels_loop (Suc n) env p st =
     (case m_channels st (p_guid p) of
        [] \<Rightarrow> Inr ((), st, [])
      | c # cs \<Rightarrow>
          (case channel_at st c of
             None \<Rightarrow> Inl UseAfterFree
           | Some ch \<Rightarrow>
               chat_bind (run_on c (LeaveChannel env p False)) (\<lambda>_.
               chat_bind (case forTeam env (p_team p) of
                            None \<Rightarrow> chat_return ()
                          | Some m \<Rightarrow> Mgr_LeftChannel m (c_name ch)) (\<lambda>_.
               CleanupChannels_loop n env p))
               (st\<lparr>m_channels := (m_channels st)(p_guid p := cs)\<rparr>)))"

definition CleanupChannels :: "env \<Rightarrow> player \<Rightarrow> unit chat" where
  "CleanupChannels env p st = CleanupChannels_loop (length (m_channels st (p_guid p))) env p st"

definition LeaveLFGChannel :: "env \<Rightarrow> player \<Rightarrow> unit chat" where
  "LeaveLFGChannel env p st =
     (case find (\<lambda>c. case channel_at st c of None \<Rightarrow> True | Some ch \<Rightarrow> IsLFG ch) (m_channels st (p_guid p)) of
        None \<Rightarrow> Inr ((), st, [])
      | Some c \<Rightarrow> run_on c (LeaveChannel env p True) st)"

text \<open>\<open>snprintf(buf, 100, pattern, ext)\<close> for a pattern with one \<open>%s\<close>.\<close>

fun subst_percent_s :: "string \<Rightarrow> string \<Rightarrow> string" where
  "subst_percent_s (a # b # cs) ext =
     (if a = CHR ''%'' \<and> b = CHR ''s'' then ext @ cs else a # subst_percent_s (b # cs) ext)"
| "subst_percent_s cs ext = cs"

definition zone_channel_name :: "string \<Rightarrow> string \<Rightarrow> string" where
  "zone_channel_name pattern ext = take 99 (subst_percent_s pattern ext)"

record zone_info =
  zone_flags :: u32
  zone_name :: string
  city_name :: string

text \<open>The end of a pass of \<^verbatim>\<open>UpdateLocalChannels\<close>: leave channel \<open>c\<close> and erase it from the player's list.\<close>

definition remove_local_channel :: "env \<Rightarrow> player \<Rightarrow> mgr_id \<Rightarrow> cref \<Rightarrow> bool \<Rightarrow> unit chat" where
  "remove_local_channel env p m c sendRemove =
     chat_bind (run_on c (LeaveChannel env p sendRemove)) (\<lambda>_ st.
       case channel_at st c of
         None \<Rightarrow> Inl UseAfterFree
       | Some ch \<Rightarrow> Mgr_LeftChannel m (c_name ch) (Player_LeftChannel (p_guid p) c st))"

text \<open>One pass of the loop of \<^verbatim>\<open>UpdateLocalChannels\<close>, for the channel with number \<open>i\<close> in the store.\<close>

definition update_local_channel :: "env \<Rightarrow> player \<Rightarrow> mgr_id \<Rightarrow> zone_info \<Rightarrow> u32 \<Rightarrow> u32 \<Rightarrow> string \<Rightarrow> unit chat" where
  "update_local_channel env p m zone i flags pattern st =
     (let usedChannel = find (\<lambda>c. case channel_at st c of None \<Rightarrow> True | Some ch \<Rightarrow> c_id ch = i) (m_channels st (p_guid p));
          remove = remove_local_channel env p m
      in if (case usedChannel of None \<Rightarrow> False | Some c \<Rightarrow> channel_at st c = None) then Inl UseAfterFree
         else if CanJoinConstantChannelInZone env p i flags (zone_flags zone)
         then if \<not> has_flag flags CHANNEL_DBC_FLAG_GLOBAL
              then if has_flag flags CHANNEL_DBC_FLAG_CITY_ONLY \<and> usedChannel \<noteq> None then Inr ((), st, [])
                   else chat_bind
                          (GetJoinChannel env m
                             (zone_channel_name pattern
                                (if has_flag flags CHANNEL_DBC_FLAG_CITY_ONLY then city_name zone else zone_name zone)) i)
                          (\<lambda>joinChannel.
                             case usedChannel of
                               None \<Rightarrow> run_on joinChannel (JoinChannel env p [])
                             | Some used \<Rightarrow>
                                 if joinChannel \<noteq> used
                                 then chat_bind (run_on joinChannel (JoinChannel env p [])) (\<lambda>_. remove used False)
                                 else chat_return ()) st
              else chat_bind (GetJoinChannel env m pattern i) (\<lambda>c. run_on c (JoinChannel env p [])) st
         else case usedChannel of None \<Rightarrow> Inr ((), st, []) | Some used \<Rightarrow> remove used True st)"

fun update_local_channels :: "env \<Rightarrow> player \<Rightarrow> mgr_id \<Rightarrow> zone_info \<Rightarrow> (u32 \<times> u32 \<times> string) list \<Rightarrow> unit chat" where
  "update_local_channels env p m zone [] = chat_return ()"
| "update_local_channels env p m zone ((i, flags, pattern) # es) =
     chat_bind (update_local_channel env p m zone i flags pattern) (\<lambda>_. update_local_channels env p m zone es)"

text \<open>
  \<open>entries\<close> are the existing rows of the channel store in order; \<open>loading\<close> is
  \<open>PlayerLoading() && !IsBeingTeleportedFar()\<close>, \<open>zone\<close> the area entry of the new zone.
\<close>

definition UpdateLocalChannels ::
    "env \<Rightarrow> player \<Rightarrow> bool \<Rightarrow> zone_info option \<Rightarrow> (u32 \<times> u32 \<times> string) list \<Rightarrow> unit chat" where
  "UpdateLocalChannels env p loading zone entries =
     (if loading then chat_return ()
      else case zone of
             None \<Rightarrow> chat_return ()
           | Some z \<Rightarrow>
               case forTeam env (p_team p) of
                 None \<Rightarrow> chat_return ()
               | Some m \<Rightarrow> update_local_channels env p m z entries)"

end
