(* ===== verification/ChannelSpec.thy ===== *)
theory ChannelSpec
  imports Channel
begin

text \<open>
  Correctness of chat channels: the step relation over every operation, the ownership invariant, who
  may change a channel, bans, who hears a message, the hand-over of ownership, the agreement between
  a channel's members and the players' own channel lists, and the round trip through the database.
\<close>

named_theorems chan_simps \<open>fields, members and owners of a changed channel\<close>

section \<open>Events\<close>

datatype chan_event =
    EvJoin env player string
  | EvLeave env player bool
  | EvKick env player string
  | EvBan env player string
  | EvUnBan env player string
  | EvPassword env player string
  | EvSetMode env player string bool bool
  | EvSetOwner env player string
  | EvWhoOwner env guid
  | EvList env player
  | EvAnnounce env player
  | EvSay env guid string u32
  | EvInvite env player string
  | EvCfgPassword string
  | EvCfgAnnounce bool
  | EvCfgOwnership bool

text \<open>The last three are the unchecked setters of the header, which the command scripts call.\<close>

fun chan_run :: "chan_event \<Rightarrow> channel \<Rightarrow> chan_result" where
  "chan_run (EvJoin env p pass) ch = JoinChannel env p pass ch"
| "chan_run (EvLeave env p send) ch = LeaveChannel env p send ch"
| "chan_run (EvKick env p n) ch = Kick env p n ch"
| "chan_run (EvBan env p n) ch = Ban env p n ch"
| "chan_run (EvUnBan env p n) ch = UnBan env p n ch"
| "chan_run (EvPassword env p pass) ch = Password env p pass ch"
| "chan_run (EvSetMode env p n md on) ch = SetMode env p n md on ch"
| "chan_run (EvSetOwner env p n) ch = SetOwner_byname env p n ch"
| "chan_run (EvWhoOwner env g) ch = SendWhoOwner env g ch"
| "chan_run (EvList env p) ch = List_members env p ch"
| "chan_run (EvAnnounce env p) ch = Announce env p ch"
| "chan_run (EvSay env g what lang) ch = Say env g what lang ch"
| "chan_run (EvInvite env p n) ch = Invite env p n ch"
| "chan_run (EvCfgPassword pass) ch = (ch\<lparr>c_password := pass\<rparr>, [])"
| "chan_run (EvCfgAnnounce b) ch = (ch\<lparr>c_announce := b\<rparr>, [])"
| "chan_run (EvCfgOwnership b) ch = (ch\<lparr>c_ownership := b\<rparr>, [])"

inductive chan_initial :: "channel \<Rightarrow> bool" where
  chan_created: "chan_initial (fst (new_channel env name channelId team))"

inductive chan_step :: "channel \<Rightarrow> chan_event \<Rightarrow> channel \<Rightarrow> bool" where
  chan_stepI: "chan_run e ch = (ch', effs) \<Longrightarrow> chan_step ch e ch'"

inductive_cases chan_stepE: "chan_step ch e ch'"

text \<open>Two players, an environment with both in the world, and a channel with both on it.\<close>

definition sample_player :: "guid \<Rightarrow> string \<Rightarrow> nat \<Rightarrow> player" where
  "sample_player g n sec =
     \<lparr>p_guid = g, p_name = n, p_security = sec, p_oteam = 469, p_team = 469, p_group = False, p_ignores = [],
      p_gm_visible = True, p_visible = True, p_chat_tag = 0, p_guild = 0\<rparr>"

definition sample_env :: env where
  "sample_env =
     \<lparr>world = [sample_player 1 ''Ann'' 0, sample_player 2 ''Bob'' 0], char_name = (\<lambda>_. None),
      cfg_two_side_channel = False, cfg_restricted_lfg = False, cfg_silent_gm_join = False,
      cfg_preserve_custom = False, cfg_gm_level_who = 0, cfg_preserve_duration = 0,
      chat_channels = (\<lambda>_. None), db_channels = (\<lambda>_ _. None)\<rparr>"

definition sample_channel :: channel where
  "sample_channel =
     \<lparr>c_announce = True, c_ownership = True, c_saved = False, c_flags = 1, c_id = 0, c_team = 469, c_owner = 1,
      c_name = ''world'', c_password = [],
      playersStore = [(1, \<lparr>pi_player = 1, pi_flags = 3\<rparr>), (2, \<lparr>pi_player = 2, pi_flags = 0\<rparr>)], bannedStore = []\<rparr>"

section \<open>Owners and members\<close>

definition owners :: "channel \<Rightarrow> guid set" where
  "owners ch = {k. \<exists>i. om_find (playersStore ch) k = Some i \<and> IsOwner i}"

definition members :: "channel \<Rightarrow> guid set" where
  "members ch = {k. IsOn ch k}"

text \<open>An entry of the member map names its own key, or nobody (the entry \<^verbatim>\<open>operator[]\<close> creates).\<close>

definition infos_keyed :: "channel \<Rightarrow> bool" where
  "infos_keyed ch \<longleftrightarrow> (\<forall>k i. om_find (playersStore ch) k = Some i \<longrightarrow> pi_player i = 0 \<or> pi_player i = k)"

definition chan_inv :: "channel \<Rightarrow> bool" where
  "chan_inv ch \<longleftrightarrow> om_wf (playersStore ch) \<and> owners ch \<subseteq> {c_owner ch} - {0}
     \<and> sorted (bannedStore ch) \<and> distinct (bannedStore ch) \<and> infos_keyed ch"

lemma IsOn_iff: "IsOn ch k \<longleftrightarrow> k \<in> members ch"
  by (simp add: members_def)

lemma no_info_flags [simp]: "\<not> IsOwner no_info" "\<not> IsModerator no_info" "pi_flags no_info = 0"
  by (simp_all add: no_info_def IsOwner_def IsModerator_def has_flag_def)

lemma member_flags_disjoint [simp]:
  "MEMBER_FLAG_MODERATOR AND MEMBER_FLAG_OWNER = 0" "MEMBER_FLAG_MUTED AND MEMBER_FLAG_OWNER = 0"
  "MEMBER_FLAG_OWNER AND MEMBER_FLAG_MODERATOR = 0" "MEMBER_FLAG_OWNER \<noteq> 0" "MEMBER_FLAG_MODERATOR \<noteq> 0"
  by (simp_all add: MEMBER_FLAG_MODERATOR_def MEMBER_FLAG_OWNER_def MEMBER_FLAG_MUTED_def)

lemma IsOwner_info_flag [simp]:
  "m AND MEMBER_FLAG_OWNER = 0 \<Longrightarrow> IsOwner (info_flag m s i) = IsOwner i"
  "IsOwner (info_flag MEMBER_FLAG_OWNER s i) = s"
  by (auto simp: IsOwner_def info_flag_def flag_simps)

lemma IsModerator_info_flag [simp]:
  "IsModerator (info_flag MEMBER_FLAG_OWNER s i) = IsModerator i"
  "IsModerator (info_flag MEMBER_FLAG_MODERATOR s i) = s"
  by (auto simp: IsModerator_def info_flag_def flag_simps)

lemma pi_player_info_flag [simp]: "pi_player (info_flag m s i) = pi_player i"
  by (simp add: info_flag_def)

lemma modify_info_fields [chan_simps, simp]:
  "c_owner (modify_info g f ch) = c_owner ch" "c_ownership (modify_info g f ch) = c_ownership ch"
  "c_announce (modify_info g f ch) = c_announce ch" "c_id (modify_info g f ch) = c_id ch"
  "bannedStore (modify_info g f ch) = bannedStore ch" "c_saved (modify_info g f ch) = c_saved ch"
  "om_wf (playersStore ch) \<Longrightarrow> om_wf (playersStore (modify_info g f ch))"
  by (simp_all add: modify_info_def)

lemma find_modify_info [chan_simps]:
  "om_find (playersStore (modify_info g f ch)) k = (if k = g then Some (f (info_of ch g)) else om_find (playersStore ch) k)"
  by (simp add: modify_info_def store_simps info_of_def)

lemma info_of_modify [chan_simps]: "info_of (modify_info g f ch) k = (if k = g then f (info_of ch g) else info_of ch k)"
  unfolding info_of_def [of "modify_info g f ch"] by (simp add: find_modify_info) (simp add: info_of_def)

lemma owner_update_infos [chan_simps]:
  "info_of (ch\<lparr>c_owner := o1\<rparr>) k = info_of ch k" "IsOn (ch\<lparr>c_owner := o1\<rparr>) k = IsOn ch k"
  by (simp_all add: info_of_def IsOn_def)

lemma members_simps [chan_simps]:
  "members (modify_info g f ch) = insert g (members ch)"
  "members (ch\<lparr>playersStore := om_set g i (playersStore ch)\<rparr>) = insert g (members ch)"
  "om_wf (playersStore ch) \<Longrightarrow> members (ch\<lparr>playersStore := om_erase g (playersStore ch)\<rparr>) = members ch - {g}"
  "members (ch\<lparr>c_owner := o1\<rparr>) = members ch" "members (ch\<lparr>c_announce := a\<rparr>) = members ch"
  "members (ch\<lparr>bannedStore := bs\<rparr>) = members ch" "members (ch\<lparr>c_password := w\<rparr>) = members ch"
  "members (ch\<lparr>c_ownership := a\<rparr>) = members ch"
  by (auto simp: members_def IsOn_def find_modify_info store_simps split: if_splits)

lemma owners_simps [chan_simps]:
  "m AND MEMBER_FLAG_OWNER = 0 \<Longrightarrow> owners (modify_info g (info_flag m s) ch) = owners ch"
  "owners (modify_info g (\<lambda>i. i) ch) = owners ch"
  "owners (modify_info g (info_flag MEMBER_FLAG_OWNER s) ch) = (if s then insert g (owners ch) else owners ch - {g})"
  "pi_flags i = MEMBER_FLAG_NONE \<Longrightarrow> owners (ch\<lparr>playersStore := om_set g i (playersStore ch)\<rparr>) = owners ch - {g}"
  "om_wf (playersStore ch) \<Longrightarrow> owners (ch\<lparr>playersStore := om_erase g (playersStore ch)\<rparr>) = owners ch - {g}"
  "owners (ch\<lparr>c_owner := o1\<rparr>) = owners ch" "owners (ch\<lparr>c_announce := a\<rparr>) = owners ch"
  "owners (ch\<lparr>bannedStore := bs\<rparr>) = owners ch" "owners (ch\<lparr>c_password := w\<rparr>) = owners ch"
  "owners (ch\<lparr>c_ownership := a\<rparr>) = owners ch"
proof -
  have none: "IsOwner i \<longleftrightarrow> False" if "pi_flags i = MEMBER_FLAG_NONE" for i
    using that by (simp add: IsOwner_def MEMBER_FLAG_NONE_def has_flag_def)
  have info: "IsOwner (info_of ch g) \<longleftrightarrow> g \<in> owners ch"
    by (auto simp: owners_def info_of_def split: option.splits)
  show "m AND MEMBER_FLAG_OWNER = 0 \<Longrightarrow> owners (modify_info g (info_flag m s) ch) = owners ch"
    "owners (modify_info g (\<lambda>i. i) ch) = owners ch"
    "owners (modify_info g (info_flag MEMBER_FLAG_OWNER s) ch) = (if s then insert g (owners ch) else owners ch - {g})"
    using info by (auto simp: owners_def find_modify_info)
  show "pi_flags i = MEMBER_FLAG_NONE \<Longrightarrow> owners (ch\<lparr>playersStore := om_set g i (playersStore ch)\<rparr>) = owners ch - {g}"
    "om_wf (playersStore ch) \<Longrightarrow> owners (ch\<lparr>playersStore := om_erase g (playersStore ch)\<rparr>) = owners ch - {g}"
    "owners (ch\<lparr>c_owner := o1\<rparr>) = owners ch" "owners (ch\<lparr>c_announce := a\<rparr>) = owners ch"
    "owners (ch\<lparr>bannedStore := bs\<rparr>) = owners ch" "owners (ch\<lparr>c_password := w\<rparr>) = owners ch"
    "owners (ch\<lparr>c_ownership := a\<rparr>) = owners ch"
    by (auto simp: owners_def store_simps none split: if_splits)
qed

lemma infos_keyed_simps [chan_simps]:
  "infos_keyed ch \<Longrightarrow> infos_keyed (modify_info g (info_flag m s) ch)"
  "infos_keyed ch \<Longrightarrow> infos_keyed (modify_info g (\<lambda>i. i) ch)"
  "infos_keyed ch \<Longrightarrow> infos_keyed (ch\<lparr>playersStore := om_set g \<lparr>pi_player = g, pi_flags = fl\<rparr> (playersStore ch)\<rparr>)"
  "om_wf (playersStore ch) \<Longrightarrow> infos_keyed ch \<Longrightarrow> infos_keyed (ch\<lparr>playersStore := om_erase g (playersStore ch)\<rparr>)"
  "infos_keyed (ch\<lparr>c_owner := o1\<rparr>) = infos_keyed ch" "infos_keyed (ch\<lparr>c_announce := a\<rparr>) = infos_keyed ch"
  "infos_keyed (ch\<lparr>bannedStore := bs\<rparr>) = infos_keyed ch" "infos_keyed (ch\<lparr>c_password := w\<rparr>) = infos_keyed ch"
  "infos_keyed (ch\<lparr>c_ownership := a\<rparr>) = infos_keyed ch"
  by (auto simp: infos_keyed_def find_modify_info info_of_def no_info_def store_simps split: if_splits option.splits)

lemma ban_insert_ok [simp]:
  "sorted bs \<Longrightarrow> sorted (ban_insert g bs)" "distinct bs \<Longrightarrow> distinct (ban_insert g bs)"
  "set (ban_insert g bs) = insert g (set bs)"
  by (simp_all add: ban_insert_def sorted_insort_insert distinct_insort_insert set_insort_insert)

section \<open>\<open>SetOwner\<close>\<close>

lemma SetOwner_owner [simp]: "c_owner (fst (SetOwner env g ex ch)) = g"
  by (simp add: SetOwner_def Let_def)

lemma SetOwner_fields [simp]:
  "bannedStore (fst (SetOwner env g ex ch)) = bannedStore ch"
  "c_id (fst (SetOwner env g ex ch)) = c_id ch"
  "c_ownership (fst (SetOwner env g ex ch)) = c_ownership ch"
  "om_wf (playersStore ch) \<Longrightarrow> om_wf (playersStore (fst (SetOwner env g ex ch)))"
  by (simp_all add: SetOwner_def Let_def)

lemma SetOwner_owners:
  assumes "owners ch \<subseteq> {c_owner ch} - {0}"
  shows "owners (fst (SetOwner env g ex ch)) = {g} - {0}"
proof -
  have "k \<in> owners ch \<Longrightarrow> IsOn ch k" for k by (auto simp: owners_def IsOn_def)
  with assms show ?thesis by (auto simp: SetOwner_def Let_def chan_simps)
qed

lemma SetOwner_members:
  "members (fst (SetOwner env g ex ch)) = (if g \<noteq> 0 then insert g (members ch) else members ch)"
proof -
  have "IsOn ch k \<longleftrightarrow> k \<in> members ch" for k by (simp add: members_def)
  then show ?thesis by (auto simp: SetOwner_def Let_def chan_simps)
qed

lemma SetOwner_keyed: "infos_keyed ch \<Longrightarrow> infos_keyed (fst (SetOwner env g ex ch))"
  by (simp add: SetOwner_def Let_def chan_simps)

lemma SetOwner_inv: "chan_inv ch \<Longrightarrow> chan_inv (fst (SetOwner env g ex ch))"
  by (simp add: chan_inv_def SetOwner_owners SetOwner_keyed)

section \<open>Every operation keeps the invariant\<close>

lemma chan_inv_updates:
  assumes "chan_inv ch"
  shows "m AND MEMBER_FLAG_OWNER = 0 \<Longrightarrow> chan_inv (modify_info g (info_flag m s) ch)"
    and "chan_inv (modify_info g (\<lambda>i. i) ch)"
    and "chan_inv (ch\<lparr>playersStore := om_set g \<lparr>pi_player = g, pi_flags = MEMBER_FLAG_NONE\<rparr> (playersStore ch)\<rparr>)"
    and "chan_inv (ch\<lparr>playersStore := om_erase g (playersStore ch)\<rparr>)"
    and "chan_inv (ch\<lparr>bannedStore := ban_insert g (bannedStore ch)\<rparr>)"
    and "chan_inv (ch\<lparr>bannedStore := remove1 g (bannedStore ch)\<rparr>)"
    and "chan_inv (ch\<lparr>c_password := w\<rparr>)" "chan_inv (ch\<lparr>c_announce := a\<rparr>)" "chan_inv (ch\<lparr>c_ownership := a\<rparr>)"
  using assms by (auto simp: chan_inv_def chan_simps sorted_remove1)

lemma JoinChannel_inv: "chan_inv ch \<Longrightarrow> chan_inv (fst (JoinChannel env p pass ch))"
  by (simp add: JoinChannel_def Let_def split_def chan_inv_updates SetOwner_inv)

lemma LeaveChannel_inv: "chan_inv ch \<Longrightarrow> chan_inv (fst (LeaveChannel env p send ch))"
  by (simp add: LeaveChannel_def Let_def split_def chan_inv_updates SetOwner_inv)

text \<open>The victim of a kick, when the kick is allowed, and the channel a kick leaves behind.\<close>

definition kick_victim :: "env \<Rightarrow> string \<Rightarrow> guid" where
  "kick_victim env n = (case FindPlayerByName env n of Some b \<Rightarrow> p_guid b | None \<Rightarrow> 0)"

definition may_moderate :: "player \<Rightarrow> channel \<Rightarrow> bool" where
  "may_moderate p ch \<longleftrightarrow> IsOn ch (p_guid p) \<and> (IsModerator (info_of ch (p_guid p)) \<or> IsGMAccount (p_security p))"

definition kick_allowed :: "env \<Rightarrow> player \<Rightarrow> string \<Rightarrow> channel \<Rightarrow> bool" where
  "kick_allowed env p n ch \<longleftrightarrow> may_moderate p ch \<and> kick_victim env n \<noteq> 0 \<and> IsOn ch (kick_victim env n)
     \<and> (IsGMAccount (p_security p) \<or> c_owner ch \<noteq> kick_victim env n \<or> p_guid p = c_owner ch)"

definition kicked :: "env \<Rightarrow> string \<Rightarrow> bool \<Rightarrow> channel \<Rightarrow> channel" where
  "kicked env n b ch =
     (let v = kick_victim env n;
          ch1 = (if b \<and> \<not> IsBanned ch v then ch\<lparr>bannedStore := ban_insert v (bannedStore ch)\<rparr> else ch)
      in ch1\<lparr>playersStore := om_erase v (playersStore ch1)\<rparr>)"

lemma kicked_fields [simp]:
  "c_owner (kicked env n b ch) = c_owner ch" "c_ownership (kicked env n b ch) = c_ownership ch"
  "c_id (kicked env n b ch) = c_id ch"
  by (simp_all add: kicked_def Let_def)

text \<open>An allowed kick announces it, tells the victim's player object, and hands over ownership if due.\<close>

definition kick_notice :: "env \<Rightarrow> player \<Rightarrow> string \<Rightarrow> bool \<Rightarrow> channel \<Rightarrow> effect list" where
  "kick_notice env p n b ch =
     (let v = kick_victim env n;
          notify = (\<not> (IsGMAccount (p_security p) \<and> cfg_silent_gm_join env))
      in if b \<and> \<not> IsBanned ch v
         then let ch1 = ch\<lparr>bannedStore := ban_insert v (bannedStore ch)\<rparr>
              in UpdateChannelInDB ch1 @ (if notify then SendToAll env ch1 (MakePlayerBanned ch1 v (p_guid p)) 0 else [])
         else if notify then SendToAll env ch (MakePlayerKicked ch v (p_guid p)) 0 else [])"

lemma KickOrBan_done:
  assumes "kick_allowed env p n ch"
  shows "KickOrBan env p n b ch =
    (if c_owner ch = kick_victim env n \<and> c_ownership ch \<and> playersStore (kicked env n b ch) \<noteq> []
     then let r = SetOwner env (p_guid p) True (modify_info (p_guid p) (info_SetModerator True) (kicked env n b ch))
          in (fst r, (kick_notice env p n b ch @ [LeftChannel (kick_victim env n)]) @ snd r)
     else (kicked env n b ch, kick_notice env p n b ch @ [LeftChannel (kick_victim env n)]))"
proof -
  from assms have guards: "\<not> \<not> IsOn ch (p_guid p)"
    "\<not> (\<not> IsModerator (info_of ch (p_guid p)) \<and> \<not> IsGMAccount (p_security p))"
    "\<not> (kick_victim env n = 0 \<or> \<not> IsOn ch (kick_victim env n))"
    "\<not> (\<not> IsGMAccount (p_security p) \<and> c_owner ch = kick_victim env n \<and> p_guid p \<noteq> c_owner ch)"
    by (auto simp: kick_allowed_def may_moderate_def)
  show ?thesis
    unfolding KickOrBan_def Let_def kick_victim_def [symmetric] split_def kicked_def kick_notice_def
    unfolding if_not_P [OF guards(1)] if_not_P [OF guards(2)] if_not_P [OF guards(3)] if_not_P [OF guards(4)]
    by (cases "b \<and> \<not> IsBanned ch (kick_victim env n)")
      (simp_all only: if_P if_not_P fst_conv snd_conv simp_thms if_distrib [where f = fst], simp_all)
qed

lemma KickOrBan_refused:
  assumes "\<not> kick_allowed env p n ch"
  shows "\<exists>d. KickOrBan env p n b ch = (ch, SendToOne env d (p_guid p))"
proof -
  let ?A = "\<not> IsOn ch (p_guid p)" and ?B = "\<not> IsModerator (info_of ch (p_guid p)) \<and> \<not> IsGMAccount (p_security p)"
    and ?C = "kick_victim env n = 0 \<or> \<not> IsOn ch (kick_victim env n)"
    and ?D = "\<not> IsGMAccount (p_security p) \<and> c_owner ch = kick_victim env n \<and> p_guid p \<noteq> c_owner ch"
  from assms have "\<not> ?A \<Longrightarrow> \<not> ?B \<Longrightarrow> \<not> ?C \<Longrightarrow> ?D" by (auto simp: kick_allowed_def may_moderate_def)
  then consider ?A | "\<not> ?A" ?B | "\<not> ?A" "\<not> ?B" ?C | "\<not> ?A" "\<not> ?B" "\<not> ?C" ?D by blast
  then show ?thesis
  proof cases
    case 1
    show ?thesis unfolding KickOrBan_def Let_def kick_victim_def [symmetric] if_P [OF 1] by blast
  next
    case 2
    show ?thesis
      unfolding KickOrBan_def Let_def kick_victim_def [symmetric] if_not_P [OF 2(1)] if_P [OF 2(2)] by blast
  next
    case 3
    show ?thesis
      unfolding KickOrBan_def Let_def kick_victim_def [symmetric] if_not_P [OF 3(1)] if_not_P [OF 3(2)] if_P [OF 3(3)]
      by blast
  next
    case 4
    show ?thesis
      unfolding KickOrBan_def Let_def kick_victim_def [symmetric] if_not_P [OF 4(1)] if_not_P [OF 4(2)] if_not_P [OF 4(3)]
        if_P [OF 4(4)] by blast
  qed
qed

lemma KickOrBan_fst:
  "fst (KickOrBan env p n b ch) =
     (if kick_allowed env p n ch
      then if c_owner ch = kick_victim env n \<and> c_ownership ch \<and> playersStore (kicked env n b ch) \<noteq> []
           then fst (SetOwner env (p_guid p) True (modify_info (p_guid p) (info_SetModerator True) (kicked env n b ch)))
           else kicked env n b ch
      else ch)"
  using KickOrBan_refused [of env p n ch b] by (cases "kick_allowed env p n ch") (auto simp: KickOrBan_done Let_def)

lemma kicked_inv: "chan_inv ch \<Longrightarrow> chan_inv (kicked env n b ch)"
  by (simp add: kicked_def Let_def chan_inv_updates chan_inv_updates(4) [OF chan_inv_updates(5), simplified])

lemma KickOrBan_inv: "chan_inv ch \<Longrightarrow> chan_inv (fst (KickOrBan env p n b ch))"
  by (simp add: KickOrBan_fst kicked_inv chan_inv_updates SetOwner_inv)

lemma SetMemberFlag_inv:
  "m AND MEMBER_FLAG_OWNER = 0 \<Longrightarrow> chan_inv ch \<Longrightarrow> chan_inv (fst (SetMemberFlag m env g on ch))"
  by (simp add: SetMemberFlag_def Let_def chan_inv_updates)

lemma SetMode_inv: "chan_inv ch \<Longrightarrow> chan_inv (fst (SetMode env p n md on ch))"
  by (simp add: SetMode_def Let_def SetModerator_def SetMute_def SetMemberFlag_inv split: option.split)

lemma SetOwner_byname_inv: "chan_inv ch \<Longrightarrow> chan_inv (fst (SetOwner_byname env p n ch))"
  by (simp add: SetOwner_byname_def Let_def chan_inv_updates SetOwner_inv split: option.split)

lemma other_ops_inv:
  assumes "chan_inv ch"
  shows "chan_inv (fst (UnBan env p n ch))" "chan_inv (fst (Password env p n ch))"
    "chan_inv (fst (Announce env p ch))"
  using assms by (simp_all add: UnBan_def Password_def Announce_def Let_def chan_inv_updates)

lemma silent_ops [simp]:
  "fst (SendWhoOwner env g ch) = ch" "fst (List_members env p ch) = ch" "fst (Say env g what lang ch) = ch"
  "fst (Invite env p n ch) = ch"
  by (simp_all add: SendWhoOwner_def List_members_def Say_def Invite_def Let_def split: option.split)

lemma chan_run_inv: "chan_inv ch \<Longrightarrow> chan_inv (fst (chan_run e ch))"
  by (cases e) (simp_all add: JoinChannel_inv LeaveChannel_inv Kick_def Ban_def KickOrBan_inv SetMode_inv
      SetOwner_byname_inv other_ops_inv chan_inv_updates)

lemma load_banlist_ok:
  "sorted bs \<and> distinct bs \<Longrightarrow> sorted (load_banlist ts bs) \<and> distinct (load_banlist ts bs)"
  by (induction ts bs rule: load_banlist.induct) (simp_all add: Let_def)

lemma new_channel_inv: "chan_inv (fst (new_channel env name channelId team))"
proof -
  have "owners ch = {}" if "playersStore ch = []" for ch using that by (simp add: owners_def)
  then show ?thesis
    using load_banlist_ok [of "[]"]
    by (auto simp: new_channel_def Let_def chan_inv_def infos_keyed_def om_find_def split: option.split)
qed

interpretation chan: state_machine chan_initial chan_step chan_inv
proof
  show "chan_initial s \<Longrightarrow> chan_inv s" for s
    by (auto elim: chan_initial.cases simp: new_channel_inv)
  show "chan_inv s \<Longrightarrow> chan_step s e t \<Longrightarrow> chan_inv t" for s e t
    by (elim chan_stepE) (metis chan_run_inv fst_conv)
qed

text \<open>
  C15: In every state a channel can reach, by any sequence of operations of any players in any
  environment, at most one member carries the owner flag, that member is the recorded owner and not
  the null GUID, and the member map and the ban set are well formed.
\<close>

theorem channel_single_owner:
  assumes "reachable chan_initial chan_step ch"
  shows "owners ch \<subseteq> {c_owner ch} - {0} \<and> om_wf (playersStore ch) \<and> sorted (bannedStore ch)
    \<and> distinct (bannedStore ch)"
  using chan.reachable_invar [OF assms] by (simp add: chan_inv_def)

text \<open>Two players join a new channel, the first becomes the owner, and hands the channel to the second.\<close>

definition sample_events :: "chan_event list" where
  "sample_events = [EvJoin sample_env (sample_player 1 ''Ann'' 0) [], EvJoin sample_env (sample_player 2 ''Bob'' 0) [],
     EvSetOwner sample_env (sample_player 1 ''Ann'' 0) ''Bob'']"

definition chan_runs :: "chan_event list \<Rightarrow> channel \<Rightarrow> channel" where
  "chan_runs es ch = fold (\<lambda>e ch. fst (chan_run e ch)) es ch"

lemma chan_runs_reachable: "reachable chan_initial chan_step ch \<Longrightarrow> reachable chan_initial chan_step (chan_runs es ch)"
proof (induction es arbitrary: ch)
  case (Cons e es)
  have "chan_step ch e (fst (chan_run e ch))" by (rule chan_stepI) (rule prod.collapse [symmetric])
  from Cons.IH [OF reach_step [OF Cons.prems this]] show ?case by (simp add: chan_runs_def)
qed (simp add: chan_runs_def)

theorem channel_single_owner_witness:
  "\<exists>ch. ch = chan_runs sample_events (fst (new_channel sample_env ''world'' 0 469)) \<and> members ch = {1, 2} \<and> c_owner ch = 2
     \<and> owners ch = {2}"
proof -
  let ?ch = "chan_runs sample_events (fst (new_channel sample_env ''world'' 0 469))"
  have "reachable chan_initial chan_step ?ch"
    by (intro chan_runs_reachable reach_init chan_created)
  from channel_single_owner [OF this] have "owners ?ch \<subseteq> {c_owner ?ch} - {0}" by blast
  moreover have run: "map fst (playersStore ?ch) = [1, 2]" "c_owner ?ch = 2" "map_option IsOwner (om_find (playersStore ?ch) 2) = Some True"
    by code_simp+
  moreover from run(3) have "2 \<in> owners ?ch" by (auto simp: owners_def)
  moreover from arg_cong [OF run(1), of set] have "members ?ch = {1, 2}"
    using om.keys_find [of _ "playersStore ?ch"] by (auto simp: members_def IsOn_def)
  ultimately show ?thesis by auto
qed

section \<open>Authority\<close>

lemma sample_inv: "chan_inv sample_channel"
  by (auto simp: chan_inv_def sample_channel_def om_wf_def owners_def om_find_def IsOwner_def has_flag_def infos_keyed_def
      MEMBER_FLAG_OWNER_def split: if_splits)

lemma sample_simps:
  "IsOn sample_channel 1" "IsOn sample_channel 2" "\<not> IsOn sample_channel 3"
  "info_of sample_channel 1 = \<lparr>pi_player = 1, pi_flags = 3\<rparr>" "info_of sample_channel 2 = \<lparr>pi_player = 2, pi_flags = 0\<rparr>"
  "c_owner sample_channel = 1" "c_ownership sample_channel"
  "p_guid (sample_player g n sec) = g" "p_name (sample_player g n sec) = n"
  "p_security (sample_player g n sec) = sec"
  "FindPlayerByName sample_env ''Ann'' = Some (sample_player 1 ''Ann'' 0)"
  "FindPlayerByName sample_env ''Bob'' = Some (sample_player 2 ''Bob'' 0)"
  "may_moderate (sample_player 1 ''Ann'' 0) sample_channel"
  "\<not> may_moderate (sample_player 2 ''Bob'' 0) sample_channel"
  by (simp_all add: IsOn_def info_of_def sample_channel_def om_find_def sample_player_def sample_env_def
      FindPlayerByName_def ascii_tolower_def may_moderate_def IsModerator_def has_flag_def MEMBER_FLAG_MODERATOR_def
      IsGMAccount_def)

lemma FindPlayer_guid: "FindPlayer env g = Some p \<Longrightarrow> p_guid p = g"
  by (auto simp: FindPlayer_def find_Some_iff)

lemma SendToOne_reply: "set (SendToOne env d g) \<subseteq> range (Send g)"
  using FindPlayer_guid [of env g] by (auto simp: SendToOne_def split: option.splits)

text \<open>Who asks for an event, and what standing the channel demands of them.\<close>

fun event_actor :: "chan_event \<Rightarrow> guid option" where
  "event_actor (EvLeave env p send) = Some (p_guid p)"
| "event_actor (EvKick env p n) = Some (p_guid p)"
| "event_actor (EvBan env p n) = Some (p_guid p)"
| "event_actor (EvUnBan env p n) = Some (p_guid p)"
| "event_actor (EvPassword env p pass) = Some (p_guid p)"
| "event_actor (EvSetMode env p n md on) = Some (p_guid p)"
| "event_actor (EvSetOwner env p n) = Some (p_guid p)"
| "event_actor (EvWhoOwner env g) = Some g"
| "event_actor (EvList env p) = Some (p_guid p)"
| "event_actor (EvAnnounce env p) = Some (p_guid p)"
| "event_actor (EvSay env g what lang) = Some g"
| "event_actor (EvInvite env p n) = Some (p_guid p)"
| "event_actor _ = None"

fun authorised :: "chan_event \<Rightarrow> channel \<Rightarrow> bool" where
  "authorised (EvKick env p n) ch = may_moderate p ch"
| "authorised (EvBan env p n) ch = may_moderate p ch"
| "authorised (EvUnBan env p n) ch = may_moderate p ch"
| "authorised (EvPassword env p pass) ch = may_moderate p ch"
| "authorised (EvSetMode env p n md on) ch = may_moderate p ch"
| "authorised (EvAnnounce env p) ch = may_moderate p ch"
| "authorised (EvSetOwner env p n) ch =
     (IsOn ch (p_guid p) \<and> (IsGMAccount (p_security p) \<or> p_guid p = c_owner ch))"
| "authorised e ch = (case event_actor e of Some a \<Rightarrow> IsOn ch a | None \<Rightarrow> True)"

text \<open>
  C25: A request of a player who lacks the standing for it (not on the channel; for kicks, bans,
  unbans, passwords, modes and announcements neither a moderator nor a game master; for a change of
  owner neither the owner nor a game master) changes nothing, and no one but that player is sent
  anything.
\<close>

theorem unauthorised_request_refused:
  assumes "event_actor e = Some a" "\<not> authorised e ch"
  shows "fst (chan_run e ch) = ch \<and> set (snd (chan_run e ch)) \<subseteq> range (Send a)"
proof (cases e)
  case (EvLeave env p send)
  then show ?thesis using assms by (cases send) (simp_all add: LeaveChannel_def SendToOne_reply)
next
  case (EvKick env p n)
  then show ?thesis
    using assms by (cases "IsOn ch a") (simp_all add: Kick_def KickOrBan_def may_moderate_def SendToOne_reply)
next
  case (EvBan env p n)
  then show ?thesis
    using assms by (cases "IsOn ch a") (simp_all add: Ban_def KickOrBan_def may_moderate_def SendToOne_reply)
next
  case (EvUnBan env p n)
  then show ?thesis
    using assms by (cases "IsOn ch a") (simp_all add: UnBan_def may_moderate_def SendToOne_reply)
next
  case (EvPassword env p pass)
  then show ?thesis
    using assms by (cases "IsOn ch a") (simp_all add: Password_def may_moderate_def SendToOne_reply)
next
  case (EvSetMode env p n md on)
  then show ?thesis
    using assms by (cases "IsOn ch a") (simp_all add: SetMode_def may_moderate_def SendToOne_reply)
next
  case (EvSetOwner env p n)
  then show ?thesis
    using assms by (cases "IsOn ch a") (simp_all add: SetOwner_byname_def SendToOne_reply)
next
  case (EvAnnounce env p)
  then show ?thesis
    using assms by (cases "IsOn ch a") (simp_all add: Announce_def may_moderate_def SendToOne_reply)
qed (use assms in \<open>simp_all add: SendWhoOwner_def List_members_def Say_def Invite_def SendToOne_reply\<close>)

theorem unauthorised_request_refused_witness:
  "fst (chan_run (EvKick sample_env (sample_player 2 ''Bob'' 0) ''Ann'') sample_channel) = sample_channel"
  using unauthorised_request_refused [of "EvKick sample_env (sample_player 2 ''Bob'' 0) ''Ann''" 2 sample_channel]
  by (simp add: sample_simps)

section \<open>Bans\<close>

lemma banned_kept [simp]:
  "bannedStore (modify_info g f ch) = bannedStore ch" "bannedStore (fst (SetOwner env g ex ch)) = bannedStore ch"
  "IsBanned ch v \<Longrightarrow> IsBanned (kicked env n b ch) v"
  by (auto simp: modify_info_def SetOwner_def kicked_def Let_def IsBanned_def)

text \<open>The new owner after a leave is named by the first entry of the member map.\<close>

lemma first_named:
  assumes "infos_keyed ch" "playersStore ch \<noteq> []"
  shows "pi_player (snd (hd (playersStore ch))) \<in> insert 0 (members ch)"
proof -
  obtain k i m where m: "playersStore ch = (k, i) # m" using assms(2) by (cases "playersStore ch") auto
  then have "om_find (playersStore ch) k = Some i" by (simp add: om_find_def)
  then have "pi_player i = 0 \<or> pi_player i = k" and "k \<in> members ch"
    using assms(1) by (auto simp: infos_keyed_def members_def IsOn_def)
  with m show ?thesis by auto
qed

definition shut_out :: "guid \<Rightarrow> channel \<Rightarrow> bool" where
  "shut_out v ch \<longleftrightarrow> chan_inv ch \<and> IsBanned ch v \<and> v \<notin> members ch"

lemma shut_out_leave:
  assumes "shut_out v ch" "v \<noteq> 0"
  shows "IsBanned (fst (LeaveChannel env p send ch)) v \<and> v \<notin> members (fst (LeaveChannel env p send ch))"
proof -
  let ?ch = "ch\<lparr>playersStore := om_erase (p_guid p) (playersStore ch)\<rparr>"
  have "om_wf (playersStore ch)" using assms(1) by (simp add: shut_out_def chan_inv_def)
  then have mem: "members ?ch = members ch - {p_guid p}" by (simp add: chan_simps)
  have "infos_keyed ?ch"
    using assms(1) \<open>om_wf (playersStore ch)\<close> by (auto simp: shut_out_def chan_inv_def infos_keyed_def store_simps)
  then have "pi_player (snd (hd (playersStore ?ch))) \<noteq> v" if "playersStore ?ch \<noteq> []"
    using first_named [OF _ that] mem assms by (auto simp: shut_out_def)
  then show ?thesis
    using assms mem
    by (auto simp: LeaveChannel_def Let_def split_def shut_out_def IsBanned_def SetOwner_members chan_simps)
qed

lemma shut_out_kick:
  assumes "shut_out v ch"
  shows "IsBanned (fst (KickOrBan env p n b ch)) v \<and> v \<notin> members (fst (KickOrBan env p n b ch))"
proof -
  have "om_wf (playersStore ch)" using assms by (simp add: shut_out_def chan_inv_def)
  then have mem: "members (kicked env n b ch) = members ch - {kick_victim env n}"
    by (auto simp: kicked_def Let_def members_def IsOn_def store_simps)
  have "IsBanned (kicked env n b ch) v" using assms by (simp add: shut_out_def)
  moreover have "p_guid p \<noteq> v" if "kick_allowed env p n ch"
    using that assms by (auto simp: kick_allowed_def may_moderate_def shut_out_def IsOn_iff)
  ultimately show ?thesis
    using assms mem by (auto simp: KickOrBan_fst shut_out_def IsBanned_def SetOwner_members chan_simps)
qed

fun lifts_ban :: "chan_event \<Rightarrow> bool" where
  "lifts_ban (EvUnBan env p n) = True"
| "lifts_ban e = False"

lemma shut_out_step:
  assumes "shut_out v ch" "v \<noteq> 0" "\<not> lifts_ban e"
  shows "shut_out v (fst (chan_run e ch))"
proof -
  have join: "IsBanned (fst (JoinChannel env p pass ch)) v \<and> v \<notin> members (fst (JoinChannel env p pass ch))" for env p pass
    using assms(1,2)
    by (cases "p_guid p = v") (auto simp: JoinChannel_def Let_def split_def shut_out_def IsOn_iff IsBanned_def SetOwner_members chan_simps)
  have mode: "IsBanned (fst (SetMode env p n md on ch)) v \<and> v \<notin> members (fst (SetMode env p n md on ch))" for env p n md on
    using assms(1)
    by (auto simp: SetMode_def Let_def SetModerator_def SetMute_def SetMemberFlag_def shut_out_def IsOn_iff IsBanned_def chan_simps
        split: option.split)
  have owner: "IsBanned (fst (SetOwner_byname env p n ch)) v \<and> v \<notin> members (fst (SetOwner_byname env p n ch))" for env p n
    using assms(1)
    by (auto simp: SetOwner_byname_def Let_def shut_out_def IsOn_iff IsBanned_def SetOwner_members chan_simps split: option.split)
  have "IsBanned (fst (chan_run e ch)) v \<and> v \<notin> members (fst (chan_run e ch))"
    using assms(1,3) join mode owner shut_out_leave [OF assms(1,2)] shut_out_kick [OF assms(1)]
    by (cases e) (simp_all add: Kick_def Ban_def, simp_all add: Password_def Announce_def Let_def shut_out_def IsBanned_def chan_simps)
  then show ?thesis using assms(1) chan_run_inv [of ch e] by (simp add: shut_out_def)
qed

text \<open>
  C23: A ban of a member other than the owner, by someone who may moderate, takes effect: the victim is
  recorded as banned and is off the channel, and stays banned and off the channel through any later sequence of
  operations of anybody, joins of the victim with any password among them, until a ban is lifted.
\<close>

theorem ban_takes_effect:
  assumes "chan_inv ch" "may_moderate p ch" "FindPlayerByName env n = Some b" "p_guid b \<noteq> 0"
    and "IsOn ch (p_guid b)" "c_owner ch \<noteq> p_guid b"
    and "\<forall>e\<in>set es. \<not> lifts_ban e"
  shows "\<exists>ch'. fst (Ban env p n ch) = ch' \<and> IsBanned ch' (p_guid b) \<and> \<not> IsOn ch' (p_guid b)
    \<and> (\<forall>env' q pass. p_guid q = p_guid b \<longrightarrow> fst (JoinChannel env' q pass ch') = ch')
    \<and> IsBanned (chan_runs es ch') (p_guid b) \<and> \<not> IsOn (chan_runs es ch') (p_guid b)"
proof -
  let ?ch = "kicked env n True ch"
  have v: "kick_victim env n = p_guid b" using assms(3) by (simp add: kick_victim_def)
  have "fst (Ban env p n ch) = ?ch"
    using assms v by (simp add: Ban_def KickOrBan_fst kick_allowed_def)
  moreover have "IsBanned ?ch (p_guid b)" and "\<not> IsOn ?ch (p_guid b)"
    using v assms(1) by (simp_all add: kicked_def Let_def IsBanned_def IsOn_def chan_inv_def store_simps)
  moreover from this have "shut_out (p_guid b) ?ch" by (simp add: shut_out_def kicked_inv assms(1) IsOn_iff)
  then have "shut_out (p_guid b) (chan_runs es ?ch)"
    using assms(7) by (induction es arbitrary: ch rule: rev_induct) (simp_all add: chan_runs_def shut_out_step assms(4))
  ultimately show ?thesis by (auto simp: JoinChannel_def shut_out_def IsOn_iff)
qed

theorem ban_takes_effect_witness:
  "\<exists>ch'. ch' = fst (Ban sample_env (sample_player 1 ''Ann'' 0) ''Bob'' sample_channel) \<and> IsBanned ch' 2 \<and> \<not> IsOn ch' 2
     \<and> \<not> IsOn (chan_runs [EvLeave sample_env (sample_player 1 ''Ann'' 0) True, EvJoin sample_env (sample_player 2 ''Bob'' 0) []] ch') 2"
  using ban_takes_effect [of sample_channel "sample_player 1 ''Ann'' 0" sample_env "''Bob''" "sample_player 2 ''Bob'' 0"
      "[EvLeave sample_env (sample_player 1 ''Ann'' 0) True, EvJoin sample_env (sample_player 2 ''Bob'' 0) []]"]
  by (simp add: sample_simps sample_inv)

section \<open>Messages\<close>

lemma set_SendToAll:
  "set (SendToAll env ch d g)
     = {Send k d | k. IsOn ch k \<and> (\<exists>p. FindPlayer env k = Some p \<and> (g = 0 \<or> \<not> HasIgnore p (GUID_LOPART g)))}"
proof -
  have on: "IsOn ch k \<longleftrightarrow> (\<exists>i. (k, i) \<in> set (playersStore ch))" for k
    by (auto simp: IsOn_def om_find_def dest: map_of_SomeD weak_map_of_SomeI)
  have "x \<in> set (SendToAll env ch d g) \<longleftrightarrow>
      (\<exists>k p. IsOn ch k \<and> FindPlayer env k = Some p \<and> (g = 0 \<or> \<not> HasIgnore p (GUID_LOPART g)) \<and> x = Send (p_guid p) d)" for x
    by (auto simp: SendToAll_def on split: option.splits if_splits) (force+)
  then show ?thesis using FindPlayer_guid by blast
qed

text \<open>
  A message of a member who is not muted reaches exactly the members that are in the world and,
  unless the speaker is a moderator, do not ignore the speaker; it carries the channel's name, the
  speaker and the text. A muted member, or someone who is not on the channel, reaches nobody else.
\<close>

theorem say_audience:
  assumes "what \<noteq> []"
  shows "if IsOn ch g \<and> \<not> IsMuted (info_of ch g)
    then set (snd (Say env g what lang ch))
      = {Send k (say_packet env ch g what (if cfg_two_side_channel env then 0 else lang)) | k. IsOn ch k
          \<and> (\<exists>p. FindPlayer env k = Some p
               \<and> (IsModerator (info_of ch g) \<or> g = 0 \<or> \<not> HasIgnore p (GUID_LOPART g)))}
    else set (snd (Say env g what lang ch)) \<subseteq> range (Send g)"
  using assms by (auto simp: Say_def Let_def set_SendToAll SendToOne_reply [THEN subsetD] if_distribR)

theorem say_audience_witness:
  "set (snd (Say sample_env 2 ''hi'' 7 sample_channel))
     = {Send k (say_packet sample_env sample_channel 2 ''hi'' 7) | k. IsOn sample_channel k
         \<and> (\<exists>p. FindPlayer sample_env k = Some p \<and> (False \<or> (2 :: guid) = 0 \<or> \<not> HasIgnore p (GUID_LOPART 2)))}"
  using say_audience [of "''hi''" sample_channel 2 sample_env 7]
  by (simp add: sample_simps IsMuted_def IsModerator_def has_flag_def MEMBER_FLAG_MUTED_def MEMBER_FLAG_MODERATOR_def
      sample_env_def)

section \<open>Members and the players' channel lists\<close>

definition infos_ok :: "channel \<Rightarrow> bool" where
  "infos_ok ch \<longleftrightarrow> (\<forall>k i. om_find (playersStore ch) k = Some i \<longrightarrow> pi_player i = k)"

definition joins :: "effect list \<Rightarrow> guid set" where
  "joins effs = {g. JoinedChannel g \<in> set effs}"

definition leaves :: "effect list \<Rightarrow> guid set" where
  "leaves effs = {g. LeftChannel g \<in> set effs}"

lemma joins_leaves_simps [chan_simps]:
  "joins [] = {}" "leaves [] = {}" "joins (xs @ ys) = joins xs \<union> joins ys" "leaves (xs @ ys) = leaves xs \<union> leaves ys"
  "joins [JoinedChannel g] = {g}" "leaves [JoinedChannel g] = {}" "joins [LeftChannel g] = {}" "leaves [LeftChannel g] = {g}"
  "joins (JoinedChannel g # xs) = insert g (joins xs)" "leaves (JoinedChannel g # xs) = leaves xs"
  "joins (LeftChannel g # xs) = joins xs" "leaves (LeftChannel g # xs) = insert g (leaves xs)"
  by (auto simp: joins_def leaves_def)

lemma SendToAllButOne_sends: "\<forall>e \<in> set (SendToAllButOne env ch d g). \<exists>k. e = Send k d"
proof -
  have "set (case x of Some p \<Rightarrow> [Send (p_guid p) d] | None \<Rightarrow> []) \<subseteq> range (\<lambda>k. Send k d)" for x :: "player option"
    by (cases x) simp_all
  then have "set (if c then (case x of Some p \<Rightarrow> [Send (p_guid p) d] | None \<Rightarrow> []) else []) \<subseteq> range (\<lambda>k. Send k d)"
    for c and x :: "player option"
    by (cases c) (simp_all only: if_True if_False list.set empty_subsetI)
  then show ?thesis
    unfolding SendToAllButOne_def split_def set_concat set_map by blast
qed

lemma SendToOne_sends: "\<forall>e \<in> set (SendToOne env d g). \<exists>k. e = Send k d"
  unfolding SendToOne_def by (cases "FindPlayer env g") simp_all

lemma sends_track_nothing [chan_simps]:
  "joins (SendToAll env ch d g) = {}" "leaves (SendToAll env ch d g) = {}"
  "joins (SendToAllButOne env ch d g) = {}" "leaves (SendToAllButOne env ch d g) = {}"
  "joins (SendToOne env d g) = {}" "leaves (SendToOne env d g) = {}"
  "joins (UpdateChannelInDB ch) = {}" "leaves (UpdateChannelInDB ch) = {}"
  "joins (UpdateChannelUseageInDB ch) = {}" "leaves (UpdateChannelUseageInDB ch) = {}"
proof -
  have all: "\<forall>e \<in> set (SendToAll env ch d g). \<exists>k. e = Send k d" by (auto simp: set_SendToAll)
  note but = SendToAllButOne_sends [of env ch d g] and one = SendToOne_sends [of env d g]
  from all show "joins (SendToAll env ch d g) = {}" "leaves (SendToAll env ch d g) = {}"
    by (auto simp: joins_def leaves_def)
  from but show "joins (SendToAllButOne env ch d g) = {}" "leaves (SendToAllButOne env ch d g) = {}"
    by (auto simp: joins_def leaves_def)
  from one show "joins (SendToOne env d g) = {}" "leaves (SendToOne env d g) = {}"
    by (auto simp: joins_def leaves_def)
qed (simp_all add: joins_def leaves_def UpdateChannelInDB_def UpdateChannelUseageInDB_def)

lemma notify_tracks_nothing [chan_simps]:
  "joins (JoinNotify env ch g) = {}" "leaves (JoinNotify env ch g) = {}"
  "joins (LeaveNotify env ch g) = {}" "leaves (LeaveNotify env ch g) = {}"
  "joins (snd (SetOwner env g ex ch)) = {}" "leaves (snd (SetOwner env g ex ch)) = {}"
  by (simp_all add: JoinNotify_def LeaveNotify_def SetOwner_def Let_def chan_simps)



lemma infos_ok_updates [chan_simps]:
  "infos_ok (ch\<lparr>c_owner := o1\<rparr>) = infos_ok ch" "infos_ok (ch\<lparr>c_announce := a\<rparr>) = infos_ok ch"
  "infos_ok (ch\<lparr>bannedStore := bs\<rparr>) = infos_ok ch" "infos_ok (ch\<lparr>c_password := w\<rparr>) = infos_ok ch"
  "infos_ok (ch\<lparr>c_ownership := a\<rparr>) = infos_ok ch"
  by (simp_all add: infos_ok_def)


lemma infos_ok_erase:
  "om_wf (playersStore ch) \<Longrightarrow> infos_ok ch \<Longrightarrow> infos_ok (ch\<lparr>playersStore := om_erase g (playersStore ch)\<rparr>)"
  by (auto simp: infos_ok_def store_simps split: if_splits)








lemma kick_notice_tracks [chan_simps]: "joins (kick_notice env p n b ch) = {}" "leaves (kick_notice env p n b ch) = {}"
  by (simp_all add: kick_notice_def Let_def chan_simps)

lemma members_kicked: "om_wf (playersStore ch) \<Longrightarrow> members (kicked env n b ch) = members ch - {kick_victim env n}"
  by (auto simp: kicked_def Let_def members_def IsOn_def store_simps)










lemma sample_infos: "infos_ok sample_channel"
  by (auto simp: infos_ok_def sample_channel_def om_find_def split: if_splits)


section \<open>Ownership\<close>

text \<open>
  When the owner of a custom channel leaves it and others stay, the member with the smallest GUID
  becomes the owner: it is recorded as the owner and is the only member with the owner flag, it is a
  moderator, and the one who left is off the channel.
\<close>

theorem owner_leaves_hands_over:
  assumes "chan_inv ch" "infos_ok ch" "\<not> IsConstant ch" "c_ownership ch"
    and "IsOn ch (p_guid p)" "IsOwner (info_of ch (p_guid p))"
    and "om_erase (p_guid p) (playersStore ch) = (k, j) # rest" "k \<noteq> 0"
  shows "\<exists>ch'. fst (LeaveChannel env p send ch) = ch' \<and> c_owner ch' = k \<and> owners ch' = {k}
    \<and> IsModerator (info_of ch' k) \<and> \<not> IsOn ch' (p_guid p)"
proof -
  let ?ch = "ch\<lparr>playersStore := om_erase (p_guid p) (playersStore ch)\<rparr>"
  let ?m = "modify_info k (info_SetModerator True) ?ch"
  have wf: "om_wf (playersStore ch)" using assms(1) by (simp add: chan_inv_def)
  have found: "om_find (playersStore ?ch) k = Some j" using assms(7) by (simp add: om_find_def)
  have kp: "k \<noteq> p_guid p" using found wf by (auto simp: store_simps)
  have j: "pi_player j = k" and on: "k \<in> members ?ch"
    using found infos_ok_erase [OF wf assms(2), of "p_guid p"] by (auto simp: infos_ok_def members_def IsOn_def)
  have res: "fst (LeaveChannel env p send ch) = fst (SetOwner env k True ?m)"
    using assms(3-7) j by (simp add: LeaveChannel_def Let_def split_def IsConstant_def)
  have inv: "chan_inv ?m" by (intro chan_inv_updates assms(1)) simp
  then have "owners ?m \<subseteq> {c_owner ?m} - {0}" by (simp add: chan_inv_def)
  then have "owners (fst (SetOwner env k True ?m)) = {k}" using assms(8) by (simp add: SetOwner_owners)
  moreover have "p_guid p \<notin> members (fst (SetOwner env k True ?m))"
    using on kp wf by (auto simp: SetOwner_members chan_simps)
  moreover have "IsModerator (info_of (fst (SetOwner env k True ?m)) k)"
    using assms(8) by (simp add: SetOwner_def Let_def chan_simps)
  ultimately show ?thesis using res by (simp add: IsOn_iff)
qed

theorem owner_leaves_hands_over_witness:
  "\<exists>ch'. fst (LeaveChannel sample_env (sample_player 1 ''Ann'' 0) True sample_channel) = ch' \<and> c_owner ch' = 2
     \<and> owners ch' = {2} \<and> IsModerator (info_of ch' 2) \<and> \<not> IsOn ch' 1"
proof -
  have "IsOwner (info_of sample_channel 1)"
    by (simp add: sample_simps IsOwner_def has_flag_def MEMBER_FLAG_OWNER_def)
  moreover have "\<not> IsConstant sample_channel"
    "om_erase 1 (playersStore sample_channel) = (2, \<lparr>pi_player = 2, pi_flags = 0\<rparr>) # []"
    by (simp_all add: IsConstant_def sample_channel_def)
  moreover note owner_leaves_hands_over [of sample_channel "sample_player 1 ''Ann'' 0" 2
      "\<lparr>pi_player = 2, pi_flags = 0\<rparr>" "[]" sample_env True]
  ultimately  show ?thesis by (simp add: sample_inv sample_infos sample_simps)
qed

text \<open>
  An owner who kicks or bans himself while others are on the channel is not removed: the hand-over
  re-creates his entry, with a null player field, makes it the owner, and leaves him listed as a
  member although his own channel list has lost the channel.
\<close>

theorem owner_self_kick_leaves_ghost:
  assumes "chan_inv ch" "IsOn ch (p_guid p)" "c_owner ch = p_guid p" "IsModerator (info_of ch (p_guid p))"
    and "c_ownership ch" "kick_victim env n = p_guid p" "p_guid p \<noteq> 0"
    and "IsOn ch q" "q \<noteq> p_guid p"
  shows "\<exists>ch' effs. KickOrBan env p n b ch = (ch', effs) \<and> LeftChannel (p_guid p) \<in> set effs
    \<and> IsOn ch' (p_guid p) \<and> pi_player (info_of ch' (p_guid p)) = 0 \<and> c_owner ch' = p_guid p"
proof -
  let ?g = "p_guid p" and ?k = "kicked env n b ch"
  have allowed: "kick_allowed env p n ch"
    using assms by (simp add: kick_allowed_def may_moderate_def)
  have wf: "om_wf (playersStore ch)" using assms(1) by (simp add: chan_inv_def)
  then have mem: "members ?k = members ch - {?g}" using assms(6) by (simp add: members_kicked)
  then have "q \<in> members ?k" using assms(8,9) by (simp add: IsOn_iff)
  then have ne: "playersStore ?k \<noteq> []" by (auto simp: members_def IsOn_def)
  have "om_find (playersStore ?k) ?g = None" using mem by (auto simp: members_def IsOn_def)
  then have info: "info_of ?k ?g = no_info" and off: "\<not> IsOn ?k ?g" by (simp_all add: info_of_def IsOn_def)
  let ?m = "modify_info ?g (info_SetModerator True) ?k"
  have run: "KickOrBan env p n b ch
      = (fst (SetOwner env ?g True ?m), (kick_notice env p n b ch @ [LeftChannel ?g]) @ snd (SetOwner env ?g True ?m))"
    using KickOrBan_done [OF allowed] ne assms(3,5,6) by (simp add: Let_def)
  have "pi_player (info_of (fst (SetOwner env ?g True ?m)) ?g) = 0"
    using assms(3,7) info by (simp add: SetOwner_def Let_def chan_simps no_info_def)
  moreover have "IsOn (fst (SetOwner env ?g True ?m)) ?g"
    using assms(7) by (simp add: IsOn_iff SetOwner_members)
  ultimately show ?thesis using run by simp
qed

theorem owner_self_kick_leaves_ghost_witness:
  "\<exists>ch' effs. KickOrBan sample_env (sample_player 1 ''Ann'' 0) ''Ann'' False sample_channel = (ch', effs)
    \<and> LeftChannel 1 \<in> set effs \<and> IsOn ch' 1 \<and> pi_player (info_of ch' 1) = 0 \<and> c_owner ch' = 1"
proof -
  have "IsModerator (info_of sample_channel 1)"
    by (simp add: sample_simps IsModerator_def has_flag_def MEMBER_FLAG_MODERATOR_def)
  with owner_self_kick_leaves_ghost [of sample_channel "sample_player 1 ''Ann'' 0" sample_env "''Ann''" 2 False]
  show ?thesis by (simp add: sample_inv sample_simps kick_victim_def)
qed

section \<open>Persistence\<close>

lemma print_banlist_join: "print_banlist bs = join_with (CHR '' '') (map (\<lambda>g. print_nat (unat g)) bs)"
  by (induction bs) (simp_all add: print_banlist_def)

lemma tokens_of_banlist: "Tokenizer (print_banlist bs) (CHR '' '') = map (\<lambda>g. print_nat (unat g)) bs"
  unfolding print_banlist_join by (rule Tokenizer_join) (simp add: list_all_iff digits_free)

lemma load_saved_banlist:
  "sorted (acc @ bs) \<Longrightarrow> distinct (acc @ bs) \<Longrightarrow> list_all (\<lambda>g. g \<noteq> 0 \<and> unat g < 2 ^ 63) bs \<Longrightarrow>
     load_banlist (map (\<lambda>g. print_nat (unat g)) bs) acc = acc @ bs"
proof (induction bs arbitrary: acc)
  case Nil
  then show ?case by simp
next
  case (Cons g bs)
  have "atol (print_nat (unat g)) = int (unat g)"
    using Cons.prems(3) atol_print [of "[]" "unat g"] by simp
  then have a: "(word_of_int (atol (print_nat (unat g))) :: guid) = g" by simp
  have "\<forall>x \<in> set acc. x < g" using Cons.prems(1,2) by (fastforce simp: sorted_append)
  then have "ban_insert g acc = acc @ [g]"
    unfolding ban_insert_def by (induction acc) (auto simp: insort_insert_key_def)
  with Cons a show ?case by simp
qed

text \<open>
  C30: A saved custom channel survives a restart: constructing the channel of the same name and team from
  the row that \<^verbatim>\<open>UpdateChannelInDB\<close> wrote restores its announcement, ownership and password settings and
  its ban set, for GUIDs below \<open>2 ^ 63\<close> (all player GUIDs).
\<close>

theorem channel_persistence_roundtrip:
  assumes "chan_inv ch" "list_all (\<lambda>g. g \<noteq> 0 \<and> unat g < 2 ^ 63) (bannedStore ch)" "c_saved ch"
    and "UpdateChannelInDB ch = [DbUpdateChannel (c_name ch) (c_team ch) row]"
    and "db_channels env (c_name ch) (c_team ch) = Some row" "cfg_preserve_custom env" "chat_channels env 0 = None"
  shows "\<exists>ch'. new_channel env (c_name ch) 0 (c_team ch) = (ch', []) \<and> c_announce ch' = c_announce ch
    \<and> c_ownership ch' = c_ownership ch \<and> c_password ch' = c_password ch \<and> bannedStore ch' = bannedStore ch
    \<and> playersStore ch' = []"
proof -
  have "row = channel_row ch" using assms(3,4) by (simp add: UpdateChannelInDB_def)
  moreover have "load_banlist (Tokenizer (print_banlist (bannedStore ch)) (CHR '' '')) [] = bannedStore ch"
    using load_saved_banlist [of "[]" "bannedStore ch"] assms(1,2)
    by (simp add: tokens_of_banlist chan_inv_def)
  ultimately show ?thesis
    using assms(5-7) by (simp add: new_channel_def Let_def channel_row_def)
qed

theorem channel_persistence_roundtrip_witness:
  "let ch = sample_channel\<lparr>c_saved := True, bannedStore := [5, 9]\<rparr>;
       env = sample_env\<lparr>cfg_preserve_custom := True, db_channels := (\<lambda>_ _. Some (channel_row ch))\<rparr>
   in \<exists>ch'. new_channel env ''world'' 0 469 = (ch', []) \<and> bannedStore ch' = [5, 9]"
proof -
  let ?ch = "sample_channel\<lparr>c_saved := True, bannedStore := [5, 9]\<rparr>"
  let ?env = "sample_env\<lparr>cfg_preserve_custom := True, db_channels := (\<lambda>_ _. Some (channel_row ?ch))\<rparr>"
  have "chan_inv ?ch" using sample_inv by (simp add: chan_inv_def owners_def infos_keyed_def)
  from channel_persistence_roundtrip [OF this, of "channel_row ?ch" ?env] show ?thesis
    by (auto simp: UpdateChannelInDB_def sample_env_def sample_channel_def)
qed

end
