(* ===== verification/ChannelMgrSpec.thy ===== *)
theory ChannelMgrSpec
  imports ChannelMgr ChannelSpec ByteBufferSpec
begin

text \<open>
  Correctness of the channel managers and the session handlers: references in the players' channel
  lists never dangle, empty custom channels are removed, lookups ignore case, and the handlers read
  what a client writes.
\<close>

section \<open>What a channel operation does to the players' lists\<close>

fun is_track :: "effect \<Rightarrow> bool" where
  "is_track (JoinedChannel g) = True"
| "is_track (LeftChannel g) = True"
| "is_track _ = False"

definition tracked :: "effect list \<Rightarrow> effect list" where
  "tracked effs = filter is_track effs"

lemma fold_tracked: "fold (apply_effect c) effs st = fold (apply_effect c) (tracked effs) st"
proof (induction effs arbitrary: st)
  case (Cons e effs)
  then show ?case by (cases e) (simp_all add: tracked_def)
qed (simp add: tracked_def)

lemma tracked_simps [chan_simps]:
  "tracked [] = []" "tracked (xs @ ys) = tracked xs @ tracked ys"
  "tracked (JoinedChannel g # xs) = JoinedChannel g # tracked xs" "tracked (LeftChannel g # xs) = LeftChannel g # tracked xs"
  by (simp_all add: tracked_def)

lemma untracked: "\<forall>e \<in> set es. \<exists>k. e = Send k d \<Longrightarrow> tracked es = []"
  by (auto simp: tracked_def filter_empty_conv)

lemma tracked_sends [chan_simps]:
  "tracked (SendToAll env ch d g) = []" "tracked (SendToAllButOne env ch d g) = []" "tracked (SendToOne env d g) = []"
  "tracked (UpdateChannelInDB ch) = []" "tracked (UpdateChannelUseageInDB ch) = []"
proof -
  have "\<forall>e \<in> set (SendToAll env ch d g). \<exists>k. e = Send k d" by (auto simp: set_SendToAll)
  then show "tracked (SendToAll env ch d g) = []" by (rule untracked)
  show "tracked (SendToAllButOne env ch d g) = []" by (rule untracked [OF SendToAllButOne_sends])
  show "tracked (SendToOne env d g) = []" by (rule untracked [OF SendToOne_sends])
qed (simp_all add: tracked_def UpdateChannelInDB_def UpdateChannelUseageInDB_def)

lemma tracked_notices [chan_simps]:
  "tracked (JoinNotify env ch g) = []" "tracked (LeaveNotify env ch g) = []"
  "tracked (snd (SetOwner env g ex ch)) = []" "tracked (kick_notice env p n b ch) = []"
  by (simp_all add: JoinNotify_def LeaveNotify_def SetOwner_def kick_notice_def Let_def chan_simps)

text \<open>
  One operation calls at most one of \<^verbatim>\<open>JoinedChannel\<close> and \<^verbatim>\<open>LeftChannel\<close>, once: the first only for a player who
  becomes a member, the second for one who may stop being a member. Apart from that player and those in
  \<open>S\<close>, nobody stops being a member.
\<close>

definition move_ok :: "channel \<Rightarrow> guid set \<Rightarrow> chan_result \<Rightarrow> bool" where
  "move_ok ch S r \<longleftrightarrow>
     chan_inv (fst r) \<and> c_name (fst r) = c_name ch \<and>
     ((tracked (snd r) = [] \<and> members ch - S \<subseteq> members (fst r))
      \<or> (\<exists>g. tracked (snd r) = [JoinedChannel g] \<and> g \<notin> members ch \<and> insert g (members ch) \<subseteq> members (fst r))
      \<or> (\<exists>g. tracked (snd r) = [LeftChannel g] \<and> members ch - {g} \<subseteq> members (fst r)))"

lemma c_name_modify [simp]: "c_name (modify_info g f ch) = c_name ch"
  by (simp add: modify_info_def)

lemma c_name_SetOwner [simp]: "c_name (fst (SetOwner env g ex ch)) = c_name ch"
  by (simp add: SetOwner_def Let_def)

lemma c_name_kicked [simp]: "c_name (kicked env n b ch) = c_name ch"
  by (simp add: kicked_def Let_def)

lemma move_same: "chan_inv ch \<Longrightarrow> tracked es = [] \<Longrightarrow> move_ok ch {} (ch, es)"
  by (simp add: move_ok_def)

lemma JoinChannel_moves:
  assumes "chan_inv ch"
  shows "move_ok ch {} (JoinChannel env p pass ch)"
  using JoinChannel_inv [OF assms, of env p pass]
  by (auto simp: move_ok_def JoinChannel_def Let_def split_def chan_simps SetOwner_members IsOn_iff)

lemma LeaveChannel_moves:
  assumes "chan_inv ch"
  shows "move_ok ch (if send then {} else {p_guid p}) (LeaveChannel env p send ch)"
proof -
  have "om_wf (playersStore ch)" using assms by (simp add: chan_inv_def)
  then show ?thesis
    using LeaveChannel_inv [OF assms, of env p send]
    by (cases send) (auto simp: move_ok_def LeaveChannel_def Let_def split_def chan_simps SetOwner_members IsOn_iff)
qed

lemma KickOrBan_moves:
  assumes "chan_inv ch"
  shows "move_ok ch {} (KickOrBan env p n b ch)"
proof (cases "kick_allowed env p n ch")
  case True
  have "om_wf (playersStore ch)" using assms by (simp add: chan_inv_def)
  then show ?thesis
    using KickOrBan_inv [OF assms, of env p n b] True
    by (auto simp: move_ok_def KickOrBan_done Let_def chan_simps SetOwner_members members_kicked)
next
  case False
  then obtain d where "KickOrBan env p n b ch = (ch, SendToOne env d (p_guid p))"
    using KickOrBan_refused by blast
  then show ?thesis using assms by (simp add: move_same chan_simps)
qed

lemma quiet_move:
  assumes "chan_inv (fst r)" "c_name (fst r) = c_name ch" "tracked (snd r) = []" "members ch \<subseteq> members (fst r)"
  shows "move_ok ch {} r"
  using assms by (simp add: move_ok_def)

lemma SetMemberFlag_moves:
  "chan_inv ch \<Longrightarrow> m AND MEMBER_FLAG_OWNER = 0 \<Longrightarrow> move_ok ch {} (SetMemberFlag m env g on ch)"
  by (rule quiet_move) (auto simp: SetMemberFlag_inv, auto simp: SetMemberFlag_def Let_def chan_simps)

lemma SetMode_moves: "chan_inv ch \<Longrightarrow> move_ok ch {} (SetMode env p n md on ch)"
  by (simp add: SetMode_def Let_def SetModerator_def SetMute_def SetMemberFlag_moves move_same chan_simps split: option.split)

lemma SetOwner_byname_moves:
  assumes "chan_inv ch"
  shows "move_ok ch {} (SetOwner_byname env p n ch)"
proof (rule quiet_move)
  show "chan_inv (fst (SetOwner_byname env p n ch))" by (rule SetOwner_byname_inv [OF assms])
  show "c_name (fst (SetOwner_byname env p n ch)) = c_name ch"
    "tracked (snd (SetOwner_byname env p n ch)) = []"
    by (simp_all add: SetOwner_byname_def Let_def chan_simps split: option.split)
  have "members ch \<subseteq> members (fst (SetOwner env g True (modify_info g f ch)))" for g f
    by (auto simp: SetOwner_members chan_simps)
  then show "members ch \<subseteq> members (fst (SetOwner_byname env p n ch))"
    by (simp add: SetOwner_byname_def Let_def split: option.split)
qed

lemma quiet_ops_move:
  assumes "chan_inv ch"
  shows "move_ok ch {} (UnBan env p n ch)" "move_ok ch {} (Password env p n ch)" "move_ok ch {} (Announce env p ch)"
    "move_ok ch {} (SendWhoOwner env g ch)" "move_ok ch {} (List_members env p ch)" "move_ok ch {} (Invite env p n ch)"
    "move_ok ch {} (ch, [Send g d])"
  using assms
  by (simp_all add: UnBan_def Password_def Announce_def SendWhoOwner_def List_members_def Invite_def Let_def move_ok_def
      chan_simps chan_inv_updates split: option.split)
    (simp_all add: tracked_def)

section \<open>The shared state\<close>

definition mgr_inv :: "chat_state \<Rightarrow> bool" where
  "mgr_inv st \<longleftrightarrow> (\<forall>m. om_wf (mgr_channels (managers st m)))
     \<and> (\<forall>c ch. channel_at st c = Some ch \<longrightarrow> chan_inv ch \<and> channel_key (c_name ch) = Inr (snd c))"

definition refs_inv :: "chat_state \<Rightarrow> bool" where
  "refs_inv st \<longleftrightarrow> (\<forall>g. distinct (m_channels st g)
     \<and> (\<forall>c \<in> set (m_channels st g). \<exists>ch. channel_at st c = Some ch \<and> g \<in> members ch))"

definition chat_inv :: "chat_state \<Rightarrow> bool" where
  "chat_inv st \<longleftrightarrow> mgr_inv st \<and> refs_inv st"

lemma mgr_invD: "mgr_inv st \<Longrightarrow> channel_at st c = Some ch \<Longrightarrow> chan_inv ch \<and> channel_key (c_name ch) = Inr (snd c)"
  unfolding mgr_inv_def by blast

lemma channel_at_put [chan_simps]: "channel_at (put_channel r ch st) c = (if c = r then Some ch else channel_at st c)"
  by (cases c; cases r) (auto simp: channel_at_def put_channel_def store_simps)

lemma channel_at_delete:
  "mgr_inv st \<Longrightarrow> channel_at (delete_channel r st) c = (if c = r then None else channel_at st c)"
  by (cases c; cases r) (auto simp: channel_at_def delete_channel_def store_simps mgr_inv_def)

lemma refs_only [simp]:
  "m_channels (put_channel r ch st) = m_channels st" "m_channels (delete_channel r st) = m_channels st"
  "channel_at (Player_JoinedChannel g c st) = channel_at st" "channel_at (Player_LeftChannel g c st) = channel_at st"
  "managers (Player_JoinedChannel g c st) = managers st" "managers (Player_LeftChannel g c st) = managers st"
  by (auto simp: put_channel_def delete_channel_def channel_at_def Player_JoinedChannel_def Player_LeftChannel_def fun_eq_iff)

lemma mgr_inv_put:
  assumes "mgr_inv st" "chan_inv ch" "channel_key (c_name ch) = Inr (snd c)"
  shows "mgr_inv (put_channel c ch st)"
  using assms by (auto simp: mgr_inv_def chan_simps) (simp add: put_channel_def)

lemma mgr_inv_refs [simp]:
  "mgr_inv (Player_JoinedChannel g c st) = mgr_inv st" "mgr_inv (Player_LeftChannel g c st) = mgr_inv st"
  by (simp_all add: mgr_inv_def)

lemma refs_inv_put:
  assumes "refs_inv st" "channel_at st c = Some ch" "members ch - S \<subseteq> members ch'"
    and "\<forall>g \<in> S. c \<notin> set (m_channels st g)"
  shows "refs_inv (put_channel c ch' st)"
proof -
  have "\<exists>ch1. channel_at (put_channel c ch' st) d = Some ch1 \<and> g \<in> members ch1" if "d \<in> set (m_channels st g)" for d g
    using that assms by (cases "d = c") (fastforce simp: refs_inv_def chan_simps)+
  with assms(1) show ?thesis by (simp add: refs_inv_def)
qed

lemma refs_inv_join:
  assumes "refs_inv st" "channel_at st c = Some ch" "g \<in> members ch" "c \<notin> set (m_channels st g)"
  shows "refs_inv (Player_JoinedChannel g c st)"
  using assms by (auto simp: refs_inv_def) (auto simp: Player_JoinedChannel_def split: if_splits)

lemma refs_inv_leave:
  assumes "refs_inv st"
  shows "refs_inv (Player_LeftChannel g c st)"
  using assms by (auto simp: refs_inv_def) (auto simp: Player_LeftChannel_def split: if_splits)

lemma left_unlisted [simp]: "c \<notin> set (m_channels (Player_LeftChannel g c st) g)"
  by (simp add: Player_LeftChannel_def)

lemma listed_subset:
  "set (m_channels (Player_JoinedChannel g c st) h) \<subseteq> insert c (set (m_channels st h))"
  "set (m_channels (Player_LeftChannel g c st) h) \<subseteq> insert c (set (m_channels st h))"
  by (auto simp: Player_JoinedChannel_def Player_LeftChannel_def)

lemma not_member_no_ref:
  "refs_inv st \<Longrightarrow> channel_at st c = Some ch \<Longrightarrow> g \<notin> members ch \<Longrightarrow> c \<notin> set (m_channels st g)"
  unfolding refs_inv_def by fastforce

lemma leave_put_swap: "Player_LeftChannel g c (put_channel r ch st) = put_channel r ch (Player_LeftChannel g c st)"
  by (simp add: Player_LeftChannel_def put_channel_def)

text \<open>The central step: an operation on a channel keeps the invariant of the shared state.\<close>

lemma run_on_inv:
  assumes inv: "chat_inv st" and at: "channel_at st c = Some ch" and mv: "move_ok ch S (f ch)"
    and S: "\<forall>g \<in> S. c \<notin> set (m_channels st g)"
  shows "\<exists>st' effs. run_on c f st = Inr ((), st', effs) \<and> chat_inv st' \<and> channel_at st' c = Some (fst (f ch))
    \<and> (\<forall>g. set (m_channels st' g) \<subseteq> insert c (set (m_channels st g)))
    \<and> (\<forall>d. d \<noteq> c \<longrightarrow> channel_at st' d = channel_at st d)"
proof -
  let ?ch = "fst (f ch)" and ?t = "tracked (snd (f ch))"
  have run: "run_on c f st = Inr ((), fold (apply_effect c) ?t (put_channel c ?ch st), snd (f ch))"
    using at fold_tracked by (simp add: run_on_def Let_def split_def)
  have name: "channel_key (c_name ?ch) = Inr (snd c)" and ci: "chan_inv ?ch"
    using mgr_invD [OF _ at] inv mv by (simp_all add: chat_inv_def move_ok_def)
  then have mgr: "mgr_inv (put_channel c ?ch st)"
    using inv by (intro mgr_inv_put) (auto simp: chat_inv_def)
  have refs: "refs_inv st" using inv by (simp add: chat_inv_def)
  from mv consider (none) "?t = []" "members ch - S \<subseteq> members ?ch"
    | (join) g where "?t = [JoinedChannel g]" "g \<notin> members ch" "insert g (members ch) \<subseteq> members ?ch"
    | (left) g where "?t = [LeftChannel g]" "members ch - {g} \<subseteq> members ?ch"
    unfolding move_ok_def by blast
  then show ?thesis
  proof cases
    case none
    have "refs_inv (put_channel c ?ch st)" by (rule refs_inv_put [OF refs at none(2) S])
    then show ?thesis using run none(1) mgr by (auto simp: chat_inv_def chan_simps)
  next
    case join
    have "members ch - {} \<subseteq> members ?ch" using join(3) by simp
    from refs_inv_put [OF refs at this] have "refs_inv (put_channel c ?ch st)" by simp
    moreover have "c \<notin> set (m_channels (put_channel c ?ch st) g)"
      using not_member_no_ref [OF refs at join(2)] by simp
    ultimately have "refs_inv (Player_JoinedChannel g c (put_channel c ?ch st))"
      using join(3) by (intro refs_inv_join [where ch = ?ch]) (simp_all add: chan_simps)
    then show ?thesis
      using run join(1) mgr listed_subset(1) [of g c "put_channel c ?ch st"] by (simp add: chat_inv_def chan_simps)
  next
    case left
    have "refs_inv (Player_LeftChannel g c (put_channel c ?ch st))"
      unfolding leave_put_swap
      using left(2) at by (intro refs_inv_put [where ch = ch and S = "{g}"] refs_inv_leave refs) simp_all
    then show ?thesis
      using run left(1) mgr listed_subset(2) [of g c "put_channel c ?ch st"] by (simp add: chat_inv_def chan_simps)
  qed
qed

section \<open>Handlers\<close>

text \<open>
  What every handler guarantees: from a good state it never follows a dangling reference, and if it
  returns, the state is good again. (It may still fail on a short packet or an overlong name.)
\<close>

definition safe :: "'a chat \<Rightarrow> bool" where
  "safe m \<longleftrightarrow> (\<forall>st. chat_inv st \<longrightarrow>
     (case m st of Inl e \<Rightarrow> e \<noteq> UseAfterFree | Inr (_, st', _) \<Rightarrow> chat_inv st'))"

lemma safeI:
  assumes "\<And>st. chat_inv st \<Longrightarrow> m st \<noteq> Inl UseAfterFree"
    and "\<And>st x st' effs. chat_inv st \<Longrightarrow> m st = Inr (x, st', effs) \<Longrightarrow> chat_inv st'"
  shows "safe m"
  unfolding safe_def using assms by (fastforce split: sum.split)

lemma safeD:
  assumes "safe m" "chat_inv st"
  shows "m st \<noteq> Inl UseAfterFree" "m st = Inr (x, st', effs) \<Longrightarrow> chat_inv st'"
  using assms unfolding safe_def by (fastforce split: sum.splits)+

lemma safe_return [simp]: "safe (chat_return x)"
  by (simp add: safe_def chat_return_def)

lemma safe_bind_at:
  assumes "safe m" "\<And>x st st' effs. chat_inv st \<Longrightarrow> m st = Inr (x, st', effs) \<Longrightarrow> chat_inv st' \<Longrightarrow>
      (case f x st' of Inl e \<Rightarrow> e \<noteq> UseAfterFree | Inr (_, st'', _) \<Rightarrow> chat_inv st'')"
  shows "safe (chat_bind m f)"
  unfolding safe_def
proof (intro allI impI)
  fix st assume inv: "chat_inv st"
  show "case chat_bind m f st of Inl e \<Rightarrow> e \<noteq> UseAfterFree | Inr (_, st', _) \<Rightarrow> chat_inv st'"
  proof (cases "m st")
    case (Inl e)
    with safeD(1) [OF assms(1) inv] show ?thesis by (simp add: chat_bind_def)
  next
    case (Inr r)
    obtain x st1 e1 where r: "r = (x, st1, e1)" by (cases r) auto
    with Inr have run: "m st = Inr (x, st1, e1)" by simp
    from assms(2) [OF inv run safeD(2) [OF assms(1) inv run]] show ?thesis
      using run by (auto simp: chat_bind_def split: sum.splits)
  qed
qed

lemma safe_bind: "safe m \<Longrightarrow> (\<And>x. safe (f x)) \<Longrightarrow> safe (chat_bind m f)"
  by (rule safe_bind_at) (auto simp: safe_def)

lemma safe_parse [simp]: "safe (chat_parse get data)"
  by (auto simp: safe_def chat_parse_def chat_fail_def chat_return_def split: sum.split)

lemma safe_conv [simp]: "safe (chat_conv r)"
  by (auto simp: safe_def chat_conv_def chat_fail_def chat_return_def split: sum.split)

lemma chat_conv_Inr: "chat_conv r st = Inr (x, st', effs) \<longleftrightarrow> r = Inr x \<and> st' = st \<and> effs = []"
  by (auto simp: chat_conv_def chat_fail_def chat_return_def split: sum.split)

lemma safe_setTeam [simp]: "safe (setTeam m team)"
  by (auto simp: safe_def setTeam_def chat_inv_def mgr_inv_def refs_inv_def channel_at_def)

lemma chat_inv_create:
  assumes "chat_inv st" "channel_at st c = None" "channel_key name = Inr (snd c)"
  shows "chat_inv (put_channel c (fst (new_channel env name i team)) st)"
proof -
  have "c_name (fst (new_channel env name i team)) = name"
    by (simp add: new_channel_def Let_def split: option.split)
  then have "mgr_inv (put_channel c (fst (new_channel env name i team)) st)"
    using assms by (intro mgr_inv_put new_channel_inv) (simp_all add: chat_inv_def)
  moreover have "refs_inv (put_channel c (fst (new_channel env name i team)) st)"
    using assms(1,2) by (fastforce simp: chat_inv_def refs_inv_def chan_simps)
  ultimately show ?thesis by (simp add: chat_inv_def)
qed

lemma GetJoinChannel_result:
  assumes "chat_inv st" "GetJoinChannel env m name i st = Inr (c, st', effs)"
  shows "chat_inv st' \<and> channel_at st' c \<noteq> None \<and> m_channels st' = m_channels st
    \<and> (\<forall>d. channel_at st d \<noteq> None \<longrightarrow> channel_at st' d = channel_at st d)"
proof -
  from assms(2) obtain k where k: "channel_key name = Inr k"
    by (auto simp: GetJoinChannel_def chat_bind_def chat_conv_def chat_fail_def split: sum.splits)
  show ?thesis
  proof (cases "channel_at st (m, k)")
    case None
    then have "st' = put_channel (m, k) (fst (new_channel env name i (mgr_team (managers st m)))) st \<and> c = (m, k)"
      using assms(2) k
      by (auto simp: GetJoinChannel_def chat_bind_def chat_conv_def chat_return_def Let_def split_def)
    then show ?thesis
      using chat_inv_create [OF assms(1) None, of name] k None by (auto simp: chan_simps)
  next
    case (Some ch)
    then have "st' = st \<and> c = (m, k)"
      using assms(2) k by (auto simp: GetJoinChannel_def chat_bind_def chat_conv_def chat_return_def)
    then show ?thesis using assms(1) Some by simp
  qed
qed

lemma safe_GetJoinChannel: "safe (GetJoinChannel env m name i)"
proof (rule safeI)
  show "GetJoinChannel env m name i st \<noteq> Inl UseAfterFree" for st
    by (auto simp: GetJoinChannel_def chat_bind_def chat_conv_def chat_fail_def chat_return_def Let_def split_def
        split: sum.splits option.splits)
qed (use GetJoinChannel_result in blast)

lemma GetChannel_result:
  assumes "GetChannel m name p pkt st = Inr (r, st', effs)"
  shows "st' = st \<and> (\<forall>c. r = Some c \<longrightarrow> channel_at st c \<noteq> None)"
proof -
  from assms obtain k where k: "channel_key name = Inr k"
    by (auto simp: GetChannel_def chat_bind_def chat_conv_def chat_fail_def split: sum.splits)
  with assms show ?thesis
    by (cases "channel_at st (m, k)") (auto simp: GetChannel_def chat_bind_def chat_conv_def chat_return_def)
qed

lemma safe_GetChannel: "safe (GetChannel m name p pkt)"
proof (rule safeI)
  show "GetChannel m name p pkt st \<noteq> Inl UseAfterFree" for st
    by (auto simp: GetChannel_def chat_bind_def chat_conv_def chat_fail_def chat_return_def
        split: sum.splits option.splits)
qed (use GetChannel_result in blast)

lemma chat_inv_delete:
  assumes "chat_inv st" "channel_at st c = Some ch" "playersStore ch = []"
  shows "chat_inv (delete_channel c st)"
proof -
  have mgr: "mgr_inv st" and refs: "refs_inv st" using assms(1) by (simp_all add: chat_inv_def)
  have "members ch = {}" using assms(3) by (simp add: members_def IsOn_def)
  then have "c \<notin> set (m_channels st g)" for g using not_member_no_ref [OF refs assms(2)] by simp
  then have "refs_inv (delete_channel c st)"
    using refs mgr by (fastforce simp: refs_inv_def channel_at_delete)
  moreover have "mgr_inv (delete_channel c st)"
    using mgr by (auto simp: mgr_inv_def channel_at_delete [OF mgr]) (simp add: delete_channel_def)
  ultimately show ?thesis by (simp add: chat_inv_def)
qed

lemma Mgr_LeftChannel_result:
  assumes "Mgr_LeftChannel m name st = Inr (u, st', effs)"
  shows "\<exists>k. channel_key name = Inr k
    \<and> st' = (case channel_at st (m, k) of
          Some ch \<Rightarrow> (if playersStore ch = [] \<and> \<not> IsConstant ch then delete_channel (m, k) st else st)
        | None \<Rightarrow> st)"
proof -
  from assms obtain k where k: "channel_key name = Inr k"
    by (auto simp: Mgr_LeftChannel_def chat_bind_def chat_conv_def chat_fail_def split: sum.splits)
  with assms show ?thesis
    by (auto simp: Mgr_LeftChannel_def chat_bind_def chat_conv_def chat_return_def split: option.splits if_splits)
qed

lemma safe_Mgr_LeftChannel: "safe (Mgr_LeftChannel m name)"
proof (rule safeI)
  show "Mgr_LeftChannel m name st \<noteq> Inl UseAfterFree" for st
    by (auto simp: Mgr_LeftChannel_def chat_bind_def chat_conv_def chat_fail_def chat_return_def
        split: sum.splits option.splits if_splits)
  show "chat_inv st'" if "chat_inv st" "Mgr_LeftChannel m name st = Inr (u, st', effs)" for st u st' effs
    using Mgr_LeftChannel_result [OF that(2)] that(1) chat_inv_delete
    by (fastforce split: option.splits if_splits)
qed

text \<open>The same guarantee from states where a given reference is valid.\<close>

definition safe_at :: "cref \<Rightarrow> 'a chat \<Rightarrow> bool" where
  "safe_at c m \<longleftrightarrow> (\<forall>st. chat_inv st \<longrightarrow> channel_at st c \<noteq> None \<longrightarrow>
     (case m st of Inl e \<Rightarrow> e \<noteq> UseAfterFree | Inr (_, st', _) \<Rightarrow> chat_inv st'))"

definition good_op :: "(channel \<Rightarrow> chan_result) \<Rightarrow> bool" where
  "good_op f \<longleftrightarrow> (\<forall>ch. chan_inv ch \<longrightarrow> move_ok ch {} (f ch))"

lemma run_on_step:
  assumes "chat_inv st" "channel_at st c \<noteq> None" "good_op f"
  shows "\<exists>st' effs. run_on c f st = Inr ((), st', effs) \<and> chat_inv st' \<and> channel_at st' c \<noteq> None
    \<and> (\<forall>d. d \<noteq> c \<longrightarrow> channel_at st' d = channel_at st d)"
proof -
  obtain ch where at: "channel_at st c = Some ch" using assms(2) by auto
  then have "chan_inv ch" using mgr_invD [OF _ at] assms(1) by (simp add: chat_inv_def)
  then have "move_ok ch {} (f ch)" using assms(3) by (simp add: good_op_def)
  from run_on_inv [where f = f and S = "{}", OF assms(1) at this] show ?thesis by force
qed

lemma run_on_safe_at: "good_op f \<Longrightarrow> safe_at c (run_on c f)"
  unfolding safe_at_def using run_on_step by fastforce

lemma good_ops [simp]:
  "good_op (JoinChannel env p pass)" "good_op (LeaveChannel env p True)" "good_op (Kick env p n)" "good_op (Ban env p n)"
  "good_op (UnBan env p n)" "good_op (Password env p n)" "good_op (SetMode env p n md on)"
  "good_op (SetOwner_byname env p n)" "good_op (SendWhoOwner env g)" "good_op (List_members env p)"
  "good_op (Announce env p)" "good_op (Invite env p n)" "good_op (\<lambda>ch. (ch, [Send g (d ch)]))"
  using LeaveChannel_moves [where send = True]
  by (simp_all add: good_op_def JoinChannel_moves Kick_def Ban_def KickOrBan_moves quiet_ops_move SetMode_moves SetOwner_byname_moves)

lemma safe_with_channel:
  assumes "\<And>c. safe_at c (f c)"
  shows "safe (with_channel env p name f)"
proof (cases "forTeam env (p_team p)")
  case (Some m)
  have "safe (chat_bind (GetChannel m name p True) (\<lambda>c. case c of None \<Rightarrow> chat_return () | Some c \<Rightarrow> f c))"
  proof (rule safe_bind_at [OF safe_GetChannel])
    fix r st st' effs
    assume "chat_inv st" "GetChannel m name p True st = Inr (r, st', effs)" "chat_inv st'"
    then have r: "r = Some c \<Longrightarrow> channel_at st' c \<noteq> None" for c using GetChannel_result by blast
    show "case (case r of None \<Rightarrow> chat_return () | Some c \<Rightarrow> f c) st' of
        Inl e \<Rightarrow> e \<noteq> UseAfterFree | Inr (_, st'', _) \<Rightarrow> chat_inv st''"
    proof (cases r)
      case None
      with \<open>chat_inv st'\<close> show ?thesis by (simp add: chat_return_def)
    next
      case (Some c)
      with assms [of c] r \<open>chat_inv st'\<close> show ?thesis by (simp add: safe_at_def)
    qed
  qed
  with Some show ?thesis by (simp add: with_channel_def)
qed (simp add: with_channel_def)

lemma safe_with_target: "(\<And>n. safe (f n)) \<Longrightarrow> safe (with_target name f)"
  unfolding with_target_def by (rule safe_bind) (simp_all split: option.split)

lemma safe_command: "(\<And>c. good_op (f c)) \<Longrightarrow> safe (with_channel env p name (\<lambda>c. run_on c (f c)))"
  by (intro safe_with_channel run_on_safe_at) simp

lemmas command_defs = HandleChannelList_def HandleChannelPassword_def HandleChannelSetOwner_def HandleChannelOwner_def
  HandleChannelModerator_def HandleChannelUnmoderator_def HandleChannelMute_def HandleChannelUnmute_def
  HandleChannelInvite_def HandleChannelKick_def HandleChannelBan_def HandleChannelUnban_def
  HandleChannelAnnouncements_def HandleChannelDisplayListQuery_def HandleGetChannelMemberCount_def HandleSetChannelWatch_def

lemma safe_commands:
  "safe (HandleChannelList env p d)" "safe (HandleChannelPassword env p d)" "safe (HandleChannelSetOwner env p d)"
  "safe (HandleChannelOwner env p d)" "safe (HandleChannelModerator env p d)" "safe (HandleChannelUnmoderator env p d)"
  "safe (HandleChannelMute env p d)" "safe (HandleChannelUnmute env p d)" "safe (HandleChannelInvite env p d)"
  "safe (HandleChannelKick env p d)" "safe (HandleChannelBan env p d)" "safe (HandleChannelUnban env p d)"
  "safe (HandleChannelAnnouncements env p d)" "safe (HandleChannelDisplayListQuery env p d)"
  "safe (HandleGetChannelMemberCount env p d)" "safe (HandleSetChannelWatch d)"
  unfolding command_defs
  by (intro safe_bind safe_parse; auto intro!: safe_with_target safe_command simp: split_def)+

lemma safe_HandleJoinChannel: "safe (HandleJoinChannel env p zone d)"
proof -
  have "safe (chat_bind (GetJoinChannel env m name i) (\<lambda>c. run_on c (JoinChannel env p pass)))" for m name i pass
  proof (rule safe_bind_at [OF safe_GetJoinChannel])
    fix c st st' effs
    assume "chat_inv st" "GetJoinChannel env m name i st = Inr (c, st', effs)" "chat_inv st'"
    then have "channel_at st' c \<noteq> None" using GetJoinChannel_result by blast
    with run_on_safe_at [of "JoinChannel env p pass" c] \<open>chat_inv st'\<close>
    show "case run_on c (JoinChannel env p pass) st' of Inl e \<Rightarrow> e \<noteq> UseAfterFree | Inr (_, st'', _) \<Rightarrow> chat_inv st''"
      by (simp add: safe_at_def)
  qed
  then have "safe (chat_bind (setTeam m team) (\<lambda>_. chat_bind (GetJoinChannel env m name i) (\<lambda>c. run_on c (JoinChannel env p pass))))"
    for m team name i pass
    by (rule safe_bind [OF safe_setTeam])
  then show ?thesis
    unfolding HandleJoinChannel_def
    by (intro safe_bind safe_parse) (auto simp: split_def split: option.split)
qed

lemma safe_HandleLeaveChannel: "safe (HandleLeaveChannel env p d)"
proof -
  have "safe (chat_bind (GetChannel m name p True) (\<lambda>c.
      chat_bind (case c of None \<Rightarrow> chat_return () | Some c \<Rightarrow> run_on c (LeaveChannel env p True)) (\<lambda>_. Mgr_LeftChannel m name)))"
    for m name
  proof (rule safe_bind_at [OF safe_GetChannel])
    fix r st st' effs
    assume run: "GetChannel m name p True st = Inr (r, st', effs)" and inv: "chat_inv st'"
    note left = safe_Mgr_LeftChannel [of m name, unfolded safe_def]
    show "case chat_bind (case r of None \<Rightarrow> chat_return () | Some c \<Rightarrow> run_on c (LeaveChannel env p True))
          (\<lambda>_. Mgr_LeftChannel m name) st' of Inl e \<Rightarrow> e \<noteq> UseAfterFree | Inr (_, st'', _) \<Rightarrow> chat_inv st''"
    proof (cases r)
      case None
      with left inv show ?thesis by (auto simp: chat_bind_def chat_return_def split: sum.splits)
    next
      case (Some c)
      then have "channel_at st' c \<noteq> None" using GetChannel_result [OF run] by simp
      from run_on_step [OF inv this good_ops(2)] obtain st1 e1 where
        "run_on c (LeaveChannel env p True) st' = Inr ((), st1, e1)" "chat_inv st1" by blast
      with Some left show ?thesis by (fastforce simp: chat_bind_def split: sum.splits)
    qed
  qed
  then show ?thesis
    unfolding HandleLeaveChannel_def
    by (intro safe_bind safe_parse) (auto split: option.split)
qed

section \<open>A player's channels\<close>

lemma listed_valid:
  assumes "chat_inv st" "c \<in> set (m_channels st g)"
  shows "channel_at st c \<noteq> None"
  using assms unfolding chat_inv_def refs_inv_def by blast

lemma LeaveChannel_silent: "tracked (snd (LeaveChannel env p False ch)) = []"
  by (simp add: LeaveChannel_def Let_def split_def chan_simps)

lemma run_on_untracked:
  assumes "channel_at st c = Some ch" "tracked (snd (f ch)) = []"
  shows "run_on c f st = Inr ((), put_channel c (fst (f ch)) st, snd (f ch))"
  using assms fold_tracked [of c "snd (f ch)"] by (simp add: run_on_def Let_def split_def)

text \<open>A silent leave together with dropping the reference, in either order.\<close>

lemma silent_leave_inv:
  assumes inv: "chat_inv st" and at: "channel_at st c = Some ch"
  shows "chat_inv (put_channel c (fst (LeaveChannel env p False ch)) (Player_LeftChannel (p_guid p) c st))"
proof -
  let ?ch = "fst (LeaveChannel env p False ch)" and ?st = "Player_LeftChannel (p_guid p) c st"
  have ci: "chan_inv ch" and key: "channel_key (c_name ch) = Inr (snd c)"
    using mgr_invD [OF _ at] inv by (simp_all add: chat_inv_def)
  have mv: "chan_inv ?ch" "c_name ?ch = c_name ch" "members ch - {p_guid p} \<subseteq> members ?ch"
    using LeaveChannel_moves [OF ci, of False p env] LeaveChannel_silent [of env p ch] by (simp_all add: move_ok_def)
  have "mgr_inv (put_channel c ?ch ?st)"
    using inv mv key by (intro mgr_inv_put) (simp_all add: chat_inv_def)
  moreover have "refs_inv (put_channel c ?ch ?st)"
    using inv at mv by (intro refs_inv_put [where ch = ch and S = "{p_guid p}"] refs_inv_leave) (simp_all add: chat_inv_def)
  ultimately show ?thesis by (simp add: chat_inv_def)
qed

lemma drop_first_ref:
  assumes "distinct (m_channels st g)" "m_channels st g = c # cs"
  shows "st\<lparr>m_channels := (m_channels st)(g := cs)\<rparr> = Player_LeftChannel g c st"
proof -
  have "filter (\<lambda>d. d \<noteq> c) cs = cs" using assms by (auto simp: filter_id_conv)
  then show ?thesis using assms(2) by (simp add: Player_LeftChannel_def)
qed

lemma Mgr_LeftChannel_runs:
  assumes "channel_key name = Inr k"
  shows "\<exists>st'. Mgr_LeftChannel m name st = Inr ((), st', []) \<and> m_channels st' = m_channels st"
  using assms
  by (cases "channel_at st (m, k)") (auto simp: Mgr_LeftChannel_def chat_bind_def chat_conv_def chat_return_def)

text \<open>The channels a player is a member of.\<close>

definition memberships :: "chat_state \<Rightarrow> guid \<Rightarrow> cref set" where
  "memberships st g = {c. \<exists>ch. channel_at st c = Some ch \<and> g \<in> members ch}"

lemma first_keyed:
  assumes "chan_inv ch" "playersStore ch \<noteq> []"
  shows "pi_player (snd (hd (playersStore ch))) \<in> insert 0 (members ch)"
proof -
  obtain k i rest where ps: "playersStore ch = (k, i) # rest" using assms(2) by (cases "playersStore ch") auto
  then have "om_find (playersStore ch) k = Some i" by (simp add: om_find_def)
  with assms(1) ps show ?thesis by (auto simp: chan_inv_def infos_keyed_def members_def IsOn_def)
qed

lemma members_LeaveChannel:
  assumes "chan_inv ch" "h \<noteq> 0"
  shows "h \<in> members (fst (LeaveChannel env p send ch)) \<longleftrightarrow> h \<in> members ch \<and> h \<noteq> p_guid p"
proof -
  let ?ch = "ch\<lparr>playersStore := om_erase (p_guid p) (playersStore ch)\<rparr>"
  have wf: "om_wf (playersStore ch)" using assms(1) by (simp add: chan_inv_def)
  have "chan_inv ?ch" using assms(1) by (rule chan_inv_updates)
  from first_keyed [OF this] have "om_erase (p_guid p) (playersStore ch) \<noteq> [] \<Longrightarrow>
      pi_player (snd (hd (om_erase (p_guid p) (playersStore ch)))) \<in> insert 0 (members ch - {p_guid p})"
    using wf by (simp add: chan_simps)
  then show ?thesis
    using wf assms(2) by (auto simp: LeaveChannel_def Let_def split_def chan_simps SetOwner_members IsOn_iff)
qed

lemma Mgr_LeftChannel_memberships:
  assumes "chat_inv st" "Mgr_LeftChannel m name st = Inr (u, st', effs)"
  shows "memberships st' = memberships st"
proof -
  have mgr: "mgr_inv st" using assms(1) by (simp add: chat_inv_def)
  have "members ch = {}" if "playersStore ch = []" for ch
    using that by (simp add: members_def IsOn_def)
  with Mgr_LeftChannel_result [OF assms(2)] show ?thesis
    by (fastforce simp: memberships_def channel_at_delete [OF mgr] fun_eq_iff split: option.splits if_splits)
qed

lemma CleanupChannels_loop_runs:
  "chat_inv st \<Longrightarrow> length (m_channels st (p_guid p)) \<le> n \<Longrightarrow>
     \<exists>st' effs. CleanupChannels_loop n env p st = Inr ((), st', effs) \<and> chat_inv st'
       \<and> m_channels st' = (m_channels st)(p_guid p := [])
       \<and> (\<forall>h. h \<noteq> 0 \<longrightarrow> memberships st' h
           = (if h = p_guid p then memberships st h - set (m_channels st h) else memberships st h))"
proof (induction n arbitrary: st)
  case 0
  then show ?case by (auto simp: fun_eq_iff)
next
  case (Suc n)
  let ?g = "p_guid p"
  show ?case
  proof (cases "m_channels st ?g")
    case Nil
    then show ?thesis using Suc.prems(1) by (auto simp: fun_eq_iff)
  next
    case (Cons c cs)
    have "distinct (m_channels st ?g)" using Suc.prems(1) unfolding chat_inv_def refs_inv_def by blast
    note pop = drop_first_ref [OF this Cons]
    obtain ch where at: "channel_at st c = Some ch"
      using listed_valid [OF Suc.prems(1), of c ?g] Cons by auto
    let ?st0 = "Player_LeftChannel ?g c st" and ?L = "LeaveChannel env p False ch"
    let ?st1 = "put_channel c (fst ?L) ?st0"
    have inv1: "chat_inv ?st1" by (rule silent_leave_inv [OF Suc.prems(1) at])
    have run: "run_on c (LeaveChannel env p False) ?st0 = Inr ((), ?st1, snd ?L)"
      using at LeaveChannel_silent by (intro run_on_untracked) simp_all
    have list1: "m_channels ?st1 = (m_channels st)(?g := cs)" unfolding pop [symmetric] by simp
    have ci: "chan_inv ch" using mgr_invD [OF _ at] Suc.prems(1) by (simp add: chat_inv_def)
    have on1: "memberships ?st1 h = (if h = ?g then memberships st h - {c} else memberships st h)" if "h \<noteq> 0" for h
      using at that by (auto simp: memberships_def channel_at_put members_LeaveChannel [OF ci] split: if_splits)
    have key: "channel_key (c_name ch) = Inr (snd c)"
      using mgr_invD [OF _ at] Suc.prems(1) by (simp add: chat_inv_def)
    obtain st2 where left: "(case forTeam env (p_team p) of None \<Rightarrow> chat_return () | Some m \<Rightarrow> Mgr_LeftChannel m (c_name ch)) ?st1
        = Inr ((), st2, [])" "m_channels st2 = m_channels ?st1" "chat_inv st2" "memberships st2 = memberships ?st1"
    proof (cases "forTeam env (p_team p)")
      case None
      then show thesis using that [of ?st1] inv1 by (simp add: chat_return_def)
    next
      case (Some m)
      obtain st' where st': "Mgr_LeftChannel m (c_name ch) ?st1 = Inr ((), st', [])" "m_channels st' = m_channels ?st1"
        using Mgr_LeftChannel_runs [OF key] by blast
      with safeD(2) [OF safe_Mgr_LeftChannel inv1 st'(1)] Mgr_LeftChannel_memberships [OF inv1 st'(1)] that [of st'] Some
      show thesis by simp
    qed
    have "length (m_channels st2 ?g) \<le> n" using left(2) list1 Cons Suc.prems(2) by simp
    from Suc.IH [OF left(3) this] obtain st3 e3 where
      st3: "CleanupChannels_loop n env p st2 = Inr ((), st3, e3)" "chat_inv st3" "m_channels st3 = (m_channels st2)(?g := [])"
      "\<forall>h. h \<noteq> 0 \<longrightarrow> memberships st3 h
         = (if h = ?g then memberships st2 h - set (m_channels st2 h) else memberships st2 h)" by blast
    have "m_channels st3 = (m_channels st)(?g := [])" using st3(3) left(2) list1 by simp
    moreover have "memberships st3 h = (if h = ?g then memberships st h - set (m_channels st h) else memberships st h)"
      if "h \<noteq> 0" for h using that st3(4) left(2,4) list1 on1 Cons by auto
    ultimately show ?thesis
      using st3(1,2) Cons at pop run left(1) by (simp add: chat_bind_def fun_eq_iff)
  qed
qed

lemma safe_CleanupChannels: "safe (CleanupChannels env p)"
  unfolding safe_def
proof (intro allI impI)
  fix st assume "chat_inv st"
  from CleanupChannels_loop_runs [OF this order_refl] obtain st' effs where
    "CleanupChannels env p st = Inr ((), st', effs)" "chat_inv st'"
    unfolding CleanupChannels_def by blast
  then show "case CleanupChannels env p st of Inl e \<Rightarrow> e \<noteq> UseAfterFree | Inr (_, st', _) \<Rightarrow> chat_inv st'" by simp
qed

lemma safe_LeaveLFGChannel: "safe (LeaveLFGChannel env p)"
  unfolding safe_def
proof (intro allI impI)
  fix st assume inv: "chat_inv st"
  show "case LeaveLFGChannel env p st of Inl e \<Rightarrow> e \<noteq> UseAfterFree | Inr (_, st', _) \<Rightarrow> chat_inv st'"
  proof (cases "find (\<lambda>c. case channel_at st c of None \<Rightarrow> True | Some ch \<Rightarrow> IsLFG ch) (m_channels st (p_guid p))")
    case None
    then show ?thesis using inv by (simp add: LeaveLFGChannel_def)
  next
    case (Some c)
    then have "c \<in> set (m_channels st (p_guid p))" by (auto simp: find_Some_iff)
    then obtain st' effs where "run_on c (LeaveChannel env p True) st = Inr ((), st', effs)" "chat_inv st'"
      using run_on_step [OF inv listed_valid [OF inv] good_ops(2) [of env p]] by blast
    with Some show ?thesis by (simp add: LeaveLFGChannel_def)
  qed
qed

lemma leave_and_drop:
  assumes "chat_inv st" "channel_at st c \<noteq> None"
  shows "\<exists>st1 effs ch. run_on c (LeaveChannel env p send) st = Inr ((), st1, effs) \<and> channel_at st1 c = Some ch
    \<and> chat_inv (Player_LeftChannel (p_guid p) c st1)"
proof (cases send)
  case True
  obtain st1 effs where "run_on c (LeaveChannel env p True) st = Inr ((), st1, effs)" "chat_inv st1" "channel_at st1 c \<noteq> None"
    using run_on_step [OF assms good_ops(2) [of env p]] by blast
  then show ?thesis using True refs_inv_leave by (auto simp: chat_inv_def)
next
  case False
  obtain ch where at: "channel_at st c = Some ch" using assms(2) by auto
  from run_on_untracked [where f = "LeaveChannel env p False", OF at LeaveChannel_silent]
  show ?thesis
    using False silent_leave_inv [OF assms(1) at, of env p] by (simp add: leave_put_swap chan_simps)
qed

lemma remove_local_channel_safe: "safe_at c (remove_local_channel env p m c send)"
  unfolding safe_at_def
proof (intro allI impI)
  fix st assume "chat_inv st" "channel_at st c \<noteq> None"
  then obtain st1 effs ch where run: "run_on c (LeaveChannel env p send) st = Inr ((), st1, effs)" "channel_at st1 c = Some ch"
    and inv: "chat_inv (Player_LeftChannel (p_guid p) c st1)"
    using leave_and_drop by blast
  have "safe (Mgr_LeftChannel m (c_name ch))"
    by (rule safe_Mgr_LeftChannel)
  with inv run show "case remove_local_channel env p m c send st of Inl e \<Rightarrow> e \<noteq> UseAfterFree | Inr (_, st', _) \<Rightarrow> chat_inv st'"
    unfolding safe_def remove_local_channel_def
    by (fastforce simp: chat_bind_def [of "run_on c _"] split: sum.splits)
qed

lemma join_local_safe:
  assumes inv: "chat_inv st" and used: "\<And>c. used = Some c \<Longrightarrow> channel_at st c \<noteq> None"
  shows "case chat_bind (GetJoinChannel env m name i) (\<lambda>j.
           case used of
             None \<Rightarrow> run_on j (JoinChannel env p [])
           | Some c \<Rightarrow> if j \<noteq> c
               then chat_bind (run_on j (JoinChannel env p [])) (\<lambda>_. remove_local_channel env p m c False)
               else chat_return ()) st of
         Inl e \<Rightarrow> e \<noteq> UseAfterFree | Inr (_, st', _) \<Rightarrow> chat_inv st'"
proof (cases "GetJoinChannel env m name i st")
  case (Inl e)
  then have "e \<noteq> UseAfterFree" using safeD(1) [OF safe_GetJoinChannel inv, of env m name i] by auto
  with Inl show ?thesis by (simp add: chat_bind_def)
next
  case (Inr r)
  obtain j st1 e1 where r: "r = (j, st1, e1)" by (cases r) auto
  note got = GetJoinChannel_result [OF inv Inr [unfolded r]]
  obtain st2 e2 where join: "run_on j (JoinChannel env p []) st1 = Inr ((), st2, e2)" "chat_inv st2"
    "\<forall>d. d \<noteq> j \<longrightarrow> channel_at st2 d = channel_at st1 d"
    using run_on_step [of st1 j "JoinChannel env p []"] got by auto
  show ?thesis
  proof (cases used)
    case None
    then show ?thesis using Inr r join by (simp add: chat_bind_def)
  next
    case (Some c)
    have "channel_at st2 c \<noteq> None" if "j \<noteq> c"
      using that join(3) got used [OF Some] by metis
    then show ?thesis
      using Some Inr r join got remove_local_channel_safe [of c env p m False]
      by (fastforce simp: chat_bind_def chat_return_def safe_at_def split: sum.splits)
  qed
qed

lemma safe_update_local_channel: "safe (update_local_channel env p m zone i flags pattern)"
  unfolding safe_def
proof (intro allI impI)
  fix st assume inv: "chat_inv st"
  let ?used = "find (\<lambda>c. case channel_at st c of None \<Rightarrow> True | Some ch \<Rightarrow> c_id ch = i) (m_channels st (p_guid p))"
  have used: "channel_at st c \<noteq> None" if "?used = Some c" for c
    using that listed_valid [OF inv, of c "p_guid p"] by (auto simp: find_Some_iff)
  then have ok: "\<not> (case ?used of None \<Rightarrow> False | Some c \<Rightarrow> channel_at st c = None)" by (simp split: option.split)
  have join: "safe (chat_bind (GetJoinChannel env m pattern i) (\<lambda>c. run_on c (JoinChannel env p [])))"
    unfolding safe_def using join_local_safe [where used = None and env = env and m = m and name = pattern and i = i and p = p] by simp
  have rem: "case (case ?used of None \<Rightarrow> Inr ((), st, []) | Some c \<Rightarrow> remove_local_channel env p m c True st) of
      Inl e \<Rightarrow> e \<noteq> UseAfterFree | Inr (_, st', _) \<Rightarrow> chat_inv st'"
    using used inv remove_local_channel_safe [of _ env p m True] by (cases ?used) (simp_all add: safe_at_def)
  note joined = join_local_safe [OF inv used, of _ env m _ i p]
  show "case update_local_channel env p m zone i flags pattern st of Inl e \<Rightarrow> e \<noteq> UseAfterFree | Inr (_, st', _) \<Rightarrow> chat_inv st'"
    unfolding update_local_channel_def Let_def if_not_P [OF ok]
    using joined rem inv join [unfolded safe_def] by (simp only: split: if_split) simp
qed

lemma safe_update_local_channels: "safe (update_local_channels env p m zone es)"
proof (induction es)
  case (Cons e es)
  then show ?case by (cases e) (simp add: safe_bind safe_update_local_channel)
qed simp

lemma safe_UpdateLocalChannels: "safe (UpdateLocalChannels env p loading zone entries)"
  by (simp add: UpdateLocalChannels_def safe_update_local_channels split: option.split)

section \<open>The chat as a state machine\<close>

datatype channel_command = CmdList | CmdPassword | CmdSetOwner | CmdOwner | CmdModerator | CmdUnmoderator | CmdMute
  | CmdUnmute | CmdInvite | CmdKick | CmdBan | CmdUnban | CmdAnnouncements | CmdDisplayList | CmdMemberCount | CmdWatch

fun handle_command :: "channel_command \<Rightarrow> env \<Rightarrow> player \<Rightarrow> byte_buffer \<Rightarrow> unit chat" where
  "handle_command CmdList env p d = HandleChannelList env p d"
| "handle_command CmdPassword env p d = HandleChannelPassword env p d"
| "handle_command CmdSetOwner env p d = HandleChannelSetOwner env p d"
| "handle_command CmdOwner env p d = HandleChannelOwner env p d"
| "handle_command CmdModerator env p d = HandleChannelModerator env p d"
| "handle_command CmdUnmoderator env p d = HandleChannelUnmoderator env p d"
| "handle_command CmdMute env p d = HandleChannelMute env p d"
| "handle_command CmdUnmute env p d = HandleChannelUnmute env p d"
| "handle_command CmdInvite env p d = HandleChannelInvite env p d"
| "handle_command CmdKick env p d = HandleChannelKick env p d"
| "handle_command CmdBan env p d = HandleChannelBan env p d"
| "handle_command CmdUnban env p d = HandleChannelUnban env p d"
| "handle_command CmdAnnouncements env p d = HandleChannelAnnouncements env p d"
| "handle_command CmdDisplayList env p d = HandleChannelDisplayListQuery env p d"
| "handle_command CmdMemberCount env p d = HandleGetChannelMemberCount env p d"
| "handle_command CmdWatch env p d = HandleSetChannelWatch d"

datatype chat_event =
    OnJoin env player "u32 option" byte_buffer
  | OnLeave env player byte_buffer
  | OnCommand channel_command env player byte_buffer
  | OnLogout env player
  | OnLeaveLFG env player
  | OnZone env player bool "zone_info option" "(u32 \<times> u32 \<times> string) list"

fun chat_run :: "chat_event \<Rightarrow> unit chat" where
  "chat_run (OnJoin env p zone d) = HandleJoinChannel env p zone d"
| "chat_run (OnLeave env p d) = HandleLeaveChannel env p d"
| "chat_run (OnCommand cmd env p d) = handle_command cmd env p d"
| "chat_run (OnLogout env p) = CleanupChannels env p"
| "chat_run (OnLeaveLFG env p) = LeaveLFGChannel env p"
| "chat_run (OnZone env p loading zone es) = UpdateLocalChannels env p loading zone es"

definition chat_initial :: "chat_state \<Rightarrow> bool" where
  "chat_initial st \<longleftrightarrow> (\<forall>m. mgr_channels (managers st m) = []) \<and> (\<forall>g. m_channels st g = [])"

definition chat_step :: "chat_state \<Rightarrow> chat_event \<Rightarrow> chat_state \<Rightarrow> bool" where
  "chat_step st ev st' \<longleftrightarrow> (\<exists>effs. chat_run ev st = Inr ((), st', effs))"

lemma safe_handle_command: "safe (handle_command cmd env p d)"
  by (cases cmd) (simp_all add: safe_commands)

lemma safe_chat_run: "safe (chat_run ev)"
  by (cases ev)
    (simp_all add: safe_HandleJoinChannel safe_HandleLeaveChannel safe_handle_command safe_CleanupChannels
      safe_LeaveLFGChannel safe_UpdateLocalChannels)

interpretation chat: state_machine chat_initial chat_step chat_inv
proof
  show "chat_initial s \<Longrightarrow> chat_inv s" for s
    by (simp add: chat_initial_def chat_inv_def mgr_inv_def refs_inv_def channel_at_def om_find_def om_wf_def)
  show "chat_inv s \<Longrightarrow> chat_step s e t \<Longrightarrow> chat_inv t" for s e t
    using safeD(2) [OF safe_chat_run] unfolding chat_step_def by blast
qed

definition sample_chat :: chat_state where
  "sample_chat = \<lparr>managers = (\<lambda>_. \<lparr>mgr_channels = [], mgr_team = 0\<rparr>), m_channels = (\<lambda>_. [])\<rparr>"

lemma sample_chat_initial: "chat_initial sample_chat"
  by (simp add: chat_initial_def sample_chat_def)

lemma join_tracked:
  assumes "\<not> IsOn ch (p_guid p)" "\<not> IsBanned ch (p_guid p)" "c_password ch = []" "\<not> cfg_restricted_lfg env"
  shows "tracked (snd (JoinChannel env p pass ch)) = [JoinedChannel (p_guid p)]"
  using assms by (simp add: JoinChannel_def Let_def split_def chan_simps)

lemma key_ascii:
  assumes "list_all (\<lambda>c. of_char c < (128 :: nat)) name"
  shows "channel_key name = Inr (map (\<lambda>c. wcharToLower (of_char c)) name)"
proof -
  have dec: "decode_all bs = Inr bs" if "list_all (\<lambda>b. b < 128) bs" for bs
    using that by (induction bs) (simp_all add: validate_1)
  have "list_all (\<lambda>b. b < 128) (string_octets name)"
    using assms by (simp add: string_octets_def list.pred_map comp_def)
  moreover from this have "concat (map units_of (string_octets name)) = string_octets name"
    by (intro units_bmp) (auto simp: list_all_iff)
  ultimately show ?thesis
    by (simp add: channel_key_def Utf8toWStr_def dec wstrToLower_def string_octets_def)
qed

definition sample_move :: chat_event where
  "sample_move = OnZone sample_env (sample_player 1 ''Ann'' 0) False (Some \<lparr>zone_flags = 0, zone_name = [], city_name = []\<rparr>)
     [(5, CHANNEL_DBC_FLAG_GLOBAL, ''wd'')]"

lemma sample_move_run:
  "\<exists>st effs. chat_run sample_move sample_chat = Inr ((), st, effs) \<and> m_channels st 1 = [(AllianceChannelMgr, [119, 100])]"
proof -
  let ?m = AllianceChannelMgr and ?p = "sample_player 1 ''Ann'' 0"
  let ?ch = "fst (new_channel sample_env ''wd'' 5 0)"
  let ?c = "(?m, [119, 100 :: nat])"
  let ?st = "put_channel ?c ?ch sample_chat"
  have key: "channel_key ''wd'' = Inr [119, 100]" by (simp add: key_ascii wcharToLower_def)
  have got: "GetJoinChannel sample_env ?m ''wd'' 5 sample_chat = Inr (?c, ?st, [])"
    by (simp add: GetJoinChannel_def chat_bind_def chat_conv_def key chat_return_def channel_at_def sample_chat_def om_find_def
        Let_def split_def new_channel_def sample_env_def)
  have ch: "playersStore ?ch = []" "bannedStore ?ch = []" "c_password ?ch = []"
    by (simp_all add: new_channel_def sample_env_def)
  then have "tracked (snd (JoinChannel sample_env ?p [] ?ch)) = [JoinedChannel 1]"
    by (subst join_tracked) (simp_all add: IsOn_def om_find_def IsBanned_def sample_simps, simp_all add: sample_env_def)
  then have "run_on ?c (JoinChannel sample_env ?p []) ?st
      = Inr ((), Player_JoinedChannel 1 ?c (put_channel ?c (fst (JoinChannel sample_env ?p [] ?ch)) ?st),
          snd (JoinChannel sample_env ?p [] ?ch))"
    using fold_tracked [of ?c "snd (JoinChannel sample_env ?p [] ?ch)"]
    by (simp add: run_on_def channel_at_put Let_def split_def)
  moreover have "forTeam sample_env (p_team ?p) = Some ?m"
    by (simp add: forTeam_def sample_env_def sample_player_def ALLIANCE_def)
  moreover have "m_channels sample_chat g = []" for g by (simp add: sample_chat_def)
  ultimately show ?thesis
    using got
    by (simp add: sample_move_def UpdateLocalChannels_def update_local_channel_def Let_def CanJoinConstantChannelInZone_def
        has_flag_def CHANNEL_DBC_FLAG_GLOBAL_def CHANNEL_DBC_FLAG_ZONE_DEP_def CHANNEL_DBC_FLAG_CITY_ONLY_def
        CHANNEL_DBC_FLAG_GUILD_REQ_def chat_bind_def chat_return_def sample_simps Player_JoinedChannel_def)
qed

text \<open>
  C1: In every state the chat can reach from the start of the server, by any sequence of channel
  packets, zone changes and logouts of any players, each channel in a player's list exists in its
  manager and has that player as a member, no list holds a channel twice, and whatever operation runs
  next follows no reference to a deleted channel.
\<close>

theorem channel_references_valid:
  assumes "reachable chat_initial chat_step st"
  shows "distinct (m_channels st g)
    \<and> (\<forall>c. c \<in> set (m_channels st g) \<longrightarrow> (\<exists>ch. channel_at st c = Some ch \<and> IsOn ch g))
    \<and> chat_run ev st \<noteq> Inl UseAfterFree"
proof -
  have inv: "chat_inv st" by (rule chat.reachable_invar [OF assms])
  moreover have "chat_run ev st \<noteq> Inl UseAfterFree" by (rule safeD(1) [OF safe_chat_run inv])
  ultimately show ?thesis by (simp add: chat_inv_def refs_inv_def IsOn_iff)
qed

theorem channel_references_valid_witness:
  "\<exists>st effs. chat_run sample_move sample_chat = Inr ((), st, effs) \<and> m_channels st 1 = [(AllianceChannelMgr, [119, 100])]
     \<and> (\<exists>ch. channel_at st (AllianceChannelMgr, [119, 100]) = Some ch \<and> IsOn ch 1)
     \<and> chat_run (OnLogout sample_env (sample_player 1 ''Ann'' 0)) st \<noteq> Inl UseAfterFree"
proof -
  obtain st effs where run: "chat_run sample_move sample_chat = Inr ((), st, effs)" "m_channels st 1 = [(AllianceChannelMgr, [119, 100])]"
    using sample_move_run by blast
  then have "chat_step sample_chat sample_move st" unfolding chat_step_def by blast
  with sample_chat_initial have "reachable chat_initial chat_step st" by (blast intro: reach_init reach_step)
  from channel_references_valid [OF this, of 1 "OnLogout sample_env (sample_player 1 ''Ann'' 0)"] run
  show ?thesis by auto
qed

text \<open>
  C17: Logging out always completes: \<^verbatim>\<open>CleanupChannels\<close> ends, throws nothing, empties the player's channel list
  and takes the player off exactly the channels on that list, while the lists and memberships of all other
  players stay as they were. (GUID 0 is no player: a channel can hold an entry for it.)
\<close>

theorem CleanupChannels_clears:
  assumes "reachable chat_initial chat_step st"
  shows "\<exists>st' effs. CleanupChannels env p st = Inr ((), st', effs)
    \<and> m_channels st' = (m_channels st)(p_guid p := [])
    \<and> (\<forall>h. h \<noteq> 0 \<longrightarrow> memberships st' h
         = (if h = p_guid p then memberships st h - set (m_channels st h) else memberships st h))"
  using CleanupChannels_loop_runs [OF chat.reachable_invar [OF assms] order_refl, of p env]
  unfolding CleanupChannels_def by blast

theorem CleanupChannels_clears_witness:
  "\<exists>st effs st' effs'. chat_run sample_move sample_chat = Inr ((), st, effs)
     \<and> m_channels st 1 = [(AllianceChannelMgr, [119, 100])]
     \<and> CleanupChannels sample_env (sample_player 1 ''Ann'' 0) st = Inr ((), st', effs')
     \<and> m_channels st' 1 = [] \<and> (AllianceChannelMgr, [119, 100]) \<notin> memberships st' 1"
proof -
  obtain st effs where run: "chat_run sample_move sample_chat = Inr ((), st, effs)" "m_channels st 1 = [(AllianceChannelMgr, [119, 100])]"
    using sample_move_run by blast
  then have "chat_step sample_chat sample_move st" unfolding chat_step_def by blast
  with sample_chat_initial have "reachable chat_initial chat_step st" by (blast intro: reach_init reach_step)
  from CleanupChannels_clears [OF this, of sample_env "sample_player 1 ''Ann'' 0"] run
  show ?thesis by (auto simp: sample_simps)
qed

text \<open>
  Channel names are case-insensitive: two names of 7-bit characters denote the same channel of a manager
  exactly when they agree up to the case of the Latin letters.
\<close>

theorem channel_names_ignore_case:
  assumes "list_all (\<lambda>c. of_char c < (128 :: nat)) n1" "list_all (\<lambda>c. of_char c < (128 :: nat)) n2"
  shows "channel_key n1 = channel_key n2 \<longleftrightarrow> map ascii_tolower n1 = map ascii_tolower n2"
proof -
  have code: "wcharToLower (of_char c) = (of_char (ascii_tolower c) :: nat)" if "of_char c < (128 :: nat)" for c
    using that by (simp add: wcharToLower_def ascii_tolower_def)
  have key: "channel_key n = Inr (map of_char (map ascii_tolower n))"
    if "list_all (\<lambda>c. of_char c < (128 :: nat)) n" for n
    using key_ascii [OF that] that code by (auto simp: list_all_iff)
  have "inj (of_char :: char \<Rightarrow> nat)" by (rule injI) simp
  then show ?thesis using key [OF assms(1)] key [OF assms(2)] by (simp add: inj_map_eq_map del: map_map)
qed

theorem channel_names_ignore_case_witness: "channel_key ''World2'' = channel_key ''WORLD2''"
  using channel_names_ignore_case [of "''World2''" "''WORLD2''"] by (simp add: ascii_tolower_def char_of_def bit_iff_odd)

lemma leave_named:
  assumes inv: "chat_inv st" and key: "channel_key name = Inr k" and g: "p_guid p \<noteq> 0"
  shows "\<exists>st1 e1. chat_bind (GetChannel m name p True)
      (\<lambda>c. case c of None \<Rightarrow> chat_return () | Some c \<Rightarrow> run_on c (LeaveChannel env p True)) st = Inr ((), st1, e1)
    \<and> chat_inv st1 \<and> (m, k) \<notin> memberships st1 (p_guid p) \<and> (\<forall>d. d \<noteq> (m, k) \<longrightarrow> channel_at st1 d = channel_at st d)"
proof (cases "channel_at st (m, k)")
  case None
  then show ?thesis
    using inv key by (simp add: GetChannel_def chat_bind_def chat_conv_def chat_return_def memberships_def)
next
  case (Some ch)
  have ci: "chan_inv ch" using mgr_invD [OF _ Some] inv by (simp add: chat_inv_def)
  obtain st1 effs where "run_on (m, k) (LeaveChannel env p True) st = Inr ((), st1, effs)" "chat_inv st1"
    "channel_at st1 (m, k) = Some (fst (LeaveChannel env p True ch))" "\<forall>d. d \<noteq> (m, k) \<longrightarrow> channel_at st1 d = channel_at st d"
    using run_on_inv [where f = "LeaveChannel env p True" and S = "{}", OF inv Some] LeaveChannel_moves [OF ci, of True p env]
    by auto
  moreover from this(3) have "(m, k) \<notin> memberships st1 (p_guid p)"
    using members_LeaveChannel [OF ci g] by (simp add: memberships_def)
  ultimately show ?thesis
    using Some key by (simp add: GetChannel_def chat_bind_def chat_conv_def chat_return_def)
qed

lemma ReadBits_aligned_byte:
  assumes "bitpos b = 8" "storage b = pre @ x # post" "rpos b = length pre"
  shows "\<exists>b'. ReadBits 8 b = Inr (ucast x, b') \<and> storage b' = storage b \<and> rpos b' = Suc (length pre)"
proof -
  have "byte_bits x = word_bits 8 (ucast x :: u32)"
    by (simp add: byte_bits_def word_bits_def upt_rec bit_ucast_iff numeral_eq_Suc)
  then have u: "unread b = word_bits 8 (ucast x :: u32) @ bytes_bits post"
    using assms by (simp add: unread_def bytes_bits_def)
  have "bits_taken (length pre) 0 b" using bits_taken_0 [OF assms(1)] assms(3) by simp
  moreover obtain b' where rd:
    "ReadBits 8 b = Inr (take_bit 8 (ucast x :: u32), b')" "storage b' = storage b"
    "\<forall>p k. bits_taken p k b \<longrightarrow> bits_taken p (k + 8) b'"
    using ReadBits_unread [of b 8] u assms(1) by (auto simp: bits_val_word_bits)
  ultimately have "bits_taken (length pre) (0 + 8) b'" by blast
  moreover have "take_bit 8 (ucast x :: u32) = ucast x"
    by (rule bit_eqI) (auto simp: bit_take_bit_iff bit_ucast_iff dest: bit_imp_le_length)
  ultimately show ?thesis using rd(1,2) by (simp add: bits_taken_def)
qed

definition sample_leave :: byte_buffer where
  "sample_leave = bb_empty\<lparr>storage := [0, 0, 0, 0, 2, 0x77, 0x64]\<rparr>"

lemma sample_leave_parsed: "\<exists>rest. parse_leave sample_leave = Inr (''wd'', rest)"
proof -
  let ?b = "sample_leave\<lparr>rpos := 4\<rparr>"
  have "(read_val sample_leave :: bb_error + (u32 \<times> byte_buffer)) = Inr (of_le_bytes [0, 0, 0, 0], ?b)"
    by (simp add: read_val_def read_at_def sample_leave_def bb_empty_def bb_size_def)
  moreover obtain b' where "ReadBits 8 ?b = Inr (2, b')" "storage b' = storage ?b" "rpos b' = 5"
    using ReadBits_aligned_byte [of ?b "[0, 0, 0, 0]" 2 "[0x77, 0x64]"] by (auto simp: sample_leave_def bb_empty_def)
  moreover from this(2,3) have "ReadString 2 b' = Inr (''wd'', b'\<lparr>rpos := 5 + 2\<rparr>)"
    using ReadString_at [of b' "[0, 0, 0, 0, 2]" "''wd''" "[]" 2]
    by (simp add: sample_leave_def byte_of_char_def nul_free_def)
  ultimately show ?thesis by (simp add: parse_leave_def bb_bind_run)
qed

text \<open>
  A leave packet is always handled to its end, whether or not the channel exists and the player is on it:
  the player ends up off the channel, no other channel is touched, and the manager of the player's team keeps no
  channel of that name that is both custom and without members.
\<close>

theorem leave_packet_handled:
  assumes "reachable chat_initial chat_step st"
    and "parse_leave data = Inr (name, rest)" "name \<noteq> []" "channel_key name = Inr k"
    and "forTeam env (p_team p) = Some m" "p_guid p \<noteq> 0"
  shows "\<exists>st' effs. HandleLeaveChannel env p data st = Inr ((), st', effs)
    \<and> (m, k) \<notin> memberships st' (p_guid p)
    \<and> (\<forall>d. d \<noteq> (m, k) \<longrightarrow> channel_at st' d = channel_at st d)
    \<and> (\<forall>ch. channel_at st' (m, k) = Some ch \<longrightarrow> playersStore ch \<noteq> [] \<or> IsConstant ch)"
proof -
  have inv: "chat_inv st" by (rule chat.reachable_invar [OF assms(1)])
  obtain st1 e1 where st1: "chat_bind (GetChannel m name p True)
      (\<lambda>c. case c of None \<Rightarrow> chat_return () | Some c \<Rightarrow> run_on c (LeaveChannel env p True)) st = Inr ((), st1, e1)"
    "chat_inv st1" "(m, k) \<notin> memberships st1 (p_guid p)" "\<forall>d. d \<noteq> (m, k) \<longrightarrow> channel_at st1 d = channel_at st d"
    using leave_named [OF inv assms(4,6)] by blast
  obtain st2 where st2: "Mgr_LeftChannel m name st1 = Inr ((), st2, [])"
    using Mgr_LeftChannel_runs [OF assms(4)] by blast
  then have kept: "memberships st2 = memberships st1" by (rule Mgr_LeftChannel_memberships [OF st1(2)])
  have mgr: "mgr_inv st1" using st1(2) by (simp add: chat_inv_def)
  have "\<exists>effs. HandleLeaveChannel env p data st = Inr ((), st2, effs)"
    using assms(2,3,5) st1(1) st2
    by (auto simp: HandleLeaveChannel_def chat_parse_def chat_bind_def chat_return_def split: sum.splits)
  with Mgr_LeftChannel_result [OF st2] assms(4) st1(3,4) show ?thesis
    unfolding kept [symmetric] by (auto simp: channel_at_delete [OF mgr] split: option.splits if_splits)
qed

theorem leave_packet_handled_witness:
  "\<exists>st e st' e'. chat_run sample_move sample_chat = Inr ((), st, e) \<and> m_channels st 1 = [(AllianceChannelMgr, [119, 100])]
     \<and> HandleLeaveChannel sample_env (sample_player 1 ''Ann'' 0) sample_leave st = Inr ((), st', e')
     \<and> (AllianceChannelMgr, [119, 100]) \<notin> memberships st' 1"
proof -
  obtain st e where run: "chat_run sample_move sample_chat = Inr ((), st, e)" "m_channels st 1 = [(AllianceChannelMgr, [119, 100])]"
    using sample_move_run by blast
  then have "chat_step sample_chat sample_move st" unfolding chat_step_def by blast
  with sample_chat_initial have reach: "reachable chat_initial chat_step st" by (blast intro: reach_init reach_step)
  obtain rest where parsed: "parse_leave sample_leave = Inr (''wd'', rest)" using sample_leave_parsed by blast
  have key: "channel_key ''wd'' = Inr [119, 100]" by (simp add: key_ascii wcharToLower_def)
  have team: "forTeam sample_env (p_team (sample_player 1 ''Ann'' 0)) = Some AllianceChannelMgr"
    by (simp add: forTeam_def sample_env_def sample_player_def ALLIANCE_def)
  from leave_packet_handled [OF reach parsed _ key team] run show ?thesis by (auto simp: sample_simps)
qed

section \<open>Name packets\<close>

text \<open>What a client writes: the bit lengths, then the strings.\<close>

fun write_strings :: "string list \<Rightarrow> unit bb" where
  "write_strings [] = bb_return ()"
| "write_strings (s # ss) = bb_seq (WriteString s) (write_strings ss)"

definition write_names :: "(u32 \<times> nat) list \<Rightarrow> string list \<Rightarrow> unit bb" where
  "write_names fs ss = bb_seq (write_bit_fields fs) (bb_seq FlushBits (write_strings ss))"

definition strings_bytes :: "string list \<Rightarrow> u8 list" where
  "strings_bytes ss = concat (map (map byte_of_char) ss)"

lemma write_strings_run:
  "aligned b \<Longrightarrow> bb_size b + length (strings_bytes ss) \<le> 10000000 \<Longrightarrow>
     write_strings ss b = Inr ((), push_bytes (strings_bytes ss) b)"
proof (induction ss arbitrary: b)
  case Nil
  then show ?case by (simp add: strings_bytes_def push_bytes_def)
next
  case (Cons s ss)
  show ?case
  proof (cases "s = []")
    case True
    with Cons show ?thesis by (simp add: WriteString_def bb_seq_run strings_bytes_def)
  next
    case False
    let ?b = "push_bytes (map byte_of_char s) b"
    have "WriteString s b = Inr ((), ?b)"
      using False Cons.prems
      by (cases s) (simp_all add: WriteString_def append_bytes_end aligned_def push_bytes_def strings_bytes_def bb_size_def)
    moreover have "write_strings ss ?b = Inr ((), push_bytes (strings_bytes ss) ?b)"
      using Cons.prems by (intro Cons.IH) (simp_all add: aligned_def strings_bytes_def bb_size_def)
    ultimately show ?thesis by (simp add: bb_seq_run strings_bytes_def push_bytes_def)
  qed
qed

lemma write_names_run:
  assumes "sum_list (map snd fs) \<le> 64" "length (strings_bytes ss) \<le> 9000000" "\<forall>f\<in>set fs. snd f \<le> 32"
  shows "\<exists>hdr pad b. write_names fs ss bb_empty = Inr ((), b) \<and> storage b = hdr @ strings_bytes ss
    \<and> bytes_bits hdr = fields_bits fs @ pad \<and> length hdr = (sum_list (map snd fs) + 7) div 8
    \<and> rpos b = 0 \<and> bitpos b = 8"
proof -
  have al: "aligned bb_empty" by (simp add: aligned_def bb_empty_def)
  have inv: "write_inv bb_empty" and wr: "written bb_empty = []"
    using al by (simp_all add: aligned_write_inv written_aligned) (simp add: bb_empty_def)
  then obtain b1 where b1: "write_bit_fields fs bb_empty = Inr ((), b1)"
    using write_bit_fields_room [of bb_empty fs] assms(1,3) by auto
  note w1 = write_bit_fields_written [OF inv b1]
  have len: "length (fields_bits fs) = sum_list (map snd fs)"
    by (simp add: fields_bits_def length_concat comp_def split_def)
  then obtain b2 where b2: "FlushBits b1 = Inr ((), b2)"
    using FlushBits_room [of b1] w1 wr assms(1) by (auto simp: bb_size_def)
  obtain pad where w2: "aligned b2" "rpos b2 = 0" "bytes_bits (storage b2) = fields_bits fs @ pad" "length pad < 8"
    using FlushBits_written [OF _ b2] w1 wr by (fastforce simp: write_inv_def bb_empty_def)
  have "8 * length (storage b2) = sum_list (map snd fs) + length pad"
    using arg_cong [OF w2(3), of length] len by simp
  then have hdr: "length (storage b2) = (sum_list (map snd fs) + 7) div 8" using w2(4) by linarith
  have "write_strings ss b2 = Inr ((), push_bytes (strings_bytes ss) b2)"
    using w2(1) hdr assms by (intro write_strings_run) (simp_all add: bb_size_def)
  with b1 b2 have "write_names fs ss bb_empty = Inr ((), push_bytes (strings_bytes ss) b2)"
    by (simp add: write_names_def bb_seq_run)
  with w2 hdr show ?thesis by (auto simp: aligned_def intro!: exI [of _ "storage b2"])
qed

text \<open>The two length fields as read, and the two strings behind them.\<close>

lemma read_two_lengths:
  assumes "write_names [(v1, w1), (v2, w2)] ss bb_empty = Inr ((), b)" "w1 \<le> 32" "w2 \<le> 32" "length (strings_bytes ss) \<le> 9000000"
  shows "\<exists>hdr b1 b2. ReadBits w1 b = Inr (take_bit w1 v1, b1) \<and> ReadBits w2 b1 = Inr (take_bit w2 v2, b2)
    \<and> storage b2 = hdr @ strings_bytes ss \<and> rpos b2 = length hdr \<and> bb_size b2 = bb_size b"
proof -
  obtain hdr pad where b: "storage b = hdr @ strings_bytes ss" "bytes_bits hdr = fields_bits [(v1, w1), (v2, w2)] @ pad"
    "length hdr = (w1 + w2 + 7) div 8" "rpos b = 0" "bitpos b = 8"
    using write_names_run [of "[(v1, w1), (v2, w2)]" ss] assms by auto
  have "unread b = fields_bits [(v1, w1), (v2, w2)] @ pad @ bytes_bits (strings_bytes ss)"
    using b by (simp add: unread_def)
  from read_bit_fields_unread [OF _ this] b(5) assms(2,3) obtain b2 where b2:
    "read_bit_fields [w1, w2] b = Inr ([take_bit w1 v1, take_bit w2 v2], b2)" "storage b2 = storage b"
    "\<forall>p k. bits_taken p k b \<longrightarrow> bits_taken p (k + (w1 + w2)) b2"
    by auto
  have "bits_taken 0 (0 + (w1 + w2)) b2" using b2(3) bits_taken_0 [OF b(5)] b(4) by metis
  then have "rpos b2 = length hdr" using b(3) by (simp add: bits_taken_def)
  moreover from b2(1) obtain b1 where "ReadBits w1 b = Inr (take_bit w1 v1, b1)" "ReadBits w2 b1 = Inr (take_bit w2 v2, b2)"
    by (auto simp: bb_bind_def bb_return_def split: sum.splits)
  ultimately show ?thesis using b2(2) b(1) by (auto simp: bb_size_def)
qed

lemma length_field:
  assumes "length s < 2 ^ w" "w \<le> 8"
  shows "unat (take_bit w (of_nat (length s) :: u32)) = length s"
proof -
  have "(2 :: nat) ^ w \<le> 2 ^ 8" using assms(2) by (intro power_increasing) simp_all
  then have "length s < 2 ^ 32" using assms(1) by simp
  then show ?thesis using assms by (simp add: unsigned_take_bit_eq unat_of_nat take_bit_nat_eq_self)
qed

lemma read_two_strings:
  assumes "storage b = hdr @ strings_bytes [a, c]" "rpos b = length hdr" "nul_free a" "nul_free c"
    and "unat l1 = length a" "unat l2 = length c"
  shows "\<exists>r. bb_bind (ReadString l1) (\<lambda>x. bb_bind (ReadString l2) (\<lambda>y. bb_return (f x y))) b = Inr (f a c, r)
    \<and> rpos r = bb_size r"
proof -
  have "ReadString l1 b = Inr (a, b\<lparr>rpos := length hdr + length a\<rparr>)"
    using assms by (intro ReadString_at [where post = "map byte_of_char c"]) (simp_all add: strings_bytes_def)
  moreover have "ReadString l2 (b\<lparr>rpos := length hdr + length a\<rparr>)
      = Inr (c, (b\<lparr>rpos := length hdr + length a\<rparr>)\<lparr>rpos := length (hdr @ map byte_of_char a) + length c\<rparr>)"
    using assms by (intro ReadString_at [where post = "[]"]) (simp_all add: strings_bytes_def)
  ultimately show ?thesis using assms(1) by (simp add: bb_bind_run strings_bytes_def bb_size_def)
qed

lemma two_names_read:
  assumes names: "nul_free a" "nul_free c" "length a \<le> 255" "length c \<le> 255"
    and fields: "w1 \<le> 32" "w2 \<le> 32"
    and parse: "\<And>b l1 l2 b1 b2. ReadBits w1 b = Inr (l1, b1) \<Longrightarrow> ReadBits w2 b1 = Inr (l2, b2) \<Longrightarrow>
        get b = bb_bind (ReadString (la l1 l2)) (\<lambda>x. bb_bind (ReadString (lc l1 l2)) (\<lambda>y. bb_return (f x y))) b2"
    and lens: "unat (la (take_bit w1 v1) (take_bit w2 v2)) = length a" "unat (lc (take_bit w1 v1) (take_bit w2 v2)) = length c"
  shows "\<exists>b r. write_names [(v1, w1), (v2, w2)] [a, c] bb_empty = Inr ((), b) \<and> get b = Inr (f a c, r) \<and> rpos r = bb_size r"
proof -
  have short: "length (strings_bytes [a, c]) \<le> 9000000" using names by (simp add: strings_bytes_def)
  obtain b where b: "write_names [(v1, w1), (v2, w2)] [a, c] bb_empty = Inr ((), b)"
    using write_names_run [of "[(v1, w1), (v2, w2)]" "[a, c]"] fields short by auto
  obtain hdr b1 b2 where rd: "ReadBits w1 b = Inr (take_bit w1 v1, b1)" "ReadBits w2 b1 = Inr (take_bit w2 v2, b2)"
    "storage b2 = hdr @ strings_bytes [a, c]" "rpos b2 = length hdr"
    using read_two_lengths [OF b fields short] by blast
  from read_two_strings [OF rd(3,4) names(1,2) lens, of f] parse [OF rd(1,2)] b show ?thesis by auto
qed

text \<open>
  What a client writes into a packet of two names comes back from the handlers' readers: for names
  without NUL that fit their bit lengths, both field orders (\<open>parse_same\<close> and \<open>parse_swapped\<close>) return the two
  strings and consume the whole packet.
\<close>

theorem name_packets_roundtrip:
  assumes "nul_free s1" "nul_free s2" "length s1 < 2 ^ w1" "length s2 < 2 ^ w2" "w1 \<le> 8" "w2 \<le> 8"
  shows "(\<exists>b r. write_names [(of_nat (length s1), w1), (of_nat (length s2), w2)] [s1, s2] bb_empty = Inr ((), b)
      \<and> parse_same w1 w2 b = Inr ((s1, s2), r) \<and> rpos r = bb_size r)
    \<and> (\<exists>b r. write_names [(of_nat (length s1), w1), (of_nat (length s2), w2)] [s2, s1] bb_empty = Inr ((), b)
      \<and> parse_swapped w1 w2 b = Inr ((s1, s2), r) \<and> rpos r = bb_size r)"
proof -
  have "length s1 \<le> 255" "length s2 \<le> 255"
    using assms(3-6) power_increasing [of w1 8 "2 :: nat"] power_increasing [of w2 8 "2 :: nat"] by simp_all
  note names = assms(1,2) this
  have len: "unat (take_bit w1 (of_nat (length s1) :: u32)) = length s1"
    "unat (take_bit w2 (of_nat (length s2) :: u32)) = length s2"
    using assms by (simp_all add: length_field)
  show ?thesis
    using two_names_read [where get = "parse_same w1 w2" and la = "\<lambda>a b. a" and lc = "\<lambda>a b. b" and f = Pair, OF names] len
      two_names_read [where get = "parse_swapped w1 w2" and la = "\<lambda>a b. b" and lc = "\<lambda>a b. a" and f = "\<lambda>x y. (y, x)",
        OF names(2,1,4,3)] assms(5,6)
    by (simp add: parse_same_def parse_swapped_def bb_bind_run)
qed

theorem name_packets_roundtrip_witness:
  "\<exists>b r. write_names [(5, 8), (3, 7)] [''Bob'', ''world''] bb_empty = Inr ((), b)
    \<and> parse_swapped 8 7 b = Inr ((''world'', ''Bob''), r) \<and> rpos r = bb_size r"
  using name_packets_roundtrip [of "''world''" "''Bob''" 8 7] by (simp add: nul_free_def)

end
