(* ===== verification/Reputation.thy ===== *)
theory Reputation
  imports ByteBufferCodec
begin

text \<open>
  The reputation of a player with the factions of the world
  (src/src/server/game/Reputation/ReputationMgr.cpp and ReputationMgr.h), the loader of the spillover
  templates it consults (src/src/server/game/Globals/ObjectMgr.cpp) and the two packets that change it
  (src/src/server/game/Handlers/CharacterHandler.cpp).

  Signed 32-bit arithmetic is written on \<open>int\<close> with its wrap-around (\<open>s32\<close>). The client's faction table,
  the scripts that may change a gain and the floating point operations are parameters (\<open>rep_env\<close>); a
  \<open>float\<close> is its bit pattern.
\<close>

section \<open>Data\<close>

type_synonym f32 = u32

definition s32 :: "int \<Rightarrow> int" where
  "s32 x = (x + 2147483648) mod 4294967296 - 2147483648"

text \<open>One of the four rows of base values of a faction.\<close>

record base_row =
  br_race :: u32
  br_class :: u32
  br_value :: int
  br_flags :: u32

record faction_entry =
  fe_ID :: u32
  reputationListID :: int
  base_rows :: "nat \<Rightarrow> base_row"
  fe_team :: u32
  spilloverRateIn :: f32
  spilloverRateOut :: f32
  spilloverMaxRankIn :: u32

record spillover_template =
  sp_faction :: "nat \<Rightarrow> u32"
  sp_rate :: "nat \<Rightarrow> f32"
  sp_rank :: "nat \<Rightarrow> u32"

definition MAX_SPILLOVER_FACTIONS :: nat where "MAX_SPILLOVER_FACTIONS = 5"

record faction_state =
  fs_ID :: u32
  ReputationListID :: u32
  Standing :: int
  Flags :: u8
  needSend :: bool
  needSave :: bool

record rep_mgr =
  factions :: "(u32, faction_state) omap"
  forcedReactions :: "(u32, nat) omap"
  visibleFactionCount :: u8
  honoredFactionCount :: u8
  reveredFactionCount :: u8
  exaltedFactionCount :: u8
  sendFactionIncreased :: bool

text \<open>
  What the manager reads: the player (GUID, masks, whether the session is loading), the faction table with
  its number of rows and the lists of sub-factions, the spillover templates, the script hook
  (\<open>OnPlayerReputationChange\<close> may change the standing), and the floating point unit: conversion from and
  to \<open>int32\<close>, product, comparison with zero, and \<open>int32(floor(float(n) * rate + 0.5f))\<close> for the configured
  rate.
\<close>

record rep_env =
  rep_guid_low :: u32
  race_mask :: u32
  class_mask :: u32
  player_loading :: bool
  faction_store :: "u32 \<Rightarrow> faction_entry option"
  faction_num_rows :: u32
  faction_team_list :: "u32 \<Rightarrow> u32 list option"
  spillover_templates :: "(u32, spillover_template) omap"
  script_hook :: "u32 \<Rightarrow> int \<Rightarrow> bool \<Rightarrow> int"
  f_of_int :: "int \<Rightarrow> f32"
  f_to_int :: "f32 \<Rightarrow> int"
  f_mul :: "f32 \<Rightarrow> f32 \<Rightarrow> f32"
  f_is_zero :: "f32 \<Rightarrow> bool"
  gain_rate :: "int \<Rightarrow> int"

datatype rep_opcode = SMSG_SET_FACTION_STANDING | SMSG_INITIALIZE_FACTIONS | SMSG_SET_FORCED_REACTIONS
  | SMSG_SET_FACTION_VISIBLE | SMSG_SET_FACTION_NOT_VISIBLE

datatype rep_criteria = KNOWN_FACTIONS | GAIN_REPUTATION | GAIN_EXALTED_REPUTATION | GAIN_REVERED_REPUTATION
  | GAIN_HONORED_REPUTATION

datatype rep_effect =
    RepSend rep_opcode "field list"
  | ReputationChanged u32
  | UpdateCriteria rep_criteria u32
  | DbDelReputation u32 u16
  | DbInsReputation u32 u16 int u16

definition FACTION_FLAG_VISIBLE :: u8 where "FACTION_FLAG_VISIBLE = 0x01"
definition FACTION_FLAG_AT_WAR :: u8 where "FACTION_FLAG_AT_WAR = 0x02"
definition FACTION_FLAG_HIDDEN :: u8 where "FACTION_FLAG_HIDDEN = 0x04"
definition FACTION_FLAG_INVISIBLE_FORCED :: u8 where "FACTION_FLAG_INVISIBLE_FORCED = 0x08"
definition FACTION_FLAG_PEACE_FORCED :: u8 where "FACTION_FLAG_PEACE_FORCED = 0x10"
definition FACTION_FLAG_INACTIVE :: u8 where "FACTION_FLAG_INACTIVE = 0x20"
definition FACTION_FLAG_SPECIAL :: u8 where "FACTION_FLAG_SPECIAL = 0x80"

definition REP_HOSTILE :: nat where "REP_HOSTILE = 1"
definition REP_HONORED :: nat where "REP_HONORED = 5"
definition REP_REVERED :: nat where "REP_REVERED = 6"
definition REP_EXALTED :: nat where "REP_EXALTED = 7"
definition MAX_REPUTATION_RANK :: nat where "MAX_REPUTATION_RANK = 8"

section \<open>Ranks\<close>

definition PointsInRank :: "int list" where
  "PointsInRank = [36000, 3000, 3000, 3000, 6000, 12000, 21000, 1000]"

definition Reputation_Cap :: int where "Reputation_Cap = 42999"
definition Reputation_Bottom :: int where "Reputation_Bottom = - 42000"

fun ReputationToRank_loop :: "nat \<Rightarrow> int \<Rightarrow> int \<Rightarrow> nat" where
  "ReputationToRank_loop 0 limit standing = 0"
| "ReputationToRank_loop (Suc i) limit standing =
     (let limit = limit - PointsInRank ! i
      in if standing \<ge> limit then i else ReputationToRank_loop i limit standing)"

definition ReputationToRank :: "int \<Rightarrow> nat" where
  "ReputationToRank standing = ReputationToRank_loop MAX_REPUTATION_RANK (Reputation_Cap + 1) standing"

section \<open>Accessors\<close>

text \<open>The index into the state list: \<open>int32\<close> converted to the unsigned key.\<close>

definition rep_key :: "faction_entry \<Rightarrow> u32" where
  "rep_key e = word_of_int (reputationListID e)"

definition GetState :: "rep_mgr \<Rightarrow> faction_entry \<Rightarrow> faction_state option" where
  "GetState m e = (if reputationListID e \<ge> 0 then om_find (factions m) (rep_key e) else None)"

text \<open>The first of the four rows that applies to the player's race and class.\<close>

definition row_applies :: "rep_env \<Rightarrow> base_row \<Rightarrow> bool" where
  "row_applies env r \<longleftrightarrow>
     (has_flag (br_race r) (race_mask env) \<or> (br_race r = 0 \<and> br_class r \<noteq> 0)) \<and>
     (has_flag (br_class r) (class_mask env) \<or> br_class r = 0)"

definition base_row_of :: "rep_env \<Rightarrow> faction_entry \<Rightarrow> base_row option" where
  "base_row_of env e = find (row_applies env) (map (base_rows e) [0..<4])"

definition GetBaseReputation :: "rep_env \<Rightarrow> faction_entry option \<Rightarrow> int" where
  "GetBaseReputation env eo =
     (case eo of
        None \<Rightarrow> 0
      | Some e \<Rightarrow> (case base_row_of env e of None \<Rightarrow> 0 | Some r \<Rightarrow> br_value r))"

definition GetDefaultStateFlags :: "rep_env \<Rightarrow> faction_entry option \<Rightarrow> u32" where
  "GetDefaultStateFlags env eo =
     (case eo of
        None \<Rightarrow> 0
      | Some e \<Rightarrow> (case base_row_of env e of None \<Rightarrow> 0 | Some r \<Rightarrow> br_flags r))"

definition IsAtWar_entry :: "rep_mgr \<Rightarrow> faction_entry option \<Rightarrow> bool" where
  "IsAtWar_entry m eo =
     (case eo of
        None \<Rightarrow> False
      | Some e \<Rightarrow> (case GetState m e of None \<Rightarrow> False | Some s \<Rightarrow> has_flag (Flags s) FACTION_FLAG_AT_WAR))"

definition IsAtWar :: "rep_env \<Rightarrow> rep_mgr \<Rightarrow> u32 \<Rightarrow> bool" where
  "IsAtWar env m faction_id =
     (case faction_store env faction_id of None \<Rightarrow> False | Some e \<Rightarrow> IsAtWar_entry m (Some e))"

definition GetReputation_entry :: "rep_env \<Rightarrow> rep_mgr \<Rightarrow> faction_entry option \<Rightarrow> int" where
  "GetReputation_entry env m eo =
     (case eo of
        None \<Rightarrow> 0
      | Some e \<Rightarrow> (case GetState m e of None \<Rightarrow> 0 | Some s \<Rightarrow> s32 (GetBaseReputation env eo + Standing s)))"

definition GetReputation :: "rep_env \<Rightarrow> rep_mgr \<Rightarrow> u32 \<Rightarrow> int" where
  "GetReputation env m faction_id =
     (case faction_store env faction_id of None \<Rightarrow> 0 | Some e \<Rightarrow> GetReputation_entry env m (Some e))"

definition GetRank :: "rep_env \<Rightarrow> rep_mgr \<Rightarrow> faction_entry option \<Rightarrow> nat" where
  "GetRank env m eo = ReputationToRank (GetReputation_entry env m eo)"

definition GetBaseRank :: "rep_env \<Rightarrow> faction_entry option \<Rightarrow> nat" where
  "GetBaseRank env eo = ReputationToRank (GetBaseReputation env eo)"

text \<open>\<^verbatim>\<open>Player::GetReputationRank\<close>.\<close>

definition GetReputationRank :: "rep_env \<Rightarrow> rep_mgr \<Rightarrow> u32 \<Rightarrow> nat" where
  "GetReputationRank env m faction = GetRank env m (faction_store env faction)"

definition GetForcedRankIfAny :: "rep_mgr \<Rightarrow> u32 \<Rightarrow> nat option" where
  "GetForcedRankIfAny m faction = om_find (forcedReactions m) faction"

definition ApplyForceReaction :: "u32 \<Rightarrow> nat \<Rightarrow> bool \<Rightarrow> rep_mgr \<Rightarrow> rep_mgr" where
  "ApplyForceReaction faction_id rank apply m =
     (if apply then m\<lparr>forcedReactions := om_set faction_id rank (forcedReactions m)\<rparr>
      else m\<lparr>forcedReactions := om_erase faction_id (forcedReactions m)\<rparr>)"

section \<open>Senders\<close>

definition SendForceReactions :: "rep_mgr \<Rightarrow> rep_effect list" where
  "SendForceReactions m =
     [RepSend SMSG_SET_FORCED_REACTIONS
        (F32 (of_nat (length (forcedReactions m)))
         # concat (map (\<lambda>(f, r). [F32 f, F32 (of_nat r)]) (forcedReactions m)))]"

definition SendState :: "faction_state \<Rightarrow> rep_mgr \<Rightarrow> rep_mgr \<times> rep_effect list" where
  "SendState f m =
     (let due = filter (\<lambda>(k, s). needSend s \<and> ReputationListID s \<noteq> ReputationListID f) (factions m)
      in (m\<lparr>sendFactionIncreased := False,
            factions := map (\<lambda>(k, s). (k, s\<lparr>needSend := False\<rparr>)) (factions m)\<rparr>,
          [RepSend SMSG_SET_FACTION_STANDING
             ([F32 0, F8 (of_bool (sendFactionIncreased m)), F32 (of_nat (1 + length due)),
               F32 (ReputationListID f), F32 (word_of_int (Standing f))]
              @ concat (map (\<lambda>(k, s). [F32 (ReputationListID s), F32 (word_of_int (Standing s))]) due))]))"

text \<open>
  The entries of the initial packet from number \<open>a\<close> on: the gap before each stored faction is filled with
  empty entries, and so is the rest up to \<open>count\<close> (both loops step an unsigned counter until equality).
\<close>

definition absent_fields :: "u32 \<Rightarrow> u32 \<Rightarrow> field list" where
  "absent_fields a b = concat (replicate (unat (b - a)) [F8 0, F32 0])"

fun initial_fields :: "u32 \<Rightarrow> (u32, faction_state) omap \<Rightarrow> field list" where
  "initial_fields a [] = absent_fields a 256"
| "initial_fields a ((k, s) # rest) =
     absent_fields a k @ [F8 (Flags s), F32 (word_of_int (Standing s))] @ initial_fields (k + 1) rest"

definition SendInitialReputations :: "rep_mgr \<Rightarrow> rep_mgr \<times> rep_effect list" where
  "SendInitialReputations m =
     (m\<lparr>factions := map (\<lambda>(k, s). (k, s\<lparr>needSend := False\<rparr>)) (factions m)\<rparr>,
      [RepSend SMSG_INITIALIZE_FACTIONS (F32 256 # initial_fields 0 (factions m))])"

fun SendStates_loop :: "faction_state list \<Rightarrow> rep_mgr \<Rightarrow> rep_mgr \<times> rep_effect list" where
  "SendStates_loop [] m = (m, [])"
| "SendStates_loop (f # fs) m =
     (let (m1, e1) = SendState f m; (m2, e2) = SendStates_loop fs m1 in (m2, e1 @ e2))"

definition SendStates :: "rep_mgr \<Rightarrow> rep_mgr \<times> rep_effect list" where
  "SendStates m = SendStates_loop (map snd (factions m)) m"

definition SendVisible :: "rep_env \<Rightarrow> faction_state \<Rightarrow> bool \<Rightarrow> rep_effect list" where
  "SendVisible env f visible =
     (if player_loading env then []
      else [RepSend (if visible then SMSG_SET_FACTION_VISIBLE else SMSG_SET_FACTION_NOT_VISIBLE) [F32 (ReputationListID f)]])"

section \<open>Changes\<close>

definition put_state :: "u32 \<Rightarrow> faction_state \<Rightarrow> rep_mgr \<Rightarrow> rep_mgr" where
  "put_state k s m = m\<lparr>factions := om_set k s (factions m)\<rparr>"

definition UpdateRankCounters :: "nat \<Rightarrow> nat \<Rightarrow> rep_mgr \<Rightarrow> rep_mgr" where
  "UpdateRankCounters old_rank new_rank m =
     m\<lparr>exaltedFactionCount := exaltedFactionCount m - of_bool (old_rank \<ge> REP_EXALTED) + of_bool (new_rank \<ge> REP_EXALTED),
       reveredFactionCount := reveredFactionCount m - of_bool (old_rank \<ge> REP_REVERED) + of_bool (new_rank \<ge> REP_REVERED),
       honoredFactionCount := honoredFactionCount m - of_bool (old_rank \<ge> REP_HONORED) + of_bool (new_rank \<ge> REP_HONORED)\<rparr>"

text \<open>\<open>SetVisible(FactionState*)\<close> of the state stored under \<open>k\<close>.\<close>

definition SetVisible_state :: "rep_env \<Rightarrow> u32 \<Rightarrow> faction_state \<Rightarrow> rep_mgr \<Rightarrow> rep_mgr \<times> rep_effect list" where
  "SetVisible_state env k s m =
     (if has_flag (Flags s) (FACTION_FLAG_INVISIBLE_FORCED OR FACTION_FLAG_HIDDEN) \<and> \<not> has_flag (Flags s) FACTION_FLAG_SPECIAL
      then (m, [])
      else if has_flag (Flags s) FACTION_FLAG_VISIBLE then (m, [])
      else let s' = s\<lparr>Flags := set_flag (Flags s) FACTION_FLAG_VISIBLE, needSend := True, needSave := True\<rparr>
           in ((put_state k s' m)\<lparr>visibleFactionCount := visibleFactionCount m + 1\<rparr>, SendVisible env s' True))"

definition SetAtWar_state :: "bool \<Rightarrow> faction_state \<Rightarrow> faction_state" where
  "SetAtWar_state atWar s =
     (if atWar \<and> has_flag (Flags s) FACTION_FLAG_PEACE_FORCED then s
      else if has_flag (Flags s) FACTION_FLAG_AT_WAR = atWar then s
      else s\<lparr>Flags := (if atWar then set_flag (Flags s) FACTION_FLAG_AT_WAR else clear_flag (Flags s) FACTION_FLAG_AT_WAR),
             needSend := True, needSave := True\<rparr>)"

definition SetInactive_state :: "bool \<Rightarrow> faction_state \<Rightarrow> faction_state" where
  "SetInactive_state inactive s =
     (if inactive \<and> (has_flag (Flags s) (FACTION_FLAG_INVISIBLE_FORCED OR FACTION_FLAG_HIDDEN)
                      \<or> \<not> has_flag (Flags s) FACTION_FLAG_VISIBLE) then s
      else if has_flag (Flags s) FACTION_FLAG_INACTIVE = inactive then s
      else s\<lparr>Flags := (if inactive then set_flag (Flags s) FACTION_FLAG_INACTIVE else clear_flag (Flags s) FACTION_FLAG_INACTIVE),
             needSend := True, needSave := True\<rparr>)"

definition SetVisible_entry :: "rep_env \<Rightarrow> faction_entry \<Rightarrow> rep_mgr \<Rightarrow> rep_mgr \<times> rep_effect list" where
  "SetVisible_entry env e m =
     (if reputationListID e < 0 then (m, [])
      else case om_find (factions m) (rep_key e) of
             None \<Rightarrow> (m, [])
           | Some s \<Rightarrow> SetVisible_state env (rep_key e) s m)"

text \<open>\<open>SetVisible(FactionTemplateEntry const*)\<close>, given the template's faction.\<close>

definition SetVisible_template :: "rep_env \<Rightarrow> u32 \<Rightarrow> rep_mgr \<Rightarrow> rep_mgr \<times> rep_effect list" where
  "SetVisible_template env faction m =
     (if faction = 0 then (m, [])
      else case faction_store env faction of
             None \<Rightarrow> (m, [])
           | Some e \<Rightarrow>
               if \<not> (has_flag (br_race (base_rows e 1)) (race_mask env) \<and> br_value (base_rows e 1) = Reputation_Bottom)
               then SetVisible_entry env e m else (m, []))"

definition SetAtWar :: "u32 \<Rightarrow> bool \<Rightarrow> rep_mgr \<Rightarrow> rep_mgr" where
  "SetAtWar repListID on m =
     (case om_find (factions m) repListID of
        None \<Rightarrow> m
      | Some s \<Rightarrow>
          if has_flag (Flags s) (FACTION_FLAG_INVISIBLE_FORCED OR FACTION_FLAG_HIDDEN) then m
          else put_state repListID (SetAtWar_state on s) m)"

definition SetInactive :: "u32 \<Rightarrow> bool \<Rightarrow> rep_mgr \<Rightarrow> rep_mgr" where
  "SetInactive repListID on m =
     (case om_find (factions m) repListID of
        None \<Rightarrow> m
      | Some s \<Rightarrow> put_state repListID (SetInactive_state on s) m)"

definition clamp_standing :: "int \<Rightarrow> int" where
  "clamp_standing standing =
     (if standing > Reputation_Cap then Reputation_Cap
      else if standing < Reputation_Bottom then Reputation_Bottom
      else standing)"

text \<open>The standing the faction ends up with.\<close>

definition new_standing :: "rep_env \<Rightarrow> int \<Rightarrow> faction_state \<Rightarrow> int \<Rightarrow> bool \<Rightarrow> int" where
  "new_standing env BaseRep s standing incremental =
     clamp_standing (if incremental then s32 (gain_rate env standing + s32 (Standing s + BaseRep)) else standing)"

definition SetOneFactionReputation ::
    "rep_env \<Rightarrow> faction_entry \<Rightarrow> int \<Rightarrow> bool \<Rightarrow> rep_mgr \<Rightarrow> bool \<times> rep_mgr \<times> rep_effect list" where
  "SetOneFactionReputation env e standing incremental m =
     (case om_find (factions m) (rep_key e) of
        None \<Rightarrow> (False, m, [])
      | Some s \<Rightarrow>
          let BaseRep = GetBaseReputation env (Some e);
              standing = new_standing env BaseRep s standing incremental;
              old_rank = ReputationToRank (s32 (Standing s + BaseRep));
              new_rank = ReputationToRank standing;
              s1 = s\<lparr>Standing := s32 (standing - BaseRep), needSend := True, needSave := True\<rparr>;
              (m2, visible) = SetVisible_state env (rep_key e) s1 (put_state (rep_key e) s1 m);
              m3 = (if new_rank \<le> REP_HOSTILE
                    then (case om_find (factions m2) (rep_key e) of
                            None \<Rightarrow> m2
                          | Some s2 \<Rightarrow> put_state (rep_key e) (SetAtWar_state True s2) m2)
                    else m2);
              m4 = (if new_rank > old_rank then m3\<lparr>sendFactionIncreased := True\<rparr> else m3)
          in (True, UpdateRankCounters old_rank new_rank m4,
              visible @ [ReputationChanged (fe_ID e), UpdateCriteria KNOWN_FACTIONS (fe_ID e),
                UpdateCriteria GAIN_REPUTATION (fe_ID e), UpdateCriteria GAIN_EXALTED_REPUTATION (fe_ID e),
                UpdateCriteria GAIN_REVERED_REPUTATION (fe_ID e), UpdateCriteria GAIN_HONORED_REPUTATION (fe_ID e)]))"

section \<open>Spillover\<close>

text \<open>
  The loop over the factions of a template. The faction is looked up without a test: a template that names
  no existing faction is a null dereference, the result \<open>None\<close>.
\<close>

fun spill_template ::
    "rep_env \<Rightarrow> spillover_template \<Rightarrow> int \<Rightarrow> bool \<Rightarrow> nat list \<Rightarrow> rep_mgr \<Rightarrow> (rep_mgr \<times> rep_effect list) option" where
  "spill_template env t standing incremental [] m = Some (m, [])"
| "spill_template env t standing incremental (i # is) m =
     (if sp_faction t i \<noteq> 0 \<and> GetReputationRank env m (sp_faction t i) \<le> unat (sp_rank t i)
      then (case faction_store env (sp_faction t i) of
              None \<Rightarrow> None
            | Some e \<Rightarrow>
                let spilloverRep = f_to_int env (f_mul env (f_of_int env standing) (sp_rate t i));
                    (_, m1, e1) = SetOneFactionReputation env e spilloverRep incremental m
                in (case spill_template env t standing incremental is m1 of
                      None \<Rightarrow> None
                    | Some (m2, e2) \<Rightarrow> Some (m2, e1 @ e2)))
      else spill_template env t standing incremental is m)"

text \<open>
  The loop over the affiliated factions of \<open>e\<close>; entries of the faction table are compared by address, which
  is their number in the table.
\<close>

fun spill_list ::
    "rep_env \<Rightarrow> faction_entry \<Rightarrow> f32 \<Rightarrow> bool \<Rightarrow> u32 list \<Rightarrow> bool \<Rightarrow> rep_mgr \<Rightarrow> bool \<times> rep_mgr \<times> rep_effect list" where
  "spill_list env e out incremental [] res m = (res, m, [])"
| "spill_list env e out incremental (f # fs) res m =
     (case faction_store env f of
        None \<Rightarrow> spill_list env e out incremental fs res m
      | Some c \<Rightarrow>
          if fe_ID c = fe_ID e \<or> GetRank env m (Some c) > unat (spilloverMaxRankIn c)
          then spill_list env e out incremental fs res m
          else let spilloverRep = f_to_int env (f_mul env out (spilloverRateIn c))
               in if spilloverRep \<noteq> 0 \<or> \<not> incremental
                  then let (res1, m1, e1) = SetOneFactionReputation env c spilloverRep incremental m;
                           (res2, m2, e2) = spill_list env e out incremental fs res1 m1
                       in (res2, m2, e1 @ e2)
                  else spill_list env e out incremental fs res m)"

text \<open>The part of \<^verbatim>\<open>SetReputation\<close> without a template: to the parent, to the sub-factions or to the sisters.\<close>

definition spill_default :: "rep_env \<Rightarrow> faction_entry \<Rightarrow> int \<Rightarrow> bool \<Rightarrow> rep_mgr \<Rightarrow> bool \<times> rep_mgr \<times> rep_effect list" where
  "spill_default env e standing incremental m =
     (let out = f_of_int env standing
      in case faction_team_list env (fe_ID e) of
           Some flist \<Rightarrow> spill_list env e out incremental flist False m
         | None \<Rightarrow>
             if fe_team e \<noteq> 0 \<and> \<not> f_is_zero env (spilloverRateOut e)
             then let out = f_mul env out (spilloverRateOut e)
                  in case faction_store env (fe_team e) of
                       None \<Rightarrow> (False, m, [])
                     | Some parent \<Rightarrow>
                         if (case om_find (factions m) (rep_key parent) of
                               None \<Rightarrow> False
                             | Some ps \<Rightarrow> has_flag (Flags ps) FACTION_FLAG_SPECIAL)
                         then let (_, m1, e1) = SetOneFactionReputation env parent (f_to_int env out) incremental m
                              in (False, m1, e1)
                         else (case faction_team_list env (fe_team e) of
                                 None \<Rightarrow> (False, m, [])
                               | Some flist \<Rightarrow> spill_list env e out incremental flist False m)
             else (False, m, []))"

definition SetReputation ::
    "rep_env \<Rightarrow> faction_entry \<Rightarrow> int \<Rightarrow> bool \<Rightarrow> rep_mgr \<Rightarrow> (bool \<times> rep_mgr \<times> rep_effect list) option" where
  "SetReputation env e standing0 incremental m =
     (let standing = script_hook env (fe_ID e) standing0 incremental;
          spilled = (case om_find (spillover_templates env) (fe_ID e) of
              Some t \<Rightarrow> (case spill_template env t standing incremental [0..<MAX_SPILLOVER_FACTIONS] m of
                           None \<Rightarrow> None
                         | Some (m1, e1) \<Rightarrow> Some (False, m1, e1))
            | None \<Rightarrow> Some (spill_default env e standing incremental m))
      in case spilled of
           None \<Rightarrow> None
         | Some (res, m1, e1) \<Rightarrow>
             (case om_find (factions m1) (rep_key e) of
                None \<Rightarrow> Some (res, m1, e1)
              | Some _ \<Rightarrow>
                  let (res2, m2, e2) = SetOneFactionReputation env e standing incremental m1
                  in (case om_find (factions m2) (rep_key e) of
                        None \<Rightarrow> None
                      | Some f \<Rightarrow> let (m3, e3) = SendState f m2 in Some (res2, m3, e1 @ e2 @ e3))))"

definition ModifyReputation ::
    "rep_env \<Rightarrow> faction_entry \<Rightarrow> int \<Rightarrow> rep_mgr \<Rightarrow> (bool \<times> rep_mgr \<times> rep_effect list) option" where
  "ModifyReputation env e standing m = SetReputation env e standing True m"

section \<open>Loading and saving\<close>

fun Initialize_loop :: "rep_env \<Rightarrow> u32 list \<Rightarrow> rep_mgr \<Rightarrow> rep_mgr" where
  "Initialize_loop env [] m = m"
| "Initialize_loop env (i # is) m =
     (case faction_store env i of
        None \<Rightarrow> Initialize_loop env is m
      | Some e \<Rightarrow>
          if reputationListID e \<ge> 0
          then let fl = ucast (GetDefaultStateFlags env (Some e));
                   newFaction = \<lparr>fs_ID = fe_ID e, ReputationListID = rep_key e, Standing = 0, Flags = fl,
                                 needSend = True, needSave = True\<rparr>;
                   m1 = (if has_flag fl FACTION_FLAG_VISIBLE
                         then m\<lparr>visibleFactionCount := visibleFactionCount m + 1\<rparr> else m);
                   m2 = UpdateRankCounters REP_HOSTILE (GetBaseRank env (Some e)) m1
               in Initialize_loop env is (put_state (rep_key e) newFaction m2)
          else Initialize_loop env is m)"

definition Initialize :: "rep_env \<Rightarrow> rep_mgr \<Rightarrow> rep_mgr" where
  "Initialize env m =
     Initialize_loop env (map of_nat [1..<unat (faction_num_rows env)])
       (m\<lparr>factions := [], visibleFactionCount := 0, honoredFactionCount := 0, reveredFactionCount := 0,
          exaltedFactionCount := 0, sendFactionIncreased := False\<rparr>)"

definition no_state :: faction_state where
  "no_state = \<lparr>fs_ID = 0, ReputationListID = 0, Standing = 0, Flags = 0, needSend = False, needSave = False\<rparr>"

text \<open>\<open>_factions[k]\<close>, the player's stored choices applied to a state, and the end of the loop body.\<close>

definition state_at :: "rep_mgr \<Rightarrow> u32 \<Rightarrow> faction_state" where
  "state_at m k = (case om_find (factions m) k of None \<Rightarrow> no_state | Some s \<Rightarrow> s)"

definition load_choices :: "u16 \<Rightarrow> faction_state \<Rightarrow> faction_state" where
  "load_choices dbFlags s =
     (let s1 = (if has_flag (ucast dbFlags) FACTION_FLAG_INACTIVE then SetInactive_state True s else s)
      in if has_flag (ucast dbFlags) FACTION_FLAG_AT_WAR then SetAtWar_state True s1
         else if has_flag (Flags s1) FACTION_FLAG_VISIBLE then SetAtWar_state False s1
         else s1)"

definition load_finish :: "u16 \<Rightarrow> bool \<Rightarrow> faction_state \<Rightarrow> faction_state" where
  "load_finish dbFlags hostile s =
     (let s1 = (if hostile then SetAtWar_state True s else s)
      in if (ucast (Flags s1) :: u16) = dbFlags then s1\<lparr>needSend := False, needSave := False\<rparr> else s1)"

text \<open>One row of the result: faction, standing and flags.\<close>

definition load_row :: "rep_env \<Rightarrow> u16 \<times> int \<times> u16 \<Rightarrow> rep_mgr \<Rightarrow> rep_mgr \<times> rep_effect list" where
  "load_row env row m =
     (let (fid, standing, dbFlags) = row
      in case faction_store env (ucast fid) of
           None \<Rightarrow> (m, [])
         | Some e \<Rightarrow>
             if reputationListID e \<ge> 0
             then
               let k = rep_key e;
                   s1 = (state_at m k)\<lparr>Standing := standing\<rparr>;
                   BaseRep = GetBaseReputation env (Some e);
                   m1 = UpdateRankCounters (ReputationToRank BaseRep) (ReputationToRank (s32 (BaseRep + standing)))
                          (put_state k s1 m);
                   (m2, effs) = (if has_flag (ucast dbFlags) FACTION_FLAG_VISIBLE then SetVisible_state env k s1 m1 else (m1, []));
                   s4 = load_choices dbFlags (state_at m2 k);
                   s6 = load_finish dbFlags (GetRank env (put_state k s4 m2) (Some e) \<le> REP_HOSTILE) s4
               in (put_state k s6 m2, effs)
             else (m, []))"

fun load_rows :: "rep_env \<Rightarrow> (u16 \<times> int \<times> u16) list \<Rightarrow> rep_mgr \<Rightarrow> rep_mgr \<times> rep_effect list" where
  "load_rows env [] m = (m, [])"
| "load_rows env (r # rs) m =
     (let (m1, e1) = load_row env r m; (m2, e2) = load_rows env rs m1 in (m2, e1 @ e2))"

definition LoadFromDB :: "rep_env \<Rightarrow> (u16 \<times> int \<times> u16) list \<Rightarrow> rep_mgr \<Rightarrow> rep_mgr \<times> rep_effect list" where
  "LoadFromDB env rows m = load_rows env rows (Initialize env m)"

definition SaveToDB :: "rep_env \<Rightarrow> rep_mgr \<Rightarrow> rep_mgr \<times> rep_effect list" where
  "SaveToDB env m =
     (m\<lparr>factions := map (\<lambda>(k, s). (k, s\<lparr>needSave := False\<rparr>)) (factions m)\<rparr>,
      concat (map (\<lambda>(k, s). if needSave s
                            then [DbDelReputation (rep_guid_low env) (ucast (fs_ID s)),
                                  DbInsReputation (rep_guid_low env) (ucast (fs_ID s)) (Standing s) (ucast (Flags s))]
                            else []) (factions m)))"

section \<open>Spillover templates\<close>

text \<open>
  \<^verbatim>\<open>LoadReputationSpilloverTemplate\<close>: a row is the faction and its template. The first loop over the spillover
  factions only logs; its \<open>continue\<close> belongs to that loop. The five tests behind it skip a row whose
  template names a missing faction.
\<close>

definition load_spillover_row ::
    "(u32 \<Rightarrow> faction_entry option) \<Rightarrow> u16 \<times> spillover_template \<Rightarrow> (u32, spillover_template) omap
       \<Rightarrow> (u32, spillover_template) omap" where
  "load_spillover_row store row m =
     (let (fid, t) = row; factionId = ucast fid
      in case store factionId of
           None \<Rightarrow> m
         | Some e \<Rightarrow>
             if fe_team e = 0 then m
             else if \<exists>i \<in> {..<MAX_SPILLOVER_FACTIONS}. sp_faction t i \<noteq> 0 \<and> store (sp_faction t i) = None then m
             else om_set factionId t m)"

definition LoadReputationSpilloverTemplate ::
    "(u32 \<Rightarrow> faction_entry option) \<Rightarrow> (u16 \<times> spillover_template) list \<Rightarrow> (u32, spillover_template) omap" where
  "LoadReputationSpilloverTemplate store rows = fold (load_spillover_row store) rows []"

section \<open>Packets of a session\<close>

definition HandleSetFactionAtWar :: "byte_buffer \<Rightarrow> rep_mgr \<Rightarrow> bb_error + rep_mgr" where
  "HandleSetFactionAtWar recvData m =
     (case bb_bind read_val (\<lambda>repListID :: u32. bb_bind read_val (\<lambda>flag :: u8. bb_return (repListID, flag))) recvData of
        Inl e \<Rightarrow> Inl e
      | Inr ((repListID, flag), _) \<Rightarrow> Inr (SetAtWar repListID (flag \<noteq> 0) m))"

definition HandleSetFactionInactiveOpcode :: "byte_buffer \<Rightarrow> rep_mgr \<Rightarrow> bb_error + rep_mgr" where
  "HandleSetFactionInactiveOpcode recvData m =
     (case bb_bind read_val (\<lambda>replistid :: u32. bb_bind read_val (\<lambda>inactive :: u8. bb_return (replistid, inactive))) recvData of
        Inl e \<Rightarrow> Inl e
      | Inr ((replistid, inactive), _) \<Rightarrow> Inr (SetInactive replistid (inactive \<noteq> 0) m))"

definition HandleSetFactionCheat :: "rep_mgr \<Rightarrow> rep_mgr \<times> rep_effect list" where
  "HandleSetFactionCheat m = SendStates m"

end
