(* ===== verification/ReputationSpec.thy ===== *)
theory ReputationSpec
  imports Reputation
begin

text \<open>
  Correctness of the reputation manager: ranks are the documented thresholds, standings stay within the
  bounds, the counters of visible, honored, revered and exalted factions are exact in every reachable
  state, the forced flags are respected, and no gain follows a missing faction of a spillover template.
\<close>

section \<open>Arithmetic and flags\<close>

lemma s32_s32 [simp]: "s32 (s32 x + y) = s32 (x + y)" "s32 (x + s32 y) = s32 (x + y)"
proof -
  have "(s32 x + y + 2147483648) mod 4294967296 = (x + y + 2147483648) mod 4294967296" for x y
  proof -
    have "s32 x + y + 2147483648 = (x + 2147483648) mod 4294967296 + y" by (simp add: s32_def)
    then show ?thesis by (simp add: mod_simps algebra_simps)
  qed
  then have left: "s32 (s32 x + y) = s32 (x + y)" for x y unfolding s32_def by metis
  then show "s32 (s32 x + y) = s32 (x + y)" by simp
  show "s32 (x + s32 y) = s32 (x + y)" using left [of y x] by (simp add: add.commute)
qed

lemma s32_in_range: "- 2147483648 \<le> x \<Longrightarrow> x < 2147483648 \<Longrightarrow> s32 x = x"
  by (simp add: s32_def)

lemma clamp_range: "Reputation_Bottom \<le> clamp_standing x \<and> clamp_standing x \<le> Reputation_Cap"
  by (simp add: clamp_standing_def Reputation_Bottom_def Reputation_Cap_def)

lemma s32_clamp [simp]: "s32 (clamp_standing x) = clamp_standing x"
  using clamp_range [of x] by (intro s32_in_range) (simp_all add: Reputation_Bottom_def Reputation_Cap_def)

text \<open>A one-bit flag is a bit of the byte.\<close>

lemma has_flag_iff: "has_flag f m \<longleftrightarrow> (\<exists>n. bit f n \<and> bit m n)" for f :: "'a::len word"
  by (auto simp: has_flag_def bit_eq_iff bit_and_iff dest: bit_imp_le_length)

lemma has_flag_bit: "has_flag f (push_bit n 1) \<longleftrightarrow> bit f n" for f :: "'a::len word"
  by (auto simp: has_flag_iff bit_exp_iff dest: bit_imp_le_length)

named_theorems rep_flags \<open>the faction flags as bits\<close>

lemma flag_bits [rep_flags]:
  "has_flag f FACTION_FLAG_VISIBLE \<longleftrightarrow> bit f 0" "has_flag f FACTION_FLAG_AT_WAR \<longleftrightarrow> bit f 1"
  "has_flag f FACTION_FLAG_HIDDEN \<longleftrightarrow> bit f 2" "has_flag f FACTION_FLAG_INVISIBLE_FORCED \<longleftrightarrow> bit f 3"
  "has_flag f FACTION_FLAG_PEACE_FORCED \<longleftrightarrow> bit f 4" "has_flag f FACTION_FLAG_INACTIVE \<longleftrightarrow> bit f 5"
  "has_flag f FACTION_FLAG_SPECIAL \<longleftrightarrow> bit f 7"
  using has_flag_bit [of f 0] has_flag_bit [of f 1] has_flag_bit [of f 2] has_flag_bit [of f 3] has_flag_bit [of f 4]
    has_flag_bit [of f 5] has_flag_bit [of f 7]
  by (simp_all add: FACTION_FLAG_VISIBLE_def FACTION_FLAG_AT_WAR_def FACTION_FLAG_HIDDEN_def FACTION_FLAG_INVISIBLE_FORCED_def
      FACTION_FLAG_PEACE_FORCED_def FACTION_FLAG_INACTIVE_def FACTION_FLAG_SPECIAL_def push_bit_eq_mult)

lemma hidden_bits [rep_flags]:
  "has_flag f (FACTION_FLAG_INVISIBLE_FORCED OR FACTION_FLAG_HIDDEN) \<longleftrightarrow> bit f 2 \<or> bit f 3"
proof -
  have "has_flag f (a OR b) \<longleftrightarrow> has_flag f a \<or> has_flag f b" for a b :: u8
    by (auto simp: has_flag_iff bit_or_iff)
  then show ?thesis by (auto simp: flag_bits)
qed

lemma set_flag_bits [rep_flags]:
  "bit (set_flag f FACTION_FLAG_VISIBLE) n \<longleftrightarrow> bit f n \<or> n = 0"
  "bit (set_flag f FACTION_FLAG_AT_WAR) n \<longleftrightarrow> bit f n \<or> n = 1"
  "bit (set_flag f FACTION_FLAG_INACTIVE) n \<longleftrightarrow> bit f n \<or> n = 5"
  "bit (clear_flag f FACTION_FLAG_AT_WAR) n \<longleftrightarrow> bit f n \<and> n \<noteq> 1"
  "bit (clear_flag f FACTION_FLAG_INACTIVE) n \<longleftrightarrow> bit f n \<and> n \<noteq> 5"
proof -
  have m: "FACTION_FLAG_VISIBLE = push_bit 0 1" "FACTION_FLAG_AT_WAR = push_bit 1 1" "FACTION_FLAG_INACTIVE = push_bit 5 1"
    by (simp_all add: FACTION_FLAG_VISIBLE_def FACTION_FLAG_AT_WAR_def FACTION_FLAG_INACTIVE_def push_bit_eq_mult)
  have or: "bit (f OR push_bit i 1) n \<longleftrightarrow> bit f n \<or> n = i" if "i < 8" for i
    using that by (auto simp: bit_or_iff bit_exp_iff)
  show "bit (set_flag f FACTION_FLAG_VISIBLE) n \<longleftrightarrow> bit f n \<or> n = 0"
    "bit (set_flag f FACTION_FLAG_AT_WAR) n \<longleftrightarrow> bit f n \<or> n = 1" "bit (set_flag f FACTION_FLAG_INACTIVE) n \<longleftrightarrow> bit f n \<or> n = 5"
    using or [of 0] or [of 1] or [of 5] unfolding set_flag_def m by simp_all
  have clear: "bit (f AND NOT (push_bit i 1)) n \<longleftrightarrow> bit f n \<and> n \<noteq> i" if "i < 8" for i
    using that by (auto simp: bit_and_iff bit_not_iff bit_exp_iff dest: bit_imp_le_length)
  show "bit (clear_flag f FACTION_FLAG_AT_WAR) n \<longleftrightarrow> bit f n \<and> n \<noteq> 1"
    "bit (clear_flag f FACTION_FLAG_INACTIVE) n \<longleftrightarrow> bit f n \<and> n \<noteq> 5"
    using clear [of 1] clear [of 5] unfolding clear_flag_def m by simp_all
qed

text \<open>
  The flags \<open>f\<close> a faction may have when its default flags are \<open>d\<close>: only visibility, war and inactivity
  change; war with a peace-forced faction and visibility of a hidden one are only ever the default; an
  inactive faction is inactive by default or visible and not hidden.
\<close>

definition flags_ok :: "u8 \<Rightarrow> u8 \<Rightarrow> bool" where
  "flags_ok d f \<longleftrightarrow> (\<forall>n \<in> {2, 3, 4, 6, 7}. bit f n = bit d n)
     \<and> (bit d 0 \<longrightarrow> bit f 0)
     \<and> (bit f 4 \<and> bit f 1 \<longrightarrow> bit d 1)
     \<and> ((bit f 2 \<or> bit f 3) \<and> \<not> bit f 7 \<and> bit f 0 \<longrightarrow> bit d 0)
     \<and> (bit f 5 \<longrightarrow> bit d 5 \<or> bit f 0 \<and> \<not> bit f 2 \<and> \<not> bit f 3)"

lemma flags_ok_default: "flags_ok d d"
  by (simp add: flags_ok_def)

lemma flags_ok_war: "flags_ok d (Flags s) \<Longrightarrow> flags_ok d (Flags (SetAtWar_state w s))"
  by (auto simp: flags_ok_def SetAtWar_state_def rep_flags)

lemma flags_ok_inactive: "flags_ok d (Flags s) \<Longrightarrow> flags_ok d (Flags (SetInactive_state w s))"
  by (auto simp: flags_ok_def SetInactive_state_def rep_flags)

section \<open>Ranks\<close>

text \<open>
  The loop over \<open>PointsInRank\<close> computes the documented thresholds: 42000 is exalted, 21000 revered, 9000
  honored, 3000 friendly, 0 neutral, -3000 unfriendly, -6000 hostile, anything lower hated.
\<close>

theorem ReputationToRank_thresholds:
  "ReputationToRank s =
     (if s \<ge> 42000 then 7 else if s \<ge> 21000 then 6 else if s \<ge> 9000 then 5 else if s \<ge> 3000 then 4
      else if s \<ge> 0 then 3 else if s \<ge> - 3000 then 2 else if s \<ge> - 6000 then 1 else 0)"
proof -
  have 8: "(8 :: nat) = Suc (Suc (Suc (Suc (Suc (Suc (Suc (Suc 0)))))))" by simp
  show ?thesis
    unfolding ReputationToRank_def MAX_REPUTATION_RANK_def 8 ReputationToRank_loop.simps Let_def
    by (simp add: PointsInRank_def Reputation_Cap_def)
qed

section \<open>Updating one faction\<close>

lemma om_set_twice: "om_set k b (om_set k a m) = om_set k b m"
  by (induction k a m rule: om_set.induct) auto

definition tally :: "('v \<Rightarrow> bool) \<Rightarrow> ('k, 'v) omap \<Rightarrow> u8" where
  "tally P m = of_nat (length (filter (\<lambda>(k, v). P v) m))"

lemma tally_set:
  assumes "om_wf m" "om_find m k = Some v"
  shows "tally P (om_set k v' m) = tally P m - of_bool (P v) + of_bool (P v')"
  using assms
proof (induction k v' m rule: om_set.induct)
  case (2 k v' k' w m)
  show ?case
  proof (cases "k = k'")
    case True
    then show ?thesis using 2 by (auto simp: tally_def om_find_def)
  next
    case False
    have "om_wf m" using 2 by (simp add: om_wf_def)
    moreover have "\<not> k < k'"
      using 2 False by (auto simp: om_wf_def om_find_def dest!: map_of_SomeD)
    ultimately show ?thesis using 2 False by (auto simp: tally_def om_find_def)
  qed
qed simp

lemma tally_new:
  assumes "om_find m k = None"
  shows "tally P (om_set k v' m) = tally P m + of_bool (P v')"
  using assms
  by (induction k v' m rule: om_set.induct) (auto simp: tally_def om_find_def split: if_splits)

section \<open>The invariant\<close>

text \<open>
  The faction table as the client data files give it: the entry found under a number carries that number,
  number 0 is unused, list numbers and base values are 32-bit values, and no two factions share a list number.
\<close>

definition store_ok :: "rep_env \<Rightarrow> bool" where
  "store_ok env \<longleftrightarrow>
     (\<forall>i e. faction_store env i = Some e \<longrightarrow> fe_ID e = i \<and> i \<noteq> 0 \<and> unat i < unat (faction_num_rows env)
        \<and> s32 (reputationListID e) = reputationListID e \<and> (\<forall>n. s32 (br_value (base_rows e n)) = br_value (base_rows e n)))
     \<and> (\<forall>i j e e'. faction_store env i = Some e \<longrightarrow> faction_store env j = Some e' \<longrightarrow>
          reputationListID e = reputationListID e' \<longrightarrow> 0 \<le> reputationListID e \<longrightarrow> i = j)"

text \<open>The faction of a state, its default flags, and the player's total reputation and rank with it.\<close>

definition default_of :: "rep_env \<Rightarrow> faction_state \<Rightarrow> u8" where
  "default_of env s = ucast (GetDefaultStateFlags env (faction_store env (fs_ID s)))"

definition total_of :: "rep_env \<Rightarrow> faction_state \<Rightarrow> int" where
  "total_of env s = s32 (GetBaseReputation env (faction_store env (fs_ID s)) + Standing s)"

definition rank_of :: "rep_env \<Rightarrow> faction_state \<Rightarrow> nat" where
  "rank_of env s = ReputationToRank (total_of env s)"

definition state_ok :: "rep_env \<Rightarrow> u32 \<Rightarrow> faction_state \<Rightarrow> bool" where
  "state_ok env k s \<longleftrightarrow> (\<exists>e. faction_store env (fs_ID s) = Some e \<and> 0 \<le> reputationListID e \<and> rep_key e = k)
     \<and> ReputationListID s = k \<and> flags_ok (default_of env s) (Flags s)"

definition counters_ok :: "rep_env \<Rightarrow> rep_mgr \<Rightarrow> bool" where
  "counters_ok env m \<longleftrightarrow>
     visibleFactionCount m = tally (\<lambda>s. has_flag (Flags s) FACTION_FLAG_VISIBLE) (factions m)
     \<and> honoredFactionCount m = tally (\<lambda>s. rank_of env s \<ge> REP_HONORED) (factions m)
     \<and> reveredFactionCount m = tally (\<lambda>s. rank_of env s \<ge> REP_REVERED) (factions m)
     \<and> exaltedFactionCount m = tally (\<lambda>s. rank_of env s \<ge> REP_EXALTED) (factions m)"

definition rep_inv :: "rep_env \<Rightarrow> rep_mgr \<Rightarrow> bool" where
  "rep_inv env m \<longleftrightarrow> store_ok env \<and> om_wf (factions m)
     \<and> (\<forall>k s. om_find (factions m) k = Some s \<longrightarrow> state_ok env k s) \<and> counters_ok env m"

lemma store_okD:
  assumes "store_ok env" "faction_store env i = Some e"
  shows "fe_ID e = i" "i \<noteq> 0" "unat i < unat (faction_num_rows env)" "s32 (reputationListID e) = reputationListID e"
    "s32 (br_value (base_rows e n)) = br_value (base_rows e n)"
  using assms unfolding store_ok_def by blast+

lemma store_ok_inj:
  assumes "store_ok env" "faction_store env i = Some e" "faction_store env j = Some e'"
    and "reputationListID e = reputationListID e'" "0 \<le> reputationListID e"
  shows "i = j"
  using assms unfolding store_ok_def by blast

lemma rep_key_eq:
  assumes "store_ok env" "faction_store env i = Some e" "faction_store env j = Some e'" "rep_key e = rep_key e'"
  shows "reputationListID e = reputationListID e'"
proof -
  have "take_bit 32 (reputationListID e) = take_bit 32 (reputationListID e')"
    using assms(4) by (simp add: rep_key_def word_of_int_eq_iff)
  then have "reputationListID e mod 4294967296 = reputationListID e' mod 4294967296"
    by (simp add: take_bit_eq_mod)
  then have "s32 (reputationListID e) = s32 (reputationListID e')"
    unfolding s32_def by (metis mod_add_left_eq)
  then show ?thesis using store_okD(4) [OF assms(1,2)] store_okD(4) [OF assms(1,3)] by simp
qed

text \<open>The entry an operation is given is the entry of the state it finds.\<close>

lemma found_entry:
  assumes "rep_inv env m" "faction_store env (fe_ID e) = Some e" "om_find (factions m) (rep_key e) = Some s"
  shows "fs_ID s = fe_ID e \<and> 0 \<le> reputationListID e"
proof -
  have ok: "store_ok env" "state_ok env (rep_key e) s" using assms unfolding rep_inv_def by blast+
  then obtain e' where e': "faction_store env (fs_ID s) = Some e'" "0 \<le> reputationListID e'" "rep_key e' = rep_key e"
    unfolding state_ok_def by blast
  from rep_key_eq [OF ok(1) e'(1) assms(2) e'(3)] e'(2) store_ok_inj [OF ok(1) e'(1) assms(2)] show ?thesis by simp
qed

text \<open>The central step: one state replaced, and the counters moved along.\<close>

lemma inv_put:
  assumes inv: "rep_inv env m" and s: "om_find (factions m) k = Some s"
    and s': "fs_ID s' = fs_ID s" "ReputationListID s' = ReputationListID s" "flags_ok (default_of env s) (Flags s')"
    and m': "factions m' = om_set k s' (factions m)"
    and cnt: "visibleFactionCount m' = visibleFactionCount m - of_bool (bit (Flags s) 0) + of_bool (bit (Flags s') 0)"
      "honoredFactionCount m' = honoredFactionCount m - of_bool (rank_of env s \<ge> REP_HONORED) + of_bool (rank_of env s' \<ge> REP_HONORED)"
      "reveredFactionCount m' = reveredFactionCount m - of_bool (rank_of env s \<ge> REP_REVERED) + of_bool (rank_of env s' \<ge> REP_REVERED)"
      "exaltedFactionCount m' = exaltedFactionCount m - of_bool (rank_of env s \<ge> REP_EXALTED) + of_bool (rank_of env s' \<ge> REP_EXALTED)"
  shows "rep_inv env m'"
proof -
  have wf: "om_wf (factions m)" and st: "state_ok env k s" using inv s unfolding rep_inv_def by blast+
  have "state_ok env k s'" using st s' by (simp add: state_ok_def default_of_def)
  moreover have "counters_ok env m'"
    using inv m' cnt by (simp add: rep_inv_def counters_ok_def tally_set [OF wf s] rep_flags)
  ultimately show ?thesis
    using inv m' wf by (auto simp: rep_inv_def store_simps split: if_splits)
qed

section \<open>What the operations do to one faction\<close>

definition shown :: "faction_state \<Rightarrow> faction_state" where
  "shown s =
     (if (bit (Flags s) 2 \<or> bit (Flags s) 3) \<and> \<not> bit (Flags s) 7 \<or> bit (Flags s) 0 then s
      else s\<lparr>Flags := set_flag (Flags s) FACTION_FLAG_VISIBLE, needSend := True, needSave := True\<rparr>)"

lemma om_set_same: "om_wf m \<Longrightarrow> om_find m k = Some v \<Longrightarrow> om_set k v m = m"
proof (induction k v m rule: om_set.induct)
  case (2 k v k' w m)
  then show ?case
    by (cases "k = k'") (auto simp: om_wf_def om_find_def dest!: map_of_SomeD)
qed (simp add: om_find_def)

lemma SetVisible_form:
  assumes "om_wf (factions m)" "om_find (factions m) k = Some s"
  shows "fst (SetVisible_state env k s m) = (put_state k (shown s) m)
    \<lparr>visibleFactionCount := visibleFactionCount m - of_bool (bit (Flags s) 0) + of_bool (bit (Flags (shown s)) 0)\<rparr>"
  using assms by (auto simp: SetVisible_state_def shown_def Let_def put_state_def om_set_same rep_flags)

lemma kept_fields [simp]:
  "fs_ID (shown s) = fs_ID s" "ReputationListID (shown s) = ReputationListID s" "Standing (shown s) = Standing s"
  "fs_ID (SetAtWar_state w s) = fs_ID s" "ReputationListID (SetAtWar_state w s) = ReputationListID s"
  "Standing (SetAtWar_state w s) = Standing s" "bit (Flags (SetAtWar_state w s)) 0 = bit (Flags s) 0"
  "fs_ID (SetInactive_state w s) = fs_ID s" "ReputationListID (SetInactive_state w s) = ReputationListID s"
  "Standing (SetInactive_state w s) = Standing s" "bit (Flags (SetInactive_state w s)) 0 = bit (Flags s) 0"
  by (simp_all add: shown_def SetAtWar_state_def SetInactive_state_def rep_flags)

lemma rank_of_kept [simp]:
  "rank_of env (shown s) = rank_of env s" "rank_of env (SetAtWar_state w s) = rank_of env s"
  "rank_of env (SetInactive_state w s) = rank_of env s"
  by (simp_all add: rank_of_def total_of_def)

lemma flags_ok_shown: "flags_ok d (Flags s) \<Longrightarrow> flags_ok d (Flags (shown s))"
  by (auto simp: flags_ok_def shown_def rep_flags)

text \<open>The state a change of standing leaves behind.\<close>

definition changed :: "rep_env \<Rightarrow> faction_entry \<Rightarrow> int \<Rightarrow> bool \<Rightarrow> faction_state \<Rightarrow> faction_state" where
  "changed env e standing incremental s =
     (let base = GetBaseReputation env (Some e);
          n = new_standing env base s standing incremental;
          s1 = shown (s\<lparr>Standing := s32 (n - base), needSend := True, needSave := True\<rparr>)
      in if ReputationToRank n \<le> REP_HOSTILE then SetAtWar_state True s1 else s1)"

lemma changed_fields [simp]:
  "fs_ID (changed env e st inc s) = fs_ID s" "ReputationListID (changed env e st inc s) = ReputationListID s"
  "Standing (changed env e st inc s)
     = s32 (new_standing env (GetBaseReputation env (Some e)) s st inc - GetBaseReputation env (Some e))"
  by (simp_all add: changed_def Let_def)

lemma flags_ok_changed: "flags_ok d (Flags s) \<Longrightarrow> flags_ok d (Flags (changed env e st inc s))"
  by (simp add: changed_def Let_def flags_ok_shown flags_ok_war)

lemma changed_war:
  "ReputationToRank (new_standing env (GetBaseReputation env (Some e)) s st inc) \<le> REP_HOSTILE \<Longrightarrow>
     bit (Flags (changed env e st inc s)) 1 \<or> bit (Flags (changed env e st inc s)) 4"
  by (simp add: changed_def Let_def SetAtWar_state_def rep_flags)

lemma SetOne_form:
  fixes env st inc
  assumes "om_wf (factions m)" "om_find (factions m) (rep_key e) = Some s"
  defines "s' \<equiv> changed env e st inc s"
    and "old \<equiv> ReputationToRank (s32 (Standing s + GetBaseReputation env (Some e)))"
    and "new \<equiv> ReputationToRank (new_standing env (GetBaseReputation env (Some e)) s st inc)"
  shows "\<exists>effs m'. SetOneFactionReputation env e st inc m = (True, m', effs)
    \<and> factions m' = om_set (rep_key e) s' (factions m)
    \<and> visibleFactionCount m' = visibleFactionCount m - of_bool (bit (Flags s) 0) + of_bool (bit (Flags s') 0)
    \<and> honoredFactionCount m' = honoredFactionCount m - of_bool (old \<ge> REP_HONORED) + of_bool (new \<ge> REP_HONORED)
    \<and> reveredFactionCount m' = reveredFactionCount m - of_bool (old \<ge> REP_REVERED) + of_bool (new \<ge> REP_REVERED)
    \<and> exaltedFactionCount m' = exaltedFactionCount m - of_bool (old \<ge> REP_EXALTED) + of_bool (new \<ge> REP_EXALTED)
    \<and> forcedReactions m' = forcedReactions m"
proof -
  let ?k = "rep_key e" and ?base = "GetBaseReputation env (Some e)"
  let ?s1 = "s\<lparr>Standing := s32 (new_standing env ?base s st inc - ?base), needSend := True, needSave := True\<rparr>"
  let ?m1 = "put_state ?k ?s1 m"
  have at: "om_wf (factions ?m1)" "om_find (factions ?m1) ?k = Some ?s1"
    using assms(1) by (simp_all add: put_state_def store_simps)
  note vis = SetVisible_form [OF at, of env]
  show ?thesis
    unfolding SetOneFactionReputation_def assms(2) option.case Let_def split_def vis
    by (simp add: UpdateRankCounters_def put_state_def om_set_twice store_simps s'_def changed_def Let_def old_def new_def)
qed

lemma SetOne_absent:
  "om_find (factions m) (rep_key e) = None \<Longrightarrow> SetOneFactionReputation env e st inc m = (False, m, [])"
  by (simp add: SetOneFactionReputation_def)

lemma SetOne_inv:
  assumes inv: "rep_inv env m" and e: "faction_store env (fe_ID e) = Some e"
  shows "rep_inv env (fst (snd (SetOneFactionReputation env e st inc m)))"
proof (cases "om_find (factions m) (rep_key e)")
  case None
  then show ?thesis using inv by (simp add: SetOne_absent)
next
  case (Some s)
  let ?base = "GetBaseReputation env (Some e)" and ?n = "new_standing env (GetBaseReputation env (Some e)) s st inc"
  have wf: "om_wf (factions m)" and st: "state_ok env (rep_key e) s" using inv Some unfolding rep_inv_def by blast+
  have id: "fs_ID s = fe_ID e" using found_entry [OF inv e Some] by simp
  have old: "rank_of env s = ReputationToRank (s32 (Standing s + ?base))"
    using e by (simp add: rank_of_def total_of_def id add.commute)
  have new: "rank_of env (changed env e st inc s) = ReputationToRank ?n"
    using e by (simp add: rank_of_def total_of_def id new_standing_def)
  have fl: "flags_ok (default_of env s) (Flags (changed env e st inc s))"
    using st by (simp add: state_ok_def flags_ok_changed)
  obtain effs m' where m': "SetOneFactionReputation env e st inc m = (True, m', effs)"
    "factions m' = om_set (rep_key e) (changed env e st inc s) (factions m)"
    "visibleFactionCount m' = visibleFactionCount m - of_bool (bit (Flags s) 0) + of_bool (bit (Flags (changed env e st inc s)) 0)"
    "honoredFactionCount m' = honoredFactionCount m - of_bool (rank_of env s \<ge> REP_HONORED) + of_bool (rank_of env (changed env e st inc s) \<ge> REP_HONORED)"
    "reveredFactionCount m' = reveredFactionCount m - of_bool (rank_of env s \<ge> REP_REVERED) + of_bool (rank_of env (changed env e st inc s) \<ge> REP_REVERED)"
    "exaltedFactionCount m' = exaltedFactionCount m - of_bool (rank_of env s \<ge> REP_EXALTED) + of_bool (rank_of env (changed env e st inc s) \<ge> REP_EXALTED)"
    using SetOne_form [OF wf Some, of env st inc] unfolding old new by blast
  have "rep_inv env m'" by (rule inv_put [OF inv Some _ _ fl m'(2-6)]) simp_all
  then show ?thesis using m'(1) by simp
qed

lemma SetVisible_inv:
  assumes inv: "rep_inv env m" and s: "om_find (factions m) k = Some s"
  shows "rep_inv env (fst (SetVisible_state env k s m))"
proof -
  have wf: "om_wf (factions m)" and st: "state_ok env k s" using inv s unfolding rep_inv_def by blast+
  have "flags_ok (default_of env s) (Flags (shown s))" using st by (simp add: state_ok_def flags_ok_shown)
  then show ?thesis
    unfolding SetVisible_form [OF wf s] by (intro inv_put [OF inv s, of "shown s"]) (simp_all add: put_state_def)
qed

lemma put_flags_inv:
  assumes inv: "rep_inv env m" and s: "om_find (factions m) k = Some s"
    and s': "fs_ID s' = fs_ID s" "ReputationListID s' = ReputationListID s" "Standing s' = Standing s"
      "bit (Flags s') 0 = bit (Flags s) 0" "\<And>d. flags_ok d (Flags s) \<Longrightarrow> flags_ok d (Flags s')"
  shows "rep_inv env (put_state k s' m)"
proof -
  have "state_ok env k s" using inv s unfolding rep_inv_def by blast
  then have "flags_ok (default_of env s) (Flags s')" using s'(5) by (simp add: state_ok_def)
  moreover have "rank_of env s' = rank_of env s" using s' by (simp add: rank_of_def total_of_def)
  ultimately show ?thesis using s' by (intro inv_put [OF inv s, of s']) (simp_all add: put_state_def)
qed

lemma SetAtWar_inv: "rep_inv env m \<Longrightarrow> rep_inv env (SetAtWar k on m)"
  by (auto simp: SetAtWar_def intro!: put_flags_inv flags_ok_war split: option.split)

lemma SetInactive_inv: "rep_inv env m \<Longrightarrow> rep_inv env (SetInactive k on m)"
  by (auto simp: SetInactive_def intro!: put_flags_inv flags_ok_inactive split: option.split)

lemma SetVisible_entry_inv: "rep_inv env m \<Longrightarrow> rep_inv env (fst (SetVisible_entry env e m))"
  by (auto simp: SetVisible_entry_def intro!: SetVisible_inv split: option.split)

lemma SetVisible_template_inv: "rep_inv env m \<Longrightarrow> rep_inv env (fst (SetVisible_template env f m))"
  by (auto simp: SetVisible_template_def intro!: SetVisible_entry_inv split: option.split)

text \<open>Bookkeeping of what is sent and saved.\<close>

lemma om_find_map: "om_find (map (\<lambda>(k, s). (k, f s)) m) k = map_option f (om_find m k)"
  by (induction m) (auto simp: om_find_def)

lemma om_wf_map: "om_wf (map (\<lambda>(k, s). (k, f s)) m) = om_wf m"
  by (simp add: om_wf_def comp_def split_def)

lemma tally_map: "(\<And>s. P (f s) = P s) \<Longrightarrow> tally P (map (\<lambda>(k, s). (k, f s)) m) = tally P m"
  by (simp add: tally_def filter_map comp_def split_def)

lemma mark_inv:
  assumes "rep_inv env m" "factions m' = map (\<lambda>(k, s). (k, f s)) (factions m)"
    and f: "\<And>s. fs_ID (f s) = fs_ID s" "\<And>s. ReputationListID (f s) = ReputationListID s"
      "\<And>s. Standing (f s) = Standing s" "\<And>s. Flags (f s) = Flags s"
    and "visibleFactionCount m' = visibleFactionCount m" "honoredFactionCount m' = honoredFactionCount m"
      "reveredFactionCount m' = reveredFactionCount m" "exaltedFactionCount m' = exaltedFactionCount m"
  shows "rep_inv env m'"
proof -
  have "state_ok env k (f s) = state_ok env k s" "rank_of env (f s) = rank_of env s" for k s
    using f by (simp_all add: state_ok_def default_of_def rank_of_def total_of_def)
  then show ?thesis
    using assms by (auto simp: rep_inv_def counters_ok_def om_find_map om_wf_map tally_map)
qed

lemma SendState_inv: "rep_inv env m \<Longrightarrow> rep_inv env (fst (SendState f m))"
  by (rule mark_inv [where f = "\<lambda>s. s\<lparr>needSend := False\<rparr>"]) (simp_all add: SendState_def Let_def)

lemma SendStates_inv: "rep_inv env m \<Longrightarrow> rep_inv env (fst (SendStates_loop fs m))"
  by (induction fs arbitrary: m) (simp_all add: Let_def split_def SendState_inv)

lemma SendInitial_inv: "rep_inv env m \<Longrightarrow> rep_inv env (fst (SendInitialReputations m))"
  by (rule mark_inv [where f = "\<lambda>s. s\<lparr>needSend := False\<rparr>"]) (simp_all add: SendInitialReputations_def)

lemma SaveToDB_inv: "rep_inv env m \<Longrightarrow> rep_inv env (fst (SaveToDB env m))"
  by (rule mark_inv [where f = "\<lambda>s. s\<lparr>needSave := False\<rparr>"]) (simp_all add: SaveToDB_def)

lemma ApplyForceReaction_inv: "rep_inv env (ApplyForceReaction f r a m) = rep_inv env m"
  by (simp add: ApplyForceReaction_def rep_inv_def counters_ok_def)

section \<open>Spillover\<close>

lemma store_entry: "store_ok env \<Longrightarrow> faction_store env i = Some e \<Longrightarrow> faction_store env (fe_ID e) = Some e"
  using store_okD(1) by metis

text \<open>
  A reflexive and transitive relation that holds across every change of one faction holds across the whole
  spillover, and, where sending keeps it too, across \<^verbatim>\<open>SetReputation\<close>.
\<close>

locale spill_rel =
  fixes env :: rep_env and R :: "rep_mgr \<Rightarrow> rep_mgr \<Rightarrow> bool"
  assumes R_refl: "R m m"
    and R_trans: "R m1 m2 \<Longrightarrow> R m2 m3 \<Longrightarrow> R m1 m3"
    and R_one: "faction_store env i = Some e \<Longrightarrow> R m (fst (snd (SetOneFactionReputation env e st inc m)))"
    and R_send: "R m (fst (SendState f m))"
begin

lemma spill_template: "spill_template env t st inc is m = Some (m', effs) \<Longrightarrow> R m m'"
proof (induction "is" arbitrary: m effs)
  case (Cons i "is")
  show ?case
  proof (cases "sp_faction t i \<noteq> 0 \<and> GetReputationRank env m (sp_faction t i) \<le> unat (sp_rank t i)")
    case True
    then obtain e where e: "faction_store env (sp_faction t i) = Some e" using Cons.prems by (auto split: option.splits)
    let ?m1 = "fst (snd (SetOneFactionReputation env e (f_to_int env (f_mul env (f_of_int env st) (sp_rate t i))) inc m))"
    obtain e2 where "spill_template env t st inc is ?m1 = Some (m', e2)"
      using Cons.prems True e by (auto simp: Let_def split_def split: option.splits)
    from R_trans [OF R_one [OF e] Cons.IH [OF this]] show ?thesis .
  next
    case False
    then show ?thesis using Cons by (auto split: if_splits)
  qed
qed (simp add: R_refl)

lemma spill_list: "R m (fst (snd (spill_list env e out inc fs res m)))"
proof (induction fs arbitrary: res m)
  case (Cons f fs)
  show ?case
  proof (cases "faction_store env f")
    case None
    then show ?thesis using Cons by simp
  next
    case (Some c)
    let ?r = "SetOneFactionReputation env c (f_to_int env (f_mul env out (spilloverRateIn c))) inc m"
    have "R m (fst (snd (spill_list env e out inc fs (fst ?r) (fst (snd ?r)))))"
      by (rule R_trans [OF R_one [OF Some] Cons.IH])
    then show ?thesis using Some Cons.IH [of m res] by (cases inc) (simp_all add: Let_def split_def)
  qed
qed (simp add: R_refl)

lemma spill_default: "R m (fst (snd (spill_default env e st inc m)))"
  using R_one by (auto simp: spill_default_def Let_def split_def spill_list R_refl split: option.split)

lemma set_reputation:
  assumes e: "faction_store env i = Some e" and r: "SetReputation env e st inc m = Some (res, m', effs)"
  shows "R m m'"
proof -
  let ?st = "script_hook env (fe_ID e) st inc"
  define spilled where "spilled = (case om_find (spillover_templates env) (fe_ID e) of
      Some t \<Rightarrow> (case spill_template env t ?st inc [0..<MAX_SPILLOVER_FACTIONS] m of
                   None \<Rightarrow> None | Some (m1, e1) \<Rightarrow> Some (False, m1, e1))
    | None \<Rightarrow> Some (spill_default env e ?st inc m))"
  obtain res1 m1 e1 where sp: "spilled = Some (res1, m1, e1)"
    using r unfolding SetReputation_def Let_def spilled_def [symmetric] by (cases spilled) auto
  have "R m m1"
  proof (cases "om_find (spillover_templates env) (fe_ID e)")
    case None
    then show ?thesis using sp spill_default [of m e ?st inc] by (simp add: spilled_def)
  next
    case (Some t)
    then show ?thesis using sp spill_template by (auto simp: spilled_def split: option.splits)
  qed
  moreover have "R m1 m'"
  proof (cases "om_find (factions m1) (rep_key e)")
    case None
    then show ?thesis
      using r R_refl unfolding SetReputation_def Let_def spilled_def [symmetric] sp by simp
  next
    case (Some s)
    let ?m2 = "fst (snd (SetOneFactionReputation env e ?st inc m1))"
    obtain f where "m' = fst (SendState f ?m2)"
      using r Some unfolding SetReputation_def Let_def spilled_def [symmetric] sp
      by (cases "om_find (factions ?m2) (rep_key e)") (auto simp: split_def)
    then show ?thesis using R_trans [OF R_one [OF e] R_send] by simp
  qed
  ultimately show ?thesis by (rule R_trans)
qed

end

text \<open>The invariant, as a relation between a state and the next.\<close>

definition keeps_inv :: "rep_env \<Rightarrow> rep_mgr \<Rightarrow> rep_mgr \<Rightarrow> bool" where
  "keeps_inv env m m' \<longleftrightarrow> (rep_inv env m \<longrightarrow> rep_inv env m')"

interpretation keeps: spill_rel env "keeps_inv env" for env
proof
  show "keeps_inv env m (fst (snd (SetOneFactionReputation env e st inc m)))" if "faction_store env i = Some e" for i e m st inc
    using that SetOne_inv store_entry by (fastforce simp: keeps_inv_def rep_inv_def [of env m])
qed (auto simp: keeps_inv_def SendState_inv)

text \<open>
  Saving is incremental, so every change has to raise \<open>needSave\<close>: a state that does not ask to be saved is as it was
  before, when it did not ask to be saved either. No state appears or disappears.
\<close>

definition tracked_save :: "rep_mgr \<Rightarrow> rep_mgr \<Rightarrow> bool" where
  "tracked_save m m' \<longleftrightarrow> om_wf (factions m) \<longrightarrow> om_wf (factions m') \<and>
     (\<forall>k. case om_find (factions m') k of
            None \<Rightarrow> om_find (factions m) k = None
          | Some s' \<Rightarrow> \<exists>s. om_find (factions m) k = Some s
              \<and> (needSave s' \<or> \<not> needSave s \<and> Standing s' = Standing s \<and> Flags s' = Flags s))"

lemma tracked_put:
  assumes "om_find (factions m) k = Some s" "factions m' = om_set k s' (factions m)"
    and "needSave s' \<or> \<not> needSave s \<and> Standing s' = Standing s \<and> Flags s' = Flags s"
  shows "tracked_save m m'"
  using assms by (auto simp: tracked_save_def store_simps split: option.split)

lemma tracked_trans:
  assumes "tracked_save m1 m2" "tracked_save m2 m3"
  shows "tracked_save m1 m3"
proof -
  have "case om_find (factions m3) k of
            None \<Rightarrow> om_find (factions m1) k = None
          | Some s' \<Rightarrow> \<exists>s. om_find (factions m1) k = Some s
              \<and> (needSave s' \<or> \<not> needSave s \<and> Standing s' = Standing s \<and> Flags s' = Flags s)"
    if wf: "om_wf (factions m1)" for k
  proof (cases "om_find (factions m3) k")
    case None
    then show ?thesis using assms wf unfolding tracked_save_def by (auto dest!: spec [of _ k] split: option.splits)
  next
    case (Some s3)
    then obtain s2 where s2: "om_find (factions m2) k = Some s2"
      "needSave s3 \<or> \<not> needSave s2 \<and> Standing s3 = Standing s2 \<and> Flags s3 = Flags s2"
      using assms wf unfolding tracked_save_def by (auto dest!: spec [of _ k] split: option.splits)
    then obtain s1 where "om_find (factions m1) k = Some s1"
      "needSave s2 \<or> \<not> needSave s1 \<and> Standing s2 = Standing s1 \<and> Flags s2 = Flags s1"
      using assms(1) wf unfolding tracked_save_def by (auto dest!: spec [of _ k] split: option.splits)
    then show ?thesis using Some s2(2) by auto
  qed
  then show ?thesis using assms by (simp add: tracked_save_def)
qed

lemma needSave_kept:
  "needSave (SetAtWar_state w s) \<or> needSave (SetAtWar_state w s) = needSave s \<and> Flags (SetAtWar_state w s) = Flags s"
  "needSave (SetInactive_state w s) \<or> needSave (SetInactive_state w s) = needSave s \<and> Flags (SetInactive_state w s) = Flags s"
  "needSave (shown s) \<or> needSave (shown s) = needSave s \<and> Flags (shown s) = Flags s"
  by (simp_all add: SetAtWar_state_def SetInactive_state_def shown_def)

lemma needSave_up: "needSave s \<Longrightarrow> needSave (SetAtWar_state w s) \<and> needSave (shown s)"
  by (simp add: SetAtWar_state_def shown_def)

lemma tracked_mark:
  assumes "factions m' = map (\<lambda>(k, s). (k, f s)) (factions m)"
    and "\<And>s. needSave (f s) = needSave s" "\<And>s. Standing (f s) = Standing s" "\<And>s. Flags (f s) = Flags s"
  shows "tracked_save m m'"
  using assms by (auto simp: tracked_save_def om_find_map om_wf_map split: option.split)

interpretation saves: spill_rel env tracked_save for env
proof
  show "tracked_save m m" for m by (auto simp: tracked_save_def split: option.split)
  show "tracked_save m1 m3" if "tracked_save m1 m2" "tracked_save m2 m3" for m1 m2 m3 by (rule tracked_trans [OF that])
  show "tracked_save m (fst (SendState f m))" for m f
    by (rule tracked_mark [where f = "\<lambda>s. s\<lparr>needSend := False\<rparr>"]) (simp_all add: SendState_def Let_def)
  show "tracked_save m (fst (snd (SetOneFactionReputation env e st inc m)))" for m e st inc
  proof (cases "om_wf (factions m)")
    case True
    show ?thesis
    proof (cases "om_find (factions m) (rep_key e)")
      case None
      then show ?thesis by (auto simp: SetOne_absent tracked_save_def split: option.split)
    next
      case (Some s)
      have "needSave (changed env e st inc s)" by (simp add: changed_def Let_def needSave_up)
      then show ?thesis using tracked_put [OF Some] SetOne_form [OF True Some, of env st inc] by auto
    qed
  qed (simp add: tracked_save_def)
qed

section \<open>Loading\<close>

lemma s32_base:
  assumes "store_ok env" "faction_store env i = Some e"
  shows "s32 (GetBaseReputation env (Some e)) = GetBaseReputation env (Some e)"
proof (cases "base_row_of env e")
  case None
  then show ?thesis by (simp add: GetBaseReputation_def s32_def)
next
  case (Some r)
  then obtain n where "r = base_rows e n" by (auto simp: base_row_of_def find_Some_iff)
  with store_okD(5) [OF assms] Some show ?thesis by (simp add: GetBaseReputation_def)
qed

text \<open>Every listed faction of the table has a state.\<close>

definition complete :: "rep_env \<Rightarrow> rep_mgr \<Rightarrow> bool" where
  "complete env m \<longleftrightarrow>
     (\<forall>i e. faction_store env i = Some e \<longrightarrow> 0 \<le> reputationListID e \<longrightarrow> om_find (factions m) (rep_key e) \<noteq> None)"

definition new_state :: "rep_env \<Rightarrow> faction_entry \<Rightarrow> faction_state" where
  "new_state env e = \<lparr>fs_ID = fe_ID e, ReputationListID = rep_key e, Standing = 0,
     Flags = ucast (GetDefaultStateFlags env (Some e)), needSend = True, needSave = True\<rparr>"

definition init_step :: "rep_env \<Rightarrow> faction_entry \<Rightarrow> rep_mgr \<Rightarrow> rep_mgr" where
  "init_step env e m = put_state (rep_key e) (new_state env e) (UpdateRankCounters REP_HOSTILE (GetBaseRank env (Some e))
     (if has_flag (Flags (new_state env e)) FACTION_FLAG_VISIBLE
      then m\<lparr>visibleFactionCount := visibleFactionCount m + 1\<rparr> else m))"

lemma Initialize_loop_step:
  assumes "faction_store env i = Some e" "0 \<le> reputationListID e"
  shows "Initialize_loop env (i # is) m = Initialize_loop env is (init_step env e m)"
  using assms by (simp add: init_step_def new_state_def Let_def)

lemma factions_init_step [simp]: "factions (init_step env e m) = om_set (rep_key e) (new_state env e) (factions m)"
  by (simp add: init_step_def put_state_def UpdateRankCounters_def)

lemma init_step_inv:
  assumes inv: "rep_inv env m" and e: "faction_store env i = Some e" "0 \<le> reputationListID e"
    and new: "om_find (factions m) (rep_key e) = None"
  shows "rep_inv env (init_step env e m)"
proof -
  have ok: "store_ok env" using inv by (simp add: rep_inv_def)
  have id: "faction_store env (fe_ID e) = Some e" by (rule store_entry [OF ok e(1)])
  have "rank_of env (new_state env e) = GetBaseRank env (Some e)"
    using id s32_base [OF ok e(1)] by (simp add: rank_of_def total_of_def new_state_def GetBaseRank_def)
  then have "counters_ok env (init_step env e m)"
    using inv unfolding counters_ok_def factions_init_step tally_new [OF new]
    by (simp add: rep_inv_def counters_ok_def init_step_def put_state_def UpdateRankCounters_def REP_HOSTILE_def REP_HONORED_def
        REP_REVERED_def REP_EXALTED_def)
  moreover have "state_ok env (rep_key e) (new_state env e)"
    using id e by (auto simp: state_ok_def new_state_def default_of_def flags_ok_default)
  ultimately show ?thesis using inv by (auto simp: rep_inv_def store_simps split: if_splits)
qed

lemma Initialize_loop_inv:
  assumes "rep_inv env m" "\<forall>k s. om_find (factions m) k = Some s \<longrightarrow> Standing s = 0" "distinct is"
    and "\<forall>i \<in> set is. \<forall>e. faction_store env i = Some e \<longrightarrow> 0 \<le> reputationListID e \<longrightarrow> om_find (factions m) (rep_key e) = None"
  shows "rep_inv env (Initialize_loop env is m)
    \<and> (\<forall>k s. om_find (factions (Initialize_loop env is m)) k = Some s \<longrightarrow> Standing s = 0)
    \<and> (\<forall>k. om_find (factions m) k \<noteq> None \<longrightarrow> om_find (factions (Initialize_loop env is m)) k \<noteq> None)
    \<and> (\<forall>i \<in> set is. \<forall>e. faction_store env i = Some e \<longrightarrow> 0 \<le> reputationListID e \<longrightarrow>
         om_find (factions (Initialize_loop env is m)) (rep_key e) \<noteq> None)"
  using assms
proof (induction "is" arbitrary: m)
  case (Cons i "is")
  show ?case
  proof (cases "\<exists>e. faction_store env i = Some e \<and> 0 \<le> reputationListID e")
    case True
    then obtain e where e: "faction_store env i = Some e" "0 \<le> reputationListID e" by blast
    have ok: "store_ok env" using Cons.prems(1) by (simp add: rep_inv_def)
    have new: "om_find (factions m) (rep_key e) = None" using Cons.prems(4) e by simp
    let ?m = "init_step env e m"
    have "rep_key e' \<noteq> rep_key e" if "j \<in> set is" "faction_store env j = Some e'" "0 \<le> reputationListID e'" for j e'
      using that Cons.prems(3) rep_key_eq [OF ok that(2) e(1)] store_ok_inj [OF ok that(2) e(1)] by auto
    then have "\<forall>j \<in> set is. \<forall>e'. faction_store env j = Some e' \<longrightarrow> 0 \<le> reputationListID e' \<longrightarrow> om_find (factions ?m) (rep_key e') = None"
      using Cons.prems(4) by (simp add: store_simps)
    moreover have "\<forall>k s. om_find (factions ?m) k = Some s \<longrightarrow> Standing s = 0"
      using Cons.prems(2) by (auto simp: store_simps new_state_def split: if_splits)
    moreover have "distinct is" using Cons.prems(3) by simp
    ultimately have IH: "rep_inv env (Initialize_loop env is ?m)"
      "\<forall>k s. om_find (factions (Initialize_loop env is ?m)) k = Some s \<longrightarrow> Standing s = 0"
      "\<And>k. om_find (factions ?m) k \<noteq> None \<Longrightarrow> om_find (factions (Initialize_loop env is ?m)) k \<noteq> None"
      "\<And>j e'. j \<in> set is \<Longrightarrow> faction_store env j = Some e' \<Longrightarrow> 0 \<le> reputationListID e' \<Longrightarrow>
         om_find (factions (Initialize_loop env is ?m)) (rep_key e') \<noteq> None"
      using Cons.IH [OF init_step_inv [OF Cons.prems(1) e new]] by blast+
    have "om_find (factions ?m) k \<noteq> None" if "om_find (factions m) k \<noteq> None \<or> k = rep_key e" for k
      using that by (auto simp: store_simps)
    then show ?thesis
      unfolding Initialize_loop_step [OF e] using IH e(1) by (metis option.inject set_ConsD)
  next
    case False
    then have "Initialize_loop env (i # is) m = Initialize_loop env is m" by (auto split: option.split)
    then show ?thesis using Cons False by auto
  qed
qed simp

lemma Initialize_inv:
  assumes ok: "store_ok env"
  shows "rep_inv env (Initialize env m) \<and> complete env (Initialize env m)
    \<and> (\<forall>k s. om_find (factions (Initialize env m)) k = Some s \<longrightarrow> Standing s = 0)"
proof -
  let ?is = "map of_nat [1..<unat (faction_num_rows env)] :: u32 list"
  let ?m = "m\<lparr>factions := [], visibleFactionCount := 0, honoredFactionCount := 0, reveredFactionCount := 0,
     exaltedFactionCount := 0, sendFactionIncreased := False\<rparr>"
  have "inj_on (of_nat :: nat \<Rightarrow> u32) {1..<unat (faction_num_rows env)}"
  proof (rule inj_onI)
    fix x y assume "x \<in> {1..<unat (faction_num_rows env)}" "y \<in> {1..<unat (faction_num_rows env)}" "of_nat x = (of_nat y :: u32)"
    moreover have "unat (faction_num_rows env) < 2 ^ 32" using unsigned_less [of "faction_num_rows env"] by simp
    ultimately have "x < 2 ^ 32" "y < 2 ^ 32" "unat (of_nat x :: u32) = unat (of_nat y :: u32)" by auto
    then show "x = y" by (simp add: unat_of_nat)
  qed
  then have d: "distinct ?is" by (simp add: distinct_map)
  have all: "i \<in> set ?is" if "faction_store env i = Some e" for i e
    using store_okD(2,3) [OF ok that] by (auto simp: unat_eq_0 intro!: image_eqI [of _ _ "unat i"] Suc_leI simp flip: neq0_conv)
  have inv: "rep_inv env ?m" using ok by (simp add: rep_inv_def counters_ok_def tally_def)
  have "\<forall>k s. om_find (factions ?m) k = Some s \<longrightarrow> Standing s = 0"
    "\<forall>i \<in> set ?is. \<forall>e. faction_store env i = Some e \<longrightarrow> 0 \<le> reputationListID e \<longrightarrow> om_find (factions ?m) (rep_key e) = None"
    by simp_all
  from Initialize_loop_inv [OF inv this(1) d this(2)] all show ?thesis
    unfolding Initialize_def complete_def by blast
qed

lemma load_keeps:
  "fs_ID (load_choices f s) = fs_ID s" "ReputationListID (load_choices f s) = ReputationListID s"
  "Standing (load_choices f s) = Standing s" "bit (Flags (load_choices f s)) 0 = bit (Flags s) 0"
  "fs_ID (load_finish f h s) = fs_ID s" "ReputationListID (load_finish f h s) = ReputationListID s"
  "Standing (load_finish f h s) = Standing s" "bit (Flags (load_finish f h s)) 0 = bit (Flags s) 0"
  "flags_ok d (Flags s) \<Longrightarrow> flags_ok d (Flags (load_choices f s))"
  "flags_ok d (Flags s) \<Longrightarrow> flags_ok d (Flags (load_finish f h s))"
  by (simp_all add: load_choices_def load_finish_def Let_def flags_ok_war flags_ok_inactive)

lemma load_row_form:
  assumes inv: "rep_inv env m" and e: "faction_store env (ucast fid) = Some e" "0 \<le> reputationListID e"
    and s: "om_find (factions m) (rep_key e) = Some s" "Standing s = 0"
  shows "\<exists>s' m' effs. load_row env (fid, st, fl) m = (m', effs) \<and> rep_inv env m'
    \<and> factions m' = om_set (rep_key e) s' (factions m) \<and> Standing s' = st"
proof -
  let ?k = "rep_key e" and ?base = "GetBaseReputation env (Some e)" and ?s1 = "s\<lparr>Standing := st\<rparr>"
  have ok: "store_ok env" and wf: "om_wf (factions m)" and sk: "state_ok env ?k s"
    using inv s(1) unfolding rep_inv_def by blast+
  have fe: "faction_store env (fe_ID e) = Some e" by (rule store_entry [OF ok e(1)])
  have id: "fs_ID s = fe_ID e" using found_entry [OF inv fe s(1)] by simp
  define m1 where "m1 = UpdateRankCounters (ReputationToRank ?base) (ReputationToRank (s32 (?base + st))) (put_state ?k ?s1 m)"
  have at: "om_wf (factions m1)" "om_find (factions m1) ?k = Some ?s1"
    using wf by (simp_all add: m1_def put_state_def UpdateRankCounters_def store_simps)
  define vis where "vis = has_flag (ucast fl) FACTION_FLAG_VISIBLE"
  define s2 where "s2 = (if vis then shown ?s1 else ?s1)"
  define m2 where "m2 = fst (if vis then SetVisible_state env ?k ?s1 m1 else (m1, []))"
  have m2: "factions m2 = om_set ?k s2 (factions m)"
    "visibleFactionCount m2 = visibleFactionCount m - of_bool (bit (Flags s) 0) + of_bool (bit (Flags s2) 0)"
    "honoredFactionCount m2 = honoredFactionCount m1" "reveredFactionCount m2 = reveredFactionCount m1"
    "exaltedFactionCount m2 = exaltedFactionCount m1"
    using SetVisible_form [OF at, of env]
    by (simp_all add: m2_def s2_def m1_def put_state_def UpdateRankCounters_def om_set_twice)
  then have s2at: "om_find (factions m2) ?k = Some s2" by (simp add: store_simps)
  define s4 where "s4 = load_choices fl s2"
  define s6 where "s6 = load_finish fl (GetRank env (put_state ?k s4 m2) (Some e) \<le> REP_HOSTILE) s4"
  have sa: "state_at m ?k = s" "state_at m2 ?k = s2" using s(1) s2at by (simp_all add: state_at_def)
  have "fst (load_row env (fid, st, fl) m)
      = (let s4 = load_choices fl (state_at m2 ?k)
         in put_state ?k (load_finish fl (GetRank env (put_state ?k s4 m2) (Some e) \<le> REP_HOSTILE) s4) m2)"
    using e by (simp add: load_row_def Let_def split_def sa(1) m2_def m1_def vis_def)
  then have run: "fst (load_row env (fid, st, fl) m) = put_state ?k s6 m2" by (simp add: sa(2) s6_def s4_def Let_def)
  have "flags_ok (default_of env s) (Flags s2)" using sk by (simp add: s2_def state_ok_def flags_ok_shown)
  then have "flags_ok (default_of env s) (Flags s6)" by (simp add: s6_def s4_def load_keeps)
  moreover have kept: "fs_ID s6 = fs_ID s" "ReputationListID s6 = ReputationListID s" "Standing s6 = st"
    "bit (Flags s6) 0 = bit (Flags s2) 0"
    by (simp_all add: s6_def s4_def s2_def load_keeps)
  moreover have "rank_of env s = ReputationToRank ?base"
    using s(2) fe s32_base [OF ok e(1)] by (simp add: rank_of_def total_of_def id)
  moreover have "rank_of env s6 = ReputationToRank (s32 (?base + st))"
    using kept fe by (simp add: rank_of_def total_of_def id)
  ultimately have "rep_inv env (put_state ?k s6 m2)"
    using m2 by (intro inv_put [OF inv s(1), of s6])
      (simp_all add: put_state_def om_set_twice m1_def UpdateRankCounters_def)
  moreover have "factions (put_state ?k s6 m2) = om_set ?k s6 (factions m)" using m2(1) by (simp add: put_state_def om_set_twice)
  ultimately show ?thesis using run kept(3) by (metis prod.collapse)
qed

lemma load_rows_inv:
  assumes "rep_inv env m" "complete env m" "distinct (map fst rows)"
    and "\<forall>fid \<in> fst ` set rows. \<forall>e s. faction_store env (ucast fid) = Some e \<longrightarrow> 0 \<le> reputationListID e \<longrightarrow>
           om_find (factions m) (rep_key e) = Some s \<longrightarrow> Standing s = 0"
  shows "rep_inv env (fst (load_rows env rows m))"
  using assms
proof (induction rows arbitrary: m)
  case (Cons row rows)
  obtain fid st fl where row: "row = (fid, st, fl)" by (cases row)
  have ok: "store_ok env" using Cons.prems(1) by (simp add: rep_inv_def)
  show ?case
  proof (cases "\<exists>e. faction_store env (ucast fid) = Some e \<and> 0 \<le> reputationListID e")
    case True
    then obtain e where e: "faction_store env (ucast fid) = Some e" "0 \<le> reputationListID e" by blast
    then obtain s where s: "om_find (factions m) (rep_key e) = Some s"
      using Cons.prems(2) unfolding complete_def by blast
    have "Standing s = 0" using Cons.prems(4) row e s by simp
    from load_row_form [OF Cons.prems(1) e s this, of st fl] obtain s' m' effs where
      m': "load_row env row m = (m', effs)" "rep_inv env m'" "factions m' = om_set (rep_key e) s' (factions m)"
      using row by blast
    have comp: "complete env m'" using Cons.prems(2) m'(3) by (simp add: complete_def store_simps)
    have other: "rep_key e' \<noteq> rep_key e" if "f \<in> fst ` set rows" "faction_store env (ucast f) = Some e'" "0 \<le> reputationListID e'" for f e'
    proof
      assume "rep_key e' = rep_key e"
      then have "(ucast f :: u32) = ucast fid"
        using rep_key_eq [OF ok that(2) e(1)] store_ok_inj [OF ok that(2) e(1)] that(3) by simp
      then have bits: "bit (ucast f :: u32) n = bit (ucast fid :: u32) n" for n by simp
      have "bit f n = bit fid n" if "n < 16" for n using bits [of n] that by (simp add: bit_ucast_iff)
      then have "f = fid" by (intro bit_word_eqI) simp
      then show False using that(1) Cons.prems(3) row by auto
    qed
    have "\<forall>f \<in> fst ` set rows. \<forall>e s. faction_store env (ucast f) = Some e \<longrightarrow> 0 \<le> reputationListID e \<longrightarrow>
        om_find (factions m') (rep_key e) = Some s \<longrightarrow> Standing s = 0"
      using Cons.prems(4) other by (auto simp: m'(3) store_simps)
    moreover have "distinct (map fst rows)" using Cons.prems(3) by simp
    ultimately have "rep_inv env (fst (load_rows env rows m'))" using Cons.IH [OF m'(2) comp] by blast
    then show ?thesis using m'(1) by (simp add: Let_def split_def)
  next
    case False
    then have "load_row env row m = (m, [])" by (auto simp: row load_row_def split: option.split)
    then show ?thesis using Cons by (simp add: Let_def split_def)
  qed
qed simp

lemma LoadFromDB_inv:
  assumes "store_ok env" "distinct (map fst rows)"
  shows "rep_inv env (fst (LoadFromDB env rows m))"
  unfolding LoadFromDB_def using Initialize_inv [OF assms(1), of m] assms(2)
  by (intro load_rows_inv) auto

section \<open>The manager as a state machine\<close>

datatype rep_event =
    EvSetReputation faction_entry int bool
  | EvSetOne faction_entry int bool
  | EvVisibleTemplate u32
  | EvVisible faction_entry
  | EvAtWar byte_buffer
  | EvInactive byte_buffer
  | EvForce u32 nat bool
  | EvSendState faction_state
  | EvSendInitial
  | EvSendStates
  | EvSave

inductive rep_step :: "rep_env \<Rightarrow> rep_mgr \<Rightarrow> rep_event \<Rightarrow> rep_mgr \<Rightarrow> bool" for env :: rep_env where
  rep_set: "faction_store env (fe_ID e) = Some e \<Longrightarrow> SetReputation env e st inc m = Some (res, m', effs) \<Longrightarrow>
    rep_step env m (EvSetReputation e st inc) m'"
| rep_one: "faction_store env (fe_ID e) = Some e \<Longrightarrow> SetOneFactionReputation env e st inc m = (res, m', effs) \<Longrightarrow>
    rep_step env m (EvSetOne e st inc) m'"
| rep_template: "SetVisible_template env f m = (m', effs) \<Longrightarrow> rep_step env m (EvVisibleTemplate f) m'"
| rep_visible: "SetVisible_entry env e m = (m', effs) \<Longrightarrow> rep_step env m (EvVisible e) m'"
| rep_war: "HandleSetFactionAtWar d m = Inr m' \<Longrightarrow> rep_step env m (EvAtWar d) m'"
| rep_inactive: "HandleSetFactionInactiveOpcode d m = Inr m' \<Longrightarrow> rep_step env m (EvInactive d) m'"
| rep_force: "rep_step env m (EvForce f r a) (ApplyForceReaction f r a m)"
| rep_send: "SendState f m = (m', effs) \<Longrightarrow> rep_step env m (EvSendState f) m'"
| rep_initial: "SendInitialReputations m = (m', effs) \<Longrightarrow> rep_step env m EvSendInitial m'"
| rep_states: "HandleSetFactionCheat m = (m', effs) \<Longrightarrow> rep_step env m EvSendStates m'"
| rep_save: "SaveToDB env m = (m', effs) \<Longrightarrow> rep_step env m EvSave m'"

text \<open>A manager starts with \<^verbatim>\<open>LoadFromDB\<close>; the rows of a character have distinct factions (the table's key).\<close>

definition rep_initial :: "rep_env \<Rightarrow> rep_mgr \<Rightarrow> bool" where
  "rep_initial env m \<longleftrightarrow> store_ok env \<and> (\<exists>rows m0. distinct (map fst rows) \<and> m = fst (LoadFromDB env rows m0))"

lemma packet_inv:
  assumes "rep_inv env m"
  shows "HandleSetFactionAtWar d m = Inr m' \<Longrightarrow> rep_inv env m'" "HandleSetFactionInactiveOpcode d m = Inr m' \<Longrightarrow> rep_inv env m'"
  using assms
  by (auto simp: HandleSetFactionAtWar_def HandleSetFactionInactiveOpcode_def SetAtWar_inv SetInactive_inv split: sum.splits)

lemma rep_step_inv:
  assumes "rep_step env m ev m'" "rep_inv env m"
  shows "rep_inv env m'"
  using assms
proof cases
  case (rep_set e st inc res effs)
  then show ?thesis using keeps.set_reputation assms(2) unfolding keeps_inv_def by blast
next
  case (rep_one e st inc res effs)
  then show ?thesis using SetOne_inv [OF assms(2), of e st inc] by simp
next
  case (rep_template f effs)
  then show ?thesis using SetVisible_template_inv [OF assms(2), of f] by simp
next
  case (rep_visible e effs)
  then show ?thesis using SetVisible_entry_inv [OF assms(2), of e] by simp
next
  case (rep_send f effs)
  then show ?thesis using SendState_inv [OF assms(2), of f] by simp
next
  case (rep_initial effs)
  then show ?thesis using SendInitial_inv [OF assms(2)] by simp
next
  case (rep_states effs)
  then show ?thesis using SendStates_inv [OF assms(2)] by (simp add: HandleSetFactionCheat_def SendStates_def) (metis fst_conv)
next
  case (rep_save effs)
  then show ?thesis using SaveToDB_inv [OF assms(2)] by simp
next
  case (rep_war d)
  then show ?thesis using packet_inv(1) [OF assms(2)] by blast
next
  case (rep_inactive d)
  then show ?thesis using packet_inv(2) [OF assms(2)] by blast
next
  case (rep_force f r a)
  then show ?thesis using assms(2) by (simp add: ApplyForceReaction_inv)
qed

interpretation rep: state_machine "rep_initial env" "rep_step env" "rep_inv env" for env
  by unfold_locales (auto simp: rep_initial_def LoadFromDB_inv intro: rep_step_inv)

text \<open>Two factions: a neutral one, and a friendly one the player cannot declare war on.\<close>

definition sample_faction :: "u32 \<Rightarrow> int \<Rightarrow> int \<Rightarrow> u32 \<Rightarrow> faction_entry" where
  "sample_faction i l base fl =
     \<lparr>fe_ID = i, reputationListID = l, base_rows = (\<lambda>_. \<lparr>br_race = 1, br_class = 0, br_value = base, br_flags = fl\<rparr>),
      fe_team = 0, spilloverRateIn = 0, spilloverRateOut = 0, spilloverMaxRankIn = 7\<rparr>"

definition sample_rep_env :: rep_env where
  "sample_rep_env =
     \<lparr>rep_guid_low = 1, race_mask = 1, class_mask = 1, player_loading = False,
      faction_store = (\<lambda>i. if i = 1 then Some (sample_faction 1 0 0 0)
                           else if i = 2 then Some (sample_faction 2 1 3000 0x11) else None),
      faction_num_rows = 3, faction_team_list = (\<lambda>_. None), spillover_templates = [],
      script_hook = (\<lambda>_ st _. st), f_of_int = word_of_int, f_to_int = sint, f_mul = (\<lambda>a b. a * b), f_is_zero = (\<lambda>x. x = 0),
      gain_rate = (\<lambda>n. n)\<rparr>"

definition no_rep :: rep_mgr where
  "no_rep = \<lparr>factions = [], forcedReactions = [], visibleFactionCount = 0, honoredFactionCount = 0, reveredFactionCount = 0,
     exaltedFactionCount = 0, sendFactionIncreased = False\<rparr>"

definition sample_rep :: rep_mgr where
  "sample_rep = fst (LoadFromDB sample_rep_env [(2, 18500, 0x11)] no_rep)"

lemma sample_store: "store_ok sample_rep_env"
  by (auto simp: store_ok_def sample_rep_env_def sample_faction_def s32_def split: if_splits)

lemma sample_reachable: "reachable (rep_initial sample_rep_env) (rep_step sample_rep_env) sample_rep"
  using sample_store by (intro reach_init) (force simp: rep_initial_def sample_rep_def)

lemma sample_rep_factions:
  "factions sample_rep = [(0, \<lparr>fs_ID = 1, ReputationListID = 0, Standing = 0, Flags = 0, needSend = True, needSave = True\<rparr>),
     (1, \<lparr>fs_ID = 2, ReputationListID = 1, Standing = 18500, Flags = 0x11, needSend = False, needSave = False\<rparr>)]"
  by code_simp

text \<open>
  C4: In every state a reputation manager can reach after loading, by any sequence of gains, losses, packets and
  saves, the counters of visible, honored, revered and exalted factions equal the numbers of factions of that kind,
  as 8-bit values.
\<close>

theorem reputation_counters_exact:
  assumes "reachable (rep_initial env) (rep_step env) m"
  shows "visibleFactionCount m = of_nat (length (filter (\<lambda>(k, s). has_flag (Flags s) FACTION_FLAG_VISIBLE) (factions m)))
    \<and> honoredFactionCount m = of_nat (length (filter (\<lambda>(k, s). rank_of env s \<ge> REP_HONORED) (factions m)))
    \<and> reveredFactionCount m = of_nat (length (filter (\<lambda>(k, s). rank_of env s \<ge> REP_REVERED) (factions m)))
    \<and> exaltedFactionCount m = of_nat (length (filter (\<lambda>(k, s). rank_of env s \<ge> REP_EXALTED) (factions m)))"
  using rep.reachable_invar [OF assms] by (simp add: rep_inv_def counters_ok_def tally_def)

theorem reputation_counters_exact_witness:
  "honoredFactionCount sample_rep = 1 \<and> reveredFactionCount sample_rep = 1 \<and> exaltedFactionCount sample_rep = 0
     \<and> visibleFactionCount sample_rep = 1"
proof -
  have "rank_of sample_rep_env (snd (factions sample_rep ! 0)) = 3" "rank_of sample_rep_env (snd (factions sample_rep ! 1)) = 6"
    by code_simp+
  with reputation_counters_exact [OF sample_reachable] show ?thesis
    by (simp add: sample_rep_factions rep_flags REP_HONORED_def REP_REVERED_def REP_EXALTED_def)
qed

text \<open>
  C36: In every reachable state the flags of a stored faction relate to the flags it starts with as follows: the flags
  hidden, forced invisible, forced peace and special are the ones it starts with, and a faction that starts visible stays
  visible.  A faction with forced peace is at war only if it starts so; a hidden or forced-invisible faction
  without the special flag is visible only if it starts so; and a faction is inactive only if it starts so or is visible
  and neither hidden nor forced invisible.  Every stored standing belongs to the faction listed under its key.
\<close>

theorem reputation_flags_respected:
  assumes "reachable (rep_initial env) (rep_step env) m" "om_find (factions m) k = Some s"
  shows "(\<forall>f\<in>{FACTION_FLAG_HIDDEN, FACTION_FLAG_INVISIBLE_FORCED, FACTION_FLAG_PEACE_FORCED, FACTION_FLAG_SPECIAL}.
        has_flag (Flags s) f = has_flag (default_of env s) f)
    \<and> (has_flag (default_of env s) FACTION_FLAG_VISIBLE \<longrightarrow> has_flag (Flags s) FACTION_FLAG_VISIBLE)
    \<and> (has_flag (Flags s) FACTION_FLAG_PEACE_FORCED \<and> has_flag (Flags s) FACTION_FLAG_AT_WAR
        \<longrightarrow> has_flag (default_of env s) FACTION_FLAG_AT_WAR)
    \<and> (has_flag (Flags s) (FACTION_FLAG_INVISIBLE_FORCED OR FACTION_FLAG_HIDDEN) \<and> \<not> has_flag (Flags s) FACTION_FLAG_SPECIAL
        \<and> has_flag (Flags s) FACTION_FLAG_VISIBLE \<longrightarrow> has_flag (default_of env s) FACTION_FLAG_VISIBLE)
    \<and> (has_flag (Flags s) FACTION_FLAG_INACTIVE \<longrightarrow> has_flag (default_of env s) FACTION_FLAG_INACTIVE \<or>
        has_flag (Flags s) FACTION_FLAG_VISIBLE \<and> \<not> has_flag (Flags s) (FACTION_FLAG_INVISIBLE_FORCED OR FACTION_FLAG_HIDDEN))
    \<and> (\<exists>e. faction_store env (fs_ID s) = Some e \<and> rep_key e = k)"
proof -
  have "rep_inv env m" by (rule rep.reachable_invar [OF assms(1)])
  then have "state_ok env k s" using assms(2) unfolding rep_inv_def by blast
  then show ?thesis by (auto simp: state_ok_def flags_ok_def rep_flags)
qed

text \<open>A faction with forced peace after its standing has fallen to the lowest value.\<close>

theorem reputation_flags_respected_witness:
  "\<exists>m' effs s. SetOneFactionReputation sample_rep_env (sample_faction 2 1 3000 0x11) (- 50000) False sample_rep = (True, m', effs)
     \<and> om_find (factions m') 1 = Some s \<and> has_flag (Flags s) FACTION_FLAG_PEACE_FORCED \<and> has_flag (Flags s) FACTION_FLAG_VISIBLE
     \<and> \<not> has_flag (Flags s) FACTION_FLAG_AT_WAR"
proof -
  let ?e = "sample_faction 2 1 3000 0x11" and ?r = "SetOneFactionReputation sample_rep_env (sample_faction 2 1 3000 0x11) (- 50000) False sample_rep"
  have "fst ?r" "map_option fs_ID (om_find (factions (fst (snd ?r))) 1) = Some 2" by code_simp+
  then obtain m' effs s where run: "?r = (True, m', effs)" "om_find (factions m') 1 = Some s" "fs_ID s = 2"
    by (cases ?r) auto
  have "faction_store sample_rep_env (fe_ID ?e) = Some ?e" by (simp add: sample_rep_env_def sample_faction_def)
  from rep_one [OF this run(1)] have "reachable (rep_initial sample_rep_env) (rep_step sample_rep_env) m'"
    using reach_step [OF sample_reachable] by blast
  note flags = reputation_flags_respected [OF this run(2)]
  have "default_of sample_rep_env s = 0x11"
    using run(3) by (simp add: default_of_def) code_simp
  then show ?thesis using flags run(1,2) by (auto simp: rep_flags)
qed

section \<open>No change is lost\<close>

lemma tracked_ops:
  assumes "om_wf (factions m)"
  shows "tracked_save m (SetAtWar k on m)" "tracked_save m (SetInactive k on m)"
    "tracked_save m (fst (SetVisible_entry env e m))" "tracked_save m (fst (SetVisible_template env f m))"
    "tracked_save m (ApplyForceReaction g r a m)" "tracked_save m (fst (SendInitialReputations m))"
    "tracked_save m (fst (SendStates_loop fs m))"
proof -
  have put: "tracked_save m (put_state k s' m)"
    if "om_find (factions m) k = Some s" "Standing s' = Standing s"
      "needSave s' \<or> needSave s' = needSave s \<and> Flags s' = Flags s" for k s s'
    using that by (intro tracked_put [of m k s _ s']) (auto simp: put_state_def)
  show "tracked_save m (SetAtWar k on m)"
    using put saves.R_refl needSave_kept(1) by (auto simp: SetAtWar_def split: option.split)
  show "tracked_save m (SetInactive k on m)"
    using put saves.R_refl needSave_kept(2) by (auto simp: SetInactive_def split: option.split)
  have vis: "tracked_save m (fst (SetVisible_state env k s m))" if "om_find (factions m) k = Some s" for env k s
    using that needSave_kept(3) [of s] unfolding SetVisible_form [OF assms that]
    by (intro tracked_put [of m k s _ "shown s"]) (auto simp: put_state_def)
  then show ent: "tracked_save m (fst (SetVisible_entry env e m))" for env e
    using saves.R_refl by (auto simp: SetVisible_entry_def split: option.split)
  show "tracked_save m (fst (SetVisible_template env f m))"
    using ent saves.R_refl by (auto simp: SetVisible_template_def split: option.split)
  show "tracked_save m (ApplyForceReaction g r a m)"
    using saves.R_refl [of m] by (simp add: ApplyForceReaction_def tracked_save_def)
  show "tracked_save m (fst (SendInitialReputations m))"
    by (rule tracked_mark [where f = "\<lambda>s. s\<lparr>needSend := False\<rparr>"]) (simp_all add: SendInitialReputations_def)
  show "tracked_save m (fst (SendStates_loop fs m))"
  proof (induction fs arbitrary: m)
    case (Cons f fs)
    from tracked_trans [OF saves.R_send Cons.IH] show ?case by (simp add: Let_def split_def)
  qed (simp add: saves.R_refl)
qed

lemma rep_step_tracked:
  assumes "rep_step env m ev m'" "rep_inv env m" "ev \<noteq> EvSave"
  shows "tracked_save m m'"
proof -
  have wf: "om_wf (factions m)" using assms(2) by (simp add: rep_inv_def)
  show ?thesis
    using assms(1)
  proof cases
    case (rep_set e st inc res effs)
    then show ?thesis using saves.set_reputation by blast
  next
    case (rep_one e st inc res effs)
    then show ?thesis using saves.R_one [of env "fe_ID e" e m st inc] by simp
  next
    case (rep_template f effs)
    then show ?thesis using tracked_ops(4) [OF wf, of env f] by simp
  next
    case (rep_visible e effs)
    then show ?thesis using tracked_ops(3) [OF wf, of env e] by simp
  next
    case (rep_war d)
    then show ?thesis using tracked_ops(1) [OF wf] by (auto simp: HandleSetFactionAtWar_def split: sum.splits)
  next
    case (rep_inactive d)
    then show ?thesis using tracked_ops(2) [OF wf] by (auto simp: HandleSetFactionInactiveOpcode_def split: sum.splits)
  next
    case (rep_force f r a)
    then show ?thesis using tracked_ops(5) [OF wf] by simp
  next
    case (rep_send f effs)
    then show ?thesis using saves.R_send [of m f] by simp
  next
    case (rep_initial effs)
    then show ?thesis using tracked_ops(6) [OF wf] by simp
  next
    case (rep_states effs)
    then show ?thesis
      using tracked_ops(7) [OF wf, of "map snd (factions m)"] by (simp add: HandleSetFactionCheat_def SendStates_def)
  qed (use assms(3) in simp)
qed

text \<open>
  C18: Saving only what changed loses nothing: across every operation of a reachable manager other than the save
  itself, a faction that is not marked for saving afterwards was not marked before and has the same standing and flags,
  and no faction appears or disappears.
\<close>

theorem unsaved_means_unchanged:
  assumes "reachable (rep_initial env) (rep_step env) m" "rep_step env m ev m'" "ev \<noteq> EvSave"
  shows "(om_find (factions m') k = None \<longleftrightarrow> om_find (factions m) k = None)
    \<and> (\<forall>s'. om_find (factions m') k = Some s' \<and> \<not> needSave s' \<longrightarrow>
         (\<exists>s. om_find (factions m) k = Some s \<and> \<not> needSave s \<and> Standing s' = Standing s \<and> Flags s' = Flags s))"
proof -
  have inv: "rep_inv env m" by (rule rep.reachable_invar [OF assms(1)])
  from rep_step_tracked [OF assms(2) inv assms(3)] inv show ?thesis
    by (cases "om_find (factions m') k") (auto simp: tracked_save_def rep_inv_def dest!: spec [of _ k])
qed

theorem unsaved_means_unchanged_witness:
  "\<exists>m' effs. SetOneFactionReputation sample_rep_env (sample_faction 1 0 0 0) 42500 False sample_rep = (True, m', effs)
     \<and> (\<exists>s'. om_find (factions m') 1 = Some s' \<and> \<not> needSave s' \<and> Standing s' = 18500)"
proof -
  obtain m' effs where run: "SetOneFactionReputation sample_rep_env (sample_faction 1 0 0 0) 42500 False sample_rep = (True, m', effs)"
    "om_find (factions m') 1 = Some \<lparr>fs_ID = 2, ReputationListID = 1, Standing = 18500, Flags = 0x11, needSend = False, needSave = False\<rparr>"
  proof -
    let ?r = "SetOneFactionReputation sample_rep_env (sample_faction 1 0 0 0) 42500 False sample_rep"
    have "fst ?r" "om_find (factions (fst (snd ?r))) 1
        = Some \<lparr>fs_ID = 2, ReputationListID = 1, Standing = 18500, Flags = 0x11, needSend = False, needSave = False\<rparr>"
      by code_simp+
    then show thesis using that by (cases ?r) auto
  qed
  have "faction_store sample_rep_env (fe_ID (sample_faction 1 0 0 0)) = Some (sample_faction 1 0 0 0)"
    by (simp add: sample_rep_env_def sample_faction_def)
  from rep_one [OF this run(1)]
  have "rep_step sample_rep_env sample_rep (EvSetOne (sample_faction 1 0 0 0) 42500 False) m'" .
  from unsaved_means_unchanged [OF sample_reachable this, of 1] run show ?thesis by (auto simp: sample_rep_factions om_find_def)
qed

section \<open>A change of reputation\<close>

lemma loaded_templates:
  assumes "om_find (LoadReputationSpilloverTemplate store rows) k = Some t" "i < MAX_SPILLOVER_FACTIONS" "sp_faction t i \<noteq> 0"
  shows "store (sp_faction t i) \<noteq> None"
proof -
  have all: "om_find (fold (load_spillover_row store) rows m) k = Some t \<Longrightarrow>
      (\<And>k t. om_find m k = Some t \<Longrightarrow> \<forall>i < MAX_SPILLOVER_FACTIONS. sp_faction t i \<noteq> 0 \<longrightarrow> store (sp_faction t i) \<noteq> None) \<Longrightarrow>
      \<forall>i < MAX_SPILLOVER_FACTIONS. sp_faction t i \<noteq> 0 \<longrightarrow> store (sp_faction t i) \<noteq> None" for m
  proof (induction rows arbitrary: m)
    case (Cons row rows)
    obtain fid t' where row: "row = (fid, t')" by (cases row)
    have "\<forall>i < MAX_SPILLOVER_FACTIONS. sp_faction t i \<noteq> 0 \<longrightarrow> store (sp_faction t i) \<noteq> None"
      if "om_find (load_spillover_row store row m) k = Some t" for k t
      using that Cons.prems(2) by (auto simp: row load_spillover_row_def Let_def store_simps split: option.splits if_splits)
    then show ?case using Cons.IH [of "load_spillover_row store row m"] Cons.prems(1) by simp
  qed simp
  show ?thesis using all [of "[]"] assms unfolding LoadReputationSpilloverTemplate_def by simp
qed

lemma spill_template_total:
  assumes "\<forall>i \<in> set is. sp_faction t i \<noteq> 0 \<longrightarrow> faction_store env (sp_faction t i) \<noteq> None"
  shows "spill_template env t st inc is m \<noteq> None"
  using assms
proof (induction "is" arbitrary: m)
  case (Cons i "is")
  have IH: "\<exists>a b. spill_template env t st inc is m = Some (a, b)" for m using Cons by simp
  show ?case
  proof (cases "faction_store env (sp_faction t i)")
    case None
    then show ?thesis using Cons.prems IH [of m] by auto
  next
    case (Some e)
    then show ?thesis
      using IH [of m] IH [of "fst (snd (SetOneFactionReputation env e (f_to_int env (f_mul env (f_of_int env st) (sp_rate t i))) inc m))"]
      by (auto simp: Let_def split_def)
  qed
qed simp

text \<open>The part of \<^verbatim>\<open>SetReputation\<close> before the change itself: what spills over to other factions.\<close>

definition spilled :: "rep_env \<Rightarrow> faction_entry \<Rightarrow> int \<Rightarrow> bool \<Rightarrow> rep_mgr \<Rightarrow> (bool \<times> rep_mgr \<times> rep_effect list) option" where
  "spilled env e st inc m = (case om_find (spillover_templates env) (fe_ID e) of
      Some t \<Rightarrow> (case spill_template env t st inc [0..<MAX_SPILLOVER_FACTIONS] m of
                   None \<Rightarrow> None | Some (m1, e1) \<Rightarrow> Some (False, m1, e1))
    | None \<Rightarrow> Some (spill_default env e st inc m))"

lemma spilled_result:
  assumes "rep_inv env m" "spillover_templates env = LoadReputationSpilloverTemplate (faction_store env) rows"
  shows "\<exists>res m1 e1. spilled env e st inc m = Some (res, m1, e1) \<and> rep_inv env m1 \<and> tracked_save m m1"
proof (cases "om_find (spillover_templates env) (fe_ID e)")
  case None
  then show ?thesis
    using keeps.spill_default [of env m e st inc] saves.spill_default [of m env e st inc] assms(1)
    by (cases "spill_default env e st inc m") (simp add: spilled_def keeps_inv_def)
next
  case (Some t)
  have "spill_template env t st inc [0..<MAX_SPILLOVER_FACTIONS] m \<noteq> None"
    using Some loaded_templates unfolding assms(2) by (intro spill_template_total) auto
  then obtain m1 e1 where "spill_template env t st inc [0..<MAX_SPILLOVER_FACTIONS] m = Some (m1, e1)" by auto
  moreover from this have "keeps_inv env m m1" "tracked_save m m1" using keeps.spill_template saves.spill_template by blast+
  ultimately show ?thesis using Some assms(1) by (auto simp: spilled_def keeps_inv_def)
qed

text \<open>
  C14: With spillover templates as the loader accepts them, a change of reputation with a listed faction always
  completes (no template names a missing faction), the player's reputation with that faction ends between -42000 and
  42999, a change to an absolute value ends exactly at the clamped value the scripts let through, and a result of
  hostile or worse means war unless peace is forced.
\<close>

theorem SetReputation_result:
  assumes "reachable (rep_initial env) (rep_step env) m" "faction_store env (fe_ID e) = Some e"
    and "om_find (factions m) (rep_key e) \<noteq> None"
    and "spillover_templates env = LoadReputationSpilloverTemplate (faction_store env) rows"
  shows "\<exists>m' effs. SetReputation env e st inc m = Some (True, m', effs)
    \<and> Reputation_Bottom \<le> GetReputation env m' (fe_ID e) \<and> GetReputation env m' (fe_ID e) \<le> Reputation_Cap
    \<and> (\<not> inc \<longrightarrow> GetReputation env m' (fe_ID e) = clamp_standing (script_hook env (fe_ID e) st inc))
    \<and> (ReputationToRank (GetReputation env m' (fe_ID e)) \<le> REP_HOSTILE \<longrightarrow>
         IsAtWar env m' (fe_ID e) \<or> has_flag (Flags (state_at m' (rep_key e))) FACTION_FLAG_PEACE_FORCED)"
proof -
  let ?st = "script_hook env (fe_ID e) st inc" and ?k = "rep_key e"
  have inv: "rep_inv env m" by (rule rep.reachable_invar [OF assms(1)])
  obtain res m1 e1 where sp: "spilled env e ?st inc m = Some (res, m1, e1)" and inv1: "rep_inv env m1" and tr: "tracked_save m m1"
    using spilled_result [OF inv assms(4)] by blast
  have "om_find (factions m1) ?k \<noteq> None"
    using tr inv assms(3) by (auto simp: tracked_save_def rep_inv_def dest!: spec [of _ ?k] split: option.splits)
  then obtain s where s: "om_find (factions m1) ?k = Some s" by auto
  have wf: "om_wf (factions m1)" using inv1 by (simp add: rep_inv_def)
  have id: "0 \<le> reputationListID e" using found_entry [OF inv1 assms(2) s] by simp
  let ?s' = "changed env e ?st inc s" and ?base = "GetBaseReputation env (Some e)"
  let ?n = "new_standing env ?base s ?st inc"
  obtain m2 e2 where m2: "SetOneFactionReputation env e ?st inc m1 = (True, m2, e2)" "factions m2 = om_set ?k ?s' (factions m1)"
    using SetOne_form [OF wf s, of env ?st inc] by blast
  let ?m3 = "fst (SendState ?s' m2)"
  have at: "om_find (factions ?m3) ?k = Some (?s'\<lparr>needSend := False\<rparr>)"
    by (simp add: SendState_def Let_def om_find_map m2(2) store_simps)
  have "\<exists>effs. SetReputation env e st inc m = Some (True, ?m3, effs)"
    unfolding SetReputation_def Let_def spilled_def [symmetric] sp
    by (simp add: s m2(1)) (simp add: m2(2) store_simps split_def)
  moreover have rep: "GetReputation env ?m3 (fe_ID e) = ?n"
    using assms(2) at id by (simp add: GetReputation_def GetReputation_entry_def GetState_def new_standing_def)
  moreover have "ReputationToRank ?n \<le> REP_HOSTILE \<longrightarrow>
      IsAtWar env ?m3 (fe_ID e) \<or> has_flag (Flags (state_at ?m3 ?k)) FACTION_FLAG_PEACE_FORCED"
    using assms(2) at id changed_war [of env e s ?st inc] by (auto simp: IsAtWar_def IsAtWar_entry_def GetState_def state_at_def rep_flags)
  moreover have "Reputation_Bottom \<le> ?n \<and> ?n \<le> Reputation_Cap" by (simp add: new_standing_def clamp_range)
  moreover have "\<not> inc \<longrightarrow> ?n = clamp_standing ?st" by (simp add: new_standing_def)
  ultimately show ?thesis by auto
qed

theorem SetReputation_result_witness:
  "\<exists>m' effs. SetReputation sample_rep_env (sample_faction 1 0 0 0) (- 50000) False sample_rep = Some (True, m', effs)
     \<and> GetReputation sample_rep_env m' 1 = - 42000 \<and> IsAtWar sample_rep_env m' 1"
proof -
  let ?e = "sample_faction 1 0 0 0"
  have "faction_store sample_rep_env (fe_ID ?e) = Some ?e" by (simp add: sample_rep_env_def sample_faction_def)
  moreover have "om_find (factions sample_rep) (rep_key ?e) \<noteq> None"
    by (simp add: sample_rep_factions om_find_def rep_key_def sample_faction_def)
  moreover have "spillover_templates sample_rep_env = LoadReputationSpilloverTemplate (faction_store sample_rep_env) []"
    by (simp add: sample_rep_env_def LoadReputationSpilloverTemplate_def)
  moreover have "script_hook sample_rep_env 1 (- 50000) False = - 50000" by (simp add: sample_rep_env_def)
  moreover have "map_option (\<lambda>r. has_flag (Flags (state_at (fst (snd r)) (rep_key ?e))) FACTION_FLAG_PEACE_FORCED)
      (SetReputation sample_rep_env ?e (- 50000) False sample_rep) = Some False" by code_simp
  moreover have "fe_ID ?e = 1" "clamp_standing (- 50000) = - 42000" "ReputationToRank (- 42000) \<le> REP_HOSTILE" by code_simp+
  ultimately show ?thesis
    using SetReputation_result [OF sample_reachable, of ?e "[]" "- 50000" False] by auto
qed

end
