(* ===== verification/Calendar.thy ===== *)
theory Calendar
  imports ByteBufferCodec Util
begin

text \<open>
  The in-game calendar (src/src/server/game/Calendar/CalendarMgr.cpp and CalendarMgr.h): events, invites, the two
  pools of identifiers, queries, packets, mails and database writes.

  \<open>_events\<close> is a set of pointers, ordered by address: here a map from addresses to events, and the address of a
  new event is an argument. Times are integers (\<open>time_t\<close>), enumerations and \<open>int32\<close> values are 32-bit words.
  Destructors give identifiers back (\<open>FreeEventId\<close>, \<open>FreeInviteId\<close>). An iterator that points to an erased
  element is the result \<open>None\<close> of the loops that erase while they iterate.
\<close>

section \<open>Data\<close>

definition CALENDAR_FLAG_INVITES_LOCKED :: u32 where "CALENDAR_FLAG_INVITES_LOCKED = 0x010"
definition CALENDAR_FLAG_WITHOUT_INVITES :: u32 where "CALENDAR_FLAG_WITHOUT_INVITES = 0x040"
definition CALENDAR_FLAG_GUILD_EVENT :: u32 where "CALENDAR_FLAG_GUILD_EVENT = 0x400"

definition CALENDAR_RANK_PLAYER :: u32 where "CALENDAR_RANK_PLAYER = 0"

definition CALENDAR_SENDTYPE_GET :: u8 where "CALENDAR_SENDTYPE_GET = 0"
definition CALENDAR_SENDTYPE_ADD :: u8 where "CALENDAR_SENDTYPE_ADD = 1"
definition CALENDAR_SENDTYPE_COPY :: u8 where "CALENDAR_SENDTYPE_COPY = 2"

definition CALENDAR_STATUS_INVITED :: u32 where "CALENDAR_STATUS_INVITED = 0"
definition CALENDAR_STATUS_SIGNED_UP :: u32 where "CALENDAR_STATUS_SIGNED_UP = 6"
definition CALENDAR_STATUS_NOT_SIGNED_UP :: u32 where "CALENDAR_STATUS_NOT_SIGNED_UP = 7"
definition CALENDAR_STATUS_TENTATIVE :: u32 where "CALENDAR_STATUS_TENTATIVE = 8"
definition CALENDAR_STATUS_REMOVED :: u32 where "CALENDAR_STATUS_REMOVED = 9"

definition CALENDAR_MAX_INVITES :: u32 where "CALENDAR_MAX_INVITES = 100"

definition CALENDAR_ERROR_OTHER_INVITES_EXCEEDED :: u32 where "CALENDAR_ERROR_OTHER_INVITES_EXCEEDED = 4"
definition CALENDAR_ERROR_EVENT_INVALID :: u32 where "CALENDAR_ERROR_EVENT_INVALID = 6"
definition CALENDAR_ERROR_GUILD_PLAYER_NOT_IN_GUILD :: u32 where "CALENDAR_ERROR_GUILD_PLAYER_NOT_IN_GUILD = 9"
definition CALENDAR_ERROR_ALREADY_INVITED_TO_EVENT_S :: u32 where "CALENDAR_ERROR_ALREADY_INVITED_TO_EVENT_S = 10"
definition CALENDAR_ERROR_PLAYER_NOT_FOUND :: u32 where "CALENDAR_ERROR_PLAYER_NOT_FOUND = 11"
definition CALENDAR_ERROR_NOT_ALLIED :: u32 where "CALENDAR_ERROR_NOT_ALLIED = 12"
definition CALENDAR_ERROR_IGNORING_YOU_S :: u32 where "CALENDAR_ERROR_IGNORING_YOU_S = 13"
definition CALENDAR_ERROR_INVITES_EXCEEDED :: u32 where "CALENDAR_ERROR_INVITES_EXCEEDED = 14"
definition CALENDAR_ERROR_EVENT_LOCKED :: u32 where "CALENDAR_ERROR_EVENT_LOCKED = 21"
definition CALENDAR_ERROR_DELETE_CREATOR_FAILED :: u32 where "CALENDAR_ERROR_DELETE_CREATOR_FAILED = 22"
definition CALENDAR_ERROR_NO_INVITE :: u32 where "CALENDAR_ERROR_NO_INVITE = 29"
definition CALENDAR_ERROR_NO_GUILD_INVITES :: u32 where "CALENDAR_ERROR_NO_GUILD_INVITES = 38"

record cal_invite =
  inviteId :: u64
  inv_eventId :: u64
  invitee :: guid
  inv_senderGUID :: guid
  statusTime :: int
  inv_status :: u32
  inv_rank :: u32
  inv_text :: string

record cal_event =
  eventId :: u64
  creatorGUID :: guid
  ev_guildId :: u32
  ev_type :: u32
  dungeonId :: u32
  eventTime :: int
  ev_flags :: u32
  timezoneTime :: int
  ev_title :: string
  ev_description :: string

definition IsGuildEvent :: "cal_event \<Rightarrow> bool" where
  "IsGuildEvent ev = has_flag (ev_flags ev) CALENDAR_FLAG_GUILD_EVENT"

definition IsGuildAnnouncement :: "cal_event \<Rightarrow> bool" where
  "IsGuildAnnouncement ev = has_flag (ev_flags ev) CALENDAR_FLAG_WITHOUT_INVITES"

record cal_mgr =
  cal_events :: "(u64, cal_event) omap"
  cal_invites :: "(u64, cal_invite list) omap"
  freeEventIds :: "u64 list"
  freeInviteIds :: "u64 list"
  maxEventId :: u64
  maxInviteId :: u64

text \<open>
  The players in the world with level and guild, the level and guild of a character in the database, the GUID of
  an existing guild, the local time in both directions, the time now, a player in the world by name (GUID, team,
  guild) and a stored character by name (number, race), the team of a race, the flags of a stored social relation
  and the configuration value that allows both sides to share a calendar.
\<close>

record cal_env =
  cal_player :: "guid \<Rightarrow> (u8 \<times> u32) option"
  level_from_db :: "guid \<Rightarrow> u8"
  guild_from_db :: "guid \<Rightarrow> u32"
  guild_guid :: "u32 \<Rightarrow> u64 option"
  cal_localtime :: "int \<Rightarrow> tm"
  cal_mktime :: "tm \<Rightarrow> int"
  cal_now :: int
  player_by_name :: "string \<Rightarrow> (guid \<times> u32 \<times> u32) option"
  char_by_name :: "string \<Rightarrow> (u32 \<times> u8) option"
  team_for_race :: "u8 \<Rightarrow> u32"
  social_flags :: "guid \<Rightarrow> guid \<Rightarrow> u8 option"
  two_side_calendar :: bool

datatype cal_opcode = SMSG_CALENDAR_EVENT_INVITE | SMSG_CALENDAR_EVENT_UPDATED_ALERT | SMSG_CALENDAR_EVENT_STATUS
  | SMSG_CALENDAR_EVENT_REMOVED_ALERT | SMSG_CALENDAR_EVENT_INVITE_REMOVED | SMSG_CALENDAR_EVENT_MODERATOR_STATUS_ALERT
  | SMSG_CALENDAR_EVENT_INVITE_ALERT | SMSG_CALENDAR_SEND_EVENT | SMSG_CALENDAR_EVENT_INVITE_REMOVED_ALERT
  | SMSG_CALENDAR_CLEAR_PENDING_ACTION | SMSG_CALENDAR_COMMAND_RESULT | SMSG_CALENDAR_SEND_NUM_PENDING
  | SMSG_CALENDAR_SEND_CALENDAR | SMSG_CALENDAR_FILTER_GUILD | SMSG_CALENDAR_ARENA_TEAM
  | SMSG_CALENDAR_RAID_LOCKOUT_ADDED | SMSG_CALENDAR_RAID_LOCKOUT_REMOVED | SMSG_CALENDAR_RAID_LOCKOUT_UPDATED

datatype cal_packet = CalPacket cal_opcode "field list"

text \<open>Packets to a player or a guild, a mail (receiver, subject, body), and database statements.\<close>

datatype cal_effect =
    CalSend guid cal_packet
  | CalBroadcast u32 cal_packet
  | CalMail guid string string
  | DbReplaceEvent u64 u32 string string u8 u32 u32 u32 u32
  | DbReplaceInvite u64 u64 u32 u32 u8 u32 u8 string
  | DbDelInvite u64
  | DbDelEvent u64

type_synonym cal_op = "cal_mgr \<Rightarrow> cal_mgr \<times> cal_effect list"

definition cal_skip :: cal_op where "cal_skip m = (m, [])"

definition cal_emit :: "cal_effect list \<Rightarrow> cal_op" where "cal_emit es m = (m, es)"

definition cal_seq :: "cal_op \<Rightarrow> cal_op \<Rightarrow> cal_op" where
  "cal_seq f g m = (let (m1, e1) = f m; (m2, e2) = g m1 in (m2, e1 @ e2))"

definition packed_time :: "cal_env \<Rightarrow> int \<Rightarrow> field" where
  "packed_time env t = F32 (pack_tm (cal_localtime env t))"

section \<open>Identifiers\<close>

definition FreeEventId :: "u64 \<Rightarrow> cal_mgr \<Rightarrow> cal_mgr" where
  "FreeEventId i m =
     (if i = maxEventId m then m\<lparr>maxEventId := maxEventId m - 1\<rparr>
      else m\<lparr>freeEventIds := freeEventIds m @ [i]\<rparr>)"

definition GetFreeEventId :: "cal_mgr \<Rightarrow> u64 \<times> cal_mgr" where
  "GetFreeEventId m =
     (case freeEventIds m of
        [] \<Rightarrow> (maxEventId m + 1, m\<lparr>maxEventId := maxEventId m + 1\<rparr>)
      | i # is \<Rightarrow> (i, m\<lparr>freeEventIds := is\<rparr>))"

definition FreeInviteId :: "u64 \<Rightarrow> cal_mgr \<Rightarrow> cal_mgr" where
  "FreeInviteId i m =
     (if i = maxInviteId m then m\<lparr>maxInviteId := maxInviteId m - 1\<rparr>
      else m\<lparr>freeInviteIds := freeInviteIds m @ [i]\<rparr>)"

definition GetFreeInviteId :: "cal_mgr \<Rightarrow> u64 \<times> cal_mgr" where
  "GetFreeInviteId m =
     (case freeInviteIds m of
        [] \<Rightarrow> (maxInviteId m + 1, m\<lparr>maxInviteId := maxInviteId m + 1\<rparr>)
      | i # is \<Rightarrow> (i, m\<lparr>freeInviteIds := is\<rparr>))"

section \<open>Queries\<close>

text \<open>\<open>GetEvent\<close> with the address of the event it finds.\<close>

definition find_event :: "u64 \<Rightarrow> cal_mgr \<Rightarrow> (u64 \<times> cal_event) option" where
  "find_event i m = find (\<lambda>(a, ev). eventId ev = i) (cal_events m)"

definition GetEvent :: "u64 \<Rightarrow> cal_mgr \<Rightarrow> cal_event option" where
  "GetEvent i m = map_option snd (find_event i m)"

definition all_invites :: "cal_mgr \<Rightarrow> cal_invite list" where
  "all_invites m = concat (map snd (cal_invites m))"

definition GetInvite :: "u64 \<Rightarrow> cal_mgr \<Rightarrow> cal_invite option" where
  "GetInvite i m = find (\<lambda>iv. inviteId iv = i) (all_invites m)"

definition GetPlayerInvites :: "guid \<Rightarrow> cal_mgr \<Rightarrow> cal_invite list" where
  "GetPlayerInvites g m = filter (\<lambda>iv. invitee iv = g) (all_invites m)"

text \<open>\<open>_invites[eventId]\<close>: the operator creates an empty list for a missing key.\<close>

definition invites_of :: "u64 \<Rightarrow> cal_mgr \<Rightarrow> cal_invite list" where
  "invites_of i m = (case om_find (cal_invites m) i of None \<Rightarrow> [] | Some invs \<Rightarrow> invs)"

definition put_invites :: "u64 \<Rightarrow> cal_invite list \<Rightarrow> cal_mgr \<Rightarrow> cal_mgr" where
  "put_invites i invs m = m\<lparr>cal_invites := om_set i invs (cal_invites m)\<rparr>"

definition touch_invites :: "u64 \<Rightarrow> cal_mgr \<Rightarrow> cal_mgr" where
  "touch_invites i m = put_invites i (invites_of i m) m"

definition GetEventInvites :: "u64 \<Rightarrow> cal_mgr \<Rightarrow> cal_invite list \<times> cal_mgr" where
  "GetEventInvites i m = (invites_of i m, touch_invites i m)"

text \<open>The addresses of a player's events, as the set \<^verbatim>\<open>GetPlayerEvents\<close> returns.\<close>

definition GetPlayerEvents :: "cal_env \<Rightarrow> guid \<Rightarrow> cal_mgr \<Rightarrow> (u64, cal_event) omap" where
  "GetPlayerEvents env g m =
     (let invited = concat (map (\<lambda>(i, invs).
            concat (map (\<lambda>iv. if invitee iv = g then (case find_event i m of None \<Rightarrow> [] | Some ae \<Rightarrow> [ae]) else []) invs))
            (cal_invites m));
          guilded = (case cal_player env g of
              None \<Rightarrow> []
            | Some (level, guild) \<Rightarrow> filter (\<lambda>(a, ev). ev_guildId ev = guild) (cal_events m))
      in fold (\<lambda>(a, ev). om_set a ev) (invited @ guilded) [])"

definition GetPlayerNumPending :: "guid \<Rightarrow> cal_mgr \<Rightarrow> u32" where
  "GetPlayerNumPending g m =
     of_nat (length (filter (\<lambda>iv. inv_status iv \<in> {CALENDAR_STATUS_INVITED, CALENDAR_STATUS_TENTATIVE, CALENDAR_STATUS_NOT_SIGNED_UP})
       (GetPlayerInvites g m)))"

section \<open>Packets and mails\<close>

definition BuildCalendarMailSubject :: "guid \<Rightarrow> cal_event \<Rightarrow> string" where
  "BuildCalendarMailSubject remover ev = print_nat (unat remover) @ '':'' @ ev_title ev"

definition BuildCalendarMailBody :: "cal_env \<Rightarrow> cal_event \<Rightarrow> string" where
  "BuildCalendarMailBody env ev = print_nat (unat (pack_tm (cal_localtime env (eventTime ev))))"

definition to_player :: "cal_env \<Rightarrow> guid \<Rightarrow> cal_packet \<Rightarrow> cal_effect list" where
  "to_player env g d = (case cal_player env g of None \<Rightarrow> [] | Some _ \<Rightarrow> [CalSend g d])"

definition to_guild :: "cal_env \<Rightarrow> u32 \<Rightarrow> cal_packet \<Rightarrow> cal_effect list" where
  "to_guild env gid d = (case guild_guid env gid of None \<Rightarrow> [] | Some _ \<Rightarrow> [CalBroadcast gid d])"

definition SendPacketToAllEventRelatives :: "cal_env \<Rightarrow> cal_packet \<Rightarrow> cal_event \<Rightarrow> cal_op" where
  "SendPacketToAllEventRelatives env d ev m =
     (touch_invites (eventId ev) m,
      (if IsGuildEvent ev \<or> IsGuildAnnouncement ev then to_guild env (ev_guildId ev) d else [])
      @ concat (map (\<lambda>iv. case cal_player env (invitee iv) of
                       None \<Rightarrow> []
                     | Some (level, guild) \<Rightarrow>
                         if \<not> IsGuildEvent ev \<or> IsGuildEvent ev \<and> guild \<noteq> ev_guildId ev then [CalSend (invitee iv) d] else [])
                  (invites_of (eventId ev) m)))"

definition SendCalendarEventInvite :: "cal_env \<Rightarrow> cal_invite \<Rightarrow> cal_op" where
  "SendCalendarEventInvite env iv m =
     (let hasStatusTime = (statusTime iv \<noteq> 946684800);
          level = (case cal_player env (invitee iv) of Some (l, _) \<Rightarrow> l | None \<Rightarrow> level_from_db env (invitee iv));
          d = CalPacket SMSG_CALENDAR_EVENT_INVITE
                ([FGuid (invitee iv), F64 (inv_eventId iv), F64 (inviteId iv), F8 level, F8 (ucast (inv_status iv)),
                  F8 (of_bool hasStatusTime)]
                 @ (if hasStatusTime then [packed_time env (statusTime iv)] else [])
                 @ [F8 (of_bool (inv_senderGUID iv \<noteq> invitee iv))])
      in case GetEvent (inv_eventId iv) m of
           None \<Rightarrow> (m, to_player env (inv_senderGUID iv) d)
         | Some ev \<Rightarrow>
             if creatorGUID ev \<noteq> invitee iv then SendPacketToAllEventRelatives env d ev m else (m, []))"

definition SendCalendarEventUpdateAlert :: "cal_env \<Rightarrow> cal_event \<Rightarrow> int \<Rightarrow> cal_op" where
  "SendCalendarEventUpdateAlert env ev oldEventTime =
     SendPacketToAllEventRelatives env
       (CalPacket SMSG_CALENDAR_EVENT_UPDATED_ALERT
          [F8 1, F64 (eventId ev), packed_time env oldEventTime, F32 (ev_flags ev), packed_time env (eventTime ev),
           F8 (ucast (ev_type ev)), F32 (dungeonId ev), FStr (ev_title ev), FStr (ev_description ev), F8 0,
           F32 CALENDAR_MAX_INVITES, F32 0]) ev"

definition SendCalendarEventStatus :: "cal_env \<Rightarrow> cal_event \<Rightarrow> cal_invite \<Rightarrow> cal_op" where
  "SendCalendarEventStatus env ev iv =
     SendPacketToAllEventRelatives env
       (CalPacket SMSG_CALENDAR_EVENT_STATUS
          [FGuid (invitee iv), F64 (eventId ev), packed_time env (eventTime ev), F32 (ev_flags ev),
           F8 (ucast (inv_status iv)), F8 (ucast (inv_rank iv)), packed_time env (statusTime iv)]) ev"

definition SendCalendarEventRemovedAlert :: "cal_env \<Rightarrow> cal_event \<Rightarrow> cal_op" where
  "SendCalendarEventRemovedAlert env ev =
     SendPacketToAllEventRelatives env
       (CalPacket SMSG_CALENDAR_EVENT_REMOVED_ALERT [F8 1, F64 (eventId ev), packed_time env (eventTime ev)]) ev"

definition SendCalendarEventInviteRemove :: "cal_env \<Rightarrow> cal_event \<Rightarrow> cal_invite \<Rightarrow> u32 \<Rightarrow> cal_op" where
  "SendCalendarEventInviteRemove env ev iv flags =
     SendPacketToAllEventRelatives env
       (CalPacket SMSG_CALENDAR_EVENT_INVITE_REMOVED [FGuid (invitee iv), F64 (inv_eventId iv), F32 flags, F8 1]) ev"

definition SendCalendarEventModeratorStatusAlert :: "cal_env \<Rightarrow> cal_event \<Rightarrow> cal_invite \<Rightarrow> cal_op" where
  "SendCalendarEventModeratorStatusAlert env ev iv =
     SendPacketToAllEventRelatives env
       (CalPacket SMSG_CALENDAR_EVENT_MODERATOR_STATUS_ALERT
          [FGuid (invitee iv), F64 (inv_eventId iv), F8 (ucast (inv_rank iv)), F8 1]) ev"

definition guild_field :: "cal_env \<Rightarrow> cal_event \<Rightarrow> field" where
  "guild_field env ev = F64 (case guild_guid env (ev_guildId ev) of None \<Rightarrow> 0 | Some g \<Rightarrow> g)"

definition SendCalendarEventInviteAlert :: "cal_env \<Rightarrow> cal_event \<Rightarrow> cal_invite \<Rightarrow> cal_effect list" where
  "SendCalendarEventInviteAlert env ev iv =
     (let d = CalPacket SMSG_CALENDAR_EVENT_INVITE_ALERT
            [F64 (eventId ev), FStr (ev_title ev), packed_time env (eventTime ev), F32 (ev_flags ev), F32 (ev_type ev),
             F32 (dungeonId ev), F64 (inviteId iv), guild_field env ev, F8 (ucast (inv_status iv)),
             F8 (ucast (inv_rank iv)), FGuid (creatorGUID ev), FGuid (inv_senderGUID iv)]
      in if IsGuildEvent ev \<or> IsGuildAnnouncement ev then to_guild env (ev_guildId ev) d
         else to_player env (invitee iv) d)"

definition invite_fields :: "cal_env \<Rightarrow> cal_event \<Rightarrow> cal_invite \<Rightarrow> field list" where
  "invite_fields env ev iv =
     (let (level, guild) = (case cal_player env (invitee iv) of
            Some lg \<Rightarrow> lg
          | None \<Rightarrow> (level_from_db env (invitee iv), guild_from_db env (invitee iv)))
      in [FGuid (invitee iv), F8 level, F8 (ucast (inv_status iv)), F8 (ucast (inv_rank iv)),
          F8 (of_bool (IsGuildEvent ev \<and> ev_guildId ev = guild)), F64 (inviteId iv), packed_time env (statusTime iv),
          FStr (inv_text iv)])"

definition SendCalendarEvent :: "cal_env \<Rightarrow> guid \<Rightarrow> cal_event \<Rightarrow> u8 \<Rightarrow> cal_op" where
  "SendCalendarEvent env g ev sendType m =
     (case cal_player env g of
        None \<Rightarrow> (m, [])
      | Some _ \<Rightarrow>
          let invs = invites_of (eventId ev) m
          in (touch_invites (eventId ev) m,
              [CalSend g (CalPacket SMSG_CALENDAR_SEND_EVENT
                 ([F8 sendType, FGuid (creatorGUID ev), F64 (eventId ev), FStr (ev_title ev), FStr (ev_description ev),
                   F8 (ucast (ev_type ev)), F8 0, F32 CALENDAR_MAX_INVITES, F32 (dungeonId ev), F32 (ev_flags ev),
                   packed_time env (eventTime ev), packed_time env (timezoneTime ev), guild_field env ev,
                   F32 (of_nat (length invs))]
                  @ concat (map (invite_fields env ev) invs)))]))"

definition SendCalendarEventInviteRemoveAlert :: "cal_env \<Rightarrow> guid \<Rightarrow> cal_event \<Rightarrow> u32 \<Rightarrow> cal_effect list" where
  "SendCalendarEventInviteRemoveAlert env g ev status =
     to_player env g (CalPacket SMSG_CALENDAR_EVENT_INVITE_REMOVED_ALERT
       [F64 (eventId ev), packed_time env (eventTime ev), F32 (ev_flags ev), F8 (ucast status)])"

definition SendCalendarClearPendingAction :: "cal_env \<Rightarrow> guid \<Rightarrow> cal_effect list" where
  "SendCalendarClearPendingAction env g = to_player env g (CalPacket SMSG_CALENDAR_CLEAR_PENDING_ACTION [])"

definition SendCalendarCommandResult :: "cal_env \<Rightarrow> guid \<Rightarrow> u32 \<Rightarrow> string \<Rightarrow> cal_effect list" where
  "SendCalendarCommandResult env g err param =
     to_player env g (CalPacket SMSG_CALENDAR_COMMAND_RESULT
       ([F32 0, F8 0]
        @ (if err \<in> {CALENDAR_ERROR_OTHER_INVITES_EXCEEDED, CALENDAR_ERROR_ALREADY_INVITED_TO_EVENT_S, CALENDAR_ERROR_IGNORING_YOU_S}
           then [FStr param] else [F8 0])
        @ [F32 err]))"

section \<open>Changes\<close>

definition UpdateEvent :: "cal_event \<Rightarrow> cal_effect list" where
  "UpdateEvent ev =
     [DbReplaceEvent (eventId ev) (GUID_LOPART (creatorGUID ev)) (ev_title ev) (ev_description ev) (ucast (ev_type ev))
        (dungeonId ev) (word_of_int (eventTime ev)) (ev_flags ev) (word_of_int (timezoneTime ev))]"

definition UpdateInvite :: "cal_invite \<Rightarrow> cal_effect list" where
  "UpdateInvite iv =
     [DbReplaceInvite (inviteId iv) (inv_eventId iv) (GUID_LOPART (invitee iv)) (GUID_LOPART (inv_senderGUID iv))
        (ucast (inv_status iv)) (word_of_int (statusTime iv)) (ucast (inv_rank iv)) (inv_text iv)]"

text \<open>\<open>a\<close> is the address of the new event.\<close>

definition AddEvent :: "cal_env \<Rightarrow> u64 \<Rightarrow> cal_event \<Rightarrow> u8 \<Rightarrow> cal_op" where
  "AddEvent env a ev sendType m =
     cal_seq (cal_emit (UpdateEvent ev)) (SendCalendarEvent env (creatorGUID ev) ev sendType)
       (m\<lparr>cal_events := om_set a ev (cal_events m)\<rparr>)"

definition AddInvite :: "cal_env \<Rightarrow> cal_event \<Rightarrow> cal_invite \<Rightarrow> cal_op" where
  "AddInvite env ev iv =
     cal_seq (if \<not> IsGuildAnnouncement ev then SendCalendarEventInvite env iv else cal_skip)
       (cal_seq (if \<not> IsGuildEvent ev \<or> invitee iv = creatorGUID ev
                 then cal_emit (SendCalendarEventInviteAlert env ev iv) else cal_skip)
         (if \<not> IsGuildAnnouncement ev
          then (\<lambda>m. (put_invites (inv_eventId iv) (invites_of (inv_eventId iv) m @ [iv]) m, UpdateInvite iv))
          else cal_skip))"

definition RemoveEvent :: "cal_env \<Rightarrow> u64 \<Rightarrow> guid \<Rightarrow> cal_op" where
  "RemoveEvent env i remover m =
     (case find_event i m of
        None \<Rightarrow> (m, SendCalendarCommandResult env remover CALENDAR_ERROR_EVENT_INVALID [])
      | Some (a, ev) \<Rightarrow>
          let (m1, alert) = SendCalendarEventRemovedAlert env ev m;
              invs = invites_of i m1;
              m2 = fold (\<lambda>iv. FreeInviteId (inviteId iv)) invs m1;
              m3 = FreeEventId (eventId ev) (m2\<lparr>cal_invites := om_erase i (cal_invites m2)\<rparr>)
          in (m3\<lparr>cal_events := om_erase a (cal_events m3)\<rparr>,
              alert
              @ concat (map (\<lambda>iv. DbDelInvite (inviteId iv)
                  # (if remover \<noteq> 0 \<and> invitee iv \<noteq> remover
                     then [CalMail (invitee iv) (BuildCalendarMailSubject remover ev) (BuildCalendarMailBody env ev)] else [])) invs)
              @ [DbDelEvent i]))"

text \<open>The vector without its first element of that number.\<close>

fun drop_invite :: "u64 \<Rightarrow> cal_invite list \<Rightarrow> cal_invite list" where
  "drop_invite i [] = []"
| "drop_invite i (iv # invs) = (if inviteId iv = i then invs else iv # drop_invite i invs)"

definition RemoveInvite :: "cal_env \<Rightarrow> u64 \<Rightarrow> u64 \<Rightarrow> cal_op" where
  "RemoveInvite env i ei m =
     (case GetEvent ei m of
        None \<Rightarrow> (m, [])
      | Some ev \<Rightarrow>
          let m0 = touch_invites ei m
          in case find (\<lambda>iv. inviteId iv = i) (invites_of ei m0) of
               None \<Rightarrow> (m0, [])
             | Some iv \<Rightarrow>
                 let (m1, e1) = SendCalendarEventInviteRemove env ev iv (ev_flags ev) m0;
                     m2 = FreeInviteId (inviteId iv) m1
                 in (put_invites ei (drop_invite i (invites_of ei m2)) m2,
                     [DbDelInvite (inviteId iv)]
                     @ (if \<not> IsGuildEvent ev then SendCalendarEventInviteRemoveAlert env (invitee iv) ev CALENDAR_STATUS_REMOVED else [])
                     @ e1))"

text \<open>
  The loops that erase events while they iterate over \<open>_events\<close>: \<open>as\<close> are the addresses from the iterator on
  (nothing is inserted meanwhile, so the walk visits those that are still there). After the removal the iterator is
  advanced: when its own element was erased it is invalid.
\<close>

fun remove_created :: "cal_env \<Rightarrow> (cal_event \<Rightarrow> bool) \<Rightarrow> guid \<Rightarrow> u64 list \<Rightarrow> cal_mgr \<Rightarrow> (cal_mgr \<times> cal_effect list) option" where
  "remove_created env P remover [] m = Some (m, [])"
| "remove_created env P remover (a # as) m =
     (case om_find (cal_events m) a of
        None \<Rightarrow> remove_created env P remover as m
      | Some ev \<Rightarrow>
          if P ev
          then let (m1, e1) = RemoveEvent env (eventId ev) remover m
               in if om_find (cal_events m1) a = None then None
                  else (case remove_created env P remover as m1 of
                          None \<Rightarrow> None
                        | Some (m2, e2) \<Rightarrow> Some (m2, e1 @ e2))
          else remove_created env P remover as m)"

text \<open>
  The second loop, over a copy of the player's invites; the copied pointers are read after earlier passes
  deleted other invites, never one of their own.
\<close>

fun remove_signups :: "cal_env \<Rightarrow> (cal_invite \<Rightarrow> cal_mgr \<Rightarrow> bool) \<Rightarrow> cal_invite list \<Rightarrow> cal_op" where
  "remove_signups env P [] = cal_skip"
| "remove_signups env P (iv # invs) =
     cal_seq (\<lambda>m. if P iv m then RemoveInvite env (inviteId iv) (inv_eventId iv) m else (m, []))
       (remove_signups env P invs)"

definition RemoveAllPlayerEventsAndInvites :: "cal_env \<Rightarrow> guid \<Rightarrow> cal_mgr \<Rightarrow> (cal_mgr \<times> cal_effect list) option" where
  "RemoveAllPlayerEventsAndInvites env g m =
     (case remove_created env (\<lambda>ev. creatorGUID ev = g) 0 (map fst (cal_events m)) m of
        None \<Rightarrow> None
      | Some (m1, e1) \<Rightarrow>
          let (m2, e2) = remove_signups env (\<lambda>iv m. True) (GetPlayerInvites g m1) m1 in Some (m2, e1 @ e2))"

definition RemovePlayerGuildEventsAndSignups :: "cal_env \<Rightarrow> guid \<Rightarrow> u32 \<Rightarrow> cal_mgr \<Rightarrow> (cal_mgr \<times> cal_effect list) option" where
  "RemovePlayerGuildEventsAndSignups env g guild m =
     (case remove_created env (\<lambda>ev. creatorGUID ev = g \<and> (IsGuildEvent ev \<or> IsGuildAnnouncement ev)) g (map fst (cal_events m)) m of
        None \<Rightarrow> None
      | Some (m1, e1) \<Rightarrow>
          let (m2, e2) = remove_signups env
                (\<lambda>iv m. case GetEvent (inv_eventId iv) m of None \<Rightarrow> False | Some ev \<Rightarrow> IsGuildEvent ev \<and> ev_guildId ev = guild)
                (GetPlayerInvites g m1) m1
          in Some (m2, e1 @ e2))"

section \<open>Loading\<close>

text \<open>
  A row of \<open>calendar_events\<close> (number, creator, title, description, type, dungeon, time, flags, second time) with the
  address of the new object, and a row of \<open>calendar_invites\<close>. The GUID of a character is its number.
\<close>

type_synonym event_row = "u64 \<times> u64 \<times> u32 \<times> string \<times> string \<times> u8 \<times> u32 \<times> u32 \<times> u32 \<times> u32"
type_synonym invite_row = "u64 \<times> u64 \<times> u32 \<times> u32 \<times> u8 \<times> u32 \<times> u8 \<times> string"

definition load_event :: "cal_env \<Rightarrow> event_row \<Rightarrow> cal_mgr \<Rightarrow> cal_mgr" where
  "load_event env row m =
     (let (a, i, creator, title, description, type, dungeon, time, flags, time2) = row;
          g = ucast creator;
          guild = (if has_flag flags CALENDAR_FLAG_GUILD_EVENT \<or> has_flag flags CALENDAR_FLAG_WITHOUT_INVITES
                   then guild_from_db env g else 0);
          ev = \<lparr>eventId = i, creatorGUID = g, ev_guildId = guild, ev_type = ucast type, dungeonId = dungeon,
                eventTime = uint time, ev_flags = flags, timezoneTime = uint time2, ev_title = title, ev_description = description\<rparr>
      in m\<lparr>cal_events := om_set a ev (cal_events m), maxEventId := max (maxEventId m) i\<rparr>)"

definition load_invite :: "invite_row \<Rightarrow> cal_mgr \<Rightarrow> cal_mgr" where
  "load_invite row m =
     (let (i, ei, g, sender, status, time, rank, text) = row;
          iv = \<lparr>inviteId = i, inv_eventId = ei, invitee = ucast g, inv_senderGUID = ucast sender, statusTime = uint time,
                 inv_status = ucast status, inv_rank = ucast rank, inv_text = text\<rparr>
      in (put_invites ei (invites_of ei m @ [iv]) m)\<lparr>maxInviteId := max (maxInviteId m) i\<rparr>)"

definition LoadFromDB_calendar :: "cal_env \<Rightarrow> event_row list \<Rightarrow> invite_row list \<Rightarrow> cal_mgr \<Rightarrow> cal_mgr" where
  "LoadFromDB_calendar env events invites m =
     (let m1 = fold load_invite invites (fold (load_event env) events (m\<lparr>maxEventId := 0, maxInviteId := 0\<rparr>))
      in m1\<lparr>freeEventIds := freeEventIds m1 @ filter (\<lambda>i. GetEvent i m1 = None) (map of_nat [1..<unat (maxEventId m1)]),
            freeInviteIds := freeInviteIds m1 @ filter (\<lambda>i. GetInvite i m1 = None) (map of_nat [1..<unat (maxInviteId m1)])\<rparr>)"

end
