(* ===== verification/CalendarHandler.thy ===== *)
theory CalendarHandler
  imports Calendar
begin

text \<open>
  The calendar packets a client sends (src/src/server/game/Handlers/CalendarHandler.cpp), with the member filters of
  Guilds/Guild.cpp and Battlegrounds/ArenaTeam.cpp that two of them call.

  A handler returns the exception that a short packet raises, if any, the new state and the effects. The session's
  player is the record \<open>cal_session\<close>; \<open>a\<close> is the address of a new event.
\<close>

record cal_session =
  cs_guid :: guid
  cs_guild :: u32
  cs_team :: u32

type_synonym cal_handler = "cal_mgr \<Rightarrow> bb_error option \<times> cal_mgr \<times> cal_effect list"

definition cal_run :: "cal_op \<Rightarrow> cal_handler" where
  "cal_run f m = (None, f m)"

definition cal_parse :: "'a bb \<Rightarrow> byte_buffer \<Rightarrow> ('a \<Rightarrow> byte_buffer \<Rightarrow> cal_handler) \<Rightarrow> cal_handler" where
  "cal_parse p recvData k m = (case p recvData of Inl e \<Rightarrow> (Some e, m, []) | Inr (x, rest) \<Rightarrow> k x rest m)"

definition cal_error :: "cal_env \<Rightarrow> cal_session \<Rightarrow> u32 \<Rightarrow> cal_op" where
  "cal_error env s err = cal_emit (SendCalendarCommandResult env (cs_guid s) err [])"

text \<open>The default response time, 01/01/2000, and the test for a time in the past.\<close>

definition default_response_time :: int where "default_response_time = 946684800"

definition in_the_past :: "cal_env \<Rightarrow> u32 \<Rightarrow> bool" where
  "in_the_past env t \<longleftrightarrow> uint t < cal_now env - 86400"

section \<open>Objects changed in place\<close>

text \<open>The invite \<^verbatim>\<open>GetInvite\<close> finds, and the event \<^verbatim>\<open>GetEvent\<close> finds, changed through the returned pointer.\<close>

fun change_first :: "u64 \<Rightarrow> (cal_invite \<Rightarrow> cal_invite) \<Rightarrow> cal_invite list \<Rightarrow> cal_invite list" where
  "change_first i f [] = []"
| "change_first i f (iv # invs) = (if inviteId iv = i then f iv # invs else iv # change_first i f invs)"

fun change_invites :: "u64 \<Rightarrow> (cal_invite \<Rightarrow> cal_invite) \<Rightarrow> (u64, cal_invite list) omap \<Rightarrow> (u64, cal_invite list) omap" where
  "change_invites i f [] = []"
| "change_invites i f ((k, invs) # m) =
     (if i \<in> inviteId ` set invs then (k, change_first i f invs) # m else (k, invs) # change_invites i f m)"

definition change_invite :: "u64 \<Rightarrow> (cal_invite \<Rightarrow> cal_invite) \<Rightarrow> cal_mgr \<Rightarrow> cal_mgr" where
  "change_invite i f m = m\<lparr>cal_invites := change_invites i f (cal_invites m)\<rparr>"

definition store_event :: "u64 \<Rightarrow> cal_event \<Rightarrow> cal_mgr \<Rightarrow> cal_mgr" where
  "store_event a ev m = m\<lparr>cal_events := om_set a ev (cal_events m)\<rparr>"

section \<open>Reading\<close>

definition instance_fields :: "int \<Rightarrow> u32 \<times> u32 \<times> int \<times> u32 \<Rightarrow> field list" where
  "instance_fields now save =
     (let (mapId, difficulty, resetTime, instanceId) = save
      in [F32 mapId, F32 difficulty, F32 (word_of_int (resetTime - now)), F64 (ucast instanceId)])"

text \<open>Raids with a global reset, one entry per map: \<open>is_raid\<close> is the client's map table.\<close>

fun raid_resets :: "(u32 \<Rightarrow> bool option) \<Rightarrow> int \<Rightarrow> u32 list \<Rightarrow> (u32 \<times> int) list \<Rightarrow> field list list" where
  "raid_resets is_raid now sentMaps [] = []"
| "raid_resets is_raid now sentMaps ((key, resetTime) # resets) =
     (let mapId = key AND 0xFFFF
      in if mapId \<in> set sentMaps \<or> is_raid mapId \<noteq> Some True then raid_resets is_raid now sentMaps resets
         else [F32 mapId, F32 (word_of_int (resetTime - now)), F32 0] # raid_resets is_raid now (mapId # sentMaps) resets)"

text \<open>
  \<open>binds\<close> are the player's instance saves (map, difficulty, reset time, number) over the difficulties in order,
  each with its permanent flag, \<open>resets\<close> the reset times in the order of the hash map.
\<close>

definition HandleCalendarGetCalendar ::
    "cal_env \<Rightarrow> cal_session \<Rightarrow> (bool \<times> u32 \<times> u32 \<times> int \<times> u32) list \<Rightarrow> (u32 \<Rightarrow> bool option) \<Rightarrow> (u32 \<times> int) list \<Rightarrow> cal_op" where
  "HandleCalendarGetCalendar env s binds is_raid resets m =
     (let invites = GetPlayerInvites (cs_guid s) m;
          playerEvents = GetPlayerEvents env (cs_guid s) m;
          bound = map snd (filter fst binds);
          raids = raid_resets is_raid (cal_now env) [] resets
      in (m, [CalSend (cs_guid s) (CalPacket SMSG_CALENDAR_SEND_CALENDAR
           ([F32 (of_nat (length invites))]
            @ concat (map (\<lambda>iv. [F64 (inv_eventId iv), F64 (inviteId iv), F8 (ucast (inv_status iv)), F8 (ucast (inv_rank iv))]
                @ (case GetEvent (inv_eventId iv) m of
                     Some ev \<Rightarrow> [F8 (of_bool (IsGuildEvent ev)), FGuid (creatorGUID ev)]
                   | None \<Rightarrow> [F8 0, FGuid (inv_senderGUID iv)])) invites)
            @ [F32 (of_nat (length playerEvents))]
            @ concat (map (\<lambda>(a, ev). [F64 (eventId ev), FStr (ev_title ev), F32 (ev_type ev), packed_time env (eventTime ev),
                F32 (ev_flags ev), F32 (dungeonId ev), guild_field env ev, FGuid (creatorGUID ev)]) playerEvents)
            @ [F32 (word_of_int (cal_now env)), packed_time env (cal_now env), F32 (of_nat (length bound))]
            @ concat (map (instance_fields (cal_now env)) bound)
            @ [F32 1135753200, F32 (of_nat (length raids))]
            @ concat raids
            @ [F32 0]))]))"

definition HandleCalendarGetEvent :: "cal_env \<Rightarrow> cal_session \<Rightarrow> byte_buffer \<Rightarrow> cal_handler" where
  "HandleCalendarGetEvent env s recvData =
     cal_parse read_val recvData (\<lambda>i rest m.
       case GetEvent i m of
         Some ev \<Rightarrow> cal_run (SendCalendarEvent env (cs_guid s) ev CALENDAR_SENDTYPE_GET) m
       | None \<Rightarrow> cal_run (cal_error env s CALENDAR_ERROR_EVENT_INVALID) m)"

text \<open>\<open>Guild::MassInviteToEvent\<close>: the members with their ranks; the loop stops with an error once it has 100.\<close>

fun mass_invite_loop :: "cal_env \<Rightarrow> guid \<Rightarrow> u32 \<Rightarrow> u32 \<Rightarrow> u32 \<Rightarrow> (guid \<times> u8) list \<Rightarrow> guid list \<Rightarrow> guid list option" where
  "mass_invite_loop env self minLevel maxLevel minRank [] acc = Some acc"
| "mass_invite_loop env self minLevel maxLevel minRank ((g, rank) # members) acc =
     (if length acc \<ge> unat CALENDAR_MAX_INVITES then None
      else let level = ucast (level_from_db env g)
           in mass_invite_loop env self minLevel maxLevel minRank members
                (if g \<noteq> self \<and> level \<ge> minLevel \<and> level \<le> maxLevel \<and> rank \<le> ucast minRank then acc @ [g] else acc))"

definition MassInviteToEvent :: "cal_env \<Rightarrow> cal_session \<Rightarrow> (guid \<times> u8) list \<Rightarrow> u32 \<Rightarrow> u32 \<Rightarrow> u32 \<Rightarrow> cal_effect list" where
  "MassInviteToEvent env s members minLevel maxLevel minRank =
     (case mass_invite_loop env (cs_guid s) minLevel maxLevel minRank members [] of
        None \<Rightarrow> SendCalendarCommandResult env (cs_guid s) CALENDAR_ERROR_INVITES_EXCEEDED []
      | Some gs \<Rightarrow> [CalSend (cs_guid s) (CalPacket SMSG_CALENDAR_FILTER_GUILD
                      (F32 (of_nat (length gs)) # concat (map (\<lambda>g. [FGuid g, F8 0]) gs)))])"

definition HandleCalendarGuildFilter ::
    "cal_env \<Rightarrow> cal_session \<Rightarrow> (u32 \<Rightarrow> (guid \<times> u8) list option) \<Rightarrow> byte_buffer \<Rightarrow> cal_handler" where
  "HandleCalendarGuildFilter env s guild_members recvData =
     cal_parse (bb_bind read_val (\<lambda>minLevel. bb_bind read_val (\<lambda>maxLevel. bb_bind read_val (\<lambda>minRank.
                  bb_return (minLevel, maxLevel, minRank))))) recvData (\<lambda>(minLevel, maxLevel, minRank) rest m.
       case guild_members (cs_guild s) of
         None \<Rightarrow> cal_run cal_skip m
       | Some members \<Rightarrow> cal_run (cal_emit (MassInviteToEvent env s members minLevel maxLevel minRank)) m)"

definition ArenaTeam_MassInviteToEvent :: "cal_session \<Rightarrow> guid list \<Rightarrow> cal_effect list" where
  "ArenaTeam_MassInviteToEvent s members =
     [CalSend (cs_guid s) (CalPacket SMSG_CALENDAR_ARENA_TEAM
        (F32 (of_nat (length members) - 1)
         # concat (map (\<lambda>g. if g \<noteq> cs_guid s then [FGuid g, F8 0] else []) members)))]"

definition HandleCalendarArenaTeam :: "cal_session \<Rightarrow> (u32 \<Rightarrow> guid list option) \<Rightarrow> byte_buffer \<Rightarrow> cal_handler" where
  "HandleCalendarArenaTeam s team_members recvData =
     cal_parse read_val recvData (\<lambda>arenaTeamId rest m.
       case team_members arenaTeamId of
         None \<Rightarrow> cal_run cal_skip m
       | Some members \<Rightarrow> cal_run (cal_emit (ArenaTeam_MassInviteToEvent s members)) m)"

section \<open>Events\<close>

type_synonym event_data = "string \<times> string \<times> u8 \<times> u32 \<times> u32 \<times> u32 \<times> u32"

text \<open>Title, description, type, dungeon, the two times and flags; the repetition and the limit are not used.\<close>

definition parse_event :: "cal_env \<Rightarrow> event_data bb" where
  "parse_event env =
     bb_bind read_string (\<lambda>title. bb_bind read_string (\<lambda>description. bb_bind read_val (\<lambda>type.
     bb_bind (read_val :: u8 bb) (\<lambda>repeatable. bb_bind (read_val :: u32 bb) (\<lambda>maxInvites. bb_bind read_val (\<lambda>dungeon.
     bb_bind (ReadPackedTime (cal_mktime env)) (\<lambda>time. bb_bind (ReadPackedTime (cal_mktime env)) (\<lambda>time2.
     bb_bind read_val (\<lambda>flags. bb_return (title, description, type, dungeon, time, time2, flags))))))))))"

definition parse_invitee :: "(guid \<times> u8 \<times> u8) bb" where
  "parse_invitee =
     bb_bind readPackGUID (\<lambda>invitee. bb_bind read_val (\<lambda>status. bb_bind read_val (\<lambda>rank. bb_return (invitee, status, rank))))"

definition parse_invitees :: "(guid \<times> u8 \<times> u8) list bb" where
  "parse_invitees = bb_bind read_val (\<lambda>inviteCount :: u32. read_elems parse_invitee (min (unat inviteCount) 100))"

definition new_event :: "cal_env \<Rightarrow> cal_session \<Rightarrow> u64 \<Rightarrow> event_data \<Rightarrow> cal_event" where
  "new_event env s i d =
     (let (title, description, type, dungeon, time, time2, flags) = d;
          ev = \<lparr>eventId = i, creatorGUID = cs_guid s, ev_guildId = 0, ev_type = ucast type, dungeonId = dungeon,
                eventTime = uint time, ev_flags = flags, timezoneTime = uint time2, ev_title = title, ev_description = description\<rparr>
      in if IsGuildEvent ev \<or> IsGuildAnnouncement ev
         then (case cal_player env (cs_guid s) of None \<Rightarrow> ev | Some (level, guild) \<Rightarrow> ev\<lparr>ev_guildId := guild\<rparr>)
         else ev)"

text \<open>The stack object of a guild announcement: its destructor gives number 0 back.\<close>

definition announce_event :: "cal_env \<Rightarrow> cal_session \<Rightarrow> cal_event \<Rightarrow> cal_op" where
  "announce_event env s ev =
     cal_seq (AddInvite env ev
                \<lparr>inviteId = 0, inv_eventId = eventId ev, invitee = 0, inv_senderGUID = cs_guid s,
                 statusTime = default_response_time, inv_status = CALENDAR_STATUS_NOT_SIGNED_UP,
                 inv_rank = CALENDAR_RANK_PLAYER, inv_text = []\<rparr>)
       (\<lambda>m. (FreeInviteId 0 m, []))"

text \<open>A new invite object with the next free number, handed to \<^verbatim>\<open>AddInvite\<close>.\<close>

definition new_invite :: "cal_env \<Rightarrow> cal_event \<Rightarrow> (u64 \<Rightarrow> cal_invite) \<Rightarrow> cal_op" where
  "new_invite env ev mk m = (let (i, m1) = GetFreeInviteId m in AddInvite env ev (mk i) m1)"

fun new_invites :: "cal_env \<Rightarrow> cal_event \<Rightarrow> (u64 \<Rightarrow> cal_invite) list \<Rightarrow> cal_op" where
  "new_invites env ev [] = cal_skip"
| "new_invites env ev (mk # mks) = cal_seq (new_invite env ev mk) (new_invites env ev mks)"

definition mk_invitee :: "cal_session \<Rightarrow> u64 \<Rightarrow> guid \<times> u8 \<times> u8 \<Rightarrow> u64 \<Rightarrow> cal_invite" where
  "mk_invitee s ei d i =
     (let (g, status, rank) = d
      in \<lparr>inviteId = i, inv_eventId = ei, invitee = g, inv_senderGUID = cs_guid s, statusTime = default_response_time,
          inv_status = ucast status, inv_rank = ucast rank, inv_text = []\<rparr>)"

definition HandleCalendarAddEvent :: "cal_env \<Rightarrow> cal_session \<Rightarrow> u64 \<Rightarrow> byte_buffer \<Rightarrow> cal_handler" where
  "HandleCalendarAddEvent env s a recvData =
     cal_parse (parse_event env) recvData (\<lambda>d rest m.
       let (title, description, type, dungeon, time, time2, flags) = d
       in if in_the_past env time then cal_run cal_skip m
          else let (i, m1) = GetFreeEventId m;
                   ev = new_event env s i d
               in if IsGuildAnnouncement ev
                  then cal_run (cal_seq (announce_event env s ev) (AddEvent env a ev CALENDAR_SENDTYPE_ADD)) m1
                  else case parse_invitees rest of
                         Inl e \<Rightarrow> (Some e, FreeEventId i m1, [])
                       | Inr (ds, rest') \<Rightarrow>
                           cal_run (cal_seq (new_invites env ev (map (mk_invitee s i) ds))
                             (AddEvent env a ev CALENDAR_SENDTYPE_ADD)) m1)"

definition HandleCalendarUpdateEvent :: "cal_env \<Rightarrow> cal_session \<Rightarrow> byte_buffer \<Rightarrow> cal_handler" where
  "HandleCalendarUpdateEvent env s recvData =
     cal_parse (bb_bind read_val (\<lambda>i :: u64. bb_bind read_val (\<lambda>inviteId :: u64. bb_bind (parse_event env) (\<lambda>d.
                  bb_return (i, d))))) recvData
       (\<lambda>(i, title, description, type, dungeon, time, time2, flags) rest m.
         if in_the_past env time then cal_run cal_skip m
         else case find_event i m of
                Some (a, ev) \<Rightarrow>
                  let ev' = ev\<lparr>ev_type := ucast type, ev_flags := flags, eventTime := uint time, timezoneTime := uint time2,
                               dungeonId := dungeon, ev_title := title, ev_description := description\<rparr>
                  in cal_run (cal_seq (cal_emit (UpdateEvent ev')) (SendCalendarEventUpdateAlert env ev' (eventTime ev)))
                       (store_event a ev' m)
              | None \<Rightarrow> cal_run (cal_error env s CALENDAR_ERROR_EVENT_INVALID) m)"

definition HandleCalendarRemoveEvent :: "cal_env \<Rightarrow> cal_session \<Rightarrow> byte_buffer \<Rightarrow> cal_handler" where
  "HandleCalendarRemoveEvent env s recvData =
     cal_parse read_val recvData (\<lambda>i rest. cal_run (RemoveEvent env i (cs_guid s)))"

text \<open>The copying constructor of \<^verbatim>\<open>CalendarInvite\<close>.\<close>

definition copy_invite :: "cal_invite \<Rightarrow> u64 \<Rightarrow> u64 \<Rightarrow> cal_invite" where
  "copy_invite iv ei i = iv\<lparr>inviteId := i, inv_eventId := ei\<rparr>"

definition HandleCalendarCopyEvent :: "cal_env \<Rightarrow> cal_session \<Rightarrow> u64 \<Rightarrow> byte_buffer \<Rightarrow> cal_handler" where
  "HandleCalendarCopyEvent env s a recvData =
     cal_parse (bb_bind read_val (\<lambda>i :: u64. bb_bind read_val (\<lambda>inviteId :: u64. bb_bind (ReadPackedTime (cal_mktime env)) (\<lambda>time.
                  bb_return (i, time))))) recvData (\<lambda>(i, time) rest m.
       if in_the_past env time then cal_run cal_skip m
       else case GetEvent i m of
              Some oldEvent \<Rightarrow>
                let (j, m1) = GetFreeEventId m;
                    newEvent = oldEvent\<lparr>eventId := j, eventTime := uint time\<rparr>
                in cal_run (cal_seq (AddEvent env a newEvent CALENDAR_SENDTYPE_COPY)
                     (\<lambda>m2. let (invites, m3) = GetEventInvites i m2
                           in new_invites env newEvent (map (\<lambda>iv. copy_invite iv j) invites) m3)) m1
            | None \<Rightarrow> cal_run (cal_error env s CALENDAR_ERROR_EVENT_INVALID) m)"

section \<open>Invites\<close>

text \<open>GUID, team and guild of the named player: in the world, or stored (GUID 0 when there is none).\<close>

definition find_invitee :: "cal_env \<Rightarrow> string \<Rightarrow> guid \<times> u32 \<times> u32" where
  "find_invitee env name =
     (case player_by_name env name of
        Some found \<Rightarrow> found
      | None \<Rightarrow> (case char_by_name env name of
                   None \<Rightarrow> (0, 0, 0)
                 | Some (low, race) \<Rightarrow> (ucast low, team_for_race env race, guild_from_db env (ucast low))))"

definition SOCIAL_FLAG_IGNORED :: u8 where "SOCIAL_FLAG_IGNORED = 0x02"

definition mk_player_invite :: "guid \<Rightarrow> guid \<Rightarrow> int \<Rightarrow> u32 \<Rightarrow> u64 \<Rightarrow> u64 \<Rightarrow> cal_invite" where
  "mk_player_invite g sender time status ei i =
     \<lparr>inviteId = i, inv_eventId = ei, invitee = g, inv_senderGUID = sender, statusTime = time, inv_status = status,
      inv_rank = CALENDAR_RANK_PLAYER, inv_text = []\<rparr>"

definition HandleCalendarEventInvite :: "cal_env \<Rightarrow> cal_session \<Rightarrow> byte_buffer \<Rightarrow> cal_handler" where
  "HandleCalendarEventInvite env s recvData =
     cal_parse (bb_bind read_val (\<lambda>i :: u64. bb_bind read_val (\<lambda>iid :: u64. bb_bind read_string (\<lambda>name.
                  bb_bind read_bool (\<lambda>isPreInvite. bb_bind read_bool (\<lambda>isGuildEvent.
                  bb_return (i, iid, name, isPreInvite, isGuildEvent))))))) recvData
       (\<lambda>(i, iid, name, isPreInvite, isGuildEvent) rest m.
         let (g, team, guild) = find_invitee env name
         in if g = 0 then cal_run (cal_error env s CALENDAR_ERROR_PLAYER_NOT_FOUND) m
            else if cs_team s \<noteq> team \<and> \<not> two_side_calendar env then cal_run (cal_error env s CALENDAR_ERROR_NOT_ALLIED) m
            else if (case social_flags env g (cs_guid s) of None \<Rightarrow> False | Some f \<Rightarrow> has_flag f SOCIAL_FLAG_IGNORED)
            then cal_run (cal_emit (SendCalendarCommandResult env (cs_guid s) CALENDAR_ERROR_IGNORING_YOU_S name)) m
            else if \<not> isPreInvite
            then (case GetEvent i m of
                    Some ev \<Rightarrow>
                      if IsGuildEvent ev \<and> ev_guildId ev = guild
                      then cal_run (cal_error env s CALENDAR_ERROR_NO_GUILD_INVITES) m
                      else cal_run (new_invite env ev
                             (mk_player_invite g (cs_guid s) default_response_time CALENDAR_STATUS_INVITED i)) m
                  | None \<Rightarrow> cal_run (cal_error env s CALENDAR_ERROR_EVENT_INVALID) m)
            else if isGuildEvent \<and> guild = cs_guild s then cal_run (cal_error env s CALENDAR_ERROR_NO_GUILD_INVITES) m
            else cal_run (SendCalendarEventInvite env
                   (mk_player_invite g (cs_guid s) default_response_time CALENDAR_STATUS_INVITED 0 iid)) m)"

definition HandleCalendarEventSignup :: "cal_env \<Rightarrow> cal_session \<Rightarrow> byte_buffer \<Rightarrow> cal_handler" where
  "HandleCalendarEventSignup env s recvData =
     cal_parse (bb_bind read_val (\<lambda>i :: u64. bb_bind read_bool (\<lambda>tentative. bb_return (i, tentative)))) recvData
       (\<lambda>(i, tentative) rest m.
         case GetEvent i m of
           Some ev \<Rightarrow>
             if IsGuildEvent ev \<and> ev_guildId ev \<noteq> cs_guild s
             then cal_run (cal_error env s CALENDAR_ERROR_GUILD_PLAYER_NOT_IN_GUILD) m
             else cal_run (cal_seq
                    (new_invite env ev (mk_player_invite (cs_guid s) (cs_guid s) (cal_now env)
                       (if tentative then CALENDAR_STATUS_TENTATIVE else CALENDAR_STATUS_SIGNED_UP) i))
                    (cal_emit (SendCalendarClearPendingAction env (cs_guid s)))) m
         | None \<Rightarrow> cal_run (cal_error env s CALENDAR_ERROR_EVENT_INVALID) m)"

text \<open>The common end of the three handlers that change an invite \<open>iv\<close> to \<open>f iv\<close> and then run \<open>after\<close>.\<close>

definition update_invite :: "cal_env \<Rightarrow> cal_session \<Rightarrow> u64 \<Rightarrow> (cal_invite \<Rightarrow> cal_invite) \<Rightarrow> (cal_invite \<Rightarrow> cal_op) \<Rightarrow> cal_op" where
  "update_invite env s iid f after m =
     (case GetInvite iid m of
        Some iv \<Rightarrow> cal_seq (cal_emit (UpdateInvite (f iv))) (after (f iv)) (change_invite iid f m)
      | None \<Rightarrow> cal_error env s CALENDAR_ERROR_NO_INVITE m)"

definition HandleCalendarEventRsvp :: "cal_env \<Rightarrow> cal_session \<Rightarrow> byte_buffer \<Rightarrow> cal_handler" where
  "HandleCalendarEventRsvp env s recvData =
     cal_parse (bb_bind read_val (\<lambda>i :: u64. bb_bind read_val (\<lambda>iid :: u64. bb_bind read_val (\<lambda>status :: u32.
                  bb_return (i, iid, status))))) recvData (\<lambda>(i, iid, status) rest m.
       case GetEvent i m of
         Some ev \<Rightarrow>
           if status \<noteq> CALENDAR_STATUS_REMOVED \<and> has_flag (ev_flags ev) CALENDAR_FLAG_INVITES_LOCKED
           then cal_run (cal_error env s CALENDAR_ERROR_EVENT_LOCKED) m
           else cal_run (update_invite env s iid (\<lambda>iv. iv\<lparr>inv_status := status, statusTime := cal_now env\<rparr>)
                  (\<lambda>iv. cal_seq (SendCalendarEventStatus env ev iv)
                          (cal_emit (SendCalendarClearPendingAction env (cs_guid s))))) m
       | None \<Rightarrow> cal_run (cal_error env s CALENDAR_ERROR_EVENT_INVALID) m)"

definition HandleCalendarEventRemoveInvite :: "cal_env \<Rightarrow> cal_session \<Rightarrow> byte_buffer \<Rightarrow> cal_handler" where
  "HandleCalendarEventRemoveInvite env s recvData =
     cal_parse (bb_bind readPackGUID (\<lambda>g. bb_bind read_val (\<lambda>iid :: u64. bb_bind read_val (\<lambda>ownerInviteId :: u64.
                  bb_bind read_val (\<lambda>i :: u64. bb_return (g, iid, i)))))) recvData (\<lambda>(g, iid, i) rest m.
       case GetEvent i m of
         Some ev \<Rightarrow>
           if creatorGUID ev = g then cal_run (cal_error env s CALENDAR_ERROR_DELETE_CREATOR_FAILED) m
           else cal_run (RemoveInvite env iid i) m
       | None \<Rightarrow> cal_run (cal_error env s CALENDAR_ERROR_NO_INVITE) m)"

text \<open>The layout the two moderator packets share: invitee, event, invite, a new status or rank.\<close>

definition parse_moderation :: "(guid \<times> u64 \<times> u64 \<times> u8) bb" where
  "parse_moderation =
     bb_bind readPackGUID (\<lambda>g. bb_bind read_val (\<lambda>i. bb_bind read_val (\<lambda>iid. bb_bind (read_val :: u64 bb) (\<lambda>ownerInviteId.
     bb_bind read_val (\<lambda>x. bb_return (g, i, iid, x))))))"

definition HandleCalendarEventStatus :: "cal_env \<Rightarrow> cal_session \<Rightarrow> byte_buffer \<Rightarrow> cal_handler" where
  "HandleCalendarEventStatus env s recvData =
     cal_parse parse_moderation recvData (\<lambda>(g, i, iid, status) rest m.
       case GetEvent i m of
         Some ev \<Rightarrow>
           cal_run (update_invite env s iid (\<lambda>iv. iv\<lparr>inv_status := ucast status\<rparr>)
             (\<lambda>iv. cal_seq (SendCalendarEventStatus env ev iv) (cal_emit (SendCalendarClearPendingAction env g)))) m
       | None \<Rightarrow> cal_run (cal_error env s CALENDAR_ERROR_EVENT_INVALID) m)"

definition HandleCalendarEventModeratorStatus :: "cal_env \<Rightarrow> cal_session \<Rightarrow> byte_buffer \<Rightarrow> cal_handler" where
  "HandleCalendarEventModeratorStatus env s recvData =
     cal_parse parse_moderation recvData (\<lambda>(g, i, iid, rank) rest m.
       case GetEvent i m of
         Some ev \<Rightarrow>
           cal_run (update_invite env s iid (\<lambda>iv. iv\<lparr>inv_rank := ucast rank\<rparr>)
             (\<lambda>iv. SendCalendarEventModeratorStatusAlert env ev iv)) m
       | None \<Rightarrow> cal_run (cal_error env s CALENDAR_ERROR_EVENT_INVALID) m)"

definition HandleCalendarComplain :: "byte_buffer \<Rightarrow> cal_handler" where
  "HandleCalendarComplain recvData =
     cal_parse (bb_bind (read_val :: u64 bb) (\<lambda>complainGUID. bb_bind (read_val :: u64 bb) (\<lambda>i.
                  bb_bind (read_val :: u64 bb) (\<lambda>iid. bb_return ())))) recvData (\<lambda>_ rest. cal_run cal_skip)"

definition HandleCalendarGetNumPending :: "cal_session \<Rightarrow> cal_op" where
  "HandleCalendarGetNumPending s m =
     (m, [CalSend (cs_guid s) (CalPacket SMSG_CALENDAR_SEND_NUM_PENDING [F32 (GetPlayerNumPending (cs_guid s) m)])])"

section \<open>Raid lockouts\<close>

definition SendCalendarRaidLockout :: "cal_env \<Rightarrow> cal_session \<Rightarrow> u32 \<times> u32 \<times> int \<times> u32 \<Rightarrow> bool \<Rightarrow> cal_effect list" where
  "SendCalendarRaidLockout env s save add =
     [CalSend (cs_guid s) (if add
        then CalPacket SMSG_CALENDAR_RAID_LOCKOUT_ADDED (packed_time env (cal_now env) # instance_fields (cal_now env) save)
        else CalPacket SMSG_CALENDAR_RAID_LOCKOUT_REMOVED (instance_fields (cal_now env) save))]"

definition SendCalendarRaidLockoutUpdated :: "cal_env \<Rightarrow> cal_session \<Rightarrow> (u32 \<times> u32 \<times> int \<times> u32) option \<Rightarrow> cal_effect list" where
  "SendCalendarRaidLockoutUpdated env s save =
     (case save of
        None \<Rightarrow> []
      | Some (mapId, difficulty, resetTime, instanceId) \<Rightarrow>
          [CalSend (cs_guid s) (CalPacket SMSG_CALENDAR_RAID_LOCKOUT_UPDATED
             [packed_time env (cal_now env), F32 mapId, F32 difficulty, F32 0, F32 (word_of_int (resetTime - cal_now env))])])"

end
