(* ===== verification/CalendarSpec.thy ===== *)
theory CalendarSpec
  imports CalendarHandler "HOL-Library.Multiset"
begin

text \<open>
  Properties of the calendar. The two pools of identifiers satisfy one contract (locale \<open>id_pool\<close>); operations that
  keep a relation between the states before and after them compose (locale \<open>cal_rel\<close>); the calendar as a whole
  is a state machine over the packets of \<open>CalendarHandler\<close> and the removal of players.
\<close>

section \<open>Pools of identifiers\<close>

text \<open>Numbers in use and free numbers are all different, positive and at most the highest one.\<close>

definition pool_ok :: "u64 multiset \<Rightarrow> u64 list \<Rightarrow> u64 \<Rightarrow> bool" where
  "pool_ok used free hi \<longleftrightarrow> used + mset free \<subseteq># mset_set {0<..hi}"

lemma pool_finite [simp]: "finite ({0<..hi} :: u64 set)"
  by simp

lemma range_succ:
  fixes h :: u64
  assumes "h + 1 \<noteq> 0"
  shows "{0<..h + 1} = insert (h + 1) {0<..h}" and "h + 1 \<notin> {0<..h}"
proof -
  have s: "unat (h + 1) = Suc (unat h)"
    using assms unatSuc [of h] by (simp add: add.commute)
  have le: "x \<le> h + 1 \<longleftrightarrow> x \<le> h \<or> x = h + 1" for x
    unfolding word_le_nat_alt word_unat_eq_iff s by linarith
  have "0 < h + 1"
    using assms by (simp add: word_neq_0_conv)
  then show "{0<..h + 1} = insert (h + 1) {0<..h}"
    using le by auto
  have "\<not> h + 1 \<le> h"
    unfolding word_le_nat_alt s by simp
  then show "h + 1 \<notin> {0<..h}"
    by simp
qed

lemma succ_nonzero: "Suc (unat h) < 2 ^ 64 \<Longrightarrow> h + 1 \<noteq> 0" for h :: u64
proof
  assume a: "Suc (unat h) < 2 ^ 64" and "h + 1 = 0"
  then have "h = - 1" by (simp add: eq_neg_iff_add_eq_0)
  then show False using a by (simp add: unsigned_minus_1_eq_mask mask_eq_exp_minus_1)
qed

lemma mset_set_once: "A \<subseteq># mset_set S \<Longrightarrow> count A x \<le> 1"
  by (metis count_mset_set(1) count_mset_set(2) count_mset_set(3) le_zero_eq less_one mset_subset_eq_count nle_le)

lemma pool_distinct: "pool_ok (mset xs) free hi \<Longrightarrow> distinct xs \<and> distinct free \<and> set xs \<inter> set free = {}"
proof -
  assume "pool_ok (mset xs) free hi"
  then have "mset (xs @ free) \<subseteq># mset_set {0<..hi}"
    by (simp add: pool_ok_def)
  then have "distinct (xs @ free)"
    unfolding distinct_count_atmost_1 using mset_set_once
    by (metis One_nat_def count_greater_zero_iff count_inI in_multiset_in_set le_antisym less_eq_Suc_le)
  then show ?thesis by simp
qed

lemma pool_range: "pool_ok used free hi \<Longrightarrow> i \<in># used + mset free \<Longrightarrow> 0 < i \<and> i \<le> hi"
  by (metis elem_mset_set greaterThanAtMost_iff mset_subset_eqD pool_finite pool_ok_def)

text \<open>A pool hands out the front of the list of free numbers, or a new highest number; a number goes to the back of the
  list, unless it is the highest one.\<close>

locale id_pool =
  fixes free :: "'s \<Rightarrow> u64 list"
    and hi :: "'s \<Rightarrow> u64"
    and alloc :: "'s \<Rightarrow> u64 \<times> 's"
    and release :: "u64 \<Rightarrow> 's \<Rightarrow> 's"
  assumes alloc_new: "free s = [] \<Longrightarrow> alloc s = (i, t) \<Longrightarrow> i = hi s + 1 \<and> free t = [] \<and> hi t = hi s + 1"
    and alloc_reuse: "free s = j # js \<Longrightarrow> alloc s = (i, t) \<Longrightarrow> i = j \<and> free t = js \<and> hi t = hi s"
    and release_top: "i = hi s \<Longrightarrow> free (release i s) = free s \<and> hi (release i s) = hi s - 1"
    and release_other: "i \<noteq> hi s \<Longrightarrow> free (release i s) = free s @ [i] \<and> hi (release i s) = hi s"
begin

lemma alloc_ok:
  assumes ok: "pool_ok used (free s) (hi s)" and room: "hi s + 1 \<noteq> 0" and a: "alloc s = (i, t)"
  shows "pool_ok (add_mset i used) (free t) (hi t)"
proof (cases "free s")
  case Nil
  show ?thesis
    using ok alloc_new [OF Nil a] Nil range_succ [OF room] by (simp add: pool_ok_def)
next
  case (Cons j js)
  then show ?thesis
    using ok alloc_reuse [OF Cons a] by (simp add: pool_ok_def)
qed

lemma alloc_fresh:
  assumes "pool_ok used (free s) (hi s)" "hi s + 1 \<noteq> 0" "alloc s = (i, t)"
  shows "i \<notin># used \<and> i \<noteq> 0"
proof -
  have *: "pool_ok (add_mset i used) (free t) (hi t)"
    by (rule alloc_ok [OF assms])
  then have "count (add_mset i used + mset (free t)) i \<le> 1"
    unfolding pool_ok_def by (rule mset_set_once)
  then have "i \<notin># used" by (simp add: not_in_iff)
  moreover have "0 < i" using pool_range [OF *, of i] by simp
  ultimately show ?thesis by auto
qed

lemma release_ok:
  assumes ok: "pool_ok used (free s) (hi s)" and i: "i \<in># used"
  shows "pool_ok (used - {#i#}) (free (release i s)) (hi (release i s))"
proof (cases "i = hi s")
  case True
  have "0 < hi s" using pool_range [OF ok, of i] i True by simp
  then have down: "{0<..hi s} = insert (hi s) {0<..hi s - 1}" and notin: "hi s \<notin> {0<..hi s - 1}"
    using range_succ [of "hi s - 1"] by auto
  obtain rest where rest: "used = add_mset (hi s) rest"
    using i True by (metis insert_DiffM)
  show ?thesis
    using ok release_top [OF True] notin by (simp add: pool_ok_def down rest True)
next
  case False
  then show ?thesis
    using ok i release_other [OF False] by (metis (no_types, lifting) add_mset_add_single insert_DiffM mset.simps(2)
      mset_append pool_ok_def union_mset_add_mset_left union_mset_add_mset_right mset.simps(1) add.right_neutral)
qed

lemma release_all_ok:
  "pool_ok used (free s) (hi s) \<Longrightarrow> mset is \<subseteq># used \<Longrightarrow>
     pool_ok (used - mset is) (free (fold release is s)) (hi (fold release is s))"
proof (induction "is" arbitrary: used s)
  case (Cons i "is")
  have "i \<in># used" using Cons.prems(2) by (metis list.set_intros(1) mset_subset_eqD set_mset_mset)
  moreover have "mset is \<subseteq># used - {#i#}"
    using Cons.prems(2) by (metis insert_subset_eq_iff mset.simps(2))
  ultimately show ?case
    using Cons.IH [OF release_ok [OF Cons.prems(1)]] by simp
qed simp

lemma alloc_top: "alloc s = (i, t) \<Longrightarrow> hi t = hi s \<or> hi t = hi s + 1"
  by (cases "free s") (auto dest: alloc_new alloc_reuse)

end

interpretation event_ids: id_pool freeEventIds maxEventId GetFreeEventId FreeEventId
  by unfold_locales (auto simp: GetFreeEventId_def FreeEventId_def)

interpretation invite_ids: id_pool freeInviteIds maxInviteId GetFreeInviteId FreeInviteId
  by unfold_locales (auto simp: GetFreeInviteId_def FreeInviteId_def)

section \<open>Stores as multisets\<close>

lemma om_set_new: "om_find m k = None \<Longrightarrow> mset (om_set k v m) = add_mset (k, v) (mset m)"
  by (induction k v m rule: om_set.induct) (auto simp: om_find_def split: if_splits)

lemma om_set_old:
  "om_wf m \<Longrightarrow> om_find m k = Some v0 \<Longrightarrow> add_mset (k, v0) (mset (om_set k v m)) = add_mset (k, v) (mset m)"
proof (induction k v m rule: om_set.induct)
  case (2 k v k' v' m)
  have "k' < k" if "k \<noteq> k'"
  proof -
    have "(k, v0) \<in> set m" using 2(3) that by (simp add: om_find_def map_of_SomeD)
    then show ?thesis using 2(2) by (force simp: om_wf_def)
  qed
  then have "\<not> k < k'"
    by fastforce
  then show ?case
    using 2 by (auto simp: om_find_def om_wf_def add_mset_commute)
qed (simp add: om_find_def)

lemma om_erase_old:
  "om_find m k = Some v0 \<Longrightarrow> add_mset (k, v0) (mset (om_erase k m)) = mset m"
  by (induction k m rule: om_erase.induct) (auto simp: om_find_def add_mset_commute split: if_splits)

lemma om_erase_none: "om_find m k = None \<Longrightarrow> om_erase k m = m"
  by (induction k m rule: om_erase.induct) (auto simp: om_find_def split: if_splits)

definition flat :: "('k \<times> 'a list) list \<Rightarrow> 'a multiset" where
  "flat m = (\<Sum>x\<in>#mset m. mset (snd x))"

lemma mset_all_invites: "mset (all_invites m) = flat (cal_invites m)"
proof -
  have "mset (concat (map snd l)) = flat l" for l :: "(u64 \<times> cal_invite list) list"
    by (induction l) (simp_all add: flat_def)
  then show ?thesis by (simp add: all_invites_def)
qed

lemma flat_set:
  assumes "om_wf m"
  shows "flat (om_set k v m) + mset (case om_find m k of None \<Rightarrow> [] | Some v0 \<Rightarrow> v0) = flat m + mset v"
proof (cases "om_find m k")
  case None
  then show ?thesis by (simp add: flat_def om_set_new)
next
  case (Some v0)
  have "(\<Sum>x\<in>#add_mset (k, v0) (mset (om_set k v m)). mset (snd x)) = (\<Sum>x\<in>#add_mset (k, v) (mset m). mset (snd x))"
    by (simp only: om_set_old [OF assms Some])
  then show ?thesis using Some by (simp add: flat_def add.commute)
qed

lemma flat_erase: "flat (om_erase k m) + mset (case om_find m k of None \<Rightarrow> [] | Some v0 \<Rightarrow> v0) = flat m"
proof (cases "om_find m k")
  case (Some v0)
  have "(\<Sum>x\<in>#add_mset (k, v0) (mset (om_erase k m)). mset (snd x)) = (\<Sum>x\<in>#mset m. mset (snd x))"
    by (simp only: om_erase_old [OF Some])
  then show ?thesis using Some by (simp add: flat_def add.commute)
qed (simp add: om_erase_none)

lemma in_flat: "om_wf m \<Longrightarrow> x \<in># flat m \<longleftrightarrow> (\<exists>k. x \<in> set (case om_find m k of None \<Rightarrow> [] | Some v \<Rightarrow> v))"
proof -
  assume wf: "om_wf m"
  have "x \<in># flat m \<longleftrightarrow> (\<exists>k v. (k, v) \<in> set m \<and> x \<in> set v)"
    unfolding flat_def by (auto simp: Bex_def)
  also have "\<dots> \<longleftrightarrow> (\<exists>k v. om_find m k = Some v \<and> x \<in> set v)"
    using om_in_find [OF wf] by (blast dest: om_find_in)
  also have "\<dots> \<longleftrightarrow> (\<exists>k. x \<in> set (case om_find m k of None \<Rightarrow> [] | Some v \<Rightarrow> v))"
    by (simp split: option.split) (metis option.distinct(1) option.inject option.exhaust)
  finally show ?thesis .
qed

lemma flat_invites_of: "om_wf (cal_invites m) \<Longrightarrow> x \<in> set (all_invites m) \<longleftrightarrow> (\<exists>k. x \<in> set (invites_of k m))"
  using in_flat [of "cal_invites m" x] mset_all_invites [of m] by (metis invites_of_def set_mset_mset)

section \<open>The invariant\<close>

definition event_numbers :: "cal_mgr \<Rightarrow> u64 multiset" where
  "event_numbers m = image_mset (eventId \<circ> snd) (mset (cal_events m))"

definition invite_numbers :: "cal_mgr \<Rightarrow> u64 multiset" where
  "invite_numbers m = image_mset inviteId (mset (all_invites m))"

text \<open>Every invite is stored under the number of its event, which is one of \<open>E\<close>.\<close>

definition filed_under :: "u64 set \<Rightarrow> cal_mgr \<Rightarrow> bool" where
  "filed_under E m \<longleftrightarrow> om_wf (cal_invites m) \<and> (\<forall>k iv. iv \<in> set (invites_of k m) \<longrightarrow> inv_eventId iv = k \<and> k \<in> E)"

definition events_ok :: "cal_mgr \<Rightarrow> bool" where
  "events_ok m \<longleftrightarrow> om_wf (cal_events m) \<and> pool_ok (event_numbers m) (freeEventIds m) (maxEventId m)"

definition invites_ok :: "cal_mgr \<Rightarrow> bool" where
  "invites_ok m \<longleftrightarrow> pool_ok (invite_numbers m) (freeInviteIds m) (maxInviteId m)"

definition cal_inv :: "cal_mgr \<Rightarrow> bool" where
  "cal_inv m \<longleftrightarrow> events_ok m \<and> filed_under (set_mset (event_numbers m)) m"

section \<open>Operations that only look\<close>

text \<open>Sending may create an empty list of invites, nothing else.\<close>

definition same_calendar :: "cal_mgr \<Rightarrow> cal_mgr \<Rightarrow> bool" where
  "same_calendar m m' \<longleftrightarrow>
     m' = m\<lparr>cal_invites := cal_invites m'\<rparr> \<and>
     (om_wf (cal_invites m) \<longrightarrow>
        om_wf (cal_invites m') \<and> mset (all_invites m') = mset (all_invites m) \<and> (\<forall>k. invites_of k m' = invites_of k m))"

text \<open>A reflexive and transitive relation between the states before and after an operation.\<close>

locale cal_rel =
  fixes R :: "cal_mgr \<Rightarrow> cal_mgr \<Rightarrow> bool"
  assumes R_refl: "R m m"
    and R_trans: "R m m' \<Longrightarrow> R m' m'' \<Longrightarrow> R m m''"
begin

lemma skip: "R m (fst (cal_skip m))"
  by (simp add: cal_skip_def R_refl)

lemma emit: "R m (fst (cal_emit es m))"
  by (simp add: cal_emit_def R_refl)

lemma seq: "(\<And>m. R m (fst (f m))) \<Longrightarrow> (\<And>m. R m (fst (g m))) \<Longrightarrow> R m (fst (cal_seq f g m))"
  by (simp add: cal_seq_def split_def Let_def) (rule R_trans)

end

interpretation look: cal_rel same_calendar
proof
  fix m m' m'' :: cal_mgr
  assume a: "same_calendar m m'" and b: "same_calendar m' m''"
  have "m'' = m'\<lparr>cal_invites := cal_invites m''\<rparr>" and "m' = m\<lparr>cal_invites := cal_invites m'\<rparr>"
    using a b unfolding same_calendar_def by blast+
  then have "m'' = m\<lparr>cal_invites := cal_invites m''\<rparr>"
    by (cases m; cases m'; cases m'') simp
  then show "same_calendar m m''"
    using a b unfolding same_calendar_def by metis
qed (simp add: same_calendar_def)

lemma invites_of_put: "invites_of k (put_invites j invs m) = (if k = j then invs else invites_of k m)"
  by (simp add: invites_of_def put_invites_def om_find_set)

lemma put_invites_flat:
  "om_wf (cal_invites m) \<Longrightarrow>
     mset (all_invites (put_invites k invs m)) + mset (invites_of k m) = mset (all_invites m) + mset invs"
  unfolding mset_all_invites using flat_set [of "cal_invites m" k invs] by (simp add: put_invites_def invites_of_def)

lemma touch_same [simp]: "same_calendar m (touch_invites k m)"
  using put_invites_flat [of m k "invites_of k m"]
  by (auto simp: same_calendar_def touch_invites_def invites_of_put) (simp_all add: put_invites_def)

lemma relatives_same [simp]: "same_calendar m (fst (SendPacketToAllEventRelatives env d ev m))"
  by (simp add: SendPacketToAllEventRelatives_def)

lemma send_same [simp]:
  "same_calendar m (fst (SendCalendarEventInvite env iv m))"
  "same_calendar m (fst (SendCalendarEventUpdateAlert env ev t m))"
  "same_calendar m (fst (SendCalendarEventStatus env ev iv m))"
  "same_calendar m (fst (SendCalendarEventRemovedAlert env ev m))"
  "same_calendar m (fst (SendCalendarEventInviteRemove env ev iv flags m))"
  "same_calendar m (fst (SendCalendarEventModeratorStatusAlert env ev iv m))"
  "same_calendar m (fst (SendCalendarEvent env g ev sendType m))"
  by (simp_all add: SendCalendarEventInvite_def SendCalendarEventUpdateAlert_def SendCalendarEventStatus_def
    SendCalendarEventRemovedAlert_def SendCalendarEventInviteRemove_def SendCalendarEventModeratorStatusAlert_def
    SendCalendarEvent_def Let_def look.R_refl split: option.split prod.split)

lemma error_same [simp]: "same_calendar m (fst (cal_error env s err m))"
  by (simp add: cal_error_def look.emit)

lemma same_fields:
  assumes "same_calendar m m'"
  shows "cal_events m' = cal_events m" "freeEventIds m' = freeEventIds m" "freeInviteIds m' = freeInviteIds m"
    "maxEventId m' = maxEventId m" "maxInviteId m' = maxInviteId m"
  using assms unfolding same_calendar_def by (cases m; cases m'; simp)+

lemma same_invites:
  assumes "same_calendar m m'" "om_wf (cal_invites m)"
  shows "om_wf (cal_invites m')" "mset (all_invites m') = mset (all_invites m)" "invites_of k m' = invites_of k m"
  using assms unfolding same_calendar_def by blast+

section \<open>Every operation keeps the invariant\<close>

text \<open>The part of the state that belongs to the events, and the numbers of invites that are not in use.\<close>

definition ev_part :: "cal_mgr \<Rightarrow> (u64, cal_event) omap \<times> u64 list \<times> u64" where
  "ev_part m = (cal_events m, freeEventIds m, maxEventId m)"

definition iv_pool :: "cal_mgr \<Rightarrow> u64 list \<times> u64" where
  "iv_pool m = (freeInviteIds m, maxInviteId m)"

lemma events_ok_cong: "ev_part m' = ev_part m \<Longrightarrow> events_ok m' = events_ok m"
  by (simp add: events_ok_def event_numbers_def ev_part_def)

lemma event_numbers_cong: "ev_part m' = ev_part m \<Longrightarrow> event_numbers m' = event_numbers m"
  by (simp add: event_numbers_def ev_part_def)

lemma invites_ok_cong:
  "iv_pool m' = iv_pool m \<Longrightarrow> mset (all_invites m') = mset (all_invites m) \<Longrightarrow> invites_ok m' = invites_ok m"
  by (simp add: invites_ok_def invite_numbers_def iv_pool_def)

lemma pool_ok_less: "pool_ok (add_mset i used) free hi \<Longrightarrow> pool_ok used free hi"
  unfolding pool_ok_def by (metis mset_subset_eq_add_mset_cancel mset_subset_eq_insertD subset_mset.dual_order.strict_implies_order union_mset_add_mset_left)

lemma same_parts: "same_calendar m m' \<Longrightarrow> ev_part m' = ev_part m \<and> iv_pool m' = iv_pool m"
  by (simp add: ev_part_def iv_pool_def same_fields)

lemma same_filed: "same_calendar m m' \<Longrightarrow> filed_under E m \<Longrightarrow> filed_under E m'"
  unfolding filed_under_def using same_invites by metis

lemma same_invites_ok: "same_calendar m m' \<Longrightarrow> filed_under E m \<Longrightarrow> invites_ok m' = invites_ok m"
  using same_parts same_invites(2) invites_ok_cong unfolding filed_under_def by blast

lemma put_parts [simp]: "ev_part (put_invites k invs m) = ev_part m" "iv_pool (put_invites k invs m) = iv_pool m"
  by (simp_all add: ev_part_def iv_pool_def put_invites_def)

lemma alloc_invite_parts:
  assumes "GetFreeInviteId m = (i, m1)"
  shows "ev_part m1 = ev_part m" "cal_invites m1 = cal_invites m" "cal_events m1 = cal_events m"
  using assms by (auto simp: GetFreeInviteId_def ev_part_def split: list.splits)

lemma alloc_event_parts:
  assumes "GetFreeEventId m = (i, m1)"
  shows "iv_pool m1 = iv_pool m" "cal_invites m1 = cal_invites m" "cal_events m1 = cal_events m"
  using assms by (auto simp: GetFreeEventId_def iv_pool_def split: list.splits)

lemma free_event_parts [simp]:
  "iv_pool (FreeEventId i m) = iv_pool m" "cal_invites (FreeEventId i m) = cal_invites m" "cal_events (FreeEventId i m) = cal_events m"
  by (simp_all add: FreeEventId_def iv_pool_def)

lemma free_invite_parts [simp]:
  "ev_part (FreeInviteId i m) = ev_part m" "cal_invites (FreeInviteId i m) = cal_invites m"
  by (simp_all add: FreeInviteId_def ev_part_def)

lemma filed_cong: "cal_invites m' = cal_invites m \<Longrightarrow> filed_under E m' = filed_under E m"
  by (simp add: filed_under_def invites_of_def)

lemma all_invites_cong: "cal_invites m' = cal_invites m \<Longrightarrow> all_invites m' = all_invites m"
  by (simp add: all_invites_def)

lemma filed_put:
  "filed_under E m \<Longrightarrow> (\<And>iv. iv \<in> set invs \<Longrightarrow> inv_eventId iv = k \<and> k \<in> E) \<Longrightarrow> filed_under E (put_invites k invs m)"
  by (auto simp: filed_under_def invites_of_put) (simp add: put_invites_def)

subsection \<open>Adding invites\<close>

lemma AddInvite_state:
  obtains m1 where "same_calendar m m1"
    and "fst (AddInvite env ev iv m) =
           (if IsGuildAnnouncement ev then m1 else put_invites (inv_eventId iv) (invites_of (inv_eventId iv) m1 @ [iv]) m1)"
proof (rule that [of "if IsGuildAnnouncement ev then m else fst (SendCalendarEventInvite env iv m)"])
  show "same_calendar m (if IsGuildAnnouncement ev then m else fst (SendCalendarEventInvite env iv m))"
    by (simp add: look.R_refl)
qed (simp add: AddInvite_def cal_seq_def cal_skip_def cal_emit_def split_def Let_def)

lemma AddInvite_result:
  assumes "filed_under E m" "inv_eventId iv \<in> E"
  shows "filed_under E (fst (AddInvite env ev iv m))"
    and "ev_part (fst (AddInvite env ev iv m)) = ev_part m"
    and "iv_pool (fst (AddInvite env ev iv m)) = iv_pool m"
    and "mset (all_invites (fst (AddInvite env ev iv m))) =
           (if IsGuildAnnouncement ev then mset (all_invites m) else add_mset iv (mset (all_invites m)))"
proof -
  obtain m1 where same: "same_calendar m m1"
    and eq: "fst (AddInvite env ev iv m) =
      (if IsGuildAnnouncement ev then m1 else put_invites (inv_eventId iv) (invites_of (inv_eventId iv) m1 @ [iv]) m1)"
    by (rule AddInvite_state)
  have filed: "filed_under E m1" by (rule same_filed [OF same assms(1)])
  have wf: "om_wf (cal_invites m)" "om_wf (cal_invites m1)"
    using assms(1) filed by (simp_all add: filed_under_def)
  show "filed_under E (fst (AddInvite env ev iv m))"
    unfolding eq using filed assms(2) by (auto intro!: filed_put) (auto simp: filed_under_def)
  show "ev_part (fst (AddInvite env ev iv m)) = ev_part m" "iv_pool (fst (AddInvite env ev iv m)) = iv_pool m"
    unfolding eq using same_parts [OF same] by simp_all
  show "mset (all_invites (fst (AddInvite env ev iv m))) =
      (if IsGuildAnnouncement ev then mset (all_invites m) else add_mset iv (mset (all_invites m)))"
    unfolding eq using put_invites_flat [OF wf(2), of "inv_eventId iv" "invites_of (inv_eventId iv) m1 @ [iv]"]
      same_invites(2) [OF same wf(1)] by simp
qed

lemma new_invite_result:
  assumes "filed_under E m" "\<And>i. inv_eventId (mk i) \<in> E"
  shows "filed_under E (fst (new_invite env ev mk m))"
    and "ev_part (fst (new_invite env ev mk m)) = ev_part m"
    and "unat (maxInviteId (fst (new_invite env ev mk m))) \<le> Suc (unat (maxInviteId m))"
    and "invites_ok m \<Longrightarrow> Suc (unat (maxInviteId m)) < 2 ^ 64 \<Longrightarrow> (\<And>i. inviteId (mk i) = i) \<Longrightarrow>
           invites_ok (fst (new_invite env ev mk m))"
proof -
  obtain i m1 where a: "GetFreeInviteId m = (i, m1)" by fastforce
  have eq: "fst (new_invite env ev mk m) = fst (AddInvite env ev (mk i) m1)"
    by (simp add: new_invite_def a)
  note parts = alloc_invite_parts [OF a]
  have filed: "filed_under E m1" using assms(1) parts(2) filed_cong by blast
  note add = AddInvite_result [OF filed assms(2), of env ev i]
  show "filed_under E (fst (new_invite env ev mk m))" "ev_part (fst (new_invite env ev mk m)) = ev_part m"
    unfolding eq using add parts(1) by simp_all
  have pool: "freeInviteIds (fst (AddInvite env ev (mk i) m1)) = freeInviteIds m1"
    "maxInviteId (fst (AddInvite env ev (mk i) m1)) = maxInviteId m1"
    using add(3) by (simp_all add: iv_pool_def)
  have "unat (maxInviteId m + 1) \<le> Suc (unat (maxInviteId m))"
    by (cases "1 + maxInviteId m = 0") (simp_all add: unatSuc add.commute)
  then show "unat (maxInviteId (fst (new_invite env ev mk m))) \<le> Suc (unat (maxInviteId m))"
    using invite_ids.alloc_top [OF a] by (auto simp: eq pool)
  show "invites_ok (fst (new_invite env ev mk m))"
    if ok: "invites_ok m" and room: "Suc (unat (maxInviteId m)) < 2 ^ 64" and num: "\<And>i. inviteId (mk i) = i"
  proof -
    have "maxInviteId m + 1 \<noteq> 0"
      by (rule succ_nonzero [OF room])
    then have "pool_ok (add_mset i (invite_numbers m)) (freeInviteIds m1) (maxInviteId m1)"
      using invite_ids.alloc_ok [OF _ _ a] ok by (simp add: invites_ok_def)
    then show ?thesis
      using add(4) pool_ok_less num
      by (auto simp: eq invites_ok_def invite_numbers_def pool all_invites_cong [OF parts(2)])
  qed
qed

lemma new_invites_result:
  assumes "filed_under E m" "\<And>mk i. mk \<in> set mks \<Longrightarrow> inv_eventId (mk i) \<in> E"
  shows "filed_under E (fst (new_invites env ev mks m)) \<and> ev_part (fst (new_invites env ev mks m)) = ev_part m \<and>
    (invites_ok m \<longrightarrow> unat (maxInviteId m) + length mks < 2 ^ 64 \<longrightarrow> (\<forall>mk\<in>set mks. \<forall>i. inviteId (mk i) = i) \<longrightarrow>
       invites_ok (fst (new_invites env ev mks m)))"
  using assms
proof (induction mks arbitrary: m)
  case Nil
  then show ?case by (simp add: cal_skip_def)
next
  case (Cons mk mks)
  define m1 where "m1 = fst (new_invite env ev mk m)"
  have step: "fst (new_invites env ev (mk # mks) m) = fst (new_invites env ev mks m1)"
    by (simp add: cal_seq_def split_def Let_def m1_def)
  have mk: "\<And>i. inv_eventId (mk i) \<in> E" using Cons.prems(2) by simp
  note r = new_invite_result [where mk = mk and env = env and ev = ev, OF Cons.prems(1) mk, folded m1_def]
  have IH: "filed_under E (fst (new_invites env ev mks m1)) \<and> ev_part (fst (new_invites env ev mks m1)) = ev_part m1 \<and>
    (invites_ok m1 \<longrightarrow> unat (maxInviteId m1) + length mks < 2 ^ 64 \<longrightarrow> (\<forall>mk\<in>set mks. \<forall>i. inviteId (mk i) = i) \<longrightarrow>
       invites_ok (fst (new_invites env ev mks m1)))"
    by (rule Cons.IH [OF r(1)]) (use Cons.prems(2) in simp)
  show ?case
    unfolding step using IH r by auto
qed

subsection \<open>Events\<close>

lemma find_event_Some:
  "om_wf (cal_events m) \<Longrightarrow> find_event i m = Some (a, ev) \<Longrightarrow> om_find (cal_events m) a = Some ev \<and> eventId ev = i"
  unfolding find_event_def by (auto simp: find_Some_iff intro!: om_in_find) (metis nth_mem)

lemma find_event_None: "find_event i m = None \<longleftrightarrow> i \<notin># event_numbers m"
proof -
  have "find_event i m = None \<longleftrightarrow> (\<forall>x\<in>set (cal_events m). eventId (snd x) \<noteq> i)"
    by (auto simp: find_event_def find_None_iff Ball_def)
  then show ?thesis by (auto simp: event_numbers_def)
qed

lemma GetEvent_None: "GetEvent i m = None \<longleftrightarrow> i \<notin># event_numbers m"
  by (simp add: GetEvent_def find_event_None)

lemma AddEvent_result:
  assumes "filed_under E m"
  shows "filed_under E (fst (AddEvent env a ev sendType m))"
    and "iv_pool (fst (AddEvent env a ev sendType m)) = iv_pool m"
    and "mset (all_invites (fst (AddEvent env a ev sendType m))) = mset (all_invites m)"
    and "ev_part (fst (AddEvent env a ev sendType m)) = (om_set a ev (cal_events m), freeEventIds m, maxEventId m)"
proof -
  define m1 where "m1 = m\<lparr>cal_events := om_set a ev (cal_events m)\<rparr>"
  have eq: "fst (AddEvent env a ev sendType m) = fst (SendCalendarEvent env (creatorGUID ev) ev sendType m1)"
    by (simp add: AddEvent_def cal_seq_def cal_emit_def split_def Let_def m1_def)
  have same: "same_calendar m1 (fst (AddEvent env a ev sendType m))"
    by (simp add: eq)
  have "filed_under E m1" using assms filed_cong [of m1 m] by (simp add: m1_def)
  then show "filed_under E (fst (AddEvent env a ev sendType m))"
    "mset (all_invites (fst (AddEvent env a ev sendType m))) = mset (all_invites m)"
    using same_filed [OF same] same_invites(2) [OF same] all_invites_cong [of m1 m]
    by (auto simp: filed_under_def m1_def)
  show "iv_pool (fst (AddEvent env a ev sendType m)) = iv_pool m"
    "ev_part (fst (AddEvent env a ev sendType m)) = (om_set a ev (cal_events m), freeEventIds m, maxEventId m)"
    using same_parts [OF same] by (simp_all add: m1_def iv_pool_def ev_part_def)
qed

text \<open>An event with a newly allocated number, added once the invites are in place.\<close>

lemma new_event_ok:
  assumes "events_ok m" "Suc (unat (maxEventId m)) < 2 ^ 64" "om_find (cal_events m) a = None"
    and a: "GetFreeEventId m = (eventId ev, m1)" and m2: "ev_part m2 = ev_part m1"
    and m3: "ev_part m3 = (om_set a ev (cal_events m2), freeEventIds m2, maxEventId m2)"
  shows "events_ok m3" and "event_numbers m3 = add_mset (eventId ev) (event_numbers m)"
proof -
  have ev: "cal_events m2 = cal_events m"
    using m2 alloc_event_parts(3) [OF a] by (simp add: ev_part_def)
  show num: "event_numbers m3 = add_mset (eventId ev) (event_numbers m)"
    using m3 om_set_new [OF assms(3), of ev] by (simp add: event_numbers_def ev ev_part_def)
  have "pool_ok (add_mset (eventId ev) (event_numbers m)) (freeEventIds m1) (maxEventId m1)"
    using event_ids.alloc_ok [OF _ _ a] succ_nonzero [OF assms(2)] assms(1) by (simp add: events_ok_def)
  then show "events_ok m3"
    using m2 m3 num ev assms(1) by (simp add: events_ok_def ev_part_def)
qed

lemma store_event_ok:
  assumes "events_ok m" "om_find (cal_events m) a = Some ev" "eventId ev' = eventId ev"
  shows "events_ok (store_event a ev' m)" and "event_numbers (store_event a ev' m) = event_numbers m"
proof -
  have wf: "om_wf (cal_events m)" using assms(1) by (simp add: events_ok_def)
  have "image_mset (eventId \<circ> snd) (add_mset (a, ev) (mset (om_set a ev' (cal_events m)))) =
        image_mset (eventId \<circ> snd) (add_mset (a, ev') (mset (cal_events m)))"
    by (simp only: om_set_old [OF wf assms(2)])
  then show num: "event_numbers (store_event a ev' m) = event_numbers m"
    by (simp add: event_numbers_def store_event_def assms(3))
  then show "events_ok (store_event a ev' m)"
    using assms(1) wf by (simp add: events_ok_def) (simp add: store_event_def)
qed

subsection \<open>Removing an event\<close>

lemma free_invites_parts:
  "ev_part (fold (\<lambda>iv. FreeInviteId (inviteId iv)) invs m) = ev_part m \<and>
   cal_invites (fold (\<lambda>iv. FreeInviteId (inviteId iv)) invs m) = cal_invites m"
  by (induction invs arbitrary: m) simp_all

lemma free_invites_pool:
  "iv_pool x = iv_pool y \<Longrightarrow> iv_pool (fold FreeInviteId is x) = iv_pool (fold FreeInviteId is y)"
proof (induction "is" arbitrary: x y)
  case (Cons j js)
  have "iv_pool (FreeInviteId j x) = iv_pool (FreeInviteId j y)"
    using Cons.prems by (simp add: iv_pool_def FreeInviteId_def)
  then show ?case using Cons.IH [of "FreeInviteId j x" "FreeInviteId j y"] by simp
qed simp

lemma RemoveEvent_fields:
  fixes env remover
  assumes wf: "om_wf (cal_invites m)" and found: "find_event i m = Some (a, ev)"
  defines "m' \<equiv> fst (RemoveEvent env i remover m)"
  shows "ev_part m' = (om_erase a (cal_events m), freeEventIds (FreeEventId (eventId ev) m), maxEventId (FreeEventId (eventId ev) m))"
    and "iv_pool m' = iv_pool (fold FreeInviteId (map inviteId (invites_of i m)) m)"
    and "om_wf (cal_invites m')"
    and "invites_of k m' = (if k = i then [] else invites_of k m)"
    and "mset (all_invites m') + mset (invites_of i m) = mset (all_invites m)"
proof -
  define m1 where "m1 = fst (SendCalendarEventRemovedAlert env ev m)"
  define m2 where "m2 = fold (\<lambda>iv. FreeInviteId (inviteId iv)) (invites_of i m1) m1"
  define m3 where "m3 = FreeEventId (eventId ev) (m2\<lparr>cal_invites := om_erase i (cal_invites m2)\<rparr>)"
  have eq: "m' = m3\<lparr>cal_events := om_erase a (cal_events m3)\<rparr>"
    by (simp add: m'_def RemoveEvent_def found Let_def split_def m1_def m2_def m3_def)
  have same: "same_calendar m m1" by (simp add: m1_def)
  note inv = same_invites [OF same wf]
  have p2: "ev_part m2 = ev_part m" "cal_invites m2 = cal_invites m1"
    using free_invites_parts [of "invites_of i m1" m1] same_parts [OF same] by (simp_all add: m2_def)
  show "ev_part m' = (om_erase a (cal_events m), freeEventIds (FreeEventId (eventId ev) m), maxEventId (FreeEventId (eventId ev) m))"
    using p2(1) by (simp add: eq m3_def ev_part_def FreeEventId_def)
  have ci: "cal_invites m' = om_erase i (cal_invites m1)"
    by (simp add: eq m3_def p2)
  show "om_wf (cal_invites m')" by (simp add: ci inv(1))
  show "invites_of k m' = (if k = i then [] else invites_of k m)"
    using inv(3) [of k] om_find_erase [OF inv(1), of i k] by (simp add: invites_of_def ci)
  have "flat (om_erase i (cal_invites m1)) + mset (invites_of i m1) = flat (cal_invites m1)"
    using flat_erase [of i "cal_invites m1"] by (simp add: invites_of_def)
  then show "mset (all_invites m') + mset (invites_of i m) = mset (all_invites m)"
    using inv(2,3) by (simp add: mset_all_invites ci)
  have "iv_pool m' = iv_pool m2"
    by (simp add: eq m3_def iv_pool_def FreeEventId_def)
  also have "m2 = fold FreeInviteId (map inviteId (invites_of i m)) m1"
    by (simp add: m2_def inv(3) fold_map comp_def)
  also have "iv_pool \<dots> = iv_pool (fold FreeInviteId (map inviteId (invites_of i m)) m)"
    by (rule free_invites_pool) (use same_parts [OF same] in simp)
  finally show "iv_pool m' = iv_pool (fold FreeInviteId (map inviteId (invites_of i m)) m)" .
qed

lemma RemoveEvent_missing: "find_event i m = None \<Longrightarrow> fst (RemoveEvent env i remover m) = m"
  by (simp add: RemoveEvent_def)

lemma RemoveEvent_numbers:
  assumes "events_ok m" "om_wf (cal_invites m)" "find_event i m = Some (a, ev)"
  shows "event_numbers (fst (RemoveEvent env i remover m)) = event_numbers m - {#i#}"
    and "events_ok (fst (RemoveEvent env i remover m))"
proof -
  let ?m = "fst (RemoveEvent env i remover m)"
  have wf: "om_wf (cal_events m)" using assms(1) by (simp add: events_ok_def)
  note ev = find_event_Some [OF wf assms(3)]
  note r = RemoveEvent_fields(1) [OF assms(2,3), of env remover]
  have "mset (cal_events m) = add_mset (a, ev) (mset (om_erase a (cal_events m)))"
    using ev om_erase_old [of "cal_events m" a ev] by simp
  then show num: "event_numbers ?m = event_numbers m - {#i#}"
    using r ev by (simp add: event_numbers_def ev_part_def)
  have "i \<in># event_numbers m"
    using find_event_None [of i m] assms(3) by auto
  then have "pool_ok (event_numbers m - {#i#}) (freeEventIds (FreeEventId i m)) (maxEventId (FreeEventId i m))"
    using event_ids.release_ok assms(1) by (simp add: events_ok_def)
  then show "events_ok ?m"
    using r num ev wf by (simp add: events_ok_def ev_part_def)
qed

lemma RemoveEvent_keeps:
  assumes inv: "cal_inv m"
  shows "cal_inv (fst (RemoveEvent env i remover m))"
    and "invites_ok m \<Longrightarrow> invites_ok (fst (RemoveEvent env i remover m))"
proof -
  let ?m = "fst (RemoveEvent env i remover m)"
  have ok: "events_ok m" and filed: "filed_under (set_mset (event_numbers m)) m" and wf: "om_wf (cal_invites m)"
    using inv by (auto simp: cal_inv_def filed_under_def)
  have "cal_inv ?m \<and> (invites_ok m \<longrightarrow> invites_ok ?m)"
  proof (cases "find_event i m")
    case None
    then show ?thesis using inv by (simp add: RemoveEvent_missing)
  next
    case (Some ae)
    obtain a ev where found: "find_event i m = Some (a, ev)" using Some by (cases ae) simp
    note r = RemoveEvent_fields [OF wf found, where env = env and remover = remover] and n = RemoveEvent_numbers [OF ok wf found, of env remover]
    have "k \<in># event_numbers m - {#i#}" if "k \<in># event_numbers m" "k \<noteq> i" for k
      using that by (simp add: in_diff_count)
    then have "filed_under (set_mset (event_numbers ?m)) ?m"
      using filed n(1) r(3,4) by (auto simp: filed_under_def)
    moreover have "invites_ok ?m" if iv: "invites_ok m"
    proof -
      have sub: "mset (map inviteId (invites_of i m)) \<subseteq># invite_numbers m"
        using image_mset_subseteq_mono [of "mset (invites_of i m)" "mset (all_invites m)" inviteId] r(5)
        unfolding invite_numbers_def by (metis mset_map mset_subset_eq_add_right)
      have "invite_numbers ?m = invite_numbers m - mset (map inviteId (invites_of i m))"
        unfolding invite_numbers_def r(5) [symmetric] by simp
      then show ?thesis
        using invite_ids.release_all_ok [OF _ sub] iv r(2) by (simp add: invites_ok_def iv_pool_def)
    qed
    ultimately show ?thesis
      using n(2) by (simp add: cal_inv_def)
  qed
  then show "cal_inv ?m" and "invites_ok m \<Longrightarrow> invites_ok ?m" by blast+
qed

subsection \<open>Removing and changing an invite\<close>

lemma drop_invite_mset:
  "find (\<lambda>iv. inviteId iv = i) invs = Some iv \<Longrightarrow> add_mset iv (mset (drop_invite i invs)) = mset invs"
  by (induction i invs rule: drop_invite.induct) (auto simp: add_mset_commute split: if_splits)

lemma RemoveInvite_cases:
  assumes filed: "filed_under E m"
  obtains (nothing) "same_calendar m (fst (RemoveInvite env i ei m))"
    "ei \<in># event_numbers m \<Longrightarrow> find (\<lambda>iv. inviteId iv = i) (invites_of ei m) = None"
  | (removed) iv m1 where "find (\<lambda>iv. inviteId iv = i) (invites_of ei m) = Some iv" "same_calendar m m1"
    "fst (RemoveInvite env i ei m) = put_invites ei (drop_invite i (invites_of ei m)) (FreeInviteId i m1)"
proof (cases "GetEvent ei m")
  case None
  have "fst (RemoveInvite env i ei m) = m"
    using None by (simp add: RemoveInvite_def)
  then show ?thesis
    using None by - (rule nothing, simp_all add: look.R_refl GetEvent_None)
next
  case (Some ev)
  define m0 where "m0 = touch_invites ei m"
  have s0: "same_calendar m m0" by (simp add: m0_def)
  have wf: "om_wf (cal_invites m)" using filed by (simp add: filed_under_def)
  have i0: "invites_of ei m0 = invites_of ei m" by (rule same_invites(3) [OF s0 wf])
  show ?thesis
  proof (cases "find (\<lambda>iv. inviteId iv = i) (invites_of ei m)")
    case None
    then have "fst (RemoveInvite env i ei m) = m0"
      using Some i0 by (simp add: RemoveInvite_def Let_def m0_def)
    then show ?thesis
      using None s0 by - (rule nothing, simp_all)
  next
    case (Some iv)
    define m1 where "m1 = fst (SendCalendarEventInviteRemove env ev iv (ev_flags ev) m0)"
    have s1: "same_calendar m m1"
      using look.R_trans [OF s0] by (simp add: m1_def)
    have i1: "invites_of ei m1 = invites_of ei m" by (rule same_invites(3) [OF s1 wf])
    have id: "inviteId iv = i" using Some by (auto simp: find_Some_iff)
    have "fst (RemoveInvite env i ei m) = put_invites ei (drop_invite i (invites_of ei (FreeInviteId i m1))) (FreeInviteId i m1)"
      using \<open>GetEvent ei m = Some ev\<close> Some i0 id by (simp add: RemoveInvite_def Let_def split_def m0_def m1_def)
    moreover have "invites_of ei (FreeInviteId i m1) = invites_of ei m"
      using i1 by (simp add: invites_of_def)
    ultimately show ?thesis
      using removed [OF Some s1] by simp
  qed
qed

lemma RemoveInvite_keeps:
  assumes filed: "filed_under E m"
  shows "filed_under E (fst (RemoveInvite env i ei m))"
    and "ev_part (fst (RemoveInvite env i ei m)) = ev_part m"
    and "invites_ok m \<Longrightarrow> invites_ok (fst (RemoveInvite env i ei m))"
proof -
  let ?m = "fst (RemoveInvite env i ei m)"
  have "filed_under E ?m \<and> ev_part ?m = ev_part m \<and> (invites_ok m \<longrightarrow> invites_ok ?m)"
  proof (rule RemoveInvite_cases [OF filed, of env i ei])
    assume same: "same_calendar m ?m"
    show ?thesis
      using same_filed [OF same filed] same_parts [OF same] same_invites_ok [OF same filed] by simp
  next
    fix iv m1
    assume iv: "find (\<lambda>iv. inviteId iv = i) (invites_of ei m) = Some iv" and same: "same_calendar m m1"
      and eq: "?m = put_invites ei (drop_invite i (invites_of ei m)) (FreeInviteId i m1)"
    have id: "inviteId iv = i" using iv by (auto simp: find_Some_iff)
    have f1: "filed_under E m1" by (rule same_filed [OF same filed])
    then have f2: "filed_under E (FreeInviteId i m1)" using filed_cong [of "FreeInviteId i m1" m1] by simp
    have wf: "om_wf (cal_invites m)" "om_wf (cal_invites (FreeInviteId i m1))"
      using filed f1 by (simp_all add: filed_under_def)
    have "set (drop_invite i (invites_of ei m)) \<subseteq> set (invites_of ei m)"
      using arg_cong [OF drop_invite_mset [OF iv], of set_mset] by auto
    then have "filed_under E ?m"
      unfolding eq by (intro filed_put [OF f2]) (use filed in \<open>auto simp: filed_under_def\<close>)
    moreover have "ev_part ?m = ev_part m"
      using same_parts [OF same] by (simp add: eq)
    moreover have "invites_ok ?m" if ok: "invites_ok m"
    proof -
      have same_all: "invites_of ei (FreeInviteId i m1) = invites_of ei m" "mset (all_invites (FreeInviteId i m1)) = mset (all_invites m)"
        using same_invites [OF same wf(1)] by (simp_all add: invites_of_def all_invites_cong [of "FreeInviteId i m1" m1])
      have "add_mset iv (mset (all_invites ?m)) = mset (all_invites m)"
        using put_invites_flat [OF wf(2), of ei "drop_invite i (invites_of ei m)"]
        unfolding eq same_all drop_invite_mset [OF iv, symmetric] by simp
      then have num: "add_mset i (invite_numbers ?m) = invite_numbers m"
        unfolding invite_numbers_def id [symmetric] image_mset_add_mset [symmetric] by (rule arg_cong)
      then have "pool_ok (invite_numbers m - {#i#}) (freeInviteIds (FreeInviteId i m)) (maxInviteId (FreeInviteId i m))"
        using invite_ids.release_ok [of "invite_numbers m" m i] ok by (simp add: invites_ok_def flip: num)
      moreover have "iv_pool ?m = iv_pool (FreeInviteId i m)"
        using free_invites_pool [of m1 m "[i]"] same_parts [OF same] by (simp add: eq)
      ultimately show ?thesis
        by (simp add: invites_ok_def iv_pool_def flip: num)
    qed
    ultimately show ?thesis by blast
  qed
  then show "filed_under E ?m" "ev_part ?m = ev_part m" "invites_ok m \<Longrightarrow> invites_ok ?m" by blast+
qed

lemma change_first_set:
  "iv \<in> set (change_first i f invs) \<Longrightarrow> (\<exists>iv0\<in>set invs. iv = iv0 \<or> iv = f iv0)"
  by (induction i f invs rule: change_first.induct) (auto split: if_splits)

lemma change_first_ids: "(\<And>iv. inviteId (f iv) = inviteId iv) \<Longrightarrow> map inviteId (change_first i f invs) = map inviteId invs"
  by (induction i f invs rule: change_first.induct) auto

lemma change_invites_keys: "map fst (change_invites i f m) = map fst m"
  by (induction i f m rule: change_invites.induct) auto

lemma change_invites_find:
  "om_find (change_invites i f m) k = Some invs \<Longrightarrow> \<exists>invs0. om_find m k = Some invs0 \<and> (invs = invs0 \<or> invs = change_first i f invs0)"
  by (induction i f m rule: change_invites.induct) (auto simp: om_find_def split: if_splits)

lemma change_invites_ids:
  "(\<And>iv. inviteId (f iv) = inviteId iv) \<Longrightarrow> image_mset inviteId (flat (change_invites i f m)) = image_mset inviteId (flat m)"
proof (induction i f m rule: change_invites.induct)
  case (2 i f k invs m)
  have "image_mset inviteId (mset (change_first i f invs)) = image_mset inviteId (mset invs)"
    using change_first_ids [of f i invs] 2(2) by (metis mset_map)
  then show ?case using 2 by (simp add: flat_def)
qed (simp add: flat_def)

lemma change_invite_keeps:
  assumes "filed_under E m" and id: "\<And>iv. inviteId (f iv) = inviteId iv" and ev: "\<And>iv. inv_eventId (f iv) = inv_eventId iv"
  shows "filed_under E (change_invite i f m)" and "ev_part (change_invite i f m) = ev_part m"
    and "invites_ok (change_invite i f m) = invites_ok m"
proof -
  show "ev_part (change_invite i f m) = ev_part m"
    by (simp add: change_invite_def ev_part_def)
  show "invites_ok (change_invite i f m) = invites_ok m"
    using change_invites_ids [of f i "cal_invites m", OF id]
    by (simp add: invites_ok_def invite_numbers_def mset_all_invites) (simp add: change_invite_def)
  have "om_wf (cal_invites (change_invite i f m))"
    using assms(1) by (simp add: filed_under_def om_wf_def change_invite_def change_invites_keys)
  moreover have "inv_eventId iv = k \<and> k \<in> E" if iv: "iv \<in> set (invites_of k (change_invite i f m))" for k iv
  proof -
    obtain invs where "om_find (change_invites i f (cal_invites m)) k = Some invs" "iv \<in> set invs"
      using iv by (cases "om_find (change_invites i f (cal_invites m)) k") (simp_all add: invites_of_def change_invite_def)
    then obtain invs0 where 0: "om_find (cal_invites m) k = Some invs0" "invs = invs0 \<or> invs = change_first i f invs0"
      using change_invites_find by blast
    then obtain iv0 where "iv0 \<in> set (invites_of k m)" "iv = iv0 \<or> iv = f iv0"
      using \<open>iv \<in> set invs\<close> change_first_set by (fastforce simp: invites_of_def)
    then show ?thesis using assms(1) ev by (auto simp: filed_under_def)
  qed
  ultimately show "filed_under E (change_invite i f m)"
    by (simp add: filed_under_def)
qed

end
