(* ===== verification/CalendarMachine.thy ===== *)
theory CalendarMachine
  imports CalendarSpec
begin

text \<open>
  The calendar as a state machine: the loaded state, the packets that change it and the removal of players, with its
  properties. The read-only packets of \<open>CalendarHandler\<close> leave the state alone by definition.
\<close>

section \<open>Composition\<close>

definition cal_keeps :: "cal_mgr \<Rightarrow> cal_mgr \<Rightarrow> bool" where
  "cal_keeps m m' \<longleftrightarrow> (cal_inv m \<longrightarrow> cal_inv m' \<and> (invites_ok m \<longrightarrow> invites_ok m'))"

interpretation keep: cal_rel cal_keeps
  by unfold_locales (auto simp: cal_keeps_def)

lemma cal_keepsI: "(cal_inv m \<Longrightarrow> cal_inv m') \<Longrightarrow> (cal_inv m \<Longrightarrow> invites_ok m \<Longrightarrow> invites_ok m') \<Longrightarrow> cal_keeps m m'"
  by (simp add: cal_keeps_def)

lemma RemoveEvent_cal_keeps: "cal_keeps m (fst (RemoveEvent env i remover m))"
  by (rule cal_keepsI) (blast intro: RemoveEvent_keeps)+

lemma frame_keeps:
  assumes "ev_part m' = ev_part m" "\<And>E. filed_under E m \<Longrightarrow> filed_under E m'"
    "\<And>E. filed_under E m \<Longrightarrow> invites_ok m \<Longrightarrow> invites_ok m'"
  shows "cal_keeps m m'"
  using assms events_ok_cong [OF assms(1)] event_numbers_cong [OF assms(1)]
  by (intro cal_keepsI) (auto simp: cal_inv_def)

lemma same_keeps: "same_calendar m m' \<Longrightarrow> cal_keeps m m'"
  by (rule frame_keeps) (auto simp: same_parts same_filed same_invites_ok)

lemma RemoveInvite_cal_keeps: "cal_keeps m (fst (RemoveInvite env i ei m))"
proof (cases "\<exists>E. filed_under E m")
  case True
  then obtain E where "filed_under E m" by blast
  then show ?thesis
    by (intro frame_keeps RemoveInvite_keeps(2)) (auto intro: RemoveInvite_keeps)
qed (auto simp: cal_keeps_def cal_inv_def)

lemma change_cal_keeps:
  assumes "\<And>iv. inviteId (f iv) = inviteId iv" "\<And>iv. inv_eventId (f iv) = inv_eventId iv"
  shows "cal_keeps m (change_invite i f m)"
proof (cases "\<exists>E. filed_under E m")
  case True
  then obtain E where E: "filed_under E m" by blast
  note c = change_invite_keeps [OF _ assms]
  show ?thesis
    by (rule frame_keeps [OF c(2) [OF E]]) (auto intro: c(1) simp: c(3))
qed (auto simp: cal_keeps_def cal_inv_def)

lemma new_invite_cal_keeps:
  assumes "\<And>i. inv_eventId (mk i) = ei" "\<And>i. inviteId (mk i) = i" "GetEvent ei m \<noteq> None" "Suc (unat (maxInviteId m)) < 2 ^ 64"
  shows "cal_keeps m (fst (new_invite env ev mk m))"
proof (rule cal_keepsI)
  assume inv: "cal_inv m"
  have "\<And>i. inv_eventId (mk i) \<in> set_mset (event_numbers m)"
    using assms(1,3) by (simp add: GetEvent_None)
  then have r: "filed_under (set_mset (event_numbers m)) (fst (new_invite env ev mk m))"
      "ev_part (fst (new_invite env ev mk m)) = ev_part m"
      "invites_ok m \<Longrightarrow> invites_ok (fst (new_invite env ev mk m))"
    using new_invite_result [where mk = mk and env = env and ev = ev and m = m and E = "set_mset (event_numbers m)"] inv assms(2,4)
    by (auto simp: cal_inv_def)
  show "cal_inv (fst (new_invite env ev mk m))"
    using inv r(1) events_ok_cong [OF r(2)] event_numbers_cong [OF r(2)] by (simp add: cal_inv_def)
  show "invites_ok (fst (new_invite env ev mk m))" if "invites_ok m"
    using r(3) that .
qed

lemma remove_created_keeps: "remove_created env P remover as m = Some (m', es) \<Longrightarrow> cal_keeps m m'"
proof (induction env P remover as m arbitrary: m' es rule: remove_created.induct)
  case (2 env P remover a as m)
  show ?case
  proof (cases "om_find (cal_events m) a")
    case None
    then show ?thesis using 2 by simp
  next
    case (Some ev)
    show ?thesis
    proof (cases "P ev")
      case True
      obtain m1 e1 where r: "RemoveEvent env (eventId ev) remover m = (m1, e1)" by fastforce
      then obtain e2 where "remove_created env P remover as m1 = Some (m', e2)"
        using 2(4) Some True by (auto split: if_splits option.splits)
      then have "cal_keeps m1 m'"
        using 2(2) [OF Some True r [symmetric] refl] 2(4) r Some True by (simp split: if_splits)
      then show ?thesis
        using keep.R_trans RemoveEvent_cal_keeps [of m env "eventId ev" remover] r by (metis fst_conv)
    next
      case False
      then show ?thesis using 2(3) [OF Some] 2(4) Some by simp
    qed
  qed
qed (simp add: keep.R_refl)

lemma remove_signups_keeps: "cal_keeps m (fst (remove_signups env P invs m))"
proof (induction invs arbitrary: m)
  case Nil
  then show ?case by (simp add: keep.skip)
next
  case (Cons iv invs)
  show ?case
    unfolding remove_signups.simps
    by (rule keep.seq [OF _ Cons.IH]) (simp add: RemoveInvite_cal_keeps keep.R_refl)
qed

lemma remove_then:
  "(case x of None \<Rightarrow> None | Some (m1, e1) \<Rightarrow> let (m2, e2) = remove_signups env P (f m1) m1 in Some (m2, e1 @ e2)) = Some (m', es)
     \<Longrightarrow> \<exists>m1 e1. x = Some (m1, e1) \<and> m' = fst (remove_signups env P (f m1) m1)"
  by (cases x) (auto simp: split_def Let_def)

lemma remove_player_keeps:
  "RemoveAllPlayerEventsAndInvites env g m = Some (m', es) \<Longrightarrow> cal_keeps m m'"
  "RemovePlayerGuildEventsAndSignups env g guild m = Some (m', es) \<Longrightarrow> cal_keeps m m'"
  unfolding RemoveAllPlayerEventsAndInvites_def RemovePlayerGuildEventsAndSignups_def
  by (auto dest!: remove_then remove_created_keeps intro: keep.R_trans remove_signups_keeps)

section \<open>Steps\<close>

datatype cal_request =
    ReqGetEvent byte_buffer
  | ReqAddEvent u64 byte_buffer
  | ReqUpdateEvent byte_buffer
  | ReqRemoveEvent byte_buffer
  | ReqCopyEvent u64 byte_buffer
  | ReqInvite byte_buffer
  | ReqSignup byte_buffer
  | ReqRsvp byte_buffer
  | ReqRemoveInvite byte_buffer
  | ReqStatus byte_buffer
  | ReqModerator byte_buffer
  | RemovePlayer guid
  | RemoveGuildMember guid u32

text \<open>The state after a request, unless it uses an invalid iterator.\<close>

fun cal_handle :: "cal_env \<Rightarrow> cal_session \<Rightarrow> cal_request \<Rightarrow> cal_mgr \<Rightarrow> cal_mgr option" where
  "cal_handle env s (ReqGetEvent d) m = Some (fst (snd (HandleCalendarGetEvent env s d m)))"
| "cal_handle env s (ReqAddEvent a d) m = Some (fst (snd (HandleCalendarAddEvent env s a d m)))"
| "cal_handle env s (ReqUpdateEvent d) m = Some (fst (snd (HandleCalendarUpdateEvent env s d m)))"
| "cal_handle env s (ReqRemoveEvent d) m = Some (fst (snd (HandleCalendarRemoveEvent env s d m)))"
| "cal_handle env s (ReqCopyEvent a d) m = Some (fst (snd (HandleCalendarCopyEvent env s a d m)))"
| "cal_handle env s (ReqInvite d) m = Some (fst (snd (HandleCalendarEventInvite env s d m)))"
| "cal_handle env s (ReqSignup d) m = Some (fst (snd (HandleCalendarEventSignup env s d m)))"
| "cal_handle env s (ReqRsvp d) m = Some (fst (snd (HandleCalendarEventRsvp env s d m)))"
| "cal_handle env s (ReqRemoveInvite d) m = Some (fst (snd (HandleCalendarEventRemoveInvite env s d m)))"
| "cal_handle env s (ReqStatus d) m = Some (fst (snd (HandleCalendarEventStatus env s d m)))"
| "cal_handle env s (ReqModerator d) m = Some (fst (snd (HandleCalendarEventModeratorStatus env s d m)))"
| "cal_handle env s (RemovePlayer g) m = map_option fst (RemoveAllPlayerEventsAndInvites env g m)"
| "cal_handle env s (RemoveGuildMember g guild) m = map_option fst (RemovePlayerGuildEventsAndSignups env g guild m)"

text \<open>The address of a new event is not one of a live event.\<close>

fun fresh_address :: "cal_request \<Rightarrow> cal_mgr \<Rightarrow> bool" where
  "fresh_address (ReqAddEvent a d) m = (om_find (cal_events m) a = None)"
| "fresh_address (ReqCopyEvent a d) m = (om_find (cal_events m) a = None)"
| "fresh_address _ m = True"

text \<open>The packet announces something to the guild: an event without invites.\<close>

fun announces :: "cal_env \<Rightarrow> cal_request \<Rightarrow> bool" where
  "announces env (ReqAddEvent a d) =
     (case parse_event env d of
        Inl e \<Rightarrow> False
      | Inr ((title, description, type, dungeon, time, time2, flags), rest) \<Rightarrow> has_flag flags CALENDAR_FLAG_WITHOUT_INVITES)"
| "announces env _ = False"

text \<open>The 64-bit counters have room for one more event and for the invites of one more packet.\<close>

definition cal_room :: "cal_mgr \<Rightarrow> bool" where
  "cal_room m \<longleftrightarrow> Suc (unat (maxEventId m)) < 2 ^ 64 \<and> unat (maxInviteId m) + length (all_invites m) + 100 < 2 ^ 64"

inductive cal_step :: "cal_mgr \<Rightarrow> cal_env \<times> cal_session \<times> cal_request \<Rightarrow> cal_mgr \<Rightarrow> bool" where
  cal_stepI: "cal_room m \<Longrightarrow> fresh_address req m \<Longrightarrow> cal_handle env s req m = Some m' \<Longrightarrow> cal_step m (env, s, req) m'"

inductive_cases cal_stepE: "cal_step m (env, s, req) m'"

definition quiet_step :: "cal_mgr \<Rightarrow> cal_env \<times> cal_session \<times> cal_request \<Rightarrow> cal_mgr \<Rightarrow> bool" where
  "quiet_step m e m' \<longleftrightarrow> cal_step m e m' \<and> \<not> announces (fst e) (snd (snd e))"

section \<open>Every packet keeps the invariant\<close>

lemma cal_parse_state:
  "(\<And>x rest. p d = Inr (x, rest) \<Longrightarrow> P (fst (snd (k x rest m)))) \<Longrightarrow> P m \<Longrightarrow> P (fst (snd (cal_parse p d k m)))"
  by (simp add: cal_parse_def split: sum.split)

lemma run_state [simp]: "fst (snd (cal_run f m)) = fst (f m)"
  by (simp add: cal_run_def)

lemma run_error_keeps [simp]: "cal_keeps m (fst (cal_error env s err m))"
  by (simp add: same_keeps)

lemma update_invite_keeps:
  assumes "\<And>iv. inviteId (f iv) = inviteId iv" "\<And>iv. inv_eventId (f iv) = inv_eventId iv" "\<And>iv m. same_calendar m (fst (after iv m))"
  shows "cal_keeps m (fst (update_invite env s iid f after m))"
proof (cases "GetInvite iid m")
  case (Some iv)
  have "fst (update_invite env s iid f after m) = fst (after (f iv) (change_invite iid f m))"
    using Some by (simp add: update_invite_def cal_seq_def cal_emit_def split_def Let_def)
  then show ?thesis
    using keep.R_trans [OF change_cal_keeps [OF assms(1,2)] same_keeps [OF assms(3)]] by simp
qed (simp add: update_invite_def)

lemma emit_same: "same_calendar m (fst (cal_emit es m))"
  by (rule look.emit)

lemma status_keeps:
  "cal_keeps m (fst (update_invite env s iid (\<lambda>iv. iv\<lparr>inv_status := status, statusTime := t\<rparr>)
     (\<lambda>iv. cal_seq (SendCalendarEventStatus env ev iv) (cal_emit es)) m))"
  "cal_keeps m (fst (update_invite env s iid (\<lambda>iv. iv\<lparr>inv_status := status\<rparr>)
     (\<lambda>iv. cal_seq (SendCalendarEventStatus env ev iv) (cal_emit es)) m))"
  "cal_keeps m (fst (update_invite env s iid (\<lambda>iv. iv\<lparr>inv_rank := rank\<rparr>)
     (\<lambda>iv. SendCalendarEventModeratorStatusAlert env ev iv) m))"
  by (rule update_invite_keeps; simp add: look.seq emit_same)+

lemmas cal_handlers = HandleCalendarGetEvent_def HandleCalendarRemoveEvent_def HandleCalendarEventRemoveInvite_def
  HandleCalendarEventRsvp_def HandleCalendarEventStatus_def HandleCalendarEventModeratorStatus_def

lemma simple_packets_keep:
  "cal_keeps m (fst (snd (HandleCalendarGetEvent env s d m)))"
  "cal_keeps m (fst (snd (HandleCalendarRemoveEvent env s d m)))"
  "cal_keeps m (fst (snd (HandleCalendarEventRemoveInvite env s d m)))"
  "cal_keeps m (fst (snd (HandleCalendarEventRsvp env s d m)))"
  "cal_keeps m (fst (snd (HandleCalendarEventStatus env s d m)))"
  "cal_keeps m (fst (snd (HandleCalendarEventModeratorStatus env s d m)))"
  unfolding cal_handlers
  by (rule cal_parse_state; simp add: keep.R_refl RemoveEvent_cal_keeps RemoveInvite_cal_keeps status_keeps same_keeps
      split: option.split prod.split)+

lemma Update_keeps: "cal_keeps m (fst (snd (HandleCalendarUpdateEvent env s d m)))"
  unfolding HandleCalendarUpdateEvent_def
proof (rule cal_parse_state, goal_cases)
  case (1 x rest)
  obtain i title description type dungeon time time2 flags where x: "x = (i, title, description, type, dungeon, time, time2, flags)"
    by (cases x) auto
  show ?case
  proof (cases "in_the_past env time \<or> find_event i m = None")
    case True
    then show ?thesis by (auto simp: x keep.skip)
  next
    case False
    then obtain a ev where found: "find_event i m = Some (a, ev)" by auto
    define ev' where "ev' = ev\<lparr>ev_type := ucast type, ev_flags := flags, eventTime := uint time, timezoneTime := uint time2,
                               dungeonId := dungeon, ev_title := title, ev_description := description\<rparr>"
    have "cal_keeps m (store_event a ev' m)"
    proof (rule cal_keepsI)
      assume inv: "cal_inv m"
      then have "om_find (cal_events m) a = Some ev"
        using find_event_Some [OF _ found] by (simp add: cal_inv_def events_ok_def)
      then have "events_ok (store_event a ev' m)" "event_numbers (store_event a ev' m) = event_numbers m"
        using store_event_ok [of m a ev ev'] inv by (simp_all add: cal_inv_def ev'_def)
      then show "cal_inv (store_event a ev' m)"
        using inv filed_cong [of "store_event a ev' m" m] by (simp add: cal_inv_def) (simp add: store_event_def)
      show "invites_ok (store_event a ev' m)" if "invites_ok m"
        using that invites_ok_cong [of "store_event a ev' m" m] all_invites_cong [of "store_event a ev' m" m]
        by (simp add: store_event_def iv_pool_def)
    qed
    moreover have "same_calendar (store_event a ev' m)
        (fst (cal_seq (cal_emit (UpdateEvent ev')) (SendCalendarEventUpdateAlert env ev' (eventTime ev)) (store_event a ev' m)))"
      by (rule look.seq) (simp_all add: emit_same)
    ultimately have "cal_keeps m
        (fst (cal_seq (cal_emit (UpdateEvent ev')) (SendCalendarEventUpdateAlert env ev' (eventTime ev)) (store_event a ev' m)))"
      using keep.R_trans same_keeps by blast
    then show ?thesis using False found by (simp add: x ev'_def Let_def)
  qed
qed (rule keep.R_refl)

lemma Invite_keeps: "cal_room m \<Longrightarrow> cal_keeps m (fst (snd (HandleCalendarEventInvite env s d m)))"
  unfolding HandleCalendarEventInvite_def
proof (rule cal_parse_state, goal_cases)
  case (1 x rest)
  obtain i iid name isPreInvite isGuildEvent where x: "x = (i, iid, name, isPreInvite, isGuildEvent)"
    by (cases x) auto
  have new: "cal_keeps m (fst (new_invite env ev (mk_player_invite g sender time status i) m))" if "GetEvent i m = Some ev" for ev g sender time status
    by (rule new_invite_cal_keeps) (use 1 that in \<open>auto simp: mk_player_invite_def cal_room_def\<close>)
  show ?case
    by (simp add: x split_def Let_def new same_keeps look.emit split: option.split)
qed (rule keep.R_refl)

lemma Signup_keeps: "cal_room m \<Longrightarrow> cal_keeps m (fst (snd (HandleCalendarEventSignup env s d m)))"
  unfolding HandleCalendarEventSignup_def
proof (rule cal_parse_state, goal_cases)
  case (1 x rest)
  obtain i tentative where x: "x = (i, tentative)" by fastforce
  have new: "cal_keeps m (fst (cal_seq (new_invite env ev (mk_player_invite g g time status i)) (cal_emit es) m))"
    if "GetEvent i m = Some ev" for ev g time status es
  proof -
    have "cal_keeps m (fst (new_invite env ev (mk_player_invite g g time status i) m))"
      by (rule new_invite_cal_keeps) (use 1 that in \<open>auto simp: mk_player_invite_def cal_room_def\<close>)
    then show ?thesis by (simp add: cal_seq_def cal_emit_def split_def Let_def)
  qed
  show ?case
    by (simp add: x new split: option.split)
qed (rule keep.R_refl)

lemma new_event_id [simp]: "eventId (new_event env s i d) = i"
  by (simp add: new_event_def split_def Let_def split: option.split)

lemma new_event_flags: "IsGuildAnnouncement (new_event env s i (title, description, type, dungeon, time, time2, flags)) =
    has_flag flags CALENDAR_FLAG_WITHOUT_INVITES"
  by (simp add: new_event_def Let_def IsGuildAnnouncement_def split: option.split)

text \<open>Allocating an event number, any work that leaves the events alone, and then adding the event.\<close>

lemma grow_inv:
  assumes inv: "cal_inv m" and room: "cal_room m" and fresh: "om_find (cal_events m) a = None"
    and alloc: "GetFreeEventId m = (eventId ev, m1)" and part: "ev_part m2 = ev_part m1"
    and filed: "filed_under (insert (eventId ev) (set_mset (event_numbers m))) m2"
  shows "cal_inv (fst (AddEvent env a ev sendType m2))"
    and "event_numbers (fst (AddEvent env a ev sendType m2)) = add_mset (eventId ev) (event_numbers m)"
    and "invites_ok m2 \<Longrightarrow> invites_ok (fst (AddEvent env a ev sendType m2))"
proof -
  have ok: "events_ok m" and r: "Suc (unat (maxEventId m)) < 2 ^ 64"
    using inv room by (simp_all add: cal_inv_def cal_room_def)
  note add = AddEvent_result [OF filed, of env a ev sendType]
  note new = new_event_ok [OF ok r fresh alloc part add(4)]
  show num: "event_numbers (fst (AddEvent env a ev sendType m2)) = add_mset (eventId ev) (event_numbers m)"
    by (rule new(2))
  show "cal_inv (fst (AddEvent env a ev sendType m2))"
    using new(1) add(1) by (simp add: cal_inv_def num)
  show "invites_ok (fst (AddEvent env a ev sendType m2))" if "invites_ok m2"
    using that invites_ok_cong [OF add(2,3)] by simp
qed

lemma alloc_event_filed:
  assumes "cal_inv m" "GetFreeEventId m = (i, m1)"
  shows "filed_under (insert i (set_mset (event_numbers m))) m1" and "invites_ok m1 = invites_ok m"
proof -
  have "filed_under (insert i (set_mset (event_numbers m))) m"
    using assms(1) by (auto simp: cal_inv_def filed_under_def)
  then show "filed_under (insert i (set_mset (event_numbers m))) m1"
    using filed_cong [OF alloc_event_parts(2) [OF assms(2)]] by blast
  show "invites_ok m1 = invites_ok m"
    using invites_ok_cong alloc_event_parts [OF assms(2)] all_invites_cong by metis
qed

lemma mk_invitee_fields [simp]: "inv_eventId (mk_invitee s ei d i) = ei" "inviteId (mk_invitee s ei d i) = i"
  by (simp_all add: mk_invitee_def split_def)

lemma copy_invite_fields [simp]: "inv_eventId (copy_invite iv ei i) = ei" "inviteId (copy_invite iv ei i) = i"
  by (simp_all add: copy_invite_def)

lemma announce_state:
  assumes "IsGuildAnnouncement ev"
  shows "fst (announce_event env s ev m) = FreeInviteId 0 m"
  using assms by (simp add: announce_event_def AddInvite_def cal_seq_def cal_skip_def cal_emit_def split_def Let_def)

lemma parse_invitees_length: "parse_invitees d = Inr (ds, rest) \<Longrightarrow> length ds \<le> 100"
proof -
  have *: "read_elems get n d = Inr (xs, rest) \<Longrightarrow> length xs = n" for get :: "(guid \<times> u8 \<times> u8) bb" and n d xs rest
  proof (induction n arbitrary: d xs rest)
    case (Suc n)
    then show ?case by (auto simp: bb_bind_def bb_return_def split: sum.splits)
  qed (simp add: bb_return_def)
  assume "parse_invitees d = Inr (ds, rest)"
  then show ?thesis
    using * by (fastforce simp: parse_invitees_def bb_bind_def split: sum.splits)
qed

lemma drop_event_inv:
  assumes inv: "cal_inv m" and room: "cal_room m" and alloc: "GetFreeEventId m = (i, m1)"
  shows "cal_keeps m (FreeEventId i m1)"
proof (rule cal_keepsI)
  note p = alloc_event_parts [OF alloc]
  have ok: "pool_ok (add_mset i (event_numbers m)) (freeEventIds m1) (maxEventId m1)"
    using event_ids.alloc_ok [OF _ _ alloc] inv room succ_nonzero by (simp add: cal_inv_def events_ok_def cal_room_def)
  then have "pool_ok (event_numbers m) (freeEventIds (FreeEventId i m1)) (maxEventId (FreeEventId i m1))"
    using event_ids.release_ok [OF ok, of i] by simp
  then show "cal_inv (FreeEventId i m1)"
    using inv p filed_cong [of "FreeEventId i m1" m] by (simp add: cal_inv_def events_ok_def event_numbers_def)
  show "invites_ok (FreeEventId i m1)" if "invites_ok m"
    using that p invites_ok_cong [of "FreeEventId i m1" m] all_invites_cong [of "FreeEventId i m1" m] by simp
qed

lemma new_invites_family:
  fixes env ev xs
  assumes "filed_under E m" "ei \<in> E" "\<And>x i. inv_eventId (f x i) = ei" "\<And>x i. inviteId (f x i) = i"
  defines "m' \<equiv> fst (new_invites env ev (map f xs) m)"
  shows "filed_under E m'" and "ev_part m' = ev_part m"
    and "invites_ok m \<Longrightarrow> unat (maxInviteId m) + length xs < 2 ^ 64 \<Longrightarrow> invites_ok m'"
proof -
  have r: "filed_under E m' \<and> ev_part m' = ev_part m \<and>
      (invites_ok m \<longrightarrow> unat (maxInviteId m) + length (map f xs) < 2 ^ 64 \<longrightarrow>
         (\<forall>mk\<in>set (map f xs). \<forall>i. inviteId (mk i) = i) \<longrightarrow> invites_ok m')"
    unfolding m'_def by (rule new_invites_result [OF assms(1)]) (use assms(2,3) in auto)
  show "filed_under E m'" and "ev_part m' = ev_part m"
    and "invites_ok m \<Longrightarrow> unat (maxInviteId m) + length xs < 2 ^ 64 \<Longrightarrow> invites_ok m'"
    using r assms(4) by auto
qed

lemma AddEvent_keeps:
  assumes inv: "cal_inv m" and room: "cal_room m" and fresh: "om_find (cal_events m) a = None"
  shows "cal_inv (fst (snd (HandleCalendarAddEvent env s a d m))) \<and>
    (invites_ok m \<longrightarrow> \<not> announces env (ReqAddEvent a d) \<longrightarrow> invites_ok (fst (snd (HandleCalendarAddEvent env s a d m))))"
  unfolding HandleCalendarAddEvent_def
proof (rule cal_parse_state, goal_cases)
  case (1 x rest)
  obtain title description type dungeon time time2 flags where x: "x = (title, description, type, dungeon, time, time2, flags)"
    by (cases x) auto
  obtain i m1 where alloc: "GetFreeEventId m = (i, m1)" by fastforce
  define ev where "ev = new_event env s i x"
  have id: "GetFreeEventId m = (eventId ev, m1)" by (simp add: alloc ev_def)
  note f = alloc_event_filed [OF inv alloc]
  have flags: "IsGuildAnnouncement ev \<longleftrightarrow> announces env (ReqAddEvent a d)"
    using 1 by (simp add: ev_def x new_event_flags)
  show ?case
  proof (cases "in_the_past env time")
    case True
    then show ?thesis using inv by (simp add: x cal_skip_def)
  next
    case past: False
    show ?thesis
    proof (cases "IsGuildAnnouncement ev")
      case True
      have "cal_inv (fst (AddEvent env a ev CALENDAR_SENDTYPE_ADD (FreeInviteId 0 m1)))"
        by (rule grow_inv [OF inv room fresh id]) (use f(1) filed_cong [of "FreeInviteId 0 m1" m1] in \<open>simp_all add: ev_def\<close>)
      then show ?thesis
        using past True flags
        by (simp add: x alloc ev_def [unfolded x, symmetric] cal_seq_def split_def Let_def announce_state)
    next
      case ann: False
      show ?thesis
      proof (cases "parse_invitees rest")
        case (Inl e)
        then show ?thesis
          using past ann drop_event_inv [OF inv room alloc] inv
          by (simp add: x alloc ev_def [unfolded x, symmetric] cal_keeps_def)
      next
        case (Inr dr)
        obtain ds rest' where ds: "parse_invitees rest = Inr (ds, rest')" using Inr by (cases dr) simp
        define m2 where "m2 = fst (new_invites env ev (map (mk_invitee s i) ds) m1)"
        have r: "filed_under (insert i (set_mset (event_numbers m))) m2 \<and> ev_part m2 = ev_part m1 \<and>
            (invites_ok m1 \<longrightarrow> unat (maxInviteId m1) + length ds < 2 ^ 64 \<longrightarrow> invites_ok m2)"
          using new_invites_family [OF f(1), where ei = i and f = "mk_invitee s i" and env = env and ev = ev and xs = ds] by (simp add: m2_def)
        have "maxInviteId m1 = maxInviteId m"
          using alloc_event_parts(1) [OF alloc] by (simp add: iv_pool_def)
        then have "invites_ok m \<longrightarrow> invites_ok m2"
          using r f(2) room parse_invitees_length [OF ds] by (simp add: cal_room_def)
        moreover have "filed_under (insert (eventId ev) (set_mset (event_numbers m))) m2"
          using r by (simp add: ev_def)
        ultimately show ?thesis
          using grow_inv [OF inv room fresh id, of m2 env CALENDAR_SENDTYPE_ADD] r past ann
          by (simp add: x alloc ev_def [unfolded x, symmetric] ds cal_seq_def split_def Let_def m2_def)
      qed
    qed
  qed
qed (simp add: inv)

lemma Copy_keeps:
  assumes inv: "cal_inv m" and room: "cal_room m" and fresh: "om_find (cal_events m) a = None"
  shows "cal_inv (fst (snd (HandleCalendarCopyEvent env s a d m))) \<and>
    (invites_ok m \<longrightarrow> invites_ok (fst (snd (HandleCalendarCopyEvent env s a d m))))"
  unfolding HandleCalendarCopyEvent_def
proof (rule cal_parse_state, goal_cases)
  case (1 x rest)
  obtain i time where x: "x = (i, time)" by fastforce
  show ?case
  proof (cases "in_the_past env time \<or> GetEvent i m = None")
    case True
    have "cal_keeps m (fst (cal_error env s err m))" for err by simp
    then show ?thesis using True inv by (auto simp: x cal_skip_def cal_keeps_def)
  next
    case False
    then obtain old where old: "GetEvent i m = Some old" by blast
    obtain j m1 where alloc: "GetFreeEventId m = (j, m1)" by fastforce
    define ev where "ev = old\<lparr>eventId := j, eventTime := uint time\<rparr>"
    have id: "GetFreeEventId m = (eventId ev, m1)" by (simp add: alloc ev_def)
    note f = alloc_event_filed [OF inv alloc]
    define m2 where "m2 = fst (AddEvent env a ev CALENDAR_SENDTYPE_COPY m1)"
    have f': "filed_under (insert (eventId ev) (set_mset (event_numbers m))) m1"
      using f(1) by (simp add: ev_def)
    note g = grow_inv [OF inv room fresh id refl f', of env CALENDAR_SENDTYPE_COPY, folded m2_def]
    define m3 where "m3 = touch_invites i m2"
    have keep3: "cal_keeps m2 m3" and same3: "same_calendar m2 m3"
      by (simp_all add: m3_def same_keeps)
    have inv3: "cal_inv m3" using keep3 g(1) by (simp add: cal_keeps_def)
    have part3: "ev_part m3 = ev_part m2" "iv_pool m3 = iv_pool m2" using same_parts [OF same3] by simp_all
    have j: "j \<in> set_mset (event_numbers m3)"
      using event_numbers_cong [OF part3(1)] g(2) by (simp add: ev_def)
    define m4 where "m4 = fst (new_invites env ev (map (\<lambda>iv. copy_invite iv j) (invites_of i m2)) m3)"
    have filed3: "filed_under (set_mset (event_numbers m3)) m3" using inv3 by (simp add: cal_inv_def)
    have r: "filed_under (set_mset (event_numbers m3)) m4 \<and> ev_part m4 = ev_part m3 \<and>
        (invites_ok m3 \<longrightarrow> unat (maxInviteId m3) + length (invites_of i m2) < 2 ^ 64 \<longrightarrow> invites_ok m4)"
      using new_invites_family [OF filed3 j, where f = "\<lambda>iv. copy_invite iv j" and env = env and ev = ev and xs = "invites_of i m2"] by (simp add: m4_def)
    have "cal_inv m4"
      using r inv3 events_ok_cong [of m4 m3] event_numbers_cong [of m4 m3] by (simp add: cal_inv_def)
    moreover have "invites_ok m4" if "invites_ok m"
    proof -
      have ok3: "invites_ok m3" using that g f(2) keep3 by (simp add: cal_keeps_def)
      have "iv_pool m2 = iv_pool m" and all: "mset (all_invites m2) = mset (all_invites m)"
        using AddEvent_result(2,3) [OF f', of env a ev CALENDAR_SENDTYPE_COPY] alloc_event_parts(1,2) [OF alloc]
          all_invites_cong [of m1 m] by (simp_all add: m2_def)
      then have "maxInviteId m3 = maxInviteId m"
        using part3(2) by (simp add: iv_pool_def)
      moreover have "length (invites_of i m2) \<le> length (all_invites m)"
      proof -
        have "om_wf (cal_invites m2)" using g(1) by (simp add: cal_inv_def filed_under_def)
        then have "mset (invites_of i m2) \<subseteq># mset (all_invites m2)"
          using flat_erase [of i "cal_invites m2"] unfolding mset_all_invites invites_of_def
          by (metis mset_subset_eq_add_right)
        then show ?thesis using size_mset_mono all by fastforce
      qed
      ultimately show ?thesis using r ok3 room by (simp add: cal_room_def)
    qed
    moreover have "fst (cal_seq (AddEvent env a ev CALENDAR_SENDTYPE_COPY) (\<lambda>m2. let (invites, m3) = GetEventInvites i m2
        in new_invites env ev (map (\<lambda>iv. copy_invite iv j) invites) m3) m1) = m4"
      by (simp add: cal_seq_def split_def Let_def GetEventInvites_def m4_def m3_def m2_def)
    ultimately show ?thesis
      using False old by (simp add: x alloc ev_def Let_def)
  qed
qed (simp add: inv)

section \<open>The loaded state\<close>

lemma pool_okI: "distinct (xs @ free) \<Longrightarrow> set (xs @ free) \<subseteq> {0<..hi} \<Longrightarrow> pool_ok (mset xs) free hi"
  unfolding pool_ok_def using subset_imp_msubset_mset_set [of "set (xs @ free)" "{0<..hi}"] mset_set_set [of "xs @ free"]
  by (simp only: mset_append pool_finite)

text \<open>The numbers below the highest one that are not in use.\<close>

lemma gaps_ok:
  fixes hi :: u64
  assumes "distinct xs" "set xs \<subseteq> {0<..hi}" "\<And>i. P i \<longleftrightarrow> i \<notin> set xs"
  shows "pool_ok (mset xs) (filter P (map of_nat [1..<unat hi])) hi"
proof (rule pool_okI)
  have bound: "unat hi < 2 ^ 64" using unsigned_less [of hi] by simp
  have "inj_on (of_nat :: nat \<Rightarrow> u64) (set [1..<unat hi])"
    by (rule inj_onI) (use bound in \<open>auto simp: word_unat_eq_iff unat_of_nat take_bit_nat_eq_self\<close>)
  then show "distinct (xs @ filter P (map of_nat [1..<unat hi]))"
    using assms by (auto simp: distinct_map)
  have "0 < (of_nat k :: u64) \<and> of_nat k \<le> hi" if "1 \<le> k" "k < unat hi" for k
    using that bound by (simp add: word_less_nat_alt word_le_nat_alt unat_of_nat take_bit_nat_eq_self)
  then show "set (xs @ filter P (map of_nat [1..<unat hi])) \<subseteq> {0<..hi}"
    using assms(2) by auto
qed

definition cal_new :: cal_mgr where
  "cal_new = \<lparr>cal_events = [], cal_invites = [], freeEventIds = [], freeInviteIds = [], maxEventId = 0, maxInviteId = 0\<rparr>"

text \<open>What the tables hold: primary keys other than 0, and invites of stored events. The objects have different addresses.\<close>

definition rows_ok :: "event_row list \<Rightarrow> invite_row list \<Rightarrow> bool" where
  "rows_ok events invites \<longleftrightarrow>
     distinct (map fst events) \<and> distinct (map (fst \<circ> snd) events) \<and> 0 \<notin> set (map (fst \<circ> snd) events) \<and>
     distinct (map fst invites) \<and> 0 \<notin> set (map fst invites) \<and>
     set (map (fst \<circ> snd) invites) \<subseteq> set (map (fst \<circ> snd) events)"

lemma load_events:
  fixes env
  assumes "om_wf (cal_events m)" "distinct (map fst rows)" "\<forall>r\<in>set rows. om_find (cal_events m) (fst r) = None"
  defines "m' \<equiv> fold (load_event env) rows m"
  shows "om_wf (cal_events m') \<and> event_numbers m' = event_numbers m + mset (map (fst \<circ> snd) rows) \<and>
    cal_invites m' = cal_invites m \<and> freeEventIds m' = freeEventIds m \<and> iv_pool m' = iv_pool m \<and>
    maxEventId m \<le> maxEventId m' \<and> (\<forall>r\<in>set rows. fst (snd r) \<le> maxEventId m')"
  unfolding m'_def using assms(1-3)
proof (induction rows arbitrary: m)
  case (Cons r rows)
  define m1 where "m1 = load_event env r m"
  obtain ev where ev: "cal_events m1 = om_set (fst r) ev (cal_events m)" "eventId ev = fst (snd r)"
    and m1: "cal_invites m1 = cal_invites m" "freeEventIds m1 = freeEventIds m" "iv_pool m1 = iv_pool m"
      "maxEventId m1 = max (maxEventId m) (fst (snd r))"
    by (auto simp: m1_def load_event_def split_def Let_def iv_pool_def)
  have fresh: "om_find (cal_events m) (fst r) = None" using Cons.prems(3) by simp
  have "om_wf (cal_events m1)" using Cons.prems(1) by (simp add: ev)
  moreover have "\<forall>x\<in>set rows. om_find (cal_events m1) (fst x) = None"
  proof
    fix x assume x: "x \<in> set rows"
    then have "fst x \<in> fst ` set rows" by (rule imageI)
    moreover have "fst r \<notin> fst ` set rows" using Cons.prems(2) by simp
    ultimately have "fst x \<noteq> fst r" by metis
    then show "om_find (cal_events m1) (fst x) = None" using Cons.prems(3) x by (simp add: ev om_find_set)
  qed
  moreover have "event_numbers m1 = add_mset (fst (snd r)) (event_numbers m)"
    using om_set_new [OF fresh] by (simp add: event_numbers_def ev)
  ultimately show ?case
    using Cons.IH [of m1] Cons.prems(2) m1 by (simp add: m1_def [symmetric])
qed simp

lemma load_invites:
  assumes "filed_under E m" "set (map (fst \<circ> snd) rows) \<subseteq> E"
  defines "m' \<equiv> fold load_invite rows m"
  shows "filed_under E m' \<and> invite_numbers m' = invite_numbers m + mset (map fst rows) \<and> ev_part m' = ev_part m \<and>
    freeInviteIds m' = freeInviteIds m \<and> maxInviteId m \<le> maxInviteId m' \<and> (\<forall>r\<in>set rows. fst r \<le> maxInviteId m')"
  unfolding m'_def using assms(1,2)
proof (induction rows arbitrary: m)
  case (Cons r rows)
  define i ei where "i = fst r" and "ei = fst (snd r)"
  define m1 where "m1 = load_invite r m"
  obtain iv where iv: "cal_invites m1 = cal_invites (put_invites ei (invites_of ei m @ [iv]) m)" "inviteId iv = i" "inv_eventId iv = ei"
    and m1: "ev_part m1 = ev_part m" "freeInviteIds m1 = freeInviteIds m" "maxInviteId m1 = max (maxInviteId m) i"
    by (auto simp: m1_def load_invite_def i_def ei_def split_def Let_def ev_part_def put_invites_def)
  have "filed_under E (put_invites ei (invites_of ei m @ [iv]) m)"
    by (rule filed_put [OF Cons.prems(1)]) (use Cons.prems iv in \<open>auto simp: filed_under_def ei_def\<close>)
  then have filed: "filed_under E m1"
    using filed_cong [OF iv(1)] by simp
  have "om_wf (cal_invites m)" using Cons.prems(1) by (simp add: filed_under_def)
  from put_invites_flat [OF this, of ei "invites_of ei m @ [iv]"]
  have "invite_numbers m1 = add_mset i (invite_numbers m)"
    using iv(2) by (simp add: invite_numbers_def all_invites_cong [OF iv(1)])
  then show ?case
    using Cons.IH [OF filed] Cons.prems(2) m1 by (simp add: m1_def [symmetric] i_def)
qed simp

lemma GetInvite_None: "GetInvite i m = None \<longleftrightarrow> i \<notin># invite_numbers m"
  by (auto simp: GetInvite_def find_None_iff invite_numbers_def)

lemma load_inv:
  assumes ok: "rows_ok events invites"
  shows "cal_inv (LoadFromDB_calendar env events invites cal_new) \<and> invites_ok (LoadFromDB_calendar env events invites cal_new)"
proof -
  let ?E = "map (fst \<circ> snd) events"
  define m1 where "m1 = fold (load_event env) events (cal_new\<lparr>maxEventId := 0, maxInviteId := 0\<rparr>)"
  define m2 where "m2 = fold load_invite invites m1"
  define m3 where "m3 = LoadFromDB_calendar env events invites cal_new"
  have e: "om_wf (cal_events m1) \<and> event_numbers m1 = mset ?E \<and> cal_invites m1 = [] \<and> freeEventIds m1 = [] \<and>
      iv_pool m1 = ([], 0) \<and> (\<forall>r\<in>set events. fst (snd r) \<le> maxEventId m1)"
    using load_events [of "cal_new\<lparr>maxEventId := 0, maxInviteId := 0\<rparr>" events env] ok
    by (simp add: m1_def rows_ok_def cal_new_def event_numbers_def iv_pool_def)
  have f1: "filed_under (set ?E) m1"
    using e by (simp add: filed_under_def invites_of_def)
  have i: "filed_under (set ?E) m2 \<and> invite_numbers m2 = mset (map fst invites) \<and> ev_part m2 = ev_part m1 \<and>
      freeInviteIds m2 = [] \<and> (\<forall>r\<in>set invites. fst r \<le> maxInviteId m2)"
    using load_invites [OF f1, of invites] ok e
    by (simp add: m2_def rows_ok_def iv_pool_def invite_numbers_def all_invites_def)
  have p2: "cal_events m2 = cal_events m1" "freeEventIds m2 = []" "maxEventId m2 = maxEventId m1" "event_numbers m2 = mset ?E"
    using i e by (auto simp: ev_part_def event_numbers_def)
  have pos: "set xs \<subseteq> {0<..hi}" if "0 \<notin> set xs" "\<forall>x\<in>set xs. x \<le> hi" for xs :: "u64 list" and hi
    using that by (auto simp: word_neq_0_conv [symmetric])
  have "set ?E \<subseteq> {0<..maxEventId m2}" "set (map fst invites) \<subseteq> {0<..maxInviteId m2}"
    by (rule pos; use ok e i p2 in \<open>auto simp: rows_ok_def\<close>)+
  note sub = this
  have "pool_ok (mset ?E) (filter (\<lambda>i. GetEvent i m2 = None) (map of_nat [1..<unat (maxEventId m2)])) (maxEventId m2)"
    by (rule gaps_ok) (use ok p2 sub in \<open>auto simp: rows_ok_def GetEvent_None\<close>)
  moreover have "pool_ok (mset (map fst invites)) (filter (\<lambda>i. GetInvite i m2 = None) (map of_nat [1..<unat (maxInviteId m2)])) (maxInviteId m2)"
    by (rule gaps_ok) (use ok i sub in \<open>auto simp: rows_ok_def GetInvite_None\<close>)
  moreover have m3: "m3 = m2\<lparr>freeEventIds := filter (\<lambda>i. GetEvent i m2 = None) (map of_nat [1..<unat (maxEventId m2)]),
      freeInviteIds := filter (\<lambda>i. GetInvite i m2 = None) (map of_nat [1..<unat (maxInviteId m2)])\<rparr>"
    using i p2 by (simp add: m3_def LoadFromDB_calendar_def Let_def m2_def m1_def)
  moreover have "event_numbers m3 = mset ?E" "invite_numbers m3 = mset (map fst invites)" "filed_under (set ?E) m3"
    using p2 i filed_cong [of m3 m2] all_invites_cong [of m3 m2] by (auto simp: m3 event_numbers_def invite_numbers_def)
  ultimately show ?thesis
    using e p2 unfolding m3_def [symmetric] cal_inv_def events_ok_def invites_ok_def by simp
qed

section \<open>The machine\<close>

definition cal_initial :: "cal_mgr \<Rightarrow> bool" where
  "cal_initial m \<longleftrightarrow> (\<exists>env events invites. rows_ok events invites \<and> m = LoadFromDB_calendar env events invites cal_new)"

lemma cal_step_keeps:
  assumes inv: "cal_inv m" and step: "cal_step m (env, s, req) m'"
  shows "cal_inv m' \<and> (invites_ok m \<longrightarrow> \<not> announces env req \<longrightarrow> invites_ok m')"
  using step
proof (rule cal_stepE)
  assume room: "cal_room m" and fresh: "fresh_address req m" and h: "cal_handle env s req m = Some m'"
  note k = simple_packets_keep [of m env s] Update_keeps [of m env s] Invite_keeps [OF room, of env s] Signup_keeps [OF room, of env s]
  show ?thesis
    using h fresh k inv AddEvent_keeps [OF inv room] Copy_keeps [OF inv room]
    by (cases req) (auto simp: cal_keeps_def dest!: remove_player_keeps)
qed

interpretation calendar: state_machine cal_initial cal_step cal_inv
proof
  show "cal_inv m" if "cal_initial m" for m
    using that load_inv by (auto simp: cal_initial_def)
  show "cal_inv m'" if "cal_inv m" "cal_step m e m'" for m e m'
    using that cal_step_keeps by (cases e) blast
qed

interpretation quiet: state_machine cal_initial quiet_step "\<lambda>m. cal_inv m \<and> invites_ok m"
proof
  show "cal_inv m \<and> invites_ok m" if "cal_initial m" for m
    using that load_inv by (auto simp: cal_initial_def)
  show "cal_inv m' \<and> invites_ok m'" if "cal_inv m \<and> invites_ok m" "quiet_step m e m'" for m e m'
    using that cal_step_keeps by (cases e) (fastforce simp: quiet_step_def)
qed

section \<open>Removing a player\<close>

lemma events_distinct: "events_ok m \<Longrightarrow> distinct (map (eventId \<circ> snd) (cal_events m))"
  using pool_distinct [of "map (eventId \<circ> snd) (cal_events m)" "freeEventIds m" "maxEventId m"]
  by (simp add: events_ok_def event_numbers_def)

lemma invites_distinct: "invites_ok m \<Longrightarrow> distinct (map inviteId (all_invites m))"
  using pool_distinct [of "map inviteId (all_invites m)" "freeInviteIds m" "maxInviteId m"]
  by (simp add: invites_ok_def invite_numbers_def)

lemma find_own_event:
  assumes "events_ok m" "om_find (cal_events m) a = Some ev"
  shows "find_event (eventId ev) m = Some (a, ev)"
proof -
  have wf: "om_wf (cal_events m)" and dist: "distinct (map (eventId \<circ> snd) (cal_events m))"
    using assms(1) events_distinct by (simp_all add: events_ok_def)
  have in_events: "(a, ev) \<in> set (cal_events m)" using assms(2) by (rule om_find_in)
  then have "find_event (eventId ev) m \<noteq> None"
    unfolding find_event_None by (force simp: event_numbers_def)
  then obtain b ev' where found: "find_event (eventId ev) m = Some (b, ev')" by auto
  note f = find_event_Some [OF wf found]
  have "(b, ev') \<in> set (cal_events m)" using conjunct1 [OF f] by (rule om_find_in)
  then have "(b, ev') = (a, ev)"
    using dist in_events f unfolding distinct_map inj_on_def by fastforce
  then show ?thesis using found by simp
qed

lemma remove_created_skip:
  "(\<And>a ev. om_find (cal_events m) a = Some ev \<Longrightarrow> \<not> P ev) \<Longrightarrow> remove_created env P remover as m = Some (m, [])"
  by (induction "as") (auto split: option.split)

lemma remove_created_invalid:
  assumes inv: "cal_inv m" and a: "a \<in> set as" "om_find (cal_events m) a = Some ev" "P ev"
  shows "remove_created env P remover as m = None"
  using a(1)
proof (induction "as")
  case (Cons b bs)
  have ok: "events_ok m" and wf: "om_wf (cal_events m)" "om_wf (cal_invites m)"
    using inv by (simp_all add: cal_inv_def events_ok_def filed_under_def)
  show ?case
  proof (cases "\<exists>ev'. om_find (cal_events m) b = Some ev' \<and> P ev'")
    case True
    then obtain ev' where b: "om_find (cal_events m) b = Some ev'" "P ev'" by blast
    have "cal_events (fst (RemoveEvent env (eventId ev') remover m)) = om_erase b (cal_events m)"
      using RemoveEvent_fields(1) [OF wf(2) find_own_event [OF ok b(1)], of env remover] by (simp add: ev_part_def)
    then have "om_find (cal_events (fst (RemoveEvent env (eventId ev') remover m))) b = None"
      using om_find_erase [OF wf(1)] by simp
    then show ?thesis using b by (simp add: split_def)
  next
    case False
    then have "remove_created env P remover (b # bs) m = remove_created env P remover bs m"
      by (auto split: option.split)
    moreover have "b \<noteq> a" using False a(2,3) by auto
    ultimately show ?thesis using Cons by simp
  qed
qed simp

lemma RemoveInvite_exact:
  assumes inv: "cal_inv m" "invites_ok m" and iv: "iv \<in> set (all_invites m)"
  shows "mset (all_invites (fst (RemoveInvite env (inviteId iv) (inv_eventId iv) m))) = mset (all_invites m) - {#iv#}"
proof -
  let ?m = "fst (RemoveInvite env (inviteId iv) (inv_eventId iv) m)"
  have filed: "filed_under (set_mset (event_numbers m)) m" using inv(1) by (simp add: cal_inv_def)
  then have wf: "om_wf (cal_invites m)" by (simp add: filed_under_def)
  have ei: "iv \<in> set (invites_of (inv_eventId iv) m)" "inv_eventId iv \<in># event_numbers m"
    using iv filed flat_invites_of [OF wf] by (auto simp: filed_under_def)
  show ?thesis
  proof (rule RemoveInvite_cases [OF filed, of env "inviteId iv" "inv_eventId iv"])
    assume "inv_eventId iv \<in># event_numbers m \<Longrightarrow> find (\<lambda>iv'. inviteId iv' = inviteId iv) (invites_of (inv_eventId iv) m) = None"
    then show ?thesis using ei by (auto simp: find_None_iff)
  next
    fix iv' m1
    assume f: "find (\<lambda>iv'. inviteId iv' = inviteId iv) (invites_of (inv_eventId iv) m) = Some iv'" and same: "same_calendar m m1"
      and eq: "?m = put_invites (inv_eventId iv) (drop_invite (inviteId iv) (invites_of (inv_eventId iv) m)) (FreeInviteId (inviteId iv) m1)"
    have "iv' \<in> set (invites_of (inv_eventId iv) m)" and id: "inviteId iv' = inviteId iv"
      using f by (auto simp: find_Some_iff)
    then have "iv' \<in> set (all_invites m)"
      using flat_invites_of [OF wf] by blast
    then have "iv' = iv"
      using invites_distinct [OF inv(2)] iv id by (auto simp: distinct_map inj_on_def)
    let ?f = "FreeInviteId (inviteId iv) m1"
    have "om_wf (cal_invites ?f)" using same_invites(1) [OF same wf] by simp
    moreover have "invites_of (inv_eventId iv) ?f = invites_of (inv_eventId iv) m" "mset (all_invites ?f) = mset (all_invites m)"
      using same_invites [OF same wf] by (simp_all add: invites_of_def all_invites_cong [of ?f m1])
    ultimately have "mset (all_invites ?m) + mset (invites_of (inv_eventId iv) m) =
        mset (all_invites m) + mset (drop_invite (inviteId iv) (invites_of (inv_eventId iv) m))"
      using put_invites_flat [of ?f "inv_eventId iv" "drop_invite (inviteId iv) (invites_of (inv_eventId iv) m)"]
      unfolding eq by simp
    then have "add_mset iv (mset (all_invites ?m)) = mset (all_invites m)"
      unfolding drop_invite_mset [OF f, symmetric] \<open>iv' = iv\<close> by simp
    then show ?thesis by (metis add_mset_remove_trivial)
  qed
qed

lemma remove_all_signups:
  "cal_inv m \<Longrightarrow> invites_ok m \<Longrightarrow> mset invs \<subseteq># mset (all_invites m) \<Longrightarrow>
     mset (all_invites (fst (remove_signups env (\<lambda>iv m. True) invs m))) = mset (all_invites m) - mset invs \<and>
     ev_part (fst (remove_signups env (\<lambda>iv m. True) invs m)) = ev_part m"
proof (induction invs arbitrary: m)
  case (Cons iv invs)
  define m1 where "m1 = fst (RemoveInvite env (inviteId iv) (inv_eventId iv) m)"
  have iv: "iv \<in> set (all_invites m)"
    using Cons.prems(3) mset_subset_eqD by fastforce
  have all: "mset (all_invites m1) = mset (all_invites m) - {#iv#}"
    unfolding m1_def by (rule RemoveInvite_exact [OF Cons.prems(1,2) iv])
  have keeps: "cal_inv m1 \<and> invites_ok m1"
    using RemoveInvite_cal_keeps [of m env "inviteId iv" "inv_eventId iv"] Cons.prems(1,2) by (simp add: cal_keeps_def m1_def)
  have part: "ev_part m1 = ev_part m"
    using RemoveInvite_keeps(2) [of "set_mset (event_numbers m)" m env "inviteId iv" "inv_eventId iv"] Cons.prems(1)
    by (simp add: cal_inv_def m1_def)
  have "mset invs \<subseteq># mset (all_invites m1)"
    using Cons.prems(3) by (simp add: all insert_subset_eq_iff)
  then show ?case
    using Cons.IH [of m1] keeps all part by (simp add: cal_seq_def split_def Let_def m1_def [symmetric])
qed (simp add: cal_skip_def)

section \<open>Properties\<close>

lemma minus_filter: "M - filter_mset P M = filter_mset (\<lambda>x. \<not> P x) M"
  using multiset_partition [of M P] by (metis add_diff_cancel_left')

lemma all_invites_live:
  assumes "cal_inv m" "iv \<in> set (all_invites m)"
  shows "GetEvent (inv_eventId iv) m \<noteq> None"
  using assms flat_invites_of [of m iv] by (auto simp: cal_inv_def filed_under_def GetEvent_None)

lemma free_event_unused: "events_ok m \<Longrightarrow> i \<in> set (freeEventIds m) \<Longrightarrow> GetEvent i m = None"
  using pool_distinct [of "map (eventId \<circ> snd) (cal_events m)" "freeEventIds m" "maxEventId m"]
  by (auto simp: events_ok_def event_numbers_def GetEvent_None)

text \<open>
  C9: In every state of the calendar, after any sequence of packets and removals of players from the loaded
  state, no two events share a number, no free number belongs to an event, every event has a number other than 0,
  and the event of every stored invite exists.
\<close>

theorem calendar_events_consistent:
  assumes "reachable cal_initial cal_step m"
  shows "distinct (map (eventId \<circ> snd) (cal_events m)) \<and> 0 \<notin> eventId ` snd ` set (cal_events m) \<and>
    (\<forall>i. i \<in> set (freeEventIds m) \<longrightarrow> GetEvent i m = None) \<and>
    (\<forall>iv. iv \<in> set (all_invites m) \<longrightarrow> GetEvent (inv_eventId iv) m \<noteq> None)"
proof -
  have inv: "cal_inv m" by (rule calendar.reachable_invar [OF assms])
  then have ok: "events_ok m" by (simp add: cal_inv_def)
  then have "0 \<notin># event_numbers m"
    using pool_range [of "event_numbers m" "freeEventIds m" "maxEventId m" 0] by (auto simp: events_ok_def)
  then have "0 \<notin> eventId ` snd ` set (cal_events m)"
    by (force simp: event_numbers_def)
  then show ?thesis
    using events_distinct [OF ok] free_event_unused [OF ok] all_invites_live [OF inv] by blast
qed

text \<open>
  C19: As long as nobody posts a guild announcement, invites have numbers other than 0 of their own: no two stored
  invites share one, in any event, and no free number belongs to an invite.
\<close>

theorem calendar_invites_unique:
  assumes "reachable cal_initial quiet_step m"
  shows "distinct (map inviteId (all_invites m)) \<and> 0 \<notin> inviteId ` set (all_invites m) \<and>
    (\<forall>i. i \<in> set (freeInviteIds m) \<longrightarrow> GetInvite i m = None)"
proof -
  have ok: "invites_ok m" using quiet.reachable_invar [OF assms] by blast
  then have pool: "pool_ok (mset (map inviteId (all_invites m))) (freeInviteIds m) (maxInviteId m)"
    by (simp add: invites_ok_def invite_numbers_def)
  have "0 \<notin> inviteId ` set (all_invites m)"
    using pool_range [OF pool, of 0] by auto
  moreover have "GetInvite i m = None" if "i \<in> set (freeInviteIds m)" for i
    using pool_distinct [OF pool] that by (auto simp: GetInvite_None invite_numbers_def)
  ultimately show ?thesis
    using invites_distinct [OF ok] by blast
qed

text \<open>
  C28: In every reachable state, deleting a character advances an iterator that points to an erased element (\<open>None\<close>) exactly
  when the character created an event.  In a state reached without guild announcements, where invites have numbers of
  their own, deleting any other character removes exactly the invites of that character, from all events, and leaves
  the events alone.
\<close>

theorem remove_player_outcome:
  assumes "reachable cal_initial cal_step m"
  shows "(RemoveAllPlayerEventsAndInvites env g m = None \<longleftrightarrow> g \<in> creatorGUID ` snd ` set (cal_events m))
    \<and> (reachable cal_initial quiet_step m \<and> g \<notin> creatorGUID ` snd ` set (cal_events m) \<longrightarrow>
        (\<exists>m' es. RemoveAllPlayerEventsAndInvites env g m = Some (m', es) \<and> cal_events m' = cal_events m \<and>
          mset (all_invites m') = filter_mset (\<lambda>iv. invitee iv \<noteq> g) (mset (all_invites m))))"
proof -
  have inv: "cal_inv m" by (rule calendar.reachable_invar [OF assms])
  have wf: "om_wf (cal_events m)" using inv by (simp add: cal_inv_def events_ok_def)
  let ?P = "\<lambda>ev. creatorGUID ev = g"
  show ?thesis
  proof (cases "g \<in> creatorGUID ` snd ` set (cal_events m)")
    case True
    then obtain a ev where "(a, ev) \<in> set (cal_events m)" "?P ev" by force
    then have "remove_created env ?P 0 (map fst (cal_events m)) m = None"
      by (intro remove_created_invalid [OF inv, of a]) (force intro: om_in_find [OF wf])+
    then show ?thesis using True by (simp add: RemoveAllPlayerEventsAndInvites_def)
  next
    case False
    then have "\<not> ?P ev" if "om_find (cal_events m) a = Some ev" for a ev
      using om_find_in [OF that] by force
    then have skip: "remove_created env ?P 0 (map fst (cal_events m)) m = Some (m, [])"
      by (rule remove_created_skip)
    have eq: "mset (GetPlayerInvites g m) = filter_mset (\<lambda>iv. invitee iv = g) (mset (all_invites m))"
      by (simp add: GetPlayerInvites_def)
    obtain m' e where run: "remove_signups env (\<lambda>iv m. True) (GetPlayerInvites g m) m = (m', e)" by fastforce
    have "mset (all_invites m') = filter_mset (\<lambda>iv. invitee iv \<noteq> g) (mset (all_invites m)) \<and> cal_events m' = cal_events m"
      if "reachable cal_initial quiet_step m"
    proof -
      have "invites_ok m" using quiet.reachable_invar [OF that] by blast
      from remove_all_signups [OF inv this, of "GetPlayerInvites g m" env] run eq
      have "mset (all_invites m') = mset (all_invites m) - mset (GetPlayerInvites g m)" "ev_part m' = ev_part m" by auto
      then show ?thesis
        using minus_filter [of "mset (all_invites m)" "\<lambda>iv. invitee iv = g"] by (simp add: eq ev_part_def)
    qed
    then show ?thesis
      using False by (simp add: RemoveAllPlayerEventsAndInvites_def skip run)
  qed
qed

lemma AddEvent_pool: "iv_pool (fst (AddEvent env a ev sendType m)) = iv_pool m"
proof -
  have "same_calendar (m\<lparr>cal_events := om_set a ev (cal_events m)\<rparr>) (fst (AddEvent env a ev sendType m))"
    by (simp add: AddEvent_def cal_seq_def cal_emit_def split_def Let_def)
  from same_parts [OF this] show ?thesis by (simp add: iv_pool_def)
qed

lemma announcement_pool:
  assumes "parse_event env d = Inr ((title, description, type, dungeon, time, time2, flags), rest)"
    "\<not> in_the_past env time" "has_flag flags CALENDAR_FLAG_WITHOUT_INVITES"
  shows "iv_pool (fst (snd (HandleCalendarAddEvent env s a d m))) = iv_pool (FreeInviteId 0 m)"
proof -
  obtain i m1 where alloc: "GetFreeEventId m = (i, m1)" by fastforce
  define ev where "ev = new_event env s i (title, description, type, dungeon, time, time2, flags)"
  have ann: "IsGuildAnnouncement ev" using assms(3) by (simp add: ev_def new_event_flags)
  have "fst (snd (HandleCalendarAddEvent env s a d m)) = fst (AddEvent env a ev CALENDAR_SENDTYPE_ADD (FreeInviteId 0 m1))"
    using assms ann by (simp add: HandleCalendarAddEvent_def cal_parse_def alloc ev_def [symmetric] cal_seq_def split_def Let_def
      announce_state)
  then show ?thesis
    using AddEvent_pool alloc_event_parts(1) [OF alloc] free_invites_pool [of m1 m "[0]"] by simp
qed

text \<open>
  A guild announcement gives the number 0 back, which was never handed out. After two announcements, with no
  other number free and at least one invite in use, the next two new invites both get the number 0.
\<close>

theorem announcements_duplicate_numbers:
  assumes "parse_event env d = Inr ((title, description, type, dungeon, time, time2, flags), rest)"
    and "\<not> in_the_past env time" and "has_flag flags CALENDAR_FLAG_WITHOUT_INVITES"
    and "freeInviteIds m = []" and "maxInviteId m \<noteq> 0"
  shows "let m1 = fst (snd (HandleCalendarAddEvent env s a d m));
             m2 = fst (snd (HandleCalendarAddEvent env s b d m1));
             (i, m3) = GetFreeInviteId m2;
             (j, m4) = GetFreeInviteId m3
         in i = 0 \<and> j = 0"
proof -
  define m1 where "m1 = fst (snd (HandleCalendarAddEvent env s a d m))"
  define m2 where "m2 = fst (snd (HandleCalendarAddEvent env s b d m1))"
  have "iv_pool m1 = ([0], maxInviteId m)"
    using announcement_pool [OF assms(1-3), of s a m] assms(4,5) by (simp add: m1_def FreeInviteId_def iv_pool_def)
  then have "iv_pool m2 = ([0, 0], maxInviteId m)"
    using announcement_pool [OF assms(1-3), of s b m1] assms(5) by (simp add: m2_def FreeInviteId_def iv_pool_def)
  then show ?thesis
    by (simp add: iv_pool_def GetFreeInviteId_def m1_def [symmetric] m2_def [symmetric] Let_def)
qed

section \<open>A sample calendar\<close>

definition sample_cal_env :: cal_env where
  "sample_cal_env =
     \<lparr>cal_player = (\<lambda>g. if g = 7 then Some (85, 5) else None), level_from_db = (\<lambda>g. 80), guild_from_db = (\<lambda>g. 0),
      guild_guid = (\<lambda>i. None), cal_localtime = (\<lambda>t. unpack_tm 0), cal_mktime = (\<lambda>t. 1000), cal_now = 500,
      player_by_name = (\<lambda>n. None), char_by_name = (\<lambda>n. None), team_for_race = (\<lambda>r. 0), social_flags = (\<lambda>g h. None),
      two_side_calendar = False\<rparr>"

definition sample_events :: "event_row list" where
  "sample_events = [(100, 1, 7, ''Raid'', [], 0, 0, 900, 0, 900)]"

definition sample_invites :: "invite_row list" where
  "sample_invites = [(1, 1, 7, 7, 6, 0, 2, []), (2, 1, 8, 7, 0, 0, 0, [])]"

definition sample_calendar :: cal_mgr where
  "sample_calendar = LoadFromDB_calendar sample_cal_env sample_events sample_invites cal_new"

definition sample_announcement :: byte_buffer where
  "sample_announcement =
     \<lparr>rpos = 0, wpos = 25, bitpos = 8, curbitval = 0, storage = [65, 0, 0, 0, 0] @ replicate 16 0 @ [0x40, 0, 0, 0]\<rparr>"

lemma sample_calendar_reachable:
  "reachable cal_initial cal_step sample_calendar" "reachable cal_initial quiet_step sample_calendar"
proof -
  have "rows_ok sample_events sample_invites"
    by (simp add: rows_ok_def sample_events_def sample_invites_def)
  then have "cal_initial sample_calendar"
    unfolding cal_initial_def sample_calendar_def by blast
  then show "reachable cal_initial cal_step sample_calendar" "reachable cal_initial quiet_step sample_calendar"
    by (rule reach_init)+
qed

lemma sample_calendar_data:
  "map (eventId \<circ> snd) (cal_events sample_calendar) = [1]" "map (creatorGUID \<circ> snd) (cal_events sample_calendar) = [7]"
  "map inviteId (all_invites sample_calendar) = [1, 2]" "map invitee (all_invites sample_calendar) = [7, 8]"
  "freeInviteIds sample_calendar = []" "maxInviteId sample_calendar = 2"
  by code_simp+

theorem calendar_events_consistent_witness:
  "map (eventId \<circ> snd) (cal_events sample_calendar) = [1] \<and> distinct (map (eventId \<circ> snd) (cal_events sample_calendar))
     \<and> list_all (\<lambda>iv. GetEvent (inv_eventId iv) sample_calendar \<noteq> None) (all_invites sample_calendar)"
  using calendar_events_consistent [OF sample_calendar_reachable(1)] sample_calendar_data(1) by (simp add: list_all_iff)

theorem calendar_invites_unique_witness:
  "map inviteId (all_invites sample_calendar) = [1, 2] \<and> distinct (map inviteId (all_invites sample_calendar))
     \<and> 0 \<notin> inviteId ` set (all_invites sample_calendar)"
  using calendar_invites_unique [OF sample_calendar_reachable(2)] sample_calendar_data(3) by blast

theorem remove_player_outcome_witness:
  "RemoveAllPlayerEventsAndInvites sample_cal_env 7 sample_calendar = None \<and>
   (\<exists>m' es. RemoveAllPlayerEventsAndInvites sample_cal_env 8 sample_calendar = Some (m', es) \<and>
      mset (map invitee (all_invites m')) = {#7#})"
proof -
  have creators: "creatorGUID ` snd ` set (cal_events sample_calendar) = {7}"
    using sample_calendar_data(2) by (metis image_comp list.simps(15) list.set(1) set_map)
  note r = remove_player_outcome [OF sample_calendar_reachable(1), where env = sample_cal_env]
  have "RemoveAllPlayerEventsAndInvites sample_cal_env 7 sample_calendar = None"
    using r [of 7] creators by simp
  moreover obtain m' es where run: "RemoveAllPlayerEventsAndInvites sample_cal_env 8 sample_calendar = Some (m', es)"
    and all: "mset (all_invites m') = filter_mset (\<lambda>iv. invitee iv \<noteq> 8) (mset (all_invites sample_calendar))"
    using r [of 8] creators sample_calendar_reachable(2) by auto
  have "mset (map invitee (all_invites m')) = filter_mset (\<lambda>g. g \<noteq> 8) (mset (map invitee (all_invites sample_calendar)))"
    by (simp add: all filter_mset_image_mset)
  then have "mset (map invitee (all_invites m')) = {#7#}"
    unfolding sample_calendar_data(4) by simp
  ultimately show ?thesis using run by simp
qed

theorem announcements_duplicate_numbers_witness:
  "let m1 = fst (snd (HandleCalendarAddEvent sample_cal_env \<lparr>cs_guid = 7, cs_guild = 5, cs_team = 0\<rparr> 200 sample_announcement sample_calendar));
       m2 = fst (snd (HandleCalendarAddEvent sample_cal_env \<lparr>cs_guid = 7, cs_guild = 5, cs_team = 0\<rparr> 300 sample_announcement m1));
       (i, m3) = GetFreeInviteId m2;
       (j, m4) = GetFreeInviteId m3
   in i = 0 \<and> j = 0"
proof -
  have "map_sum id fst (parse_event sample_cal_env sample_announcement) = Inr (''A'', [], 0, 0, 1000, 1000, 0x40)"
    by code_simp
  then obtain rest where "parse_event sample_cal_env sample_announcement = Inr ((''A'', [], 0, 0, 1000, 1000, 0x40), rest)"
    by (cases "parse_event sample_cal_env sample_announcement") auto
  moreover have "\<not> in_the_past sample_cal_env 1000" "has_flag (0x40 :: u32) CALENDAR_FLAG_WITHOUT_INVITES"
    by code_simp+
  moreover have "freeInviteIds sample_calendar = []" "maxInviteId sample_calendar \<noteq> 0"
    by (simp_all add: sample_calendar_data)
  ultimately show ?thesis
    by (rule announcements_duplicate_numbers)
qed

end
