(* ===== verification/LfgRoles.thy ===== *)
theory LfgRoles
  imports Prelude "HOL-Library.Monad_Syntax"
begin

text \<open>
  The role search of the dungeon finder (\<^verbatim>\<open>src/server/game/DungeonFinding/LFGMgr.cpp\<close>,
  \<^verbatim>\<open>LFGMgr::CheckGroupRoles\<close>): a backtracking search over a map from players to the roles they
  are willing to play, which removes role bits in place until every player has exactly one role and
  no role is overbooked.  The search is modelled with the map threaded through every recursive
  call, as the C++ reference parameter is; the lemmas show that it always ends, that it succeeds
  exactly when an assignment exists, and what it leaves in the map.
\<close>

section \<open>Roles and dungeon data\<close>

definition PLAYER_ROLE_NONE :: u8 where "PLAYER_ROLE_NONE = 0"
definition PLAYER_ROLE_LEADER :: u8 where "PLAYER_ROLE_LEADER = 1"
definition PLAYER_ROLE_TANK :: u8 where "PLAYER_ROLE_TANK = 2"
definition PLAYER_ROLE_HEALER :: u8 where "PLAYER_ROLE_HEALER = 4"
definition PLAYER_ROLE_DAMAGE :: u8 where "PLAYER_ROLE_DAMAGE = 8"

lemmas role_defs = PLAYER_ROLE_NONE_def PLAYER_ROLE_LEADER_def PLAYER_ROLE_TANK_def
  PLAYER_ROLE_HEALER_def PLAYER_ROLE_DAMAGE_def

type_synonym roles_map = "(guid, u8) omap"

text \<open>A row of the dungeon store; the entrance coordinates, which only teleports read, are left out.\<close>

record LFGDungeonData =
  dg_id :: u32
  dg_map :: u16
  dg_type :: u8
  dg_expansion :: u8
  dg_group :: u8
  dg_minlevel :: u8
  dg_maxlevel :: u8
  dg_difficulty :: u32
  dg_seasonal :: bool
  dg_isLFR :: bool
  dg_neededILevel :: u16
  requiredTanks :: u32
  requiredHeals :: u32
  requiredDamagedealers :: u32

definition dg_Entry :: "LFGDungeonData \<Rightarrow> u32" where
  "dg_Entry d = dg_id d + push_bit 24 (ucast (dg_type d))"

definition GetMaxGroupSize :: "LFGDungeonData \<Rightarrow> u32" where
  "GetMaxGroupSize d = requiredTanks d + requiredHeals d + requiredDamagedealers d"

section \<open>The search\<close>

text \<open>\<open>it->second += r\<close> on the element the iterator stands at.\<close>

definition add_role :: "nat \<Rightarrow> u8 \<Rightarrow> roles_map \<Rightarrow> roles_map" where
  "add_role i r m = m[i := (fst (m ! i), snd (m ! i) + r)]"

text \<open>
  The treatment of one role bit of the current player: a player with other roles is tried without
  this one, a player with this role only takes a place.  \<open>Inl\<close> is a \<open>return\<close> of the function,
  \<open>Inr\<close> goes on with the map and the counter.
\<close>

definition try_role :: "(roles_map \<Rightarrow> (bool \<times> roles_map) option) \<Rightarrow> u8 \<Rightarrow> u32 \<Rightarrow> nat \<Rightarrow> u8 \<Rightarrow> roles_map \<Rightarrow> u8
    \<Rightarrow> ((bool \<times> roles_map) + (roles_map \<times> u8)) option" where
  "try_role check flag required i role m n =
     (if has_flag role flag then
        if role \<noteq> flag then
          do { (ok, m1) \<leftarrow> check (add_role i (- flag) m);
               Some (if ok then Inl (True, m1) else Inr (add_role i flag m1, n)) }
        else if ucast n = required then Some (Inl (False, m))
        else Some (Inr (m, n + 1))
      else Some (Inr (m, n)))"

fun roles_loop :: "(roles_map \<Rightarrow> (bool \<times> roles_map) option) \<Rightarrow> LFGDungeonData \<Rightarrow> nat list \<Rightarrow> roles_map
    \<Rightarrow> u8 \<Rightarrow> u8 \<Rightarrow> u8 \<Rightarrow> (bool \<times> roles_map) option" where
  "roles_loop check d [] m damage healer tank =
     Some (unat tank + unat healer + unat damage = unat (of_nat (length m) :: u8), m)"
| "roles_loop check d (i # its) m damage healer tank =
     (let role = snd (m ! i) AND NOT PLAYER_ROLE_LEADER in
      if role = PLAYER_ROLE_NONE then Some (False, m) else
      do {
        r \<leftarrow> try_role check PLAYER_ROLE_DAMAGE (requiredDamagedealers d) i role m damage;
        (case r of Inl res \<Rightarrow> Some res | Inr (m, damage) \<Rightarrow> do {
          r \<leftarrow> try_role check PLAYER_ROLE_HEALER (requiredHeals d) i role m healer;
          (case r of Inl res \<Rightarrow> Some res | Inr (m, healer) \<Rightarrow> do {
            r \<leftarrow> try_role check PLAYER_ROLE_TANK (requiredTanks d) i role m tank;
            (case r of Inl res \<Rightarrow> Some res | Inr (m, tank) \<Rightarrow>
              roles_loop check d its m damage healer tank) }) }) })"

text \<open>The recursion is bounded by \<open>fuel\<close>; \<open>None\<close> is running out of it.\<close>

fun CheckGroupRoles_fuel :: "nat \<Rightarrow> LFGDungeonData \<Rightarrow> roles_map \<Rightarrow> (bool \<times> roles_map) option" where
  "CheckGroupRoles_fuel 0 d m = None"
| "CheckGroupRoles_fuel (Suc n) d m =
     (if m = [] then Some (False, m)
      else roles_loop (CheckGroupRoles_fuel n d) d [0..<length m] m 0 0 0)"

text \<open>Every recursive call takes one role away, so the number of roles on offer bounds the depth.\<close>

definition role_count :: "u8 \<Rightarrow> nat" where
  "role_count r = of_bool (has_flag r PLAYER_ROLE_DAMAGE) + of_bool (has_flag r PLAYER_ROLE_HEALER) +
                  of_bool (has_flag r PLAYER_ROLE_TANK)"

definition roles_offered :: "roles_map \<Rightarrow> nat" where
  "roles_offered m = sum_list (map (role_count \<circ> snd) m)"

definition CheckGroupRoles :: "roles_map \<Rightarrow> LFGDungeonData \<Rightarrow> bool \<times> roles_map" where
  "CheckGroupRoles m d = the (CheckGroupRoles_fuel (Suc (roles_offered m)) d m)"

section \<open>What the search is meant to find\<close>

text \<open>One role per player, and no more players in a role than the dungeon wants.\<close>

definition players_as :: "u8 \<Rightarrow> roles_map \<Rightarrow> nat" where
  "players_as flag m = length (filter (\<lambda>(g, r). r AND NOT PLAYER_ROLE_LEADER = flag) m)"

definition role_flags :: "u8 set" where
  "role_flags = {PLAYER_ROLE_DAMAGE, PLAYER_ROLE_HEALER, PLAYER_ROLE_TANK}"

definition single_role :: "u8 \<Rightarrow> bool" where
  "single_role r \<longleftrightarrow> r AND NOT PLAYER_ROLE_LEADER \<in> role_flags"

definition roles_fit :: "roles_map \<Rightarrow> LFGDungeonData \<Rightarrow> bool" where
  "roles_fit m d \<longleftrightarrow> list_all (single_role \<circ> snd) m
     \<and> players_as PLAYER_ROLE_DAMAGE m \<le> unat (requiredDamagedealers d)
     \<and> players_as PLAYER_ROLE_HEALER m \<le> unat (requiredHeals d)
     \<and> players_as PLAYER_ROLE_TANK m \<le> unat (requiredTanks d)"

text \<open>The same players, each with some of the roles on offer dropped and everything else kept.\<close>

definition ROLE_MASK :: u8 where "ROLE_MASK = 14"

definition narrows_role :: "u8 \<Rightarrow> u8 \<Rightarrow> bool" where
  "narrows_role r' r \<longleftrightarrow> r' AND NOT r = 0 \<and> r' AND NOT ROLE_MASK = r AND NOT ROLE_MASK"

definition narrows :: "roles_map \<Rightarrow> roles_map \<Rightarrow> bool" where
  "narrows m' m \<longleftrightarrow> list_all2 (\<lambda>(g', r') (g, r). g' = g \<and> narrows_role r' r) m' m"

section \<open>Role bits\<close>

lemma all_less_8: "(\<forall>n<8. P n) \<longleftrightarrow> P (0::nat) \<and> P 1 \<and> P 2 \<and> P 3 \<and> P 4 \<and> P 5 \<and> P 6 \<and> P 7"
  by (auto simp: All_less_Suc numeral_eq_Suc)

lemma u8_eq:
  "(x :: u8) = y \<longleftrightarrow> bit x 0 = bit y 0 \<and> bit x 1 = bit y 1 \<and> bit x 2 = bit y 2 \<and> bit x 3 = bit y 3
     \<and> bit x 4 = bit y 4 \<and> bit x 5 = bit y 5 \<and> bit x 6 = bit y 6 \<and> bit x 7 = bit y 7"
proof -
  have "x = y \<longleftrightarrow> (\<forall>n<8. bit x n = bit y n)" by (auto intro!: bit_word_eqI)
  then show ?thesis unfolding all_less_8 by simp
qed

lemmas role_bits = narrows_role_def ROLE_MASK_def role_defs u8_eq has_flag_def single_role_def role_flags_def
  bit_simps

lemma narrows_role_refl: "narrows_role r r"
  by (simp add: role_bits)

lemma narrows_role_trans: "narrows_role a b \<Longrightarrow> narrows_role b c \<Longrightarrow> narrows_role a c"
  unfolding narrows_role_def by (simp add: bit_eq_iff bit_simps)

lemma minus_role:
  assumes "has_flag r f" and "f \<in> role_flags"
  shows "r - f = r AND NOT f"
proof -
  have "(r AND NOT f) + f = (r AND NOT f) OR f" by (rule disjunctive_add) (simp add: bit_simps)
  also have "\<dots> = r" using assms by (auto simp: role_bits)
  finally show ?thesis by (metis add_diff_cancel_right')
qed

lemma narrows_drop:
  "narrows_role a r \<Longrightarrow> single_role a \<Longrightarrow> f \<in> role_flags \<Longrightarrow> a AND NOT PLAYER_ROLE_LEADER \<noteq> f
    \<Longrightarrow> narrows_role a (r AND NOT f)"
  by (auto simp: role_bits)

lemma drop_narrows: "f \<in> role_flags \<Longrightarrow> narrows_role (r AND NOT f) r"
  by (auto simp: role_bits)

lemma narrows_single: "narrows_role a r \<Longrightarrow> single_role a \<Longrightarrow> single_role r \<Longrightarrow> a = r"
  by (auto simp: role_bits)

lemma narrows_other:
  "narrows_role a r \<Longrightarrow> single_role a \<Longrightarrow> \<not> single_role r
    \<Longrightarrow> \<exists>f\<in>role_flags. has_flag (r AND NOT PLAYER_ROLE_LEADER) f \<and> r AND NOT PLAYER_ROLE_LEADER \<noteq> f
          \<and> a AND NOT PLAYER_ROLE_LEADER \<noteq> f"
  by (simp add: role_flags_def, auto simp: role_bits)

lemma narrows_none: "narrows_role a r \<Longrightarrow> single_role a \<Longrightarrow> r AND NOT PLAYER_ROLE_LEADER \<noteq> PLAYER_ROLE_NONE"
  by (auto simp: role_bits)

lemma role_count_drop: "has_flag r f \<Longrightarrow> f \<in> role_flags \<Longrightarrow> role_count r = Suc (role_count (r AND NOT f))"
  by (auto simp: role_count_def role_bits)

lemma has_flag_leader: "f \<in> role_flags \<Longrightarrow> has_flag (r AND NOT PLAYER_ROLE_LEADER) f = has_flag r f"
  by (auto simp: role_bits)

lemma has_own_flag: "f \<in> role_flags \<Longrightarrow> has_flag f f"
  by (auto simp: role_bits)

section \<open>Narrowed role maps\<close>

lemma narrows_refl: "narrows m m"
  by (auto simp: narrows_def narrows_role_refl intro!: list.rel_refl)

lemma narrows_trans: "narrows a b \<Longrightarrow> narrows b c \<Longrightarrow> narrows a c"
  unfolding narrows_def by (rule list_all2_trans) (auto intro: narrows_role_trans)

lemma narrows_length: "narrows a m \<Longrightarrow> length a = length m"
  by (simp add: narrows_def list_all2_lengthD)

lemma narrows_iff: "narrows a m \<longleftrightarrow> length a = length m
    \<and> (\<forall>i<length m. fst (a ! i) = fst (m ! i) \<and> narrows_role (snd (a ! i)) (snd (m ! i)))"
  by (auto simp: narrows_def list_all2_conv_all_nth case_prod_beta)

lemma narrows_nth: "narrows a m \<Longrightarrow> i < length m \<Longrightarrow> narrows_role (snd (a ! i)) (snd (m ! i))"
  by (simp add: narrows_iff)

lemma narrows_keys: "narrows a m \<Longrightarrow> map fst a = map fst m"
  by (simp add: narrows_iff list_eq_iff_nth_eq)

lemma narrows_update:
  "narrows a m \<Longrightarrow> i < length m \<Longrightarrow> narrows_role (snd (a ! i)) r \<Longrightarrow> narrows a (m[i := (fst (m ! i), r)])"
  by (auto simp: narrows_iff nth_list_update)

lemma players_as_take: "i < length m \<Longrightarrow>
    players_as f (take (Suc i) m) = players_as f (take i m) + of_bool (snd (m ! i) AND NOT PLAYER_ROLE_LEADER = f)"
  by (simp add: players_as_def take_Suc_conv_app_nth split: prod.splits)

lemma players_as_take_le: "players_as f (take i m) \<le> min i (players_as f m)"
proof -
  have "players_as f m = players_as f (take i m) + players_as f (drop i m)"
    by (simp add: players_as_def flip: length_append filter_append)
  then show ?thesis
    using length_filter_le [of "\<lambda>(g, r). r AND NOT PLAYER_ROLE_LEADER = f" "take i m"] by (auto simp: players_as_def)
qed

lemma players_as_narrows:
  assumes "narrows a m" and "list_all (single_role \<circ> snd) a" and "f \<in> role_flags"
  shows "players_as f m \<le> players_as f a"
  using assms(1,2) unfolding narrows_def
proof (induction rule: list_all2_induct)
  case (Cons x xs y ys)
  then show ?case
    using narrows_single [of "snd x" "snd y"] assms(3)
    by (auto simp: players_as_def single_role_def split: prod.splits)
qed (simp add: players_as_def)

lemma roles_offered_update:
  assumes "i < length m" and "has_flag (snd (m ! i)) f" and "f \<in> role_flags"
  shows "roles_offered m = Suc (roles_offered (m[i := (fst (m ! i), snd (m ! i) AND NOT f)]))"
proof -
  have "m = take i m @ m ! i # drop (Suc i) m" using assms(1) by (rule id_take_nth_drop)
  then have "roles_offered m = roles_offered (take i m @ m ! i # drop (Suc i) m)" by simp
  then show ?thesis
    using assms role_count_drop [of "snd (m ! i)" f]
    by (simp add: roles_offered_def upd_conv_take_nth_drop)
qed

section \<open>The search is correct\<close>

definition solvable :: "roles_map \<Rightarrow> LFGDungeonData \<Rightarrow> bool" where
  "solvable m d \<longleftrightarrow> (\<exists>a. narrows a m \<and> roles_fit a d)"

definition search_ok :: "LFGDungeonData \<Rightarrow> roles_map \<Rightarrow> bool \<times> roles_map \<Rightarrow> bool" where
  "search_ok d m res \<longleftrightarrow> (if fst res then narrows (snd res) m \<and> roles_fit (snd res) d
                           else snd res = m \<and> \<not> solvable m d)"

text \<open>
  One role bit of one player: either the function returns a correct answer, or the map is as it was,
  the counter counts the players settled in this role, and no solution gives the player another role
  than this one, if the search has tried that.
\<close>

definition required :: "LFGDungeonData \<Rightarrow> u8 \<Rightarrow> u32" where
  "required d f = (if f = PLAYER_ROLE_DAMAGE then requiredDamagedealers d
                   else if f = PLAYER_ROLE_HEALER then requiredHeals d else requiredTanks d)"

definition settled :: "LFGDungeonData \<Rightarrow> roles_map \<Rightarrow> nat \<Rightarrow> u8 \<Rightarrow> u8 \<Rightarrow> bool" where
  "settled d m k f n \<longleftrightarrow> unat n = players_as f (take k m) \<and> unat n \<le> unat (required d f)"

definition tried :: "LFGDungeonData \<Rightarrow> roles_map \<Rightarrow> nat \<Rightarrow> u8 \<Rightarrow> bool" where
  "tried d m i f \<longleftrightarrow> (has_flag (snd (m ! i) AND NOT PLAYER_ROLE_LEADER) f \<and> snd (m ! i) AND NOT PLAYER_ROLE_LEADER \<noteq> f
     \<longrightarrow> \<not> (\<exists>a. narrows a m \<and> roles_fit a d \<and> snd (a ! i) AND NOT PLAYER_ROLE_LEADER \<noteq> f))"

lemma unat_ucast_u8_u32: "unat (ucast (n :: u8) :: u32) = unat n"
  using unsigned_less [of n, where ?'a = nat] by (simp add: unsigned_ucast_eq take_bit_nat_eq_self)

lemma roles_fit_required: "roles_fit a d \<Longrightarrow> f \<in> role_flags \<Longrightarrow> players_as f a \<le> unat (required d f)"
  by (auto simp: roles_fit_def required_def role_flags_def)

lemma roles_fit_nth: "roles_fit a d \<Longrightarrow> i < length a \<Longrightarrow> single_role (snd (a ! i))"
  by (simp add: roles_fit_def list_all_length)

lemma try_role_ok:
  assumes check: "\<And>m2. roles_offered m2 < roles_offered m \<Longrightarrow> length m2 = length m
                    \<Longrightarrow> \<exists>r. check m2 = Some r \<and> search_ok d m2 r"
    and i: "i < length m" "length m < 256" and f: "f \<in> role_flags"
    and n: "settled d m i f n" and role: "role = snd (m ! i) AND NOT PLAYER_ROLE_LEADER"
  shows "(\<exists>res. try_role check f (required d f) i role m n = Some (Inl res) \<and> search_ok d m res)
       \<or> (\<exists>n'. try_role check f (required d f) i role m n = Some (Inr (m, n')) \<and> settled d m (Suc i) f n' \<and> tried d m i f)"
proof (cases "has_flag role f")
  case False
  then have "role \<noteq> f" using has_own_flag [OF f] by auto
  then show ?thesis
    using False n i by (auto simp: try_role_def settled_def tried_def players_as_take role)
next
  case flag: True
  show ?thesis
  proof (cases "role = f")
    case False
    let ?m2 = "m[i := (fst (m ! i), snd (m ! i) AND NOT f)]"
    have r: "has_flag (snd (m ! i)) f" using flag f by (simp add: role has_flag_leader)
    have m2: "add_role i (- f) m = ?m2" using minus_role [OF r f] by (simp add: add_role_def)
    have restore: "add_role i f ?m2 = m" using i minus_role [OF r f, symmetric] by (simp add: add_role_def)
    have nm: "narrows ?m2 m" using i drop_narrows [OF f] narrows_role_refl
      by (auto simp: narrows_iff nth_list_update)
    obtain ok m1 where c: "check ?m2 = Some (ok, m1)" and res: "search_ok d ?m2 (ok, m1)"
      using check [of ?m2] roles_offered_update [OF i(1) r f] by auto
    show ?thesis
    proof (cases ok)
      case True
      then have "search_ok d m (True, m1)" using res nm by (auto simp: search_ok_def intro: narrows_trans)
      then show ?thesis using c flag False True by (simp add: try_role_def m2)
    next
      case nok: False
      have "narrows a ?m2" if "narrows a m" "roles_fit a d" "snd (a ! i) AND NOT PLAYER_ROLE_LEADER \<noteq> f" for a
        using that i f narrows_length [OF that(1)] narrows_nth [OF that(1) i(1)] roles_fit_nth [OF that(2)]
        by (intro narrows_update narrows_drop) auto
      then have "tried d m i f" using res nok by (auto simp: tried_def search_ok_def solvable_def)
      then show ?thesis
        using c flag False nok n i res
        by (auto simp: try_role_def m2 settled_def players_as_take role search_ok_def restore)
    qed
  next
    case True
    have count: "players_as f (take (Suc i) m) = Suc (unat n)"
      using n i True by (simp add: players_as_take settled_def role)
    show ?thesis
    proof (cases "ucast n = required d f")
      case full: True
      then have "unat (required d f) = unat n" using unat_ucast_u8_u32 [of n] by simp
      then have "\<not> solvable m d"
        using count players_as_narrows [OF _ _ f] roles_fit_required [OF _ f] players_as_take_le [of f "Suc i" m]
        by (fastforce simp: solvable_def roles_fit_def)
      then show ?thesis using full True flag by (simp add: try_role_def search_ok_def)
    next
      case free: False
      have "unat n < 255" using players_as_take_le [of f i m] n i by (simp add: settled_def)
      then have "unat (n + 1) = Suc (unat n)" by (simp add: unat_word_ariths)
      moreover have "unat n \<noteq> unat (required d f)"
        using free unat_ucast_u8_u32 [of n] by (metis word_unat_eq_iff)
      ultimately show ?thesis
        using free True flag n count by (auto simp: try_role_def settled_def tried_def role)
    qed
  qed
qed

lemma roles_loop_end:
  assumes "m \<noteq> []" "length m < 256" and "list_all (single_role \<circ> snd) m \<or> \<not> solvable m d"
    and n: "settled d m (length m) PLAYER_ROLE_DAMAGE damage" "settled d m (length m) PLAYER_ROLE_HEALER healer"
      "settled d m (length m) PLAYER_ROLE_TANK tank"
  shows "\<exists>r. roles_loop check d [] m damage healer tank = Some r \<and> search_ok d m r"
proof -
  let ?all = "list_all (single_role \<circ> snd) m"
  have "players_as PLAYER_ROLE_TANK m + players_as PLAYER_ROLE_HEALER m + players_as PLAYER_ROLE_DAMAGE m
      = length (filter (single_role \<circ> snd) m)"
    unfolding players_as_def by (induction m) (auto simp: single_role_def role_flags_def role_defs split: prod.splits)
  moreover have "length (filter (single_role \<circ> snd) m) = length m \<longleftrightarrow> ?all"
    by (induction m) (auto simp: le_imp_less_Suc less_not_refl3 length_filter_le)
  ultimately have "unat tank + unat healer + unat damage = unat (of_nat (length m) :: u8) \<longleftrightarrow> ?all"
    using n assms(2) by (simp add: settled_def unat_of_nat)
  moreover have "?all \<Longrightarrow> roles_fit m d"
    using n by (simp add: roles_fit_def settled_def required_def role_defs)
  ultimately show ?thesis
    using assms(3) narrows_refl by (auto simp: search_ok_def)
qed

lemma tried_single:
  assumes "i < length m" and "\<And>f. f \<in> role_flags \<Longrightarrow> tried d m i f"
  shows "single_role (snd (m ! i)) \<or> \<not> solvable m d"
proof (rule disjCI, clarsimp simp: solvable_def)
  fix a assume a: "narrows a m" "roles_fit a d"
  then have "narrows_role (snd (a ! i)) (snd (m ! i))" "single_role (snd (a ! i))"
    using assms(1) narrows_length [OF a(1)] by (simp_all add: narrows_nth roles_fit_nth)
  from narrows_other [OF this] show "single_role (snd (m ! i))"
    using assms(2) a unfolding tried_def by blast
qed

lemma roles_loop_ok:
  assumes check: "\<And>m2. roles_offered m2 < roles_offered m \<Longrightarrow> length m2 = length m
                    \<Longrightarrow> \<exists>r. check m2 = Some r \<and> search_ok d m2 r"
    and m: "m \<noteq> []" "length m < 256" and k: "k \<le> length m"
    and "settled d m k PLAYER_ROLE_DAMAGE damage" "settled d m k PLAYER_ROLE_HEALER healer"
      "settled d m k PLAYER_ROLE_TANK tank"
    and "list_all (single_role \<circ> snd) (take k m) \<or> \<not> solvable m d"
  shows "\<exists>r. roles_loop check d [k..<length m] m damage healer tank = Some r \<and> search_ok d m r"
  using assms(4-)
proof (induction k arbitrary: damage healer tank rule: inc_induct)
  case base
  then show ?case using roles_loop_end [OF m, of d damage healer tank check] by (simp add: comp_def)
next
  case (step i)
  let ?role = "snd (m ! i) AND NOT PLAYER_ROLE_LEADER"
  have upt: "[i..<length m] = i # [Suc i..<length m]" using step.hyps by (simp add: upt_rec)
  have flags: "PLAYER_ROLE_DAMAGE \<in> role_flags" "PLAYER_ROLE_HEALER \<in> role_flags" "PLAYER_ROLE_TANK \<in> role_flags"
    by (simp_all add: role_flags_def)
  have reqs: "required d PLAYER_ROLE_DAMAGE = requiredDamagedealers d" "required d PLAYER_ROLE_HEALER = requiredHeals d"
    "required d PLAYER_ROLE_TANK = requiredTanks d"
    by (simp_all add: required_def role_defs)
  have attempt: "(\<exists>res. try_role check f (required d f) i ?role m n = Some (Inl res) \<and> search_ok d m res)
      \<or> (\<exists>n'. try_role check f (required d f) i ?role m n = Some (Inr (m, n')) \<and> settled d m (Suc i) f n' \<and> tried d m i f)"
    if "f \<in> role_flags" "settled d m i f n" for f n
    using check step.hyps(2) m(2) that by (rule try_role_ok) simp_all
  show ?case
  proof (cases "?role = PLAYER_ROLE_NONE")
    case True
    then have "\<not> solvable m d"
      using narrows_nth [OF _ step.hyps(2)] narrows_none roles_fit_nth narrows_length step.hyps(2)
      by (fastforce simp: solvable_def)
    then show ?thesis using True by (simp add: upt search_ok_def)
  next
    case some: False
    have next_ok: "\<exists>r. roles_loop check d [Suc i..<length m] m damage' healer' tank' = Some r \<and> search_ok d m r"
      if "settled d m (Suc i) PLAYER_ROLE_DAMAGE damage'" "settled d m (Suc i) PLAYER_ROLE_HEALER healer'"
        "settled d m (Suc i) PLAYER_ROLE_TANK tank'"
        and "tried d m i PLAYER_ROLE_DAMAGE" "tried d m i PLAYER_ROLE_HEALER" "tried d m i PLAYER_ROLE_TANK"
      for damage' healer' tank'
    proof (rule step.IH [OF that(1-3)])
      have "single_role (snd (m ! i)) \<or> \<not> solvable m d"
        using that(4-6) by (intro tried_single [OF step.hyps(2)]) (auto simp: role_flags_def)
      then show "list_all (single_role \<circ> snd) (take (Suc i) m) \<or> \<not> solvable m d"
        using step.prems(4) step.hyps(2) by (auto simp: take_Suc_conv_app_nth comp_def)
    qed
    show ?thesis
      using attempt [OF flags(1) step.prems(1)] attempt [OF flags(2) step.prems(2)] attempt [OF flags(3) step.prems(3)]
      by (auto simp: upt some reqs dest!: next_ok)
  qed
qed

lemma CheckGroupRoles_fuel_ok:
  assumes "m \<noteq> []" "length m < 256" and "roles_offered m < n"
  shows "\<exists>r. CheckGroupRoles_fuel n d m = Some r \<and> search_ok d m r"
  using assms
proof (induction n arbitrary: m)
  case (Suc n)
  have "\<exists>r. roles_loop (CheckGroupRoles_fuel n d) d [0..<length m] m 0 0 0 = Some r \<and> search_ok d m r"
    using Suc.prems by (intro roles_loop_ok Suc.IH) (auto simp: settled_def players_as_def)
  then show ?case using Suc.prems by simp
qed simp

lemma CheckGroupRoles_ok: "m \<noteq> [] \<Longrightarrow> length m < 256 \<Longrightarrow> search_ok d m (CheckGroupRoles m d)"
  using CheckGroupRoles_fuel_ok [of m "Suc (roles_offered m)" d] by (auto simp: CheckGroupRoles_def)

lemma CheckGroupRoles_Nil: "CheckGroupRoles [] d = (False, [])"
  by (simp add: CheckGroupRoles_def)

text \<open>
  For a map of any size, where the counters may wrap, the search still ends and still leaves the same players with roles
  they offered.
\<close>

definition search_kept :: "roles_map \<Rightarrow> bool \<times> roles_map \<Rightarrow> bool" where
  "search_kept m res \<longleftrightarrow> (if fst res then narrows (snd res) m else snd res = m)"

lemma try_role_kept:
  assumes check: "\<And>m2. roles_offered m2 < roles_offered m \<Longrightarrow> \<exists>r. check m2 = Some r \<and> search_kept m2 r"
    and i: "i < length m" and f: "f \<in> role_flags" and role: "role = snd (m ! i) AND NOT PLAYER_ROLE_LEADER"
  shows "(\<exists>res. try_role check f req i role m n = Some (Inl res) \<and> search_kept m res)
       \<or> (\<exists>n'. try_role check f req i role m n = Some (Inr (m, n')))"
proof (cases "has_flag role f \<and> role \<noteq> f")
  case True
  let ?m2 = "m[i := (fst (m ! i), snd (m ! i) AND NOT f)]"
  have r: "has_flag (snd (m ! i)) f" using True f by (simp add: role has_flag_leader)
  have m2: "add_role i (- f) m = ?m2" using minus_role [OF r f] by (simp add: add_role_def)
  have restore: "add_role i f ?m2 = m" using i minus_role [OF r f, symmetric] by (simp add: add_role_def)
  have nm: "narrows ?m2 m" using i drop_narrows [OF f] narrows_role_refl by (auto simp: narrows_iff nth_list_update)
  obtain ok m1 where c: "check ?m2 = Some (ok, m1)" and res: "search_kept ?m2 (ok, m1)"
    using check [of ?m2] roles_offered_update [OF i r f] by auto
  show ?thesis
  proof (cases ok)
    case found: True
    then have "search_kept m (True, m1)" using res narrows_trans [OF _ nm] by (simp add: search_kept_def)
    then show ?thesis using True found c by (simp add: try_role_def m2)
  next
    case False
    then have "m1 = ?m2" using res by (simp add: search_kept_def)
    then show ?thesis using True False c restore by (simp add: try_role_def m2)
  qed
qed (auto simp: try_role_def search_kept_def)

lemma roles_loop_kept:
  assumes check: "\<And>m2. roles_offered m2 < roles_offered m \<Longrightarrow> \<exists>r. check m2 = Some r \<and> search_kept m2 r"
  shows "\<forall>i\<in>set its. i < length m \<Longrightarrow> \<exists>r. roles_loop check d its m damage healer tank = Some r \<and> search_kept m r"
proof (induction its arbitrary: damage healer tank)
  case Nil
  then show ?case by (simp add: search_kept_def narrows_refl)
next
  case (Cons i its)
  let ?role = "snd (m ! i) AND NOT PLAYER_ROLE_LEADER"
  have attempt: "(\<exists>res. try_role check f req i ?role m n = Some (Inl res) \<and> search_kept m res)
      \<or> (\<exists>n'. try_role check f req i ?role m n = Some (Inr (m, n')))" if "f \<in> role_flags" for f req n
    using try_role_kept [where check = check and m = m and i = i and req = req and n = n, OF check _ that refl] Cons.prems by simp
  have rest: "\<exists>r. roles_loop check d its m damage' healer' tank' = Some r \<and> search_kept m r" for damage' healer' tank'
    using Cons by simp
  show ?case
  proof (cases "?role = PLAYER_ROLE_NONE")
    case False
    then show ?thesis
      using attempt [of PLAYER_ROLE_DAMAGE "requiredDamagedealers d" damage] attempt [of PLAYER_ROLE_HEALER "requiredHeals d" healer]
        attempt [of PLAYER_ROLE_TANK "requiredTanks d" tank] rest
      by (auto simp: role_flags_def)
  qed (simp add: search_kept_def)
qed

lemma CheckGroupRoles_fuel_kept: "roles_offered m < n \<Longrightarrow> \<exists>r. CheckGroupRoles_fuel n d m = Some r \<and> search_kept m r"
proof (induction n arbitrary: m)
  case (Suc n)
  then have "\<exists>r. roles_loop (CheckGroupRoles_fuel n d) d [0..<length m] m 0 0 0 = Some r \<and> search_kept m r"
    by (intro roles_loop_kept) auto
  then show ?case by (cases "m = []") (simp_all add: search_kept_def)
qed simp

lemma CheckGroupRoles_narrows: "narrows (snd (CheckGroupRoles m d)) m"
  using CheckGroupRoles_fuel_kept [OF lessI, of m d] narrows_refl
  by (auto simp: CheckGroupRoles_def search_kept_def split: if_splits)

text \<open>More fuel never changes an answer.\<close>

definition answer_le :: "'a option \<Rightarrow> 'a option \<Rightarrow> bool" where
  "answer_le x y \<longleftrightarrow> x = None \<or> x = y"

lemma answer_le_bind:
  assumes "answer_le x y" and "\<And>a. answer_le (f a) (g a)"
  shows "answer_le (Option.bind x f) (Option.bind y g)"
  using assms(1) assms(2) [of "the x"] by (cases x) (auto simp: answer_le_def)

lemma try_role_mono:
  assumes "\<And>m. answer_le (c1 m) (c2 m)"
  shows "answer_le (try_role c1 f req i role m n) (try_role c2 f req i role m n)"
  unfolding try_role_def using assms by (auto intro!: answer_le_bind) (simp_all add: answer_le_def)

lemma roles_loop_mono:
  assumes "\<And>m. answer_le (c1 m) (c2 m)"
  shows "answer_le (roles_loop c1 d its m damage healer tank) (roles_loop c2 d its m damage healer tank)"
proof (induction its arbitrary: m damage healer tank)
  case (Cons i its)
  show ?case
    by (auto simp: Let_def Cons.IH intro!: answer_le_bind try_role_mono assms split: sum.split)
      (simp_all add: answer_le_def)
qed (simp add: answer_le_def)

lemma CheckGroupRoles_fuel_mono: "n \<le> n' \<Longrightarrow> answer_le (CheckGroupRoles_fuel n d m) (CheckGroupRoles_fuel n' d m)"
proof (induction n arbitrary: n' m)
  case (Suc n)
  then obtain k where "n' = Suc k" "n \<le> k" by (cases n') auto
  then show ?case using Suc.IH by (simp add: roles_loop_mono) (simp add: answer_le_def)
qed (simp add: answer_le_def)

text \<open>
  C7: the role check of a group of 1 to 255 players always ends (any recursion depth above the number
  of roles on offer gives the same answer), says yes exactly when every player can be given one of
  the roles they offered without overbooking a role, and then leaves such an assignment in the map;
  when it says no, it leaves the map as it was.
\<close>

theorem CheckGroupRoles_correct:
  assumes "m \<noteq> []" and "length m < 256"
  shows "(\<forall>n > roles_offered m. CheckGroupRoles_fuel n d m = Some (CheckGroupRoles m d))
    \<and> (fst (CheckGroupRoles m d) \<longleftrightarrow> (\<exists>a. narrows a m \<and> roles_fit a d))
    \<and> (if fst (CheckGroupRoles m d)
       then narrows (snd (CheckGroupRoles m d)) m \<and> roles_fit (snd (CheckGroupRoles m d)) d
       else snd (CheckGroupRoles m d) = m)"
proof -
  have ok: "search_ok d m (CheckGroupRoles m d)" using assms by (rule CheckGroupRoles_ok)
  then have "fst (CheckGroupRoles m d) \<longleftrightarrow> (\<exists>a. narrows a m \<and> roles_fit a d)"
    by (auto simp: search_ok_def solvable_def split: if_splits)
  moreover have "CheckGroupRoles_fuel n d m = Some (CheckGroupRoles m d)" if "roles_offered m < n" for n
  proof -
    obtain r where "CheckGroupRoles_fuel (Suc (roles_offered m)) d m = Some r"
      using CheckGroupRoles_fuel_ok [OF assms lessI, of d] by blast
    then show ?thesis
      using CheckGroupRoles_fuel_mono [OF Suc_leI [OF that], of d m]
      unfolding answer_le_def CheckGroupRoles_def by (metis option.sel option.distinct(1))
  qed
  ultimately show ?thesis using ok by (simp add: search_ok_def split: if_splits)
qed

text \<open>A five-man dungeon: one tank, one healer, three damage dealers.\<close>

definition five_man :: LFGDungeonData where
  "five_man = \<lparr>dg_id = 1, dg_map = 33, dg_type = 1, dg_expansion = 0, dg_group = 1, dg_minlevel = 15, dg_maxlevel = 25,
     dg_difficulty = 0, dg_seasonal = False, dg_isLFR = False, dg_neededILevel = 0,
     requiredTanks = 1, requiredHeals = 1, requiredDamagedealers = 3\<rparr>"

theorem CheckGroupRoles_correct_witness:
  "CheckGroupRoles [(7, 15), (8, 4), (9, 10)] five_man = (True, [(7, 3), (8, 4), (9, 8)])
   \<and> (\<exists>a. narrows a [(7, 15), (8, 4), (9, 10)] \<and> roles_fit a five_man)"
proof -
  have run: "CheckGroupRoles [(7, 15), (8, 4), (9, 10)] five_man = (True, [(7, 3), (8, 4), (9, 8)])" by code_simp
  then show ?thesis using CheckGroupRoles_correct [of "[(7, 15), (8, 4), (9, 10)]" five_man] by simp
qed

end
