(* ===== verification/LfgQueue.thy ===== *)
theory LfgQueue
  imports LfgRoles Util "HOL-Library.List_Lexorder" "HOL-Library.Char_ord"
begin

text \<open>
  The waiting queue of the dungeon finder (\<^verbatim>\<open>src/server/game/DungeonFinding/LFGQueue.cpp\<close>): the
  queued groups and what they want, the cache of compatible combinations keyed by the decimal GUIDs
  of their members, the average waiting times, and the search that forms a proposal when a new group
  joins.  What the queue asks of the rest of the server (dungeon data, the state of players and
  groups, ignore lists, the clock, the random generator) is the record \<open>lfg_env\<close>; the proposals it
  hands to the manager and the position in the random sequence are the record \<open>lfg_shared\<close>.
  \<^verbatim>\<open>time_t\<close> is an integer; debug messages are left out.
\<close>

section \<open>Data\<close>

datatype LfgState = LFG_STATE_NONE | LFG_STATE_ROLECHECK | LFG_STATE_QUEUED | LFG_STATE_PROPOSAL
  | LFG_STATE_DUNGEON | LFG_STATE_FINISHED_DUNGEON | LFG_STATE_RAIDBROWSER

datatype LfgAnswer = LFG_ANSWER_PENDING | LFG_ANSWER_DENY | LFG_ANSWER_AGREE

datatype LfgProposalState = LFG_PROPOSAL_INITIATING | LFG_PROPOSAL_FAILED | LFG_PROPOSAL_SUCCESS

datatype LfgCompatibility =
    LFG_COMPATIBILITY_PENDING
  | LFG_INCOMPATIBLES_WRONG_GROUP_SIZE
  | LFG_INCOMPATIBLES_TOO_MUCH_PLAYERS
  | LFG_INCOMPATIBLES_MULTIPLE_LFG_GROUPS
  | LFG_INCOMPATIBLES_HAS_IGNORES
  | LFG_INCOMPATIBLES_NO_ROLES
  | LFG_INCOMPATIBLES_NO_DUNGEONS
  | LFG_COMPATIBLES_WITH_LESS_PLAYERS
  | LFG_COMPATIBLES_BAD_STATES
  | LFG_COMPATIBLES_MATCH

text \<open>The enumeration is compared by its values: everything below \<open>WITH_LESS_PLAYERS\<close> is incompatible.\<close>

fun compatibility_value :: "LfgCompatibility \<Rightarrow> nat" where
  "compatibility_value LFG_COMPATIBILITY_PENDING = 0"
| "compatibility_value LFG_INCOMPATIBLES_WRONG_GROUP_SIZE = 1"
| "compatibility_value LFG_INCOMPATIBLES_TOO_MUCH_PLAYERS = 2"
| "compatibility_value LFG_INCOMPATIBLES_MULTIPLE_LFG_GROUPS = 3"
| "compatibility_value LFG_INCOMPATIBLES_HAS_IGNORES = 4"
| "compatibility_value LFG_INCOMPATIBLES_NO_ROLES = 5"
| "compatibility_value LFG_INCOMPATIBLES_NO_DUNGEONS = 6"
| "compatibility_value LFG_COMPATIBLES_WITH_LESS_PLAYERS = 7"
| "compatibility_value LFG_COMPATIBLES_BAD_STATES = 8"
| "compatibility_value LFG_COMPATIBLES_MATCH = 9"

lemma compatibility_value_inj: "compatibility_value a = compatibility_value b \<Longrightarrow> a = b"
  by (cases a; cases b) simp_all

instantiation LfgCompatibility :: linorder
begin

definition less_eq_LfgCompatibility :: "LfgCompatibility \<Rightarrow> LfgCompatibility \<Rightarrow> bool" where
  "a \<le> b \<longleftrightarrow> compatibility_value a \<le> compatibility_value b"

definition less_LfgCompatibility :: "LfgCompatibility \<Rightarrow> LfgCompatibility \<Rightarrow> bool" where
  "a < b \<longleftrightarrow> compatibility_value a < compatibility_value b"

instance
  by standard (auto simp: less_eq_LfgCompatibility_def less_LfgCompatibility_def compatibility_value_inj)

end

record LfgCompatibilityData =
  cd_compatibility :: LfgCompatibility
  cd_roles :: roles_map

record LfgQueueData =
  qd_joinTime :: int
  qd_tanks :: u8
  qd_healers :: u8
  qd_dps :: u8
  qd_dungeons :: "u32 list"
  qd_roles :: roles_map
  qd_bestCompatible :: string

record LfgWaitTime =
  wt_time :: u32
  wt_number :: u32

definition LfgWaitTime_init :: LfgWaitTime where
  "LfgWaitTime_init = \<lparr>wt_time = - 1, wt_number = 0\<rparr>"

record LfgProposalPlayer =
  pp_role :: u8
  pp_accept :: LfgAnswer
  pp_group :: guid

record LfgProposal =
  pr_id :: u32
  pr_dungeonId :: u32
  pr_state :: LfgProposalState
  pr_group :: guid
  pr_leader :: guid
  pr_cancelTime :: int
  pr_encounters :: u32
  pr_isNew :: bool
  pr_queues :: "guid list"
  pr_showorder :: "guid list"
  pr_players :: "(guid, LfgProposalPlayer) omap"

record lfg_queue =
  QueueDataStore :: "(guid, LfgQueueData) omap"
  CompatibleMapStore :: "(string, LfgCompatibilityData) omap"
  waitTimesAvgStore :: "(u32, LfgWaitTime) omap"
  waitTimesTankStore :: "(u32, LfgWaitTime) omap"
  waitTimesHealerStore :: "(u32, LfgWaitTime) omap"
  waitTimesDpsStore :: "(u32, LfgWaitTime) omap"
  currentQueueStore :: "guid list"
  newToQueueStore :: "guid list"

record lfg_shared =
  m_lfgProposalId :: u32
  ProposalsStore :: "(u32, LfgProposal) omap"
  rand_pos :: nat

type_synonym lfg_st = "lfg_queue \<times> lfg_shared"

record lfg_env =
  env_GetLFGDungeon :: "u32 \<Rightarrow> LFGDungeonData option"
  env_IsLfgGroup :: "guid \<Rightarrow> bool"
  env_online :: "guid \<Rightarrow> bool"
  env_ignores :: "guid \<Rightarrow> u32 \<Rightarrow> bool"
  env_GetState :: "guid \<Rightarrow> LfgState"
  env_GetOldState :: "guid \<Rightarrow> LfgState"
  env_GetPlayerCount :: "guid \<Rightarrow> u8"
  env_GetRoles :: "guid \<Rightarrow> u8"
  env_now :: int
  env_BRandom :: "nat \<Rightarrow> u32"

definition LFG_TIME_PROPOSAL :: int where "LFG_TIME_PROPOSAL = 45"

subsection \<open>GUIDs\<close>

definition HIGHGUID_CORPSE :: u32 where "HIGHGUID_CORPSE = 0xF101"
definition HIGHGUID_AREATRIGGER :: u32 where "HIGHGUID_AREATRIGGER = 0xF102"
definition HIGHGUID_GROUP :: u32 where "HIGHGUID_GROUP = 0x1F5"

definition GUID_HIPART :: "guid \<Rightarrow> u32" where
  "GUID_HIPART guid =
     (let t = ucast (drop_bit 48 guid AND 0x0000FFFF) :: u32 in
      if t = HIGHGUID_CORPSE \<or> t = HIGHGUID_AREATRIGGER then t else drop_bit 4 t AND 0x00000FFF)"

definition IS_GROUP_GUID :: "guid \<Rightarrow> bool" where
  "IS_GROUP_GUID guid \<longleftrightarrow> GUID_HIPART guid = HIGHGUID_GROUP"

subsection \<open>Random numbers\<close>

text \<open>\<open>urand\<close> over the raw 32-bit outputs of the generator: the multiply-and-shift method.\<close>

definition urand :: "lfg_env \<Rightarrow> u32 \<Rightarrow> u32 \<Rightarrow> lfg_shared \<Rightarrow> u32 \<times> lfg_shared" where
  "urand e lo hi sh =
     (if hi \<le> lo then (if hi = lo then lo else 0, sh)
      else let interval = hi - lo + 1;
               longran = ucast (env_BRandom e (rand_pos sh)) * ucast interval :: u64;
               iran = ucast (drop_bit 32 longran) :: u32
           in (iran + lo, sh\<lparr>rand_pos := Suc (rand_pos sh)\<rparr>))"

text \<open>The position \<open>SelectRandomContainerElement\<close> advances to in a container of the given size.\<close>

definition random_index :: "lfg_env \<Rightarrow> nat \<Rightarrow> lfg_shared \<Rightarrow> nat \<times> lfg_shared" where
  "random_index e n sh = (let (r, sh) = urand e 0 (of_nat (n - 1)) sh in (unat r, sh))"

section \<open>Names of combinations\<close>

definition guid_string :: "guid \<Rightarrow> string" where
  "guid_string g = print_nat (unat g)"

text \<open>The same on binary integers, for evaluation.\<close>

definition digit_char :: "int \<Rightarrow> char" where
  "digit_char i = (if i = 0 then CHR ''0'' else if i = 1 then CHR ''1'' else if i = 2 then CHR ''2'' else if i = 3 then CHR ''3''
     else if i = 4 then CHR ''4'' else if i = 5 then CHR ''5'' else if i = 6 then CHR ''6'' else if i = 7 then CHR ''7''
     else if i = 8 then CHR ''8'' else CHR ''9'')"

function print_int :: "int \<Rightarrow> string \<Rightarrow> string" where
  "print_int i cs = (if i < 10 then digit_char i # cs else print_int (i div 10) (digit_char (i mod 10) # cs))"
  by pat_completeness auto

termination print_int by (relation "measure (\<lambda>(i, cs). nat i)") auto

declare print_int.simps [simp del]

lemma digit_char_nat: "n < 10 \<Longrightarrow> digit_char (int n) = char_of (48 + n)"
proof -
  assume "n < 10"
  then have "n \<in> {0, 1, 2, 3, 4, 5, 6, 7, 8, 9}" by auto
  then show ?thesis by (auto simp: digit_char_def char_of_def bit_simps)
qed

lemma print_int_nat: "print_int (int n) cs = print_nat n @ cs"
proof (induction n arbitrary: cs rule: print_nat.induct)
  case (1 n)
  have "int n mod 10 = int (n mod 10)" "int n div 10 = int (n div 10)" by (simp_all add: zdiv_int zmod_int)
  then show ?case
    using 1 digit_char_nat [of n] digit_char_nat [of "n mod 10"]
    by (simp add: print_int.simps [of "int n" cs] print_nat.simps [of n])
qed

lemma guid_string_code [code]: "guid_string g = print_int (uint g) []"
  using print_int_nat [of "unat g" "[]"] by (simp add: guid_string_def)

fun separated :: "string list \<Rightarrow> string" where
  "separated [] = []"
| "separated [t] = t"
| "separated (t # ts) = t @ CHR ''|'' # separated ts"

text \<open>\<^verbatim>\<open>LfgGuidSet guids(check.begin(), check.end())\<close>: sorted, without duplicates.\<close>

definition guid_set :: "guid list \<Rightarrow> guid list" where
  "guid_set check = sort (remdups check)"

definition ConcatenateGuids :: "guid list \<Rightarrow> string" where
  "ConcatenateGuids check = separated (map guid_string (guid_set check))"

fun GetCompatibleString :: "LfgCompatibility \<Rightarrow> string" where
  "GetCompatibleString LFG_COMPATIBILITY_PENDING = ''Pending''"
| "GetCompatibleString LFG_COMPATIBLES_BAD_STATES = ''Compatibles (Bad States)''"
| "GetCompatibleString LFG_COMPATIBLES_MATCH = ''Match''"
| "GetCompatibleString LFG_COMPATIBLES_WITH_LESS_PLAYERS = ''Compatibles (Not enough players)''"
| "GetCompatibleString LFG_INCOMPATIBLES_HAS_IGNORES = ''Has ignores''"
| "GetCompatibleString LFG_INCOMPATIBLES_MULTIPLE_LFG_GROUPS = ''Multiple Lfg Groups''"
| "GetCompatibleString LFG_INCOMPATIBLES_NO_DUNGEONS = ''Incompatible dungeons''"
| "GetCompatibleString LFG_INCOMPATIBLES_NO_ROLES = ''Incompatible roles''"
| "GetCompatibleString LFG_INCOMPATIBLES_TOO_MUCH_PLAYERS = ''Too much players''"
| "GetCompatibleString LFG_INCOMPATIBLES_WRONG_GROUP_SIZE = ''Wrong group size''"

section \<open>Queue data\<close>

definition InitializeGroupSetup :: "lfg_env \<Rightarrow> LfgQueueData \<Rightarrow> LfgQueueData" where
  "InitializeGroupSetup e data =
     (let data = data\<lparr>qd_tanks := - 1, qd_healers := - 1, qd_dps := - 1\<rparr> in
      case qd_dungeons data of
        [] \<Rightarrow> data
      | dungeonId # _ \<Rightarrow>
          (case env_GetLFGDungeon e dungeonId of
             None \<Rightarrow> data
           | Some d \<Rightarrow> data\<lparr>qd_tanks := ucast (requiredTanks d), qd_healers := ucast (requiredHeals d),
                            qd_dps := ucast (requiredDamagedealers d)\<rparr>))"

definition new_LfgQueueData :: "lfg_env \<Rightarrow> int \<Rightarrow> u32 list \<Rightarrow> roles_map \<Rightarrow> LfgQueueData" where
  "new_LfgQueueData e joinTime dungeons roles = InitializeGroupSetup e
     \<lparr>qd_joinTime = joinTime, qd_tanks = 0, qd_healers = 0, qd_dps = 0, qd_dungeons = dungeons,
      qd_roles = roles, qd_bestCompatible = []\<rparr>"

definition default_LfgQueueData :: "lfg_env \<Rightarrow> LfgQueueData" where
  "default_LfgQueueData e = new_LfgQueueData e (env_now e) [] []"

text \<open>\<open>QueueDataStore[guid]\<close> read: an absent GUID is inserted with default data.\<close>

definition touch_data :: "lfg_env \<Rightarrow> guid \<Rightarrow> lfg_queue \<Rightarrow> lfg_queue" where
  "touch_data e guid q = q\<lparr>QueueDataStore := om_modify (default_LfgQueueData e) guid id (QueueDataStore q)\<rparr>"

definition queue_data :: "lfg_env \<Rightarrow> lfg_queue \<Rightarrow> guid \<Rightarrow> LfgQueueData" where
  "queue_data e q guid = (case om_find (QueueDataStore q) guid of None \<Rightarrow> default_LfgQueueData e | Some d \<Rightarrow> d)"

section \<open>The two lists\<close>

definition AddToNewQueue :: "guid \<Rightarrow> lfg_queue \<Rightarrow> lfg_queue" where
  "AddToNewQueue guid q = q\<lparr>newToQueueStore := newToQueueStore q @ [guid]\<rparr>"

definition RemoveFromNewQueue :: "guid \<Rightarrow> lfg_queue \<Rightarrow> lfg_queue" where
  "RemoveFromNewQueue guid q = q\<lparr>newToQueueStore := removeAll guid (newToQueueStore q)\<rparr>"

definition AddToCurrentQueue :: "guid \<Rightarrow> lfg_queue \<Rightarrow> lfg_queue" where
  "AddToCurrentQueue guid q = q\<lparr>currentQueueStore := currentQueueStore q @ [guid]\<rparr>"

definition RemoveFromCurrentQueue :: "guid \<Rightarrow> lfg_queue \<Rightarrow> lfg_queue" where
  "RemoveFromCurrentQueue guid q = q\<lparr>currentQueueStore := removeAll guid (currentQueueStore q)\<rparr>"

definition AddToQueue :: "guid \<Rightarrow> lfg_queue \<Rightarrow> lfg_queue" where
  "AddToQueue guid q = (case om_find (QueueDataStore q) guid of None \<Rightarrow> q | Some _ \<Rightarrow> AddToNewQueue guid q)"

definition AddQueueData :: "lfg_env \<Rightarrow> guid \<Rightarrow> int \<Rightarrow> u32 list \<Rightarrow> roles_map \<Rightarrow> lfg_queue \<Rightarrow> lfg_queue" where
  "AddQueueData e guid joinTime dungeons rolesMap q =
     AddToQueue guid (q\<lparr>QueueDataStore := om_set guid (new_LfgQueueData e joinTime dungeons rolesMap) (QueueDataStore q)\<rparr>)"

definition RemoveQueueData :: "guid \<Rightarrow> lfg_queue \<Rightarrow> lfg_queue" where
  "RemoveQueueData guid q = q\<lparr>QueueDataStore := om_erase guid (QueueDataStore q)\<rparr>"

definition GetJoinTime :: "guid \<Rightarrow> lfg_queue \<Rightarrow> int" where
  "GetJoinTime guid q = (case om_find (QueueDataStore q) guid of None \<Rightarrow> 0 | Some d \<Rightarrow> qd_joinTime d)"

section \<open>Waiting times\<close>

text \<open>
  The running average, in the mixed arithmetic of the code: \<open>int32 * uint32 + int32\<close> and the division
  are unsigned 32-bit operations, the result is read back as signed.  \<open>None\<close> is the division by zero
  when the counter wraps.
\<close>

definition update_wait :: "u32 \<Rightarrow> u32 \<Rightarrow> (u32, LfgWaitTime) omap \<Rightarrow> (u32, LfgWaitTime) omap option" where
  "update_wait waitTime dungeonId store =
     (let wt = (case om_find store dungeonId of None \<Rightarrow> LfgWaitTime_init | Some wt \<Rightarrow> wt);
          old_number = wt_number wt;
          number = old_number + 1
      in if number = 0 then None
         else Some (om_set dungeonId \<lparr>wt_time = (wt_time wt * old_number + waitTime) div number, wt_number = number\<rparr> store))"

definition UpdateWaitTimeAvg :: "u32 \<Rightarrow> u32 \<Rightarrow> lfg_queue \<Rightarrow> lfg_queue option" where
  "UpdateWaitTimeAvg waitTime dungeonId q =
     map_option (\<lambda>st. q\<lparr>waitTimesAvgStore := st\<rparr>) (update_wait waitTime dungeonId (waitTimesAvgStore q))"

definition UpdateWaitTimeTank :: "u32 \<Rightarrow> u32 \<Rightarrow> lfg_queue \<Rightarrow> lfg_queue option" where
  "UpdateWaitTimeTank waitTime dungeonId q =
     map_option (\<lambda>st. q\<lparr>waitTimesTankStore := st\<rparr>) (update_wait waitTime dungeonId (waitTimesTankStore q))"

definition UpdateWaitTimeHealer :: "u32 \<Rightarrow> u32 \<Rightarrow> lfg_queue \<Rightarrow> lfg_queue option" where
  "UpdateWaitTimeHealer waitTime dungeonId q =
     map_option (\<lambda>st. q\<lparr>waitTimesHealerStore := st\<rparr>) (update_wait waitTime dungeonId (waitTimesHealerStore q))"

definition UpdateWaitTimeDps :: "u32 \<Rightarrow> u32 \<Rightarrow> lfg_queue \<Rightarrow> lfg_queue option" where
  "UpdateWaitTimeDps waitTime dungeonId q =
     map_option (\<lambda>st. q\<lparr>waitTimesDpsStore := st\<rparr>) (update_wait waitTime dungeonId (waitTimesDpsStore q))"

section \<open>The cache of compatible combinations\<close>

definition SetCompatibles :: "string \<Rightarrow> LfgCompatibility \<Rightarrow> lfg_queue \<Rightarrow> lfg_queue" where
  "SetCompatibles key compatibles q = q\<lparr>CompatibleMapStore :=
     om_modify \<lparr>cd_compatibility = LFG_COMPATIBILITY_PENDING, cd_roles = []\<rparr> key
       (\<lambda>d. d\<lparr>cd_compatibility := compatibles\<rparr>) (CompatibleMapStore q)\<rparr>"

definition SetCompatibilityData :: "string \<Rightarrow> LfgCompatibilityData \<Rightarrow> lfg_queue \<Rightarrow> lfg_queue" where
  "SetCompatibilityData key d q = q\<lparr>CompatibleMapStore := om_set key d (CompatibleMapStore q)\<rparr>"

definition GetCompatibles :: "string \<Rightarrow> lfg_queue \<Rightarrow> LfgCompatibility" where
  "GetCompatibles key q =
     (case om_find (CompatibleMapStore q) key of None \<Rightarrow> LFG_COMPATIBILITY_PENDING | Some d \<Rightarrow> cd_compatibility d)"

definition GetCompatibilityData :: "string \<Rightarrow> lfg_queue \<Rightarrow> LfgCompatibilityData option" where
  "GetCompatibilityData key q = om_find (CompatibleMapStore q) key"

definition RemoveFromCompatibles :: "guid \<Rightarrow> lfg_queue \<Rightarrow> lfg_queue" where
  "RemoveFromCompatibles guid q = q\<lparr>CompatibleMapStore :=
     filter (\<lambda>(key, d). \<not> contains_sub key (guid_string guid)) (CompatibleMapStore q)\<rparr>"

text \<open>One player of the best combination so far takes one of the free places.\<close>

definition take_place :: "u8 \<Rightarrow> LfgQueueData \<Rightarrow> LfgQueueData" where
  "take_place role data =
     (if has_flag role PLAYER_ROLE_TANK \<and> qd_tanks data \<noteq> 0 then data\<lparr>qd_tanks := qd_tanks data - 1\<rparr>
      else if has_flag role PLAYER_ROLE_HEALER \<and> qd_healers data \<noteq> 0 then data\<lparr>qd_healers := qd_healers data - 1\<rparr>
      else if qd_dps data \<noteq> 0 then data\<lparr>qd_dps := qd_dps data - 1\<rparr>
      else data)"

definition UpdateBestCompatibleInQueue :: "lfg_env \<Rightarrow> string \<Rightarrow> roles_map \<Rightarrow> LfgQueueData \<Rightarrow> LfgQueueData" where
  "UpdateBestCompatibleInQueue e key roles data =
     (let storedSize = (if qd_bestCompatible data = [] then 0
                        else of_nat (count_list (qd_bestCompatible data) CHR ''|'' + 1)) :: u8;
          keySize = of_nat (count_list key CHR ''|'' + 1) :: u8
      in if keySize \<le> storedSize then data
         else fold (\<lambda>(g, role). take_place role) roles (InitializeGroupSetup e (data\<lparr>qd_bestCompatible := key\<rparr>)))"

definition FindBestCompatibleInQueue :: "lfg_env \<Rightarrow> lfg_queue \<Rightarrow> guid \<Rightarrow> LfgQueueData \<Rightarrow> LfgQueueData" where
  "FindBestCompatibleInQueue e q guid data =
     fold (\<lambda>(key, cd) data.
            if cd_compatibility cd = LFG_COMPATIBLES_WITH_LESS_PLAYERS \<and> contains_sub key (guid_string guid)
            then UpdateBestCompatibleInQueue e key (cd_roles cd) data else data)
       (CompatibleMapStore q) data"

text \<open>Another group whose best combination names the one that leaves looks for a new one.\<close>

definition refresh_best :: "lfg_env \<Rightarrow> lfg_queue \<Rightarrow> guid \<Rightarrow> guid \<times> LfgQueueData \<Rightarrow> guid \<times> LfgQueueData" where
  "refresh_best e q guid x =
     (fst x, if fst x \<noteq> guid \<and> contains_sub (qd_bestCompatible (snd x)) (guid_string guid)
             then FindBestCompatibleInQueue e q (fst x) ((snd x)\<lparr>qd_bestCompatible := []\<rparr>) else snd x)"

definition RemoveFromQueue :: "lfg_env \<Rightarrow> guid \<Rightarrow> lfg_queue \<Rightarrow> lfg_queue" where
  "RemoveFromQueue e guid q =
     (let q = RemoveFromCompatibles guid (RemoveFromCurrentQueue guid (RemoveFromNewQueue guid q))
      in q\<lparr>QueueDataStore := om_erase guid (map (refresh_best e q guid) (QueueDataStore q))\<rparr>)"

section \<open>Compatibility of a combination\<close>

definition HasIgnore :: "lfg_env \<Rightarrow> guid \<Rightarrow> guid \<Rightarrow> bool" where
  "HasIgnore e guid1 guid2 \<longleftrightarrow> env_online e guid1 \<and> env_online e guid2
     \<and> (env_ignores e guid1 (GUID_LOPART guid2) \<or> env_ignores e guid2 (GUID_LOPART guid1))"

definition AllQueued :: "lfg_env \<Rightarrow> guid list \<Rightarrow> bool" where
  "AllQueued e check \<longleftrightarrow> check \<noteq> [] \<and> list_all (\<lambda>g. env_GetState e g = LFG_STATE_QUEUED) check"

text \<open>The intersection of the dungeon sets of the remaining groups with the set so far.\<close>

fun common_dungeons :: "lfg_env \<Rightarrow> guid list \<Rightarrow> u32 list \<Rightarrow> lfg_queue \<Rightarrow> u32 list \<times> lfg_queue" where
  "common_dungeons e [] ds q = (ds, q)"
| "common_dungeons e (g # gs) ds q =
     common_dungeons e gs (filter (\<lambda>d. d \<in> set (qd_dungeons (queue_data e q g))) ds) (touch_data e g q)"

text \<open>
  The \<open>do ... while (!dungeon)\<close> loop: draw a dungeon, erase it from the set, until one is known to the
  dungeon store.
\<close>

lemma scaled_random:
  fixes r i :: u32
  assumes "i \<noteq> 0"
  shows "unat (ucast (drop_bit 32 (ucast r * ucast i :: u64)) :: u32) < unat i"
proof -
  let ?p = "ucast r * ucast i :: u64"
  have lt: "unat r * unat i < 2 ^ 32 * unat i" "unat i < 2 ^ 32"
    using assms unsigned_less [of r, where ?'a = nat] unsigned_less [of i, where ?'a = nat]
    by (simp_all add: mult_less_cancel2 unat_gt_0)
  have up: "unat (ucast w :: u64) = unat w" for w :: u32
    using unsigned_less [of w, where ?'a = nat] by (simp add: unsigned_ucast_eq take_bit_nat_eq_self)
  have "2 ^ 32 * unat i < 2 ^ 64" using lt(2) by simp
  with lt(1) have "unat r * unat i < 2 ^ 64" by (rule less_trans)
  then have "unat ?p = unat r * unat i" by (simp add: unat_word_ariths up)
  then have "unat (drop_bit 32 ?p) = unat r * unat i div 2 ^ 32"
    by (simp add: drop_bit_eq_div unat_div_distrib)
  moreover have "\<dots> < unat i" using lt(1) by (simp add: div_less_iff_less_mult mult.commute)
  ultimately show ?thesis
    using lt(2) by (simp add: unsigned_ucast_eq take_bit_nat_eq_self)
qed

lemma urand_0_le: "fst (urand e 0 m sh) \<le> m"
proof (cases "m = 0 \<or> m + 1 = 0")
  case True
  then show ?thesis by (auto simp: urand_def eq_neg_iff_add_eq_0 [symmetric])
next
  case False
  then have "unat (m + 1) = unat m + 1" using unatSuc [of m] by (simp add: add.commute)
  then show ?thesis
    using False scaled_random [of "m + 1" "env_BRandom e (rand_pos sh)"]
    by (simp add: urand_def word_le_nat_alt Let_def)
qed

lemma random_index_less: "0 < n \<Longrightarrow> fst (random_index e n sh) < n"
proof -
  assume "0 < n"
  have "unat (fst (urand e 0 (of_nat (n - 1)) sh)) \<le> unat (of_nat (n - 1) :: u32)"
    using urand_0_le by (simp add: word_le_nat_alt)
  also have "\<dots> \<le> n - 1" by (simp only: unat_of_nat) simp
  finally show ?thesis using \<open>0 < n\<close> unfolding random_index_def by (simp add: case_prod_beta)
qed

function select_dungeon :: "lfg_env \<Rightarrow> u32 list \<Rightarrow> lfg_shared \<Rightarrow> (u32 \<times> LFGDungeonData) option \<times> lfg_shared" where
  "select_dungeon e ds sh =
     (if ds = [] then (None, sh)
      else let (i, sh) = random_index e (length ds) sh;
               dungeonId = ds ! i
           in case env_GetLFGDungeon e dungeonId of
                Some d \<Rightarrow> (Some (dungeonId, d), sh)
              | None \<Rightarrow> select_dungeon e (take i ds @ drop (Suc i) ds) sh)"
  by pat_completeness auto

termination select_dungeon
proof (relation "measure (\<lambda>(e, ds, sh). length ds)", goal_cases)
  case (2 e ds sh p i sh')
  then show ?case using random_index_less [of "length ds" e sh] by (cases "random_index e (length ds) sh") simp
qed simp

declare select_dungeon.simps [simp del]

text \<open>The players of the combination, its dungeon-finder groups and the group of every player.\<close>

type_synonym headcount = "u8 \<times> u8 \<times> guid \<times> (guid, guid) omap"

fun count_players :: "lfg_env \<Rightarrow> LFGDungeonData \<Rightarrow> lfg_queue \<Rightarrow> guid list \<Rightarrow> headcount \<Rightarrow> guid + headcount" where
  "count_players e d q [] acc = Inr acc"
| "count_players e d q (g # gs) (numPlayers, numLfgGroups, grp, proposalGroups) =
     (if \<not> (numLfgGroups \<le> 1 \<and> ucast numPlayers \<le> GetMaxGroupSize d)
      then Inr (numPlayers, numLfgGroups, grp, proposalGroups)
      else case om_find (QueueDataStore q) g of
        None \<Rightarrow> Inl g
      | Some data \<Rightarrow>
          let proposalGroups = fold (\<lambda>(p, r). om_set p (if IS_GROUP_GUID g then g else 0)) (qd_roles data) proposalGroups;
              numPlayers = numPlayers + of_nat (length (qd_roles data));
              lfg = env_IsLfgGroup e g;
              grp = (if lfg \<and> numLfgGroups = 0 then g else grp);
              numLfgGroups = (if lfg then numLfgGroups + 1 else numLfgGroups)
          in count_players e d q gs (numPlayers, numLfgGroups, grp, proposalGroups))"

text \<open>A player is left out when one of the players already in ignores them or is ignored.\<close>

definition join_role :: "lfg_env \<Rightarrow> guid \<times> u8 \<Rightarrow> roles_map \<Rightarrow> roles_map" where
  "join_role e pr roles =
     (if list_all (\<lambda>(p, _). p = fst pr \<or> \<not> HasIgnore e (fst pr) p) roles
      then om_set (fst pr) (snd pr) roles else roles)"

fun gather_roles :: "lfg_env \<Rightarrow> guid list \<Rightarrow> roles_map \<Rightarrow> lfg_queue \<Rightarrow> roles_map \<times> lfg_queue" where
  "gather_roles e [] roles q = (roles, q)"
| "gather_roles e (g # gs) roles q =
     gather_roles e gs (fold (join_role e) (qd_roles (queue_data e q g)) roles) (touch_data e g q)"

text \<open>The leader draw of a new proposal and its player entries, one player at a time.\<close>

definition keep_or_draw :: "lfg_env \<Rightarrow> bool \<Rightarrow> guid \<Rightarrow> lfg_shared \<Rightarrow> bool \<times> lfg_shared" where
  "keep_or_draw e leader cur sh =
     (if \<not> leader \<or> cur = 0 then (True, sh) else let (r, sh) = urand e 0 1 sh in (r \<noteq> 0, sh))"

definition draw_leader :: "lfg_env \<Rightarrow> guid \<times> u8 \<Rightarrow> bool \<times> guid \<times> lfg_shared \<Rightarrow> bool \<times> guid \<times> lfg_shared" where
  "draw_leader e pr st =
     (case st of (leader, cur, sh) \<Rightarrow>
        if has_flag (snd pr) PLAYER_ROLE_LEADER then
          let (change, sh) = keep_or_draw e leader cur sh in (True, if change then fst pr else cur, sh)
        else if \<not> leader then
          let (change, sh) = keep_or_draw e True cur sh in (leader, if change then fst pr else cur, sh)
        else (leader, cur, sh))"

text \<open>
  \<^verbatim>\<open>proposalGroups.find(player)->second\<close>: every player of the role map was counted before, so the entry is there
  (\<open>proposal_groups_known\<close>, proved with the search).
\<close>

definition proposal_player :: "bool \<Rightarrow> guid \<Rightarrow> (guid, guid) omap \<Rightarrow> guid \<times> u8 \<Rightarrow> guid \<times> LfgProposalPlayer" where
  "proposal_player isNew grp proposalGroups pr =
     (let group = the (om_find proposalGroups (fst pr)) in
      (fst pr, \<lparr>pp_role = snd pr,
                pp_accept = (if \<not> isNew \<and> group \<noteq> 0 \<and> group = grp then LFG_ANSWER_AGREE else LFG_ANSWER_PENDING),
                pp_group = group\<rparr>))"

definition AddProposal :: "LfgProposal \<Rightarrow> lfg_shared \<Rightarrow> lfg_shared" where
  "AddProposal proposal sh =
     (let n = m_lfgProposalId sh + 1
      in sh\<lparr>m_lfgProposalId := n, ProposalsStore := om_set n (proposal\<lparr>pr_id := n\<rparr>) (ProposalsStore sh)\<rparr>)"

text \<open>Members of a proposal are in neither list any more; their queue data stays.\<close>

definition unqueue :: "guid list \<Rightarrow> lfg_queue \<Rightarrow> lfg_queue" where
  "unqueue gs q = fold (\<lambda>g q. RemoveFromCurrentQueue g (RemoveFromNewQueue g q)) gs q"

text \<open>The combination becomes the best one of its members whose best one is smaller.\<close>

definition update_best :: "lfg_env \<Rightarrow> string \<Rightarrow> roles_map \<Rightarrow> guid list \<Rightarrow> lfg_queue \<Rightarrow> lfg_queue" where
  "update_best e strGuids roles gs q =
     fold (\<lambda>g q. q\<lparr>QueueDataStore := om_modify (default_LfgQueueData e) g
             (UpdateBestCompatibleInQueue e strGuids roles) (QueueDataStore q)\<rparr>) gs q"

text \<open>The end of \<^verbatim>\<open>CheckCompatibility\<close>: enough players, all of them still queued, a new proposal.\<close>

definition make_proposal :: "lfg_env \<Rightarrow> guid list \<Rightarrow> u32 \<Rightarrow> u8 \<Rightarrow> guid \<Rightarrow> (guid, guid) omap \<Rightarrow> roles_map \<Rightarrow> lfg_st \<Rightarrow> lfg_st" where
  "make_proposal e check dungeonId numLfgGroups grp proposalGroups roles st =
     (case st of (q, sh) \<Rightarrow>
        let isNew = (numLfgGroups \<noteq> 1 \<or> env_GetOldState e (hd check) \<noteq> LFG_STATE_DUNGEON);
            (_, leader, sh) = fold (draw_leader e) roles (False, 0, sh);
            proposal = \<lparr>pr_id = 0, pr_dungeonId = dungeonId, pr_state = LFG_PROPOSAL_INITIATING, pr_group = grp,
              pr_leader = leader, pr_cancelTime = env_now e + LFG_TIME_PROPOSAL, pr_encounters = 0, pr_isNew = isNew,
              pr_queues = check, pr_showorder = [],
              pr_players = fold (\<lambda>pr m. case proposal_player isNew grp proposalGroups pr of (p, d) \<Rightarrow> om_set p d m) roles []\<rparr>
        in (unqueue check q, AddProposal proposal sh))"

definition finish_check :: "lfg_env \<Rightarrow> guid list \<Rightarrow> u32 \<Rightarrow> LFGDungeonData \<Rightarrow> headcount \<Rightarrow> roles_map \<Rightarrow> lfg_st
    \<Rightarrow> LfgCompatibility \<times> lfg_st" where
  "finish_check e check dungeonId d hc roles st =
     (case (hc, st) of ((numPlayers, numLfgGroups, grp, proposalGroups), (q, sh)) \<Rightarrow>
        let strGuids = ConcatenateGuids check in
        if ucast numPlayers \<noteq> GetMaxGroupSize d then
          let q = update_best e strGuids roles check q;
              q = SetCompatibilityData strGuids \<lparr>cd_compatibility = LFG_COMPATIBLES_WITH_LESS_PLAYERS, cd_roles = roles\<rparr> q
          in (LFG_COMPATIBLES_WITH_LESS_PLAYERS, (q, sh))
        else if \<not> AllQueued e check then
          (LFG_COMPATIBLES_BAD_STATES, (SetCompatibles strGuids LFG_COMPATIBLES_BAD_STATES q, sh))
        else
          let (q, sh) = make_proposal e check dungeonId numLfgGroups grp proposalGroups roles (q, sh)
          in (LFG_COMPATIBLES_MATCH, (SetCompatibles strGuids LFG_COMPATIBLES_MATCH q, sh)))"

text \<open>The roles of the combination: duplicate players, ignores, and the role search.\<close>

definition check_roles :: "lfg_env \<Rightarrow> guid list \<Rightarrow> u32 \<Rightarrow> LFGDungeonData \<Rightarrow> headcount \<Rightarrow> lfg_st \<Rightarrow> LfgCompatibility \<times> lfg_st" where
  "check_roles e check dungeonId d hc st =
     (case st of (q, sh) \<Rightarrow>
      if length check > 1 then
        let strGuids = ConcatenateGuids check;
            (roles, q) = gather_roles e check [] q
        in if fst hc - of_nat (length roles) \<noteq> 0 then
             (LFG_INCOMPATIBLES_HAS_IGNORES, (SetCompatibles strGuids LFG_INCOMPATIBLES_HAS_IGNORES q, sh))
           else
             let (ok, roles) = CheckGroupRoles roles d in
             if \<not> ok then (LFG_INCOMPATIBLES_NO_ROLES, (SetCompatibles strGuids LFG_INCOMPATIBLES_NO_ROLES q, sh))
             else finish_check e check dungeonId d hc roles (q, sh)
      else
        let roles = qd_roles (queue_data e q (hd check));
            q = touch_data e (hd check) q
        in finish_check e check dungeonId d hc (snd (CheckGroupRoles roles d)) (q, sh))"

text \<open>The size of the combination, in groups, dungeon-finder groups and players.\<close>

definition check_players :: "lfg_env \<Rightarrow> guid list \<Rightarrow> u32 \<Rightarrow> LFGDungeonData \<Rightarrow> lfg_st \<Rightarrow> LfgCompatibility \<times> lfg_st" where
  "check_players e check dungeonId d st =
     (case st of (q, sh) \<Rightarrow>
      let strGuids = ConcatenateGuids check in
      if length check > unat (GetMaxGroupSize d) then (LFG_INCOMPATIBLES_WRONG_GROUP_SIZE, (q, sh))
      else case count_players e d q check (0, 0, 0, []) of
        Inl guid \<Rightarrow> (LFG_COMPATIBILITY_PENDING, (RemoveFromQueue e guid q, sh))
      | Inr (numPlayers, numLfgGroups, grp, proposalGroups) \<Rightarrow>
          if numLfgGroups > 1 then
            (LFG_INCOMPATIBLES_MULTIPLE_LFG_GROUPS, (SetCompatibles strGuids LFG_INCOMPATIBLES_MULTIPLE_LFG_GROUPS q, sh))
          else if ucast numPlayers > GetMaxGroupSize d then
            (LFG_INCOMPATIBLES_TOO_MUCH_PLAYERS, (SetCompatibles strGuids LFG_INCOMPATIBLES_TOO_MUCH_PLAYERS q, sh))
          else check_roles e check dungeonId d (numPlayers, numLfgGroups, grp, proposalGroups) (q, sh))"

text \<open>\<^verbatim>\<open>CheckCompatibility\<close> after the check of all but the newest group: the common dungeons first.\<close>

definition check_group :: "lfg_env \<Rightarrow> guid list \<Rightarrow> lfg_st \<Rightarrow> LfgCompatibility \<times> lfg_st" where
  "check_group e check st =
     (case st of (q, sh) \<Rightarrow>
      let (ds, q) = common_dungeons e (tl check) (qd_dungeons (queue_data e q (hd check))) (touch_data e (hd check) q)
      in case select_dungeon e ds sh of
        (None, sh) \<Rightarrow>
          (LFG_INCOMPATIBLES_NO_DUNGEONS, (SetCompatibles (ConcatenateGuids check) LFG_INCOMPATIBLES_NO_DUNGEONS q, sh))
      | (Some (dungeonId, d), sh) \<Rightarrow> check_players e check dungeonId d (q, sh))"

fun CheckCompatibility :: "lfg_env \<Rightarrow> guid list \<Rightarrow> lfg_st \<Rightarrow> LfgCompatibility \<times> lfg_st" where
  "CheckCompatibility e [] st = (LFG_INCOMPATIBLES_WRONG_GROUP_SIZE, st)"
| "CheckCompatibility e (g # gs) st =
     (if length (g # gs) > 2 then
        let (child_compatibles, (q, sh)) = CheckCompatibility e gs st in
        if child_compatibles < LFG_COMPATIBLES_WITH_LESS_PLAYERS then
          (child_compatibles, (SetCompatibles (ConcatenateGuids (g # gs)) child_compatibles q, sh))
        else check_group e (g # gs) (q, sh)
      else check_group e (g # gs) st)"

section \<open>The search for a group\<close>

text \<open>
  \<^verbatim>\<open>FindNewGroups\<close> and its loop over the queued groups.  \<open>all\<close> is a reference: what the recursive call
  takes from it is gone for the caller, so it is part of the result; \<open>check\<close> is restored by the pops
  unless a match ends the search.  The fuel bounds the number of groups taken from \<open>all\<close>.
\<close>

definition cached_or_checked :: "lfg_env \<Rightarrow> guid list \<Rightarrow> lfg_st \<Rightarrow> LfgCompatibility \<times> lfg_st" where
  "cached_or_checked e check st =
     (let strGuids = ConcatenateGuids check;
          compatibles = GetCompatibles strGuids (fst st);
          (compatibles, st) = (if compatibles = LFG_COMPATIBILITY_PENDING then CheckCompatibility e check st else (compatibles, st))
      in if compatibles = LFG_COMPATIBLES_BAD_STATES \<and> AllQueued e check
         then (LFG_COMPATIBLES_MATCH, (SetCompatibles strGuids LFG_COMPATIBLES_MATCH (fst st), snd st))
         else (compatibles, st))"

fun FindNewGroups_fuel :: "nat \<Rightarrow> lfg_env \<Rightarrow> guid list \<Rightarrow> guid list \<Rightarrow> lfg_st \<Rightarrow> (LfgCompatibility \<times> guid list \<times> lfg_st) option"
  and match_loop :: "nat \<Rightarrow> lfg_env \<Rightarrow> guid list \<Rightarrow> guid list \<Rightarrow> lfg_st \<Rightarrow> (bool \<times> guid list \<times> lfg_st) option" where
  "FindNewGroups_fuel n e check all st =
     (let (compatibles, st) = cached_or_checked e check st in
      if compatibles \<noteq> LFG_COMPATIBLES_WITH_LESS_PLAYERS then Some (compatibles, all, st)
      else do { (found, all, st) \<leftarrow> match_loop n e check all st;
                Some (if found then LFG_COMPATIBLES_MATCH else compatibles, all, st) })"
| "match_loop n e check [] st = Some (False, [], st)"
| "match_loop 0 e check (a # all) st = None"
| "match_loop (Suc n) e check (a # all) st =
     do { (sub, all, st) \<leftarrow> FindNewGroups_fuel n e (check @ [a]) all st;
          if sub = LFG_COMPATIBLES_MATCH then Some (True, all, st) else match_loop n e check all st }"

definition FindNewGroups :: "lfg_env \<Rightarrow> guid list \<Rightarrow> guid list \<Rightarrow> lfg_st \<Rightarrow> LfgCompatibility \<times> guid list \<times> lfg_st" where
  "FindNewGroups e check all st = the (FindNewGroups_fuel (length all) e check all st)"

subsection \<open>Relations kept by the search\<close>

text \<open>
  A preorder on the queue state that one compatibility check and one cache entry keep is kept by the
  whole search.
\<close>

locale search_rel =
  fixes e :: lfg_env
    and R :: "lfg_st \<Rightarrow> lfg_st \<Rightarrow> bool"
  assumes rel_refl: "R st st"
    and rel_trans: "R st1 st2 \<Longrightarrow> R st2 st3 \<Longrightarrow> R st1 st3"
    and rel_cache: "R (q, sh) (SetCompatibles key c q, sh)"
    and rel_check: "check \<noteq> [] \<Longrightarrow> R st (snd (check_group e check st))"
begin

lemma CheckCompatibility_rel: "R st (snd (CheckCompatibility e check st))"
proof (induction check arbitrary: st)
  case (Cons g gs)
  obtain c q sh where child: "CheckCompatibility e gs st = (c, q, sh)" by (cases "CheckCompatibility e gs st")
  then have "R st (q, sh)" using Cons [of st] by simp
  then show ?case
    using child rel_check [of "g # gs"] rel_cache by (auto intro: rel_trans)
qed (simp add: rel_refl)

lemma cached_or_checked_rel: "R st (snd (cached_or_checked e check st))"
proof -
  obtain c q sh where cc: "CheckCompatibility e check st = (c, q, sh)" by (cases "CheckCompatibility e check st")
  then have "R st (q, sh)" using CheckCompatibility_rel [of st check] by simp
  then show ?thesis
    using cc rel_cache [of "fst st" "snd st"] rel_refl
    by (auto simp: cached_or_checked_def Let_def intro: rel_trans rel_cache)
qed

lemma search_rel_aux:
  "FindNewGroups_fuel n e' check all st = Some (c, all', st') \<Longrightarrow> e' = e \<Longrightarrow> R st st'"
  "match_loop n e' check all st = Some (found, all', st') \<Longrightarrow> e' = e \<Longrightarrow> R st st'"
proof (induction n e' check all st and n e' check all st arbitrary: c all' st' and found all' st'
    rule: FindNewGroups_fuel_match_loop.induct)
  case (1 n e' check all st)
  obtain c1 q1 sh1 where cc: "cached_or_checked e check st = (c1, q1, sh1)" by (cases "cached_or_checked e check st")
  then have st: "R st (q1, sh1)" using cached_or_checked_rel [of st check] by simp
  have "R (q1, sh1) st2" if "match_loop n e check all (q1, sh1) = Some (f, all2, st2)" "c1 = LFG_COMPATIBLES_WITH_LESS_PLAYERS"
    for f all2 st2
    using 1(1) [OF cc [folded 1(3), symmetric] refl _ _ 1(3)] that 1(3) by simp
  then show ?case
    using 1(2,3) cc st by (auto simp: bind_eq_Some_conv split: if_splits intro: rel_trans)
qed (auto simp: bind_eq_Some_conv rel_refl split: if_splits intro: rel_trans)

end

text \<open>The fuel is enough: every step of the loop takes a group from \<open>all\<close>.\<close>

lemma FindNewGroups_total:
  "length all \<le> n \<Longrightarrow> \<exists>c all' st'. FindNewGroups_fuel n e check all st = Some (c, all', st') \<and> length all' \<le> length all"
  "length all \<le> n \<Longrightarrow> \<exists>found all' st'. match_loop n e check all st = Some (found, all', st') \<and> length all' \<le> length all"
proof (induction n e check all st and n e check all st rule: FindNewGroups_fuel_match_loop.induct)
  case (1 n e check all st)
  then show ?case by (cases "cached_or_checked e check st") fastforce
next
  case (4 n e check a all st)
  then obtain sub all1 st1 where "FindNewGroups_fuel n e (check @ [a]) all st = Some (sub, all1, st1)" "length all1 \<le> length all"
    by auto
  then show ?case using 4 by fastforce
qed auto

lemma FindNewGroups_eq: "FindNewGroups_fuel (length all) e check all st = Some (FindNewGroups e check all st)"
  using FindNewGroups_total(1) [of all "length all" e check st] by (auto simp: FindNewGroups_def)

context search_rel
begin

lemma FindNewGroups_rel: "FindNewGroups e check all st = (c, all', st') \<Longrightarrow> R st st'"
  using search_rel_aux(1) FindNewGroups_eq by metis

end

text \<open>The search only ever takes groups from the list of new ones.\<close>

definition new_shrinks :: "lfg_st \<Rightarrow> lfg_st \<Rightarrow> bool" where
  "new_shrinks st st' \<longleftrightarrow> length (newToQueueStore (fst st')) \<le> length (newToQueueStore (fst st))"

lemmas queue_updates = SetCompatibles_def SetCompatibilityData_def touch_data_def RemoveFromNewQueue_def
  RemoveFromCurrentQueue_def AddToCurrentQueue_def RemoveFromCompatibles_def

lemma common_dungeons_lists:
  "newToQueueStore (snd (common_dungeons e gs ds q)) = newToQueueStore q
   \<and> currentQueueStore (snd (common_dungeons e gs ds q)) = currentQueueStore q"
  by (induction gs arbitrary: ds q) (simp_all add: touch_data_def)

lemma gather_roles_lists:
  "newToQueueStore (snd (gather_roles e gs roles q)) = newToQueueStore q
   \<and> currentQueueStore (snd (gather_roles e gs roles q)) = currentQueueStore q"
  by (induction gs arbitrary: roles q) (simp_all add: touch_data_def)

lemma unqueue_lists:
  "newToQueueStore (unqueue gs q) = filter (\<lambda>g. g \<notin> set gs) (newToQueueStore q)"
  "currentQueueStore (unqueue gs q) = filter (\<lambda>g. g \<notin> set gs) (currentQueueStore q)"
  unfolding unqueue_def
  by (induction gs arbitrary: q)
    (auto simp: queue_updates removeAll_filter_not_eq conj_commute intro!: filter_cong)

lemma update_best_lists:
  "newToQueueStore (update_best e key roles gs q) = newToQueueStore q"
  "currentQueueStore (update_best e key roles gs q) = currentQueueStore q"
  unfolding update_best_def by (induction gs arbitrary: q) simp_all

lemma finish_check_new:
  "length (newToQueueStore (fst (snd (finish_check e check dungeonId d hc roles (q, sh))))) \<le> length (newToQueueStore q)"
  by (cases hc) (auto simp: finish_check_def make_proposal_def Let_def SetCompatibles_def SetCompatibilityData_def
      update_best_lists unqueue_lists case_prod_beta)

lemma RemoveFromQueue_new: "newToQueueStore (RemoveFromQueue e guid q) = removeAll guid (newToQueueStore q)"
  by (simp add: RemoveFromQueue_def Let_def queue_updates)

lemma check_roles_new:
  "length (newToQueueStore (fst (snd (check_roles e check dungeonId d hc (q, sh))))) \<le> length (newToQueueStore q)"
  using finish_check_new [of e check dungeonId d hc "snd (CheckGroupRoles (fst (gather_roles e check [] q)) d)" "snd (gather_roles e check [] q)" sh]
    finish_check_new [of e check dungeonId d hc "snd (CheckGroupRoles (qd_roles (queue_data e q (hd check))) d)" "touch_data e (hd check) q" sh]
  by (simp add: check_roles_def Let_def case_prod_beta gather_roles_lists SetCompatibles_def)
    (simp add: touch_data_def)

lemma check_players_new:
  "length (newToQueueStore (fst (snd (check_players e check dungeonId d (q, sh))))) \<le> length (newToQueueStore q)"
  by (simp add: check_players_def Let_def case_prod_beta RemoveFromQueue_new length_removeAll_less_eq
      SetCompatibles_def check_roles_new split: sum.split)

lemma check_group_new:
  "length (newToQueueStore (fst (snd (check_group e check (q, sh))))) \<le> length (newToQueueStore q)"
  using check_players_new [of e check _ _ "snd (common_dungeons e (tl check) (qd_dungeons (queue_data e q (hd check))) (touch_data e (hd check) q))"]
  by (simp add: check_group_def Let_def case_prod_beta common_dungeons_lists SetCompatibles_def split: option.split)
    (simp add: touch_data_def)

interpretation new_groups: search_rel e new_shrinks for e
proof
  fix check st assume "check \<noteq> ([] :: guid list)"
  show "new_shrinks st (snd (check_group e check st))"
    using check_group_new by (cases st) (simp add: new_shrinks_def)
qed (auto simp: new_shrinks_def SetCompatibles_def)

text \<open>\<^verbatim>\<open>FindGroups\<close>: every new group is tried once, and waits in the current queue if nothing was found.\<close>

function FindGroups_loop :: "lfg_env \<Rightarrow> u8 \<Rightarrow> lfg_st \<Rightarrow> u8 \<times> lfg_st" where
  "FindGroups_loop e proposals st =
     (case newToQueueStore (fst st) of
        [] \<Rightarrow> (proposals, st)
      | frontguid # _ \<Rightarrow>
          let q = RemoveFromNewQueue frontguid (fst st);
              (compatibles, _, (q, sh)) = FindNewGroups e [frontguid] (currentQueueStore q) (q, snd st)
          in if compatibles = LFG_COMPATIBLES_MATCH then FindGroups_loop e (proposals + 1) (q, sh)
             else FindGroups_loop e proposals (AddToCurrentQueue frontguid q, sh))"
  by pat_completeness auto

lemma FindGroups_shrinks:
  assumes "newToQueueStore q = g # gs" and "FindNewGroups e check all (RemoveFromNewQueue g q, sh) = (c, all', (q', sh'))"
  shows "length (newToQueueStore q') < length (newToQueueStore q)"
proof -
  have "length (newToQueueStore q') \<le> length (removeAll g gs)"
    using new_groups.FindNewGroups_rel [OF assms(2)] assms(1)
    by (simp add: new_shrinks_def RemoveFromNewQueue_def)
  also have "\<dots> < length (newToQueueStore q)" using assms(1) length_removeAll_less_eq [of g gs] by (simp only: length_Cons less_Suc_eq_le)
  finally show ?thesis .
qed

termination FindGroups_loop
proof (relation "measure (\<lambda>(e, n, st). length (newToQueueStore (fst st)))", goal_cases)
  case 2
  then show ?case by clarsimp (metis FindGroups_shrinks length_Cons)
next
  case 3
  then show ?case by (clarsimp simp: AddToCurrentQueue_def) (metis FindGroups_shrinks length_Cons)
qed simp

declare FindGroups_loop.simps [simp del]

definition FindGroups :: "lfg_env \<Rightarrow> lfg_st \<Rightarrow> u8 \<times> lfg_st" where
  "FindGroups e st = FindGroups_loop e 0 st"

section \<open>Queue status and dumps\<close>

record LfgQueueStatusData =
  qs_queueId :: u8
  qs_dungeonId :: u32
  qs_joinTime :: int
  qs_waitTime :: u32
  qs_waitTimeAvg :: u32
  qs_waitTimeTank :: u32
  qs_waitTimeHealer :: u32
  qs_waitTimeDps :: u32
  qs_queuedTime :: u32
  qs_tanks :: u8
  qs_healers :: u8
  qs_dps :: u8

text \<open>\<open>store[dungeonId].time\<close> read through \<open>operator[]\<close>.\<close>

definition touch_wait :: "u32 \<Rightarrow> (u32, LfgWaitTime) omap \<Rightarrow> (u32, LfgWaitTime) omap" where
  "touch_wait dungeonId store = om_modify LfgWaitTime_init dungeonId id store"

definition wait_of :: "u32 \<Rightarrow> (u32, LfgWaitTime) omap \<Rightarrow> u32" where
  "wait_of dungeonId store = wt_time (case om_find store dungeonId of None \<Rightarrow> LfgWaitTime_init | Some wt \<Rightarrow> wt)"

type_synonym role_counts = "u32 \<times> u32 \<times> u32"

definition count_roles :: "u8 \<Rightarrow> role_counts \<Rightarrow> role_counts" where
  "count_roles role n =
     (case n of (tankCount, healerCount, dpsCount) \<Rightarrow>
        (if has_flag role PLAYER_ROLE_TANK then tankCount + 1 else tankCount,
         if has_flag role PLAYER_ROLE_HEALER then healerCount + 1 else healerCount,
         if has_flag role PLAYER_ROLE_DAMAGE then dpsCount + 1 else dpsCount))"

text \<open>One queued group: its status goes to all of its players.\<close>

definition update_timer :: "lfg_env \<Rightarrow> u8 \<Rightarrow> int \<Rightarrow> guid \<Rightarrow> lfg_queue \<times> role_counts \<times> (guid \<times> LfgQueueStatusData) list
    \<Rightarrow> lfg_queue \<times> role_counts \<times> (guid \<times> LfgQueueStatusData) list" where
  "update_timer e queueId currTime guid st =
     (case st of (q, n, out) \<Rightarrow>
      let queueinfo = queue_data e q guid in
      case qd_dungeons queueinfo of
        [] \<Rightarrow> st
      | dungeonId # _ \<Rightarrow>
          let wtTank = wait_of dungeonId (waitTimesTankStore q);
              wtHealer = wait_of dungeonId (waitTimesHealerStore q);
              wtDps = wait_of dungeonId (waitTimesDpsStore q);
              wtAvg = wait_of dungeonId (waitTimesAvgStore q);
              q = q\<lparr>waitTimesTankStore := touch_wait dungeonId (waitTimesTankStore q),
                    waitTimesHealerStore := touch_wait dungeonId (waitTimesHealerStore q),
                    waitTimesDpsStore := touch_wait dungeonId (waitTimesDpsStore q),
                    waitTimesAvgStore := touch_wait dungeonId (waitTimesAvgStore q)\<rparr>;
              role = foldl (\<lambda>r p. r OR snd p) PLAYER_ROLE_NONE (qd_roles queueinfo) AND NOT PLAYER_ROLE_LEADER;
              waitTime = (if role = PLAYER_ROLE_NONE then - 1
                          else if role = PLAYER_ROLE_TANK then wtTank
                          else if role = PLAYER_ROLE_HEALER then wtHealer
                          else if role = PLAYER_ROLE_DAMAGE then wtDps
                          else wtAvg);
              queueinfo = (if qd_bestCompatible queueinfo = [] then FindBestCompatibleInQueue e q guid queueinfo else queueinfo);
              q = q\<lparr>QueueDataStore := om_set guid queueinfo (QueueDataStore q)\<rparr>;
              status = \<lparr>qs_queueId = queueId, qs_dungeonId = dungeonId, qs_joinTime = qd_joinTime queueinfo,
                qs_waitTime = waitTime, qs_waitTimeAvg = wtAvg, qs_waitTimeTank = wtTank, qs_waitTimeHealer = wtHealer,
                qs_waitTimeDps = wtDps, qs_queuedTime = word_of_int (currTime - qd_joinTime queueinfo),
                qs_tanks = qd_tanks queueinfo, qs_healers = qd_healers queueinfo, qs_dps = qd_dps queueinfo\<rparr>
          in (q, count_roles role n, out @ map (\<lambda>p. (fst p, status)) (qd_roles queueinfo)))"

definition UpdateQueueTimers :: "lfg_env \<Rightarrow> u8 \<Rightarrow> int \<Rightarrow> role_counts \<Rightarrow> lfg_queue
    \<Rightarrow> lfg_queue \<times> role_counts \<times> (guid \<times> LfgQueueStatusData) list" where
  "UpdateQueueTimers e queueId currTime n q =
     fold (update_timer e queueId currTime) (map fst (QueueDataStore q)) (q, n, [])"

definition dump_guid :: "lfg_env \<Rightarrow> guid \<Rightarrow> u32 \<times> u32 \<times> u32 \<times> role_counts \<Rightarrow> u32 \<times> u32 \<times> u32 \<times> role_counts" where
  "dump_guid e guid st =
     (case st of (players, groups, playersInGroup, n) \<Rightarrow>
        if IS_GROUP_GUID guid then (players, groups + 1, playersInGroup + ucast (env_GetPlayerCount e guid), n)
        else (players + 1, groups, playersInGroup, count_roles (env_GetRoles e guid AND NOT PLAYER_ROLE_LEADER) n))"

definition DumpQueueInfo :: "lfg_env \<Rightarrow> lfg_queue \<Rightarrow> string" where
  "DumpQueueInfo e q =
     (case fold (dump_guid e) (currentQueueStore q @ newToQueueStore q) (0, 0, 0, 0, 0, 0) of
        (players, groups, playersInGroup, tank, heal, dd) \<Rightarrow>
          ''Queued Players: '' @ print_nat (unat players) @ '' (in group: '' @ print_nat (unat playersInGroup) @
          '') Groups: '' @ print_nat (unat groups) @ [CHR 0x0A] @ ''DDs:  '' @ print_nat (unat dd) @ ''  Heals:  '' @
          print_nat (unat heal) @ ''  Tanks:  '' @ print_nat (unat tank) @ [CHR 0x0A])"

definition DumpCompatibleInfo :: "bool \<Rightarrow> lfg_queue \<Rightarrow> string" where
  "DumpCompatibleInfo full q =
     ''Compatible Map size: '' @ print_nat (length (CompatibleMapStore q)) @ [CHR 0x0A] @
     (if full then concat (map (\<lambda>(key, d). CHR ''('' # key @ ''): '' @ GetCompatibleString (cd_compatibility d) @ [CHR 0x0A])
        (CompatibleMapStore q)) else [])"

end
