(* ===== verification/LfgQueueSpec.thy ===== *)
theory LfgQueueSpec
  imports LfgQueue
begin

text \<open>
  What the waiting queue guarantees: names of combinations identify sets of groups, a group that
  leaves takes every cached result about it along, every proposal the search makes is one the players
  asked for, and the search neither loses a group nor leaves one unexamined.  The last section has the
  two cases where the search does not do what it is meant to.
\<close>

section \<open>An environment and a queue for examples\<close>

definition ex_env :: lfg_env where
  "ex_env = \<lparr>env_GetLFGDungeon = (\<lambda>i. if i = 1 \<or> i = 2 then Some five_man else None), env_IsLfgGroup = (\<lambda>g. False),
     env_online = (\<lambda>g. True), env_ignores = (\<lambda>g l. False), env_GetState = (\<lambda>g. LFG_STATE_QUEUED),
     env_GetOldState = (\<lambda>g. LFG_STATE_NONE), env_GetPlayerCount = (\<lambda>g. 0), env_GetRoles = (\<lambda>g. 0), env_now = 1000,
     env_BRandom = (\<lambda>n. 0)\<rparr>"

definition empty_queue :: lfg_queue where
  "empty_queue = \<lparr>QueueDataStore = [], CompatibleMapStore = [], waitTimesAvgStore = [], waitTimesTankStore = [],
     waitTimesHealerStore = [], waitTimesDpsStore = [], currentQueueStore = [], newToQueueStore = []\<rparr>"

section \<open>Names of combinations\<close>

lemma guid_string_plain: "CHR ''|'' \<notin> set (guid_string g)"
  unfolding guid_string_def by (rule digits_free) (simp add: isdigit_def)

lemma guid_string_not_Nil [simp]: "guid_string g \<noteq> []"
  by (simp add: guid_string_def)

lemma print_nat_inject: "print_nat m = print_nat n \<longleftrightarrow> m = n"
proof
  assume eq: "print_nat m = print_nat n"
  have "parse_digits 0 (print_nat k) = k" for k
    using parse_digits_print [of 0 k "[]"] by simp
  then show "m = n" using eq by metis
qed simp

lemma guid_string_inject: "guid_string g = guid_string h \<longleftrightarrow> g = h"
  by (simp add: guid_string_def print_nat_inject word_unat_eq_iff)

lemma separated_Cons: "separated (t # ts) = (if ts = [] then t else t @ CHR ''|'' # separated ts)"
  by (cases ts) simp_all

lemma split_at_bar:
  "CHR ''|'' \<notin> set a \<Longrightarrow> CHR ''|'' \<notin> set b \<Longrightarrow> a @ CHR ''|'' # x = b @ CHR ''|'' # y \<longleftrightarrow> a = b \<and> x = y"
proof (induction a arbitrary: b)
  case Nil
  then show ?case by (cases b) auto
next
  case (Cons c a)
  then show ?case by (cases b) auto
qed

lemma separated_inject:
  assumes "list_all (\<lambda>t. t \<noteq> [] \<and> CHR ''|'' \<notin> set t) xs" "list_all (\<lambda>t. t \<noteq> [] \<and> CHR ''|'' \<notin> set t) ys"
  shows "separated xs = separated ys \<longleftrightarrow> xs = ys"
  using assms
proof (induction xs arbitrary: ys)
  case Nil
  then show ?case by (cases ys) (auto simp: separated_Cons)
next
  case (Cons x xs)
  then show ?case
    by (cases ys) (auto simp: separated_Cons split_at_bar)
qed

lemma guid_set_eq: "guid_set xs = guid_set ys \<longleftrightarrow> set xs = set ys"
proof
  assume "guid_set xs = guid_set ys"
  then have "set (guid_set xs) = set (guid_set ys)" by simp
  then show "set xs = set ys" by (simp add: guid_set_def)
next
  assume "set xs = set ys"
  then show "guid_set xs = guid_set ys" by (simp add: guid_set_def flip: sorted_list_of_set_sort_remdups)
qed

lemma key_eq_iff: "ConcatenateGuids xs = ConcatenateGuids ys \<longleftrightarrow> set xs = set ys"
proof -
  have "list_all (\<lambda>t. t \<noteq> [] \<and> CHR ''|'' \<notin> set t) (map guid_string gs)" for gs
    by (simp add: list_all_iff guid_string_plain)
  moreover have "map guid_string xs' = map guid_string ys' \<longleftrightarrow> xs' = ys'" for xs' ys'
    by (rule inj_map_eq_map) (simp add: inj_def guid_string_inject)
  ultimately show ?thesis by (simp add: ConcatenateGuids_def separated_inject guid_set_eq)
qed

lemma GetCompatibles_set:
  "GetCompatibles k (SetCompatibles key c q) = (if k = key then c else GetCompatibles k q)"
  "GetCompatibles k (SetCompatibilityData key d q) = (if k = key then cd_compatibility d else GetCompatibles k q)"
  by (simp_all add: GetCompatibles_def SetCompatibles_def SetCompatibilityData_def om_find_modify om_find_set)

lemma set_cache_keeps [simp]:
  "newToQueueStore (SetCompatibles key c q) = newToQueueStore q" "newToQueueStore (SetCompatibilityData key d q) = newToQueueStore q"
  "currentQueueStore (SetCompatibles key c q) = currentQueueStore q" "currentQueueStore (SetCompatibilityData key d q) = currentQueueStore q"
  "queue_data e (SetCompatibles key c q) = queue_data e q" "queue_data e (SetCompatibilityData key d q) = queue_data e q"
  by (simp_all add: SetCompatibles_def SetCompatibilityData_def queue_data_def fun_eq_iff)

text \<open>
  The cache of combinations is keyed by sets of groups: what was stored for a list of GUIDs is found
  for every list with the same members, in whatever order and however often they occur, and for no
  other list.
\<close>

theorem compatibles_by_members:
  "GetCompatibles (ConcatenateGuids ys) (SetCompatibles (ConcatenateGuids xs) c q)
     = (if set ys = set xs then c else GetCompatibles (ConcatenateGuids ys) q)"
  by (simp add: GetCompatibles_set key_eq_iff)

section \<open>Leaving the queue\<close>

lemma contains_sub_iff: "contains_sub s pat \<longleftrightarrow> (\<exists>a b. s = a @ pat @ b)"
proof (induction s)
  case (Cons c s)
  have "take (length pat) (c # s) = pat \<longleftrightarrow> (\<exists>b. c # s = pat @ b)"
    by (metis append_eq_conv_conj append_take_drop_id)
  then show ?case using Cons by (auto simp: Cons_eq_append_conv)
qed auto

lemma contains_token: "t \<in> set ts \<Longrightarrow> contains_sub (separated ts) t"
proof (induction ts)
  case (Cons u us)
  then show ?case
    unfolding contains_sub_iff separated_Cons
    by (auto split: if_splits) (metis append.left_neutral append_Nil2, metis append.assoc append_Cons)
qed simp

lemma contains_member: "g \<in> set check \<Longrightarrow> contains_sub (ConcatenateGuids check) (guid_string g)"
  unfolding ConcatenateGuids_def by (rule contains_token) (simp add: guid_set_def)

text \<open>What a group offers: its dungeons and the roles of its players.  Only joining changes it.\<close>

definition data_offer :: "LfgQueueData \<Rightarrow> u32 list \<times> roles_map" where
  "data_offer d = (qd_dungeons d, qd_roles d)"

lemma take_place_keeps:
  "data_offer (take_place role d) = data_offer d" "qd_bestCompatible (take_place role d) = qd_bestCompatible d"
  by (simp_all add: take_place_def data_offer_def)

lemma take_places_keep:
  "data_offer (fold (\<lambda>(g, role). take_place role) roles d) = data_offer d"
  "qd_bestCompatible (fold (\<lambda>(g, role). take_place role) roles d) = qd_bestCompatible d"
  by (induction roles arbitrary: d) (simp_all add: take_place_keeps case_prod_beta)

lemma InitializeGroupSetup_keeps:
  "data_offer (InitializeGroupSetup e d) = data_offer d"
  "qd_bestCompatible (InitializeGroupSetup e d) = qd_bestCompatible d"
  by (simp_all add: InitializeGroupSetup_def data_offer_def Let_def split: list.split option.split)

lemma UpdateBest_keeps:
  "data_offer (UpdateBestCompatibleInQueue e key roles d) = data_offer d"
  "qd_bestCompatible (UpdateBestCompatibleInQueue e key roles d) \<in> {qd_bestCompatible d, key}"
  by (simp_all add: UpdateBestCompatibleInQueue_def Let_def take_places_keep InitializeGroupSetup_keeps)
    (simp add: data_offer_def)

lemma FindBest_keeps:
  "data_offer (FindBestCompatibleInQueue e q g d) = data_offer d"
  "qd_bestCompatible (FindBestCompatibleInQueue e q g d) \<in> insert (qd_bestCompatible d) (fst ` set (CompatibleMapStore q))"
proof -
  show "data_offer (FindBestCompatibleInQueue e q g d) = data_offer d"
    unfolding FindBestCompatibleInQueue_def
    by (rule fold_invariant [where Q = "\<lambda>c. True" and P = "\<lambda>d'. data_offer d' = data_offer d"])
      (simp_all add: UpdateBest_keeps case_prod_beta)
  let ?keys = "insert (qd_bestCompatible d) (fst ` set (CompatibleMapStore q))"
  have "qd_bestCompatible (UpdateBestCompatibleInQueue e (fst c) roles d') \<in> ?keys"
    if "c \<in> set (CompatibleMapStore q)" "qd_bestCompatible d' \<in> ?keys" for c roles d'
    using UpdateBest_keeps(2) [of e "fst c" roles d'] that by (metis empty_iff image_eqI insert_iff)
  then show "qd_bestCompatible (FindBestCompatibleInQueue e q g d) \<in> ?keys"
    unfolding FindBestCompatibleInQueue_def case_prod_beta
    by (intro fold_invariant [where Q = "\<lambda>c. c \<in> set (CompatibleMapStore q)" and P = "\<lambda>d'. qd_bestCompatible d' \<in> ?keys"])
      (simp_all split: if_splits)
qed

lemma om_find_rekeyed:
  assumes "\<And>x. fst (f x) = fst x"
  shows "om_find (map f m) k = map_option (\<lambda>v. snd (f (k, v))) (om_find m k)"
  unfolding om_find_def
proof (induction m)
  case (Cons x m)
  obtain a b c where "x = (a, b)" "f (a, b) = (a, c)" using assms by (metis prod.collapse fst_conv)
  then show ?case using Cons by simp
qed simp

lemma RemoveFromQueue_cache: "CompatibleMapStore (RemoveFromQueue e g q) = CompatibleMapStore (RemoveFromCompatibles g q)"
  by (simp add: RemoveFromQueue_def RemoveFromCompatibles_def RemoveFromCurrentQueue_def RemoveFromNewQueue_def Let_def)

lemma RemoveFromQueue_data:
  assumes "om_wf (QueueDataStore q)"
  shows "om_find (QueueDataStore (RemoveFromQueue e g q)) g = None"
    and "h \<noteq> g \<Longrightarrow> map_option data_offer (om_find (QueueDataStore (RemoveFromQueue e g q)) h)
           = map_option data_offer (om_find (QueueDataStore q) h)"
    and "om_find (QueueDataStore (RemoveFromQueue e g q)) h = Some d \<Longrightarrow> \<not> contains_sub (qd_bestCompatible d) (guid_string g)"
proof -
  let ?q = "RemoveFromCompatibles g (RemoveFromCurrentQueue g (RemoveFromNewQueue g q))"
  let ?refresh = "refresh_best e ?q g"
  have "QueueDataStore ?q = QueueDataStore q" by (simp add: queue_updates)
  then have store: "QueueDataStore (RemoveFromQueue e g q) = om_erase g (map ?refresh (QueueDataStore q))"
    by (simp add: RemoveFromQueue_def Let_def)
  have keys: "fst (?refresh x) = fst x" for x by (simp add: refresh_best_def)
  then have "map fst (map ?refresh (QueueDataStore q)) = map fst (QueueDataStore q)" by simp
  then have wf: "om_wf (map ?refresh (QueueDataStore q))" using assms by (simp only: om_wf_def)
  note find = om_find_erase [OF wf, of g] om_find_rekeyed [OF keys]
  show "om_find (QueueDataStore (RemoveFromQueue e g q)) g = None"
    by (simp add: store find)
  have "data_offer (snd (?refresh (h, d))) = data_offer d" for d
    by (simp add: refresh_best_def FindBest_keeps(1)) (simp add: data_offer_def)
  then show "map_option data_offer (om_find (QueueDataStore (RemoveFromQueue e g q)) h)
      = map_option data_offer (om_find (QueueDataStore q) h)" if "h \<noteq> g"
    using that by (simp add: store find option.map_comp comp_def)
  have "\<not> contains_sub (qd_bestCompatible (snd (?refresh (h, d0)))) (guid_string g)" if "h \<noteq> g" for d0
    using that FindBest_keeps(2) [of e ?q h "d0\<lparr>qd_bestCompatible := []\<rparr>"]
    by (auto simp: refresh_best_def RemoveFromCompatibles_def)
  then show "\<not> contains_sub (qd_bestCompatible d) (guid_string g)"
    if "om_find (QueueDataStore (RemoveFromQueue e g q)) h = Some d"
    using that by (auto simp: store find split: if_splits)
qed

text \<open>
  C21: a group that leaves the queue is in neither list, has no queue data, and every cached result about
  a combination with it is forgotten; no other group keeps a best combination that names it, and the
  dungeons and roles of the others stay as they were.
\<close>

theorem RemoveFromQueue_forgets:
  assumes "om_wf (QueueDataStore q)" and "q' = RemoveFromQueue e g q"
  shows "g \<notin> set (newToQueueStore q') \<and> g \<notin> set (currentQueueStore q') \<and> om_find (QueueDataStore q') g = None
    \<and> (g \<in> set check \<longrightarrow> GetCompatibles (ConcatenateGuids check) q' = LFG_COMPATIBILITY_PENDING)
    \<and> (\<forall>h d. om_find (QueueDataStore q') h = Some d \<longrightarrow> \<not> contains_sub (qd_bestCompatible d) (guid_string g))
    \<and> (h \<noteq> g \<longrightarrow> map_option data_offer (om_find (QueueDataStore q') h) = map_option data_offer (om_find (QueueDataStore q) h))"
proof -
  have "GetCompatibles (ConcatenateGuids check) q' = LFG_COMPATIBILITY_PENDING" if "g \<in> set check"
  proof -
    have "(ConcatenateGuids check, d) \<notin> set (CompatibleMapStore q')" for d
      using contains_member [OF that] assms(2) by (auto simp: RemoveFromQueue_cache RemoveFromCompatibles_def)
    then show ?thesis using om_find_in by (fastforce simp: GetCompatibles_def split: option.split)
  qed
  moreover have "currentQueueStore q' = removeAll g (currentQueueStore q)"
    by (simp add: assms(2) RemoveFromQueue_def Let_def queue_updates)
  ultimately show ?thesis
    using RemoveFromQueue_data [OF assms(1), where e = e and g = g] by (simp add: assms(2) RemoveFromQueue_new)
qed

theorem RemoveFromQueue_forgets_witness:
  "GetCompatibles (ConcatenateGuids [6, 5])
     (RemoveFromQueue ex_env 5 (SetCompatibles (ConcatenateGuids [5, 6]) LFG_COMPATIBLES_MATCH empty_queue)) = LFG_COMPATIBILITY_PENDING
   \<and> GetCompatibles (ConcatenateGuids [6, 5]) (SetCompatibles (ConcatenateGuids [5, 6]) LFG_COMPATIBLES_MATCH empty_queue)
     = LFG_COMPATIBLES_MATCH"
proof -
  let ?q = "SetCompatibles (ConcatenateGuids [5, 6]) LFG_COMPATIBLES_MATCH empty_queue"
  have "om_wf (QueueDataStore ?q)" by (simp add: SetCompatibles_def empty_queue_def)
  from RemoveFromQueue_forgets [OF this refl, where g = 5 and e = ex_env and check = "[6, 5]"] show ?thesis
    by (auto simp: GetCompatibles_set key_eq_iff)
qed

section \<open>One compatibility check\<close>

definition offer :: "lfg_env \<Rightarrow> lfg_queue \<Rightarrow> guid \<Rightarrow> u32 list \<times> roles_map" where
  "offer e q g = data_offer (queue_data e q g)"

lemma offer_dungeons: "qd_dungeons (queue_data e q g) = fst (offer e q g)"
  and offer_roles: "qd_roles (queue_data e q g) = snd (offer e q g)"
  by (simp_all add: offer_def data_offer_def)

text \<open>Reading the data of a list of groups through \<open>operator[]\<close>.\<close>

definition touch_all :: "lfg_env \<Rightarrow> guid list \<Rightarrow> lfg_queue \<Rightarrow> lfg_queue" where
  "touch_all e gs q = fold (touch_data e) gs q"

lemma queue_data_touch [simp]: "queue_data e (touch_data e g q) h = queue_data e q h"
  by (simp add: queue_data_def touch_data_def om_find_modify split: option.split)

lemma queue_data_touch_all [simp]: "queue_data e (touch_all e gs q) h = queue_data e q h"
  unfolding touch_all_def by (induction gs arbitrary: q) simp_all

lemma touch_all_keeps [simp]:
  "newToQueueStore (touch_all e gs q) = newToQueueStore q" "currentQueueStore (touch_all e gs q) = currentQueueStore q"
  "CompatibleMapStore (touch_all e gs q) = CompatibleMapStore q" "offer e (touch_all e gs q) = offer e q"
  unfolding offer_def by (simp_all) (induction gs arbitrary: q; simp add: touch_all_def touch_data_def)+

lemma touch_present:
  "om_find (QueueDataStore (touch_data e g q)) h = (if h = g then Some (queue_data e q g) else om_find (QueueDataStore q) h)"
  by (simp add: touch_data_def om_find_modify queue_data_def split: option.split)

lemma touch_all_present: "g \<in> set gs \<Longrightarrow> om_find (QueueDataStore (touch_all e gs q)) g = Some (queue_data e q g)"
proof (induction gs arbitrary: q)
  case (Cons h gs)
  have "om_find (QueueDataStore (touch_all e gs (touch_data e g q))) g = Some (queue_data e q g)" for q
    unfolding touch_all_def
    by (rule fold_invariant [where Q = "\<lambda>_. True" and P = "\<lambda>q'. om_find (QueueDataStore q') g = Some (queue_data e q g)"])
      (auto simp: touch_present queue_data_def)
  then show ?case using Cons by (auto simp: touch_all_def)
qed simp

lemma common_dungeons_eq:
  "common_dungeons e gs ds q = (filter (\<lambda>d. list_all (\<lambda>g. d \<in> set (fst (offer e q g))) gs) ds, touch_all e gs q)"
proof (induction gs arbitrary: ds q)
  case (Cons g gs)
  have "offer e (touch_data e g q) = offer e q" by (simp add: offer_def fun_eq_iff)
  then show ?case using Cons by (simp add: touch_all_def offer_dungeons conj_commute)
qed (simp add: touch_all_def)

lemma gather_roles_eq:
  "gather_roles e gs roles q = (fold (join_role e) (concat (map (\<lambda>g. snd (offer e q g)) gs)) roles, touch_all e gs q)"
proof (induction gs arbitrary: roles q)
  case (Cons g gs)
  have "offer e (touch_data e g q) = offer e q" by (simp add: offer_def fun_eq_iff)
  then show ?case using Cons by (simp add: touch_all_def offer_roles)
qed (simp add: touch_all_def)

lemma same_shared: "\<exists>r. sh = sh\<lparr>rand_pos := r\<rparr>"
  by (rule exI [of _ "rand_pos sh"]) simp

lemma urand_shared: "\<exists>r. snd (urand e lo hi sh) = sh\<lparr>rand_pos := r\<rparr>"
  by (auto simp: urand_def Let_def intro: exI [of _ "rand_pos sh"])

lemma select_dungeon_result:
  "select_dungeon e ds sh = (res, sh') \<Longrightarrow> (\<exists>r. sh' = sh\<lparr>rand_pos := r\<rparr>)
     \<and> (\<forall>i d. res = Some (i, d) \<longrightarrow> i \<in> set ds \<and> env_GetLFGDungeon e i = Some d)"
proof (induction e ds sh arbitrary: res sh' rule: select_dungeon.induct)
  case (1 e ds sh)
  show ?case
  proof (cases "ds = []")
    case True
    then show ?thesis using 1(2) by (auto simp: select_dungeon.simps [of e "[]" sh] intro: exI [of _ "rand_pos sh"])
  next
    case False
    obtain i sh1 where i: "random_index e (length ds) sh = (i, sh1)" by fastforce
    then have less: "i < length ds" using random_index_less [of "length ds" e sh] False by simp
    obtain r where r: "sh1 = sh\<lparr>rand_pos := r\<rparr>"
      using i urand_shared [of e 0 "of_nat (length ds - 1)" sh] by (auto simp: random_index_def case_prod_beta)
    show ?thesis
    proof (cases "env_GetLFGDungeon e (ds ! i)")
      case None
      then have "select_dungeon e (take i ds @ drop (Suc i) ds) sh1 = (res, sh')"
        using 1(2) False i by (simp add: select_dungeon.simps [of e ds sh])
      from 1(1) [OF False i [symmetric] refl refl None this] show ?thesis
        using r by (auto dest: in_set_takeD in_set_dropD)
    next
      case (Some d)
      then show ?thesis using 1(2) False i less r by (auto simp: select_dungeon.simps [of e ds sh])
    qed
  qed
qed

subsection \<open>Counting players\<close>

lemma count_players_found:
  "list_all (\<lambda>g. om_find (QueueDataStore q) g \<noteq> None) gs \<Longrightarrow> \<exists>hc. count_players e d q gs acc = Inr hc"
  by (induction gs arbitrary: acc) (auto simp: Let_def)

definition bounded :: "lfg_env \<Rightarrow> (guid \<Rightarrow> u32 list \<times> roles_map) \<Rightarrow> bool" where
  "bounded e off \<longleftrightarrow> (\<forall>i d. env_GetLFGDungeon e i = Some d \<longrightarrow> GetMaxGroupSize d \<le> 100)
     \<and> (\<forall>g. om_wf (snd (off g)) \<and> length (snd (off g)) \<le> 100)"

lemma fold_om_set_keys: "fst ` set (fold (\<lambda>(p, r). om_set p v) xs m) = fst ` set xs \<union> fst ` set m"
proof (induction xs arbitrary: m)
  case (Cons x xs)
  then show ?case using om_set_keys [of "fst x" v m] by (auto simp: case_prod_beta)
qed simp

lemma count_players_sum:
  assumes "count_players e d q gs (n0, l0, grp0, pg0) = Inr (n, l, grp, pg)"
    and "\<And>g. g \<in> set gs \<Longrightarrow> om_find (QueueDataStore q) g = Some (queue_data e q g)"
    and "l \<le> 1" "ucast n \<le> GetMaxGroupSize d" "GetMaxGroupSize d \<le> 100" "\<And>g. length (snd (offer e q g)) \<le> 100"
  shows "unat n = unat n0 + (\<Sum>g\<leftarrow>gs. length (snd (offer e q g)))
    \<and> fst ` set pg = fst ` set pg0 \<union> (\<Union>g\<in>set gs. fst ` set (snd (offer e q g)))"
  using assms(1,2)
proof (induction gs arbitrary: n0 l0 grp0 pg0)
  case (Cons g gs)
  have go: "l0 \<le> 1 \<and> ucast n0 \<le> GetMaxGroupSize d"
    using Cons.prems(1) assms(3,4) by (auto split: if_splits)
  then have "unat n0 \<le> 100"
    using assms(5) unat_ucast_u8_u32 [of n0] by (simp add: word_le_nat_alt)
  then have "unat (n0 + of_nat (length (snd (offer e q g)))) = unat n0 + length (snd (offer e q g))"
    using assms(6) [of g] by (simp add: unat_word_ariths unat_of_nat)
  moreover obtain l1 grp1 where "count_players e d q gs (n0 + of_nat (length (snd (offer e q g))), l1, grp1,
      fold (\<lambda>(p, r). om_set p (if IS_GROUP_GUID g then g else 0)) (snd (offer e q g)) pg0) = Inr (n, l, grp, pg)"
    using Cons.prems go by (simp add: Let_def offer_roles)
  ultimately show ?case
    using Cons.IH Cons.prems(2) by (simp add: fold_om_set_keys Un_assoc Un_left_commute)
qed simp

subsection \<open>Gathering roles\<close>

definition friendly :: "lfg_env \<Rightarrow> guid set \<Rightarrow> bool" where
  "friendly e ps \<longleftrightarrow> (\<forall>a\<in>ps. \<forall>b\<in>ps. a \<noteq> b \<longrightarrow> \<not> HasIgnore e a b)"

lemma HasIgnore_sym: "HasIgnore e a b = HasIgnore e b a"
  by (auto simp: HasIgnore_def)

lemma om_set_length: "om_wf m \<Longrightarrow> length (om_set k v m) = (if k \<in> fst ` set m then length m else Suc (length m))"
  using om.length_keys_upd [of m k v] om.keys_find [of k m] by auto

lemma om_set_fresh: "k \<notin> fst ` set m \<Longrightarrow> set (om_set k v m) = insert (k, v) (set m)"
  by (induction k v m rule: om_set.induct) auto

lemma join_role_wf: "om_wf m \<Longrightarrow> om_wf (join_role e x m)"
  and join_role_length: "om_wf m \<Longrightarrow> length (join_role e x m) \<le> Suc (length m)"
  by (simp_all add: join_role_def om_wf_set om_set_length)

lemma gathered_wf: "om_wf m \<Longrightarrow> om_wf (fold (join_role e) xs m)"
  by (rule fold_invariant [where Q = "\<lambda>_. True" and P = om_wf]) (simp_all add: join_role_wf)

lemma gathered_length: "om_wf m \<Longrightarrow> length (fold (join_role e) xs m) \<le> length m + length xs"
proof (induction xs arbitrary: m)
  case (Cons x xs)
  then show ?case using Cons.IH [OF join_role_wf [OF Cons.prems], of e x] join_role_length [of m e x] by simp
qed simp

text \<open>When everybody was let in, nobody was there twice and nobody ignores anybody.\<close>

lemma gathered_all:
  assumes "om_wf m" and "length (fold (join_role e) xs m) = length m + length xs" and "friendly e (fst ` set m)"
  shows "set (fold (join_role e) xs m) = set m \<union> set xs \<and> friendly e (fst ` set (fold (join_role e) xs m))"
  using assms
proof (induction xs arbitrary: m)
  case (Cons x xs)
  let ?m = "join_role e x m"
  have wf: "om_wf ?m" using Cons.prems(1) by (rule join_role_wf)
  have len: "length ?m = Suc (length m)"
    using Cons.prems gathered_length [OF wf, of e xs] join_role_length [of m e x] by simp
  then have join: "fst x \<notin> fst ` set m" "?m = om_set (fst x) (snd x) m" "list_all (\<lambda>(p, _). p = fst x \<or> \<not> HasIgnore e (fst x) p) m"
    using Cons.prems(1) by (auto simp: join_role_def om_set_length split: if_splits)
  then have m: "set ?m = insert x (set m)" by (simp add: om_set_fresh)
  have "friendly e (fst ` set ?m)"
    using Cons.prems(3) join(3) HasIgnore_sym [of e] unfolding m by (fastforce simp: friendly_def list_all_iff)
  then show ?case using Cons.IH [OF wf] Cons.prems(2) len m by fastforce
qed simp

subsection \<open>A new proposal\<close>

text \<open>
  What a proposal promises its players: the dungeon is one they all asked for, they are all queued,
  the group has exactly the size the dungeon wants, with every player of the queued groups in it once
  and in a role they offered; when several groups were put together, the roles fit the dungeon and
  nobody ignores anybody.
\<close>

definition proposal_ok :: "lfg_env \<Rightarrow> (guid \<Rightarrow> u32 list \<times> roles_map) \<Rightarrow> LfgProposal \<Rightarrow> bool" where
  "proposal_ok e off p \<longleftrightarrow> (\<exists>d. env_GetLFGDungeon e (pr_dungeonId p) = Some d
     \<and> AllQueued e (pr_queues p)
     \<and> (\<forall>g\<in>set (pr_queues p). pr_dungeonId p \<in> set (fst (off g)))
     \<and> om_wf (pr_players p)
     \<and> length (pr_players p) = unat (GetMaxGroupSize d)
     \<and> length (pr_players p) = (\<Sum>g\<leftarrow>pr_queues p. length (snd (off g)))
     \<and> (\<forall>(a, pp)\<in>set (pr_players p). \<exists>g\<in>set (pr_queues p). \<exists>r. (a, r) \<in> set (snd (off g)) \<and> narrows_role (pp_role pp) r)
     \<and> pr_leader p \<in> fst ` set (pr_players p)
     \<and> (length (pr_queues p) > 1 \<longrightarrow> roles_fit (map (\<lambda>(a, pp). (a, pp_role pp)) (pr_players p)) d
          \<and> friendly e (fst ` set (pr_players p))))"

lemma om_set_last: "(\<And>x. x \<in> fst ` set m \<Longrightarrow> x < k) \<Longrightarrow> om_set k v m = m @ [(k, v)]"
  by (induction k v m rule: om_set.induct) (auto, force)

lemma fold_om_set_sorted:
  assumes "\<And>x. fst (f x) = fst x"
  shows "om_wf xs \<Longrightarrow> fold (\<lambda>x m. case f x of (k, v) \<Rightarrow> om_set k v m) xs [] = map f xs"
proof (induction xs rule: rev_induct)
  case (snoc x xs)
  then have "om_wf xs" and less: "\<And>y. y \<in> fst ` set xs \<Longrightarrow> y < fst x" by (auto simp: om_wf_def sorted_wrt_append)
  moreover have "fst ` set (map f xs) = fst ` set xs" using assms by (simp add: image_image)
  ultimately show ?case
    using snoc.IH om_set_last [of "map f xs" "fst (f x)" "snd (f x)"] assms [of x]
    by (simp add: case_prod_beta) (metis prod.collapse)
qed simp

lemma keep_or_draw_shared: "\<exists>r. snd (keep_or_draw e leader cur sh) = sh\<lparr>rand_pos := r\<rparr>"
  using urand_shared [of e 0 1 sh]
  by (auto simp: keep_or_draw_def case_prod_beta intro: exI [of _ "rand_pos sh"])

lemma draw_leader_step:
  "fst (snd (draw_leader e x (l, cur, sh))) \<in> {cur, fst x}
   \<and> (\<exists>r. snd (snd (draw_leader e x (l, cur, sh))) = sh\<lparr>rand_pos := r\<rparr>)"
  using keep_or_draw_shared [of e l cur sh] keep_or_draw_shared [of e True cur sh]
  by (auto simp: draw_leader_def case_prod_beta Let_def intro: exI [of _ "rand_pos sh"])

lemma draw_leaders:
  "fst (snd (fold (draw_leader e) xs (l, cur, sh))) \<in> insert cur (fst ` set xs)
   \<and> (\<exists>r. snd (snd (fold (draw_leader e) xs (l, cur, sh))) = sh\<lparr>rand_pos := r\<rparr>)"
proof (induction xs arbitrary: l cur sh)
  case (Cons x xs)
  obtain l1 cur1 sh1 where st: "draw_leader e x (l, cur, sh) = (l1, cur1, sh1)" by (rule prod_cases3)
  then show ?case
    using Cons [of l1 cur1 sh1] draw_leader_step [of e x l cur sh] by auto
qed (simp add: same_shared)

lemma draw_leader_first: "fst (snd (draw_leader e x (False, 0, sh))) = fst x"
  by (simp add: draw_leader_def keep_or_draw_def Let_def)

lemma leader_drawn:
  assumes "xs \<noteq> []" and "fold (draw_leader e) xs (False, 0, sh) = (l, leader, sh')"
  shows "leader \<in> fst ` set xs \<and> (\<exists>r. sh' = sh\<lparr>rand_pos := r\<rparr>)"
proof -
  obtain x ys where xs: "xs = x # ys" using assms(1) by (cases xs) auto
  obtain l1 cur1 sh1 where st: "draw_leader e x (False, 0, sh) = (l1, cur1, sh1)" by (rule prod_cases3)
  then have "cur1 = fst x" "\<exists>r. sh1 = sh\<lparr>rand_pos := r\<rparr>"
    using draw_leader_first [of e x sh] draw_leader_step [of e x False 0 sh] by auto
  then show ?thesis using assms(2) draw_leaders [of e ys l1 cur1 sh1] st xs by auto
qed

section \<open>What a search books\<close>

definition add_proposals :: "LfgProposal list \<Rightarrow> lfg_shared \<Rightarrow> lfg_shared" where
  "add_proposals ps sh = fold AddProposal ps sh"

definition booked_groups :: "LfgProposal list \<Rightarrow> guid set" where
  "booked_groups ps = (\<Union>p\<in>set ps. set (pr_queues p))"

text \<open>
  \<open>books e st st' ps\<close>: from \<open>st\<close> to \<open>st'\<close> exactly the proposals \<open>ps\<close> were handed to the manager, the
  members of these and nobody else left the two lists, and the offers are what they were.
\<close>

definition books :: "lfg_env \<Rightarrow> lfg_st \<Rightarrow> lfg_st \<Rightarrow> LfgProposal list \<Rightarrow> bool" where
  "books e st st' ps \<longleftrightarrow> (\<exists>r. snd st' = (add_proposals ps (snd st))\<lparr>rand_pos := r\<rparr>)
     \<and> newToQueueStore (fst st') = filter (\<lambda>g. g \<notin> booked_groups ps) (newToQueueStore (fst st))
     \<and> currentQueueStore (fst st') = filter (\<lambda>g. g \<notin> booked_groups ps) (currentQueueStore (fst st))
     \<and> offer e (fst st') = offer e (fst st)
     \<and> (bounded e (offer e (fst st)) \<longrightarrow> list_all (proposal_ok e (offer e (fst st))) ps)"

lemma booked_groups_simps [simp]: "booked_groups [] = {}" "booked_groups (ps @ ps') = booked_groups ps \<union> booked_groups ps'"
  "booked_groups (p # ps) = set (pr_queues p) \<union> booked_groups ps"
  by (auto simp: booked_groups_def)

lemma AddProposal_rand: "AddProposal p (sh\<lparr>rand_pos := r\<rparr>) = (AddProposal p sh)\<lparr>rand_pos := r\<rparr>"
  by (simp add: AddProposal_def Let_def)

lemma add_proposals_rand:
  "add_proposals ps (sh\<lparr>rand_pos := r\<rparr>) = (add_proposals ps sh)\<lparr>rand_pos := r\<rparr>"
  unfolding add_proposals_def by (induction ps arbitrary: sh) (simp_all add: AddProposal_rand)

lemma books_refl: "books e st st []"
  using same_shared by (simp add: books_def add_proposals_def)

lemma books_trans:
  assumes "books e st1 st2 ps" and "books e st2 st3 ps'"
  shows "books e st1 st3 (ps @ ps')"
proof -
  have "add_proposals (ps @ ps') sh = add_proposals ps' (add_proposals ps sh)" for sh
    by (simp add: add_proposals_def)
  then have "\<exists>r. snd st3 = (add_proposals (ps @ ps') (snd st1))\<lparr>rand_pos := r\<rparr>"
    using assms by (auto simp: books_def add_proposals_rand)
  then show ?thesis using assms by (auto simp: books_def intro!: filter_cong)
qed

text \<open>Changes of the cache, of the best combinations and of the random position book nothing.\<close>

lemma books_same:
  assumes "newToQueueStore q' = newToQueueStore q" "currentQueueStore q' = currentQueueStore q" "offer e q' = offer e q"
  shows "books e (q, sh) (q', sh\<lparr>rand_pos := r\<rparr>) []"
  using assms by (auto simp: books_def add_proposals_def)

text \<open>
  \<open>caches e q q' ps\<close>: a result the cache has for a combination is the old one, or a match only if all its
  members were booked and a match with bad states only if not all of them are queued.
\<close>

definition caches :: "lfg_env \<Rightarrow> lfg_queue \<Rightarrow> lfg_queue \<Rightarrow> LfgProposal list \<Rightarrow> bool" where
  "caches e q q' ps \<longleftrightarrow> (\<forall>check. let c = GetCompatibles (ConcatenateGuids check) q' in
     c = GetCompatibles (ConcatenateGuids check) q
     \<or> (c = LFG_COMPATIBLES_MATCH \<longrightarrow> set check \<subseteq> booked_groups ps) \<and> (c = LFG_COMPATIBLES_BAD_STATES \<longrightarrow> \<not> AllQueued e check))"

definition steps :: "lfg_env \<Rightarrow> lfg_st \<Rightarrow> lfg_st \<Rightarrow> LfgProposal list \<Rightarrow> bool" where
  "steps e st st' ps \<longleftrightarrow> books e st st' ps \<and> caches e (fst st) (fst st') ps"

lemma steps_refl: "steps e st st []"
  by (simp add: steps_def books_refl caches_def Let_def)

lemma caches_trans: "caches e q1 q2 ps \<Longrightarrow> caches e q2 q3 ps' \<Longrightarrow> caches e q1 q3 (ps @ ps')"
  unfolding caches_def Let_def by (metis Un_upper1 Un_upper2 booked_groups_simps(2) order_trans)

lemma steps_trans: "steps e st1 st2 ps \<Longrightarrow> steps e st2 st3 ps' \<Longrightarrow> steps e st1 st3 (ps @ ps')"
  unfolding steps_def using books_trans caches_trans by blast

lemma AllQueued_set: "set xs = set ys \<Longrightarrow> AllQueued e xs = AllQueued e ys"
  by (auto simp: AllQueued_def list_all_iff)

text \<open>Reading the queue data of the groups and caching a result other than a match.\<close>

lemma steps_cache:
  assumes "newToQueueStore q' = newToQueueStore q" "currentQueueStore q' = currentQueueStore q" "offer e q' = offer e q"
    and "CompatibleMapStore q' = CompatibleMapStore q" and "c \<noteq> LFG_COMPATIBLES_MATCH"
    and "c = LFG_COMPATIBLES_BAD_STATES \<longrightarrow> \<not> AllQueued e check"
  shows "steps e (q, sh) (SetCompatibles (ConcatenateGuids check) c q', sh\<lparr>rand_pos := r\<rparr>) []"
proof -
  have "GetCompatibles k q' = GetCompatibles k q" for k using assms(4) by (simp add: GetCompatibles_def)
  moreover have "\<not> AllQueued e chk" if "c = LFG_COMPATIBLES_BAD_STATES" "set chk = set check" for chk
    using AllQueued_set [OF that(2)] that(1) assms(6) by simp
  ultimately have "caches e q (SetCompatibles (ConcatenateGuids check) c q') []"
    using assms(5) by (auto simp: caches_def Let_def GetCompatibles_set key_eq_iff)
  then show ?thesis
    using assms by (auto simp: steps_def books_def add_proposals_def offer_def fun_eq_iff)
qed

text \<open>The role map a proposal is made from.\<close>

definition roles_ok :: "lfg_env \<Rightarrow> (guid \<Rightarrow> u32 list \<times> roles_map) \<Rightarrow> guid list \<Rightarrow> LFGDungeonData \<Rightarrow> roles_map \<Rightarrow> bool" where
  "roles_ok e off check d roles \<longleftrightarrow> om_wf roles
     \<and> length roles = (\<Sum>g\<leftarrow>check. length (snd (off g)))
     \<and> (\<forall>(a, r)\<in>set roles. \<exists>g\<in>set check. \<exists>r0. (a, r0) \<in> set (snd (off g)) \<and> narrows_role r r0)
     \<and> (length check > 1 \<longrightarrow> roles_fit roles d \<and> friendly e (fst ` set roles))"

lemma proposal_player_simps [simp]:
  "fst (proposal_player isNew grp pg x) = fst x" "pp_role (snd (proposal_player isNew grp pg x)) = snd x"
  by (simp_all add: proposal_player_def Let_def)

lemma new_proposal_ok:
  assumes "roles_ok e off check d roles" "length roles = unat (GetMaxGroupSize d)" "leader \<in> fst ` set roles"
    and "env_GetLFGDungeon e (pr_dungeonId p) = Some d" "\<forall>g\<in>set check. pr_dungeonId p \<in> set (fst (off g))" "AllQueued e check"
    and p: "pr_queues p = check" "pr_leader p = leader"
      "pr_players p = fold (\<lambda>pr m. case proposal_player isNew grp pg pr of (p, d) \<Rightarrow> om_set p d m) roles []"
  shows "proposal_ok e off p"
proof -
  have players: "pr_players p = map (proposal_player isNew grp pg) roles"
    using assms(1) unfolding p(3) by (intro fold_om_set_sorted) (simp_all add: roles_ok_def)
  then have "map (\<lambda>(a, pp). (a, pp_role pp)) (pr_players p) = roles" and keys: "map fst (pr_players p) = map fst roles"
    by (simp_all add: comp_def case_prod_beta)
  moreover have "om_wf (pr_players p)" using assms(1) keys by (simp add: roles_ok_def om_wf_def)
  moreover have "fst ` set (pr_players p) = fst ` set roles" using keys by (metis set_map)
  moreover have "\<forall>(a, pp)\<in>set (pr_players p). \<exists>g\<in>set check. \<exists>r. (a, r) \<in> set (snd (off g)) \<and> narrows_role (pp_role pp) r"
    using assms(1) unfolding players roles_ok_def by (auto simp: case_prod_beta)
  moreover have "length (pr_players p) = length roles" by (simp add: players)
  ultimately show ?thesis
    using assms p(1,2) unfolding proposal_ok_def roles_ok_def by simp
qed

lemma make_proposal_steps:
  assumes "make_proposal e check dungeonId l grp pg roles (q, sh) = (q', sh')"
    and "AllQueued e check"
    and ok: "bounded e (offer e q) \<Longrightarrow> roles_ok e (offer e q) check d roles \<and> length roles = unat (GetMaxGroupSize d) \<and> roles \<noteq> []"
    and dungeon: "env_GetLFGDungeon e dungeonId = Some d" "\<forall>g\<in>set check. dungeonId \<in> set (fst (offer e q g))"
  shows "\<exists>p. pr_queues p = check \<and> steps e (q, sh) (SetCompatibles (ConcatenateGuids check) LFG_COMPATIBLES_MATCH q', sh') [p]"
proof -
  let ?isNew = "l \<noteq> 1 \<or> env_GetOldState e (hd check) \<noteq> LFG_STATE_DUNGEON"
  obtain l1 leader sh1 where lead: "fold (draw_leader e) roles (False, 0, sh) = (l1, leader, sh1)" by (rule prod_cases3)
  define p where "p = \<lparr>pr_id = 0, pr_dungeonId = dungeonId, pr_state = LFG_PROPOSAL_INITIATING, pr_group = grp,
      pr_leader = leader, pr_cancelTime = env_now e + LFG_TIME_PROPOSAL, pr_encounters = 0, pr_isNew = ?isNew,
      pr_queues = check, pr_showorder = [],
      pr_players = fold (\<lambda>pr m. case proposal_player ?isNew grp pg pr of (p, d) \<Rightarrow> om_set p d m) roles []\<rparr>"
  obtain r where sh1: "sh1 = sh\<lparr>rand_pos := r\<rparr>" using draw_leaders [of e roles False 0 sh] lead by auto
  have res: "q' = unqueue check q" "sh' = AddProposal p sh1"
    using assms(1) by (simp_all add: make_proposal_def Let_def lead p_def)
  have "proposal_ok e (offer e q) p" if b: "bounded e (offer e q)"
    using ok [OF b] leader_drawn [OF _ lead] assms(2) dungeon
    by (intro new_proposal_ok [of e "offer e q" check d roles leader p ?isNew grp pg]) (simp_all add: p_def)
  moreover have "sh' = (add_proposals [p] sh)\<lparr>rand_pos := r\<rparr>"
    by (simp add: res sh1 add_proposals_def AddProposal_rand)
  moreover have "QueueDataStore (unqueue check q) = QueueDataStore q" "CompatibleMapStore (unqueue check q) = CompatibleMapStore q"
    unfolding unqueue_def by (induction check arbitrary: q) (simp_all add: queue_updates)
  then have "queue_data e (unqueue check q) = queue_data e q" and "GetCompatibles k (unqueue check q) = GetCompatibles k q" for k
    by (simp_all add: queue_data_def GetCompatibles_def fun_eq_iff)
  moreover have "pr_queues p = check" by (simp add: p_def)
  ultimately have "books e (q, sh) (SetCompatibles (ConcatenateGuids check) LFG_COMPATIBLES_MATCH q', sh') [p]"
    and "caches e q (SetCompatibles (ConcatenateGuids check) LFG_COMPATIBLES_MATCH q') [p]"
    by (auto simp: books_def caches_def Let_def GetCompatibles_set key_eq_iff res(1) unqueue_lists offer_def fun_eq_iff)
  then show ?thesis using \<open>pr_queues p = check\<close> by (auto simp: steps_def)
qed

lemma steps_touch:
  "steps e (q, sh) (touch_all e gs q, sh\<lparr>rand_pos := r\<rparr>) []"
  by (auto simp: steps_def caches_def Let_def GetCompatibles_def intro: books_same)

lemma update_best_offer: "offer e (update_best e key roles gs q) = offer e q"
  unfolding update_best_def
proof (rule fold_invariant [where Q = "\<lambda>_. True" and P = "\<lambda>q'. offer e q' = offer e q"])
  fix g q1 assume "offer e q1 = offer e q"
  moreover have "queue_data e (q1\<lparr>QueueDataStore := om_modify (default_LfgQueueData e) g (UpdateBestCompatibleInQueue e key roles) (QueueDataStore q1)\<rparr>) h
      = (if h = g then UpdateBestCompatibleInQueue e key roles (queue_data e q1 g) else queue_data e q1 h)" for h
    by (simp add: queue_data_def om_find_modify)
  ultimately show "offer e (q1\<lparr>QueueDataStore := om_modify (default_LfgQueueData e) g (UpdateBestCompatibleInQueue e key roles) (QueueDataStore q1)\<rparr>) = offer e q"
    by (auto simp: offer_def fun_eq_iff UpdateBest_keeps)
qed simp_all

lemma update_best_cache: "CompatibleMapStore (update_best e key roles gs q) = CompatibleMapStore q"
  unfolding update_best_def by (induction gs arbitrary: q) simp_all

lemma steps_less:
  "steps e (q, sh) (SetCompatibilityData (ConcatenateGuids check)
     \<lparr>cd_compatibility = LFG_COMPATIBLES_WITH_LESS_PLAYERS, cd_roles = rs\<rparr> (update_best e key roles gs q), sh) []"
proof -
  have "GetCompatibles k (update_best e key roles gs q) = GetCompatibles k q" for k
    by (simp add: GetCompatibles_def update_best_cache)
  then show ?thesis
    using same_shared [of sh] update_best_offer [of e key roles gs q]
    by (auto simp: steps_def books_def caches_def Let_def GetCompatibles_set add_proposals_def offer_def fun_eq_iff update_best_lists)
qed

text \<open>The outcome of a check: a match books the combination itself, anything else books nothing.\<close>

definition outcome :: "lfg_env \<Rightarrow> guid list \<Rightarrow> lfg_st \<Rightarrow> LfgCompatibility \<times> lfg_st \<Rightarrow> bool" where
  "outcome e check st res \<longleftrightarrow> (\<exists>ps. steps e st (snd res) ps
     \<and> (if fst res = LFG_COMPATIBLES_MATCH then \<exists>p. ps = [p] \<and> pr_queues p = check else ps = [])
     \<and> (fst res = LFG_COMPATIBLES_BAD_STATES \<longrightarrow> \<not> AllQueued e check) \<and> fst res \<noteq> LFG_COMPATIBILITY_PENDING)"

lemma outcome_cache:
  "c \<notin> {LFG_COMPATIBLES_MATCH, LFG_COMPATIBLES_BAD_STATES, LFG_COMPATIBILITY_PENDING}
    \<Longrightarrow> outcome e check (q, sh) (c, (SetCompatibles (ConcatenateGuids check) c (touch_all e gs q), sh\<lparr>rand_pos := r\<rparr>))"
  by (auto simp: outcome_def intro: steps_cache)

lemma outcome_touch:
  "outcome e check (touch_all e gs q, sh\<lparr>rand_pos := r\<rparr>) res \<Longrightarrow> outcome e check (q, sh) res"
  unfolding outcome_def using steps_trans [OF steps_touch [of e q sh gs r]] by fastforce

lemma finish_check_outcome:
  assumes "bounded e (offer e q) \<Longrightarrow> roles_ok e (offer e q) check d roles \<and> length roles = unat n"
    and "check \<noteq> []" "length check \<le> unat (GetMaxGroupSize d)"
    and "env_GetLFGDungeon e dungeonId = Some d" "\<forall>g\<in>set check. dungeonId \<in> set (fst (offer e q g))"
  shows "outcome e check (q, sh) (finish_check e check dungeonId d (n, l, grp, pg) roles (q, sh))"
proof (cases "ucast n = GetMaxGroupSize d \<and> AllQueued e check")
  case True
  then have "unat n = unat (GetMaxGroupSize d)" using unat_ucast_u8_u32 [of n] by simp
  then have ok: "bounded e (offer e q) \<Longrightarrow> roles_ok e (offer e q) check d roles \<and> length roles = unat (GetMaxGroupSize d) \<and> roles \<noteq> []"
    using assms(1-3) by (cases check) auto
  obtain q' sh' where mp: "make_proposal e check dungeonId l grp pg roles (q, sh) = (q', sh')" by fastforce
  from make_proposal_steps [OF mp _ ok assms(4,5)] True mp show ?thesis
    by (auto simp: outcome_def finish_check_def Let_def)
next
  case False
  then show ?thesis
    using steps_less [of e q sh check] steps_cache [of q q e LFG_COMPATIBLES_BAD_STATES check sh "rand_pos sh"]
    by (auto simp: outcome_def finish_check_def Let_def)
qed

lemma narrows_member:
  assumes "narrows m' m" and "(a, r) \<in> set m'"
  shows "\<exists>r0. (a, r0) \<in> set m \<and> narrows_role r r0"
proof -
  obtain i where i: "i < length m'" "m' ! i = (a, r)" using assms(2) by (auto simp: in_set_conv_nth)
  then have "fst (m ! i) = a" "narrows_role r (snd (m ! i))" "i < length m"
    using assms(1) unfolding narrows_iff by (metis fst_conv, metis snd_conv, simp)
  then show ?thesis by (metis nth_mem prod.collapse)
qed

lemma narrows_wf: "narrows m' m \<Longrightarrow> om_wf m \<Longrightarrow> om_wf m'"
  by (simp add: om_wf_def narrows_keys)

lemma single_roles_ok:
  assumes "bounded e off"
  shows "roles_ok e off [g] d (snd (CheckGroupRoles (snd (off g)) d))"
proof -
  have m: "om_wf (snd (off g))" "length (snd (off g)) \<le> 100" using assms by (simp_all add: bounded_def)
  note narrows = CheckGroupRoles_narrows [of "snd (off g)" d]
  show ?thesis
    using narrows_wf [OF narrows m(1)] narrows_length [OF narrows] narrows_member [OF narrows]
    by (auto simp: roles_ok_def)
qed

lemma combined_roles_ok:
  fixes e off
  defines "entries gs \<equiv> concat (map (\<lambda>g. snd (off g)) gs)"
  assumes "unat (n :: u8) = (\<Sum>g\<leftarrow>check. length (snd (off g)))"
    and n: "n - of_nat (length (fold (join_role e) (entries check) [])) = 0"
    and ok: "CheckGroupRoles (fold (join_role e) (entries check) []) d = (True, roles)"
  shows "roles_ok e off check d roles"
proof -
  let ?m = "fold (join_role e) (entries check) []"
  have sum: "length (entries check) = unat n" by (simp add: assms(2) entries_def length_concat comp_def)
  have wf: "om_wf ?m" by (simp add: gathered_wf)
  have "length ?m \<le> unat n" using gathered_length [of "[]" e "entries check"] sum by simp
  moreover have "unat n < 256" using unsigned_less [of n, where ?'a = nat] by simp
  moreover have "n = of_nat (length ?m)" using n by simp
  ultimately have len: "length ?m = unat n" by (simp add: unat_of_nat)
  then have all: "set ?m = set (entries check)" "friendly e (fst ` set ?m)"
    using gathered_all [of "[]" e "entries check"] sum by (simp_all add: friendly_def)
  have "?m \<noteq> []" using ok CheckGroupRoles_Nil [of d] by auto
  then have fit: "narrows roles ?m" "roles_fit roles d"
    using CheckGroupRoles_ok [of ?m d] ok len \<open>unat n < 256\<close> by (auto simp: search_ok_def)
  have "fst ` set roles = fst ` set ?m" using narrows_keys [OF fit(1)] by (metis set_map)
  moreover have "\<exists>g\<in>set check. \<exists>r0. (a, r0) \<in> set (snd (off g)) \<and> narrows_role r r0" if "(a, r) \<in> set roles" for a r
    using narrows_member [OF fit(1) that] all(1) by (auto simp: entries_def)
  ultimately show ?thesis
    using narrows_wf [OF fit(1) wf] narrows_length [OF fit(1)] len sum assms(2) all fit(2)
    by (auto simp: roles_ok_def)
qed

lemma check_roles_outcome:
  assumes "bounded e (offer e q) \<Longrightarrow> unat n = (\<Sum>g\<leftarrow>check. length (snd (offer e q g)))"
    and "check \<noteq> []" "length check \<le> unat (GetMaxGroupSize d)"
    and "env_GetLFGDungeon e dungeonId = Some d" "\<forall>g\<in>set check. dungeonId \<in> set (fst (offer e q g))"
  shows "outcome e check (q, sh) (check_roles e check dungeonId d (n, l, grp, pg) (q, sh))"
proof -
  note finish = finish_check_outcome [OF _ assms(2-4), where q = "touch_all e check q" and n = n]
  have touch: "outcome e check (touch_all e gs q, sh) res \<Longrightarrow> outcome e check (q, sh) res" for gs res
    using outcome_touch [where r = "rand_pos sh" and sh = sh] by simp
  let ?m = "fold (join_role e) (concat (map (\<lambda>g. snd (offer e q g)) check)) []"
  show ?thesis
  proof (cases "length check > 1")
    case True
    have "outcome e check (q, sh) (c, (SetCompatibles (ConcatenateGuids check) c (touch_all e check q), sh))"
      if "c \<in> {LFG_INCOMPATIBLES_HAS_IGNORES, LFG_INCOMPATIBLES_NO_ROLES}" for c
      using outcome_cache [of c e check q sh check "rand_pos sh"] that by auto
    moreover have "outcome e check (q, sh) (finish_check e check dungeonId d (n, l, grp, pg) roles (touch_all e check q, sh))"
      if "n - of_nat (length ?m) = 0" "CheckGroupRoles ?m d = (True, roles)" for roles
      using combined_roles_ok [OF assms(1) that] assms(1,5)
      by (intro touch [of check] finish) (auto simp: roles_ok_def)
    ultimately show ?thesis
      using True by (auto simp: check_roles_def gather_roles_eq Let_def split: prod.split)
  next
    case False
    then obtain g where g: "check = [g]" using assms(2) by (cases check) auto
    have "outcome e check (touch_all e check q, sh) (finish_check e check dungeonId d (n, l, grp, pg)
        (snd (CheckGroupRoles (snd (offer e q g)) d)) (touch_all e check q, sh))"
      using single_roles_ok [of e "offer e q" g d] assms(1,5) g by (intro finish) (auto simp: roles_ok_def)
    then show ?thesis
      using touch [of check] by (simp add: check_roles_def g offer_roles Let_def touch_all_def)
  qed
qed

text \<open>
  The group of a player of a new proposal is always known: once the guards on the counters are passed, every player of the
  combination was counted, so the lookup of \<^verbatim>\<open>proposalGroups\<close> finds an entry.
\<close>

lemma count_players_groups:
  "count_players e d q gs (n0, l0, grp0, pg0) = Inr (n, l, grp, pg) \<Longrightarrow> \<not> l > 1 \<Longrightarrow> \<not> ucast n > GetMaxGroupSize d \<Longrightarrow>
    fst ` set pg0 \<union> (\<Union>g\<in>set gs. fst ` set (snd (offer e q g))) \<subseteq> fst ` set pg"
proof (induction gs arbitrary: n0 l0 grp0 pg0)
  case (Cons g gs)
  have go: "l0 \<le> 1 \<and> ucast n0 \<le> GetMaxGroupSize d"
    using Cons.prems by (auto split: if_splits)
  then obtain data where data: "om_find (QueueDataStore q) g = Some data"
    using Cons.prems(1) by (auto split: option.splits)
  then have roles: "snd (offer e q g) = qd_roles data" by (simp add: offer_roles [symmetric] queue_data_def)
  obtain n1 l1 grp1 where "count_players e d q gs (n1, l1, grp1,
      fold (\<lambda>(p, r). om_set p (if IS_GROUP_GUID g then g else 0)) (snd (offer e q g)) pg0) = Inr (n, l, grp, pg)"
    using Cons.prems(1) go data by (simp add: Let_def roles)
  from Cons.IH [OF this Cons.prems(2,3)] show ?case by (auto simp: fold_om_set_keys)
qed simp

lemma gathered_keys: "fst ` set (fold (join_role e) xs m) \<subseteq> fst ` set xs \<union> fst ` set m"
proof (induction xs arbitrary: m)
  case (Cons x xs)
  have "fst ` set (join_role e x m) \<subseteq> insert (fst x) (fst ` set m)"
    using om_set_keys [of "fst x" "snd x" m] by (auto simp: join_role_def)
  from subset_trans [OF Cons [of "join_role e x m"] Un_mono [OF subset_refl this]] show ?case by simp
qed simp

lemma proposal_groups_known:
  assumes "count_players e d q check (0, 0, 0, []) = Inr (n, l, grp, pg)" "\<not> l > 1" "\<not> ucast n > GetMaxGroupSize d" "check \<noteq> []"
    and "roles = (if length check > 1 then fst (gather_roles e check [] q) else qd_roles (queue_data e q (hd check)))"
    and "x \<in> set (snd (CheckGroupRoles roles d))"
  shows "om_find pg (fst x) \<noteq> None"
proof -
  have "fst x \<in> fst ` set (snd (CheckGroupRoles roles d))" using assms(6) by (rule imageI)
  then have "fst x \<in> fst ` set roles" using narrows_keys [OF CheckGroupRoles_narrows, of roles d] by (metis set_map)
  also have "\<dots> \<subseteq> (\<Union>g\<in>set check. fst ` set (snd (offer e q g)))"
    using gathered_keys [of e "concat (map (\<lambda>g. snd (offer e q g)) check)" "[]"] 
      UN_upper [OF hd_in_set [OF assms(4)], of "\<lambda>g. fst ` set (snd (offer e q g))"]
    by (simp add: assms(5) gather_roles_eq offer_roles image_UN)
  also have "\<dots> \<subseteq> fst ` set pg" using count_players_groups [OF assms(1-3)] by simp
  finally show ?thesis using om.keys_find [of "fst x" pg] by simp
qed

lemma check_players_outcome:
  assumes "check \<noteq> []" "env_GetLFGDungeon e dungeonId = Some d" "\<forall>g\<in>set check. dungeonId \<in> set (fst (offer e q g))"
    and present: "\<And>g. g \<in> set check \<Longrightarrow> om_find (QueueDataStore q) g = Some (queue_data e q g)"
  shows "outcome e check (q, sh) (check_players e check dungeonId d (q, sh))"
proof -
  obtain n l grp pg where hc: "count_players e d q check (0, 0, 0, []) = Inr (n, l, grp, pg)"
    using count_players_found [of q check e d "(0, 0, 0, [])"] present by (fastforce simp: list_all_iff)
  have cache: "outcome e check (q, sh) (c, (SetCompatibles (ConcatenateGuids check) c q, sh))"
    if "c \<in> {LFG_INCOMPATIBLES_MULTIPLE_LFG_GROUPS, LFG_INCOMPATIBLES_TOO_MUCH_PLAYERS}" for c
    using outcome_cache [of c e check q sh "[]" "rand_pos sh"] that by (auto simp: touch_all_def)
  have sum: "unat n = (\<Sum>g\<leftarrow>check. length (snd (offer e q g)))"
    if "\<not> l > 1" "\<not> ucast n > GetMaxGroupSize d" "bounded e (offer e q)"
    using count_players_sum [OF hc present] that assms(2) by (auto simp: bounded_def not_less)
  have "outcome e check (q, sh) (LFG_INCOMPATIBLES_WRONG_GROUP_SIZE, (q, sh))"
    by (auto simp: outcome_def intro: steps_refl)
  then show ?thesis
    using cache check_roles_outcome [OF sum assms(1) _ assms(2,3)]
    by (auto simp: check_players_def hc Let_def)
qed

lemma check_group_outcome:
  assumes "check \<noteq> []"
  shows "outcome e check st (check_group e check st)"
proof -
  obtain q sh where st: "st = (q, sh)" by fastforce
  obtain g gs where check: "check = g # gs" using assms by (cases check) auto
  let ?ds = "filter (\<lambda>d. list_all (\<lambda>g. d \<in> set (fst (offer e q g))) gs) (fst (offer e q g))"
  have cd: "common_dungeons e gs (qd_dungeons (queue_data e q g)) (touch_data e g q) = (?ds, touch_all e check q)"
    by (simp add: common_dungeons_eq touch_all_def check offer_def offer_dungeons fun_eq_iff)
  obtain res sh' where sel: "select_dungeon e ?ds sh = (res, sh')" by fastforce
  then obtain r where sh': "sh' = sh\<lparr>rand_pos := r\<rparr>" using select_dungeon_result by blast
  show ?thesis
  proof (cases res)
    case None
    then show ?thesis
      using outcome_cache [of LFG_INCOMPATIBLES_NO_DUNGEONS e check q sh check r]
      by (simp add: check_group_def st check cd sel [unfolded None] sh' Let_def)
  next
    case (Some x)
    obtain i d where x: "x = (i, d)" by fastforce
    then have "i \<in> set ?ds" "env_GetLFGDungeon e i = Some d" using select_dungeon_result [OF sel] Some by auto
    then have "outcome e check (touch_all e check q, sh') (check_players e check i d (touch_all e check q, sh'))"
      using assms touch_all_present by (intro check_players_outcome) (auto simp: check list_all_iff)
    then show ?thesis
      using outcome_touch [where e = e and check = check and gs = check and q = q and sh = sh and r = r] sel Some x by (simp add: check_group_def st check cd sh' Let_def)
  qed
qed

section \<open>The search for a group\<close>

lemma CheckCompatibility_outcome:
  assumes "CheckCompatibility e check st = (c, st')"
  shows "\<exists>ps. steps e st st' ps \<and> booked_groups ps \<subseteq> set check
    \<and> (if c = LFG_COMPATIBLES_MATCH then set check \<subseteq> booked_groups ps else booked_groups ps \<subseteq> set (tl check))
    \<and> (c = LFG_COMPATIBLES_BAD_STATES \<longrightarrow> \<not> AllQueued e check) \<and> c \<noteq> LFG_COMPATIBILITY_PENDING"
  using assms
proof (induction check arbitrary: c st')
  case Nil
  then show ?case using steps_refl [of e st] by (intro exI [of _ "[]"]) auto
next
  case (Cons g gs)
  have direct: "\<exists>ps. steps e st1 st' ps \<and> booked_groups ps \<subseteq> set (g # gs)
      \<and> (if c = LFG_COMPATIBLES_MATCH then set (g # gs) \<subseteq> booked_groups ps else booked_groups ps = {})
      \<and> (c = LFG_COMPATIBLES_BAD_STATES \<longrightarrow> \<not> AllQueued e (g # gs)) \<and> c \<noteq> LFG_COMPATIBILITY_PENDING"
    if "check_group e (g # gs) st1 = (c, st')" for st1
    using check_group_outcome [of "g # gs" e st1] that unfolding outcome_def by (fastforce split: if_splits)
  obtain c1 q1 sh1 where child: "CheckCompatibility e gs st = (c1, q1, sh1)" by (rule prod_cases3)
  then obtain ps1 where ps1: "steps e st (q1, sh1) ps1" "booked_groups ps1 \<subseteq> set gs" "c1 \<noteq> LFG_COMPATIBILITY_PENDING"
    using Cons.IH [OF child] by blast
  consider (small) "length (g # gs) \<le> 2" | (bad) "length (g # gs) > 2" "c1 < LFG_COMPATIBLES_WITH_LESS_PLAYERS"
    | (good) "length (g # gs) > 2" "\<not> c1 < LFG_COMPATIBLES_WITH_LESS_PLAYERS"
    by fastforce
  then show ?case
  proof cases
    case small
    then have "check_group e (g # gs) st = (c, st')" using Cons.prems by simp
    from direct [OF this] show ?thesis by (elim exE) (rule exI, auto split: if_splits)
  next
    case bad
    then have c1: "c = c1" "st' = (SetCompatibles (ConcatenateGuids (g # gs)) c1 q1, sh1)" "c1 \<noteq> LFG_COMPATIBLES_MATCH"
        "c1 \<noteq> LFG_COMPATIBLES_BAD_STATES"
      using Cons.prems child by (auto simp: less_LfgCompatibility_def)
    then have "steps e (q1, sh1) st' []"
      using steps_cache [of q1 q1 e c1 "g # gs" sh1 "rand_pos sh1"] by simp
    from steps_trans [OF ps1(1) this] show ?thesis using c1 ps1 by (intro exI [of _ "ps1 @ []"]) auto
  next
    case good
    then have "check_group e (g # gs) (q1, sh1) = (c, st')" using Cons.prems child by simp
    from direct [OF this] obtain ps2 where ps2: "steps e (q1, sh1) st' ps2" "booked_groups ps2 \<subseteq> set (g # gs)"
      "if c = LFG_COMPATIBLES_MATCH then set (g # gs) \<subseteq> booked_groups ps2 else booked_groups ps2 = {}"
      "c = LFG_COMPATIBLES_BAD_STATES \<longrightarrow> \<not> AllQueued e (g # gs)" "c \<noteq> LFG_COMPATIBILITY_PENDING" by blast
    then show ?thesis
      using steps_trans [OF ps1(1) ps2(1)] ps1(2) by (intro exI [of _ "ps1 @ ps2"]) (auto split: if_splits)
  qed
qed

interpretation bookings: search_rel e "\<lambda>st st'. \<exists>ps. books e st st' ps" for e
proof
  fix check st assume "check \<noteq> ([] :: guid list)"
  then show "\<exists>ps. books e st (snd (check_group e check st)) ps"
    using check_group_outcome [of check e st] by (auto simp: outcome_def steps_def)
next
  fix q sh key c
  show "\<exists>ps. books e (q, sh) (SetCompatibles key c q, sh) ps"
    using books_same [of "SetCompatibles key c q" q e sh "rand_pos sh"] by (auto simp: offer_def fun_eq_iff)
qed (auto intro: books_refl books_trans)

text \<open>
  The cache can be trusted for a group that joins: no combination with it is cached as a match, and no
  combination cached with bad states has all its members queued.
\<close>

definition no_flip :: "lfg_env \<Rightarrow> lfg_queue \<Rightarrow> bool" where
  "no_flip e q \<longleftrightarrow> (\<forall>check. GetCompatibles (ConcatenateGuids check) q = LFG_COMPATIBLES_BAD_STATES \<longrightarrow> \<not> AllQueued e check)"

definition unmatched :: "guid \<Rightarrow> lfg_queue \<Rightarrow> bool" where
  "unmatched f q \<longleftrightarrow> (\<forall>check. f \<in> set check \<longrightarrow> GetCompatibles (ConcatenateGuids check) q \<noteq> LFG_COMPATIBLES_MATCH)"

lemma steps_cached:
  assumes "steps e st st' ps" and "GetCompatibles (ConcatenateGuids check) (fst st') = c"
  shows "GetCompatibles (ConcatenateGuids check) (fst st) = c
    \<or> (c = LFG_COMPATIBLES_MATCH \<longrightarrow> set check \<subseteq> booked_groups ps) \<and> (c = LFG_COMPATIBLES_BAD_STATES \<longrightarrow> \<not> AllQueued e check)"
  using assms unfolding steps_def caches_def Let_def by (elim conjE allE [of _ check]) (simp add: eq_commute)

lemma steps_no_flip: "steps e st st' ps \<Longrightarrow> no_flip e (fst st) \<Longrightarrow> no_flip e (fst st')"
  unfolding no_flip_def using steps_cached by blast

lemma steps_unmatched: "steps e st st' ps \<Longrightarrow> unmatched f (fst st) \<Longrightarrow> f \<notin> booked_groups ps \<Longrightarrow> unmatched f (fst st')"
  unfolding unmatched_def using steps_cached by blast

lemma cached_or_checked_run:
  assumes "cached_or_checked e (f # gs) st = (c, st')" "f \<notin> set gs" "no_flip e (fst st)" "unmatched f (fst st)"
  shows "\<exists>ps. steps e st st' ps \<and> booked_groups ps \<subseteq> set (f # gs) \<and> (c = LFG_COMPATIBLES_MATCH \<longleftrightarrow> f \<in> booked_groups ps)"
proof (cases "GetCompatibles (ConcatenateGuids (f # gs)) (fst st) = LFG_COMPATIBILITY_PENDING")
  case True
  obtain c1 st1 where cc: "CheckCompatibility e (f # gs) st = (c1, st1)" by (rule prod.exhaust)
  from CheckCompatibility_outcome [OF this] obtain ps where ps: "steps e st st1 ps" "booked_groups ps \<subseteq> set (f # gs)"
    "if c1 = LFG_COMPATIBLES_MATCH then set (f # gs) \<subseteq> booked_groups ps else booked_groups ps \<subseteq> set (tl (f # gs))"
    "c1 = LFG_COMPATIBLES_BAD_STATES \<longrightarrow> \<not> AllQueued e (f # gs)" by blast
  then have "c = c1 \<and> st' = st1"
    using assms(1) True cc by (auto simp: cached_or_checked_def Let_def simp del: CheckCompatibility.simps split: if_splits)
  then show ?thesis using ps assms(2) by (intro exI [of _ ps]) (auto split: if_splits)
next
  case False
  then have "c = GetCompatibles (ConcatenateGuids (f # gs)) (fst st)" "st' = st"
    using assms(1,3) unfolding no_flip_def cached_or_checked_def Let_def by (auto split: if_splits)
  then show ?thesis using assms(4) steps_refl [of e st] unfolding unmatched_def by fastforce
qed

lemma search_run:
  "FindNewGroups_fuel n e check all st = Some (c, all', st') \<Longrightarrow> check = f # gs \<Longrightarrow> f \<notin> set gs \<union> set all
    \<Longrightarrow> no_flip e (fst st) \<Longrightarrow> unmatched f (fst st)
    \<Longrightarrow> \<exists>ps. steps e st st' ps \<and> set all' \<subseteq> set all \<and> booked_groups ps \<subseteq> set check \<union> set all \<and> (c = LFG_COMPATIBLES_MATCH \<longleftrightarrow> f \<in> booked_groups ps)"
  "match_loop n e check all st = Some (found, all', st') \<Longrightarrow> check = f # gs \<Longrightarrow> f \<notin> set gs \<union> set all
    \<Longrightarrow> no_flip e (fst st) \<Longrightarrow> unmatched f (fst st)
    \<Longrightarrow> \<exists>ps. steps e st st' ps \<and> set all' \<subseteq> set all \<and> booked_groups ps \<subseteq> set check \<union> set all \<and> (found \<longleftrightarrow> f \<in> booked_groups ps)"
proof (induction n e check all st and n e check all st arbitrary: c all' st' gs and found all' st' gs
    rule: FindNewGroups_fuel_match_loop.induct)
  case (1 n e check all st)
  obtain c1 st1 where cc: "cached_or_checked e check st = (c1, st1)" by (rule prod.exhaust)
  from cached_or_checked_run [OF cc [unfolded 1(3)]] 1(4-6) obtain ps1 where
    ps1: "steps e st st1 ps1" "booked_groups ps1 \<subseteq> set check" "c1 = LFG_COMPATIBLES_MATCH \<longleftrightarrow> f \<in> booked_groups ps1"
    using 1(3) by auto
  show ?case
  proof (cases "c1 = LFG_COMPATIBLES_WITH_LESS_PLAYERS")
    case False
    then have "c = c1" "all' = all" "st' = st1" using 1(2) cc by auto
    then show ?thesis using ps1 by auto
  next
    case True
    then have f1: "f \<notin> booked_groups ps1" using ps1(3) by simp
    obtain found st2 where loop: "match_loop n e check all st1 = Some (found, all', st')" "c = (if found then LFG_COMPATIBLES_MATCH else c1)"
      using 1(2) cc True by (auto simp: bind_eq_Some_conv)
    from 1(1) [OF cc [symmetric] refl _ loop(1) 1(3,4) steps_no_flip [OF ps1(1) 1(5)] steps_unmatched [OF ps1(1) 1(6) f1]] True
    obtain ps2 where "steps e st1 st' ps2" "set all' \<subseteq> set all" "booked_groups ps2 \<subseteq> set check \<union> set all" "found \<longleftrightarrow> f \<in> booked_groups ps2"
      by auto
    then show ?thesis
      using steps_trans [OF ps1(1)] ps1(2) f1 loop(2) True by (intro exI [of _ "ps1 @ ps2"]) auto
  qed
next
  case (2 n e check st)
  then show ?case using steps_refl [of e st] by (intro exI [of _ "[]"]) auto
next
  case (4 n e check a all st)
  from 4(3) obtain sub all1 st1 where sub: "FindNewGroups_fuel n e (check @ [a]) all st = Some (sub, all1, st1)"
    by (auto simp: bind_eq_Some_conv)
  from 4(1) [OF sub, of "gs @ [a]"] 4(4-7) obtain ps1 where
    ps1: "steps e st st1 ps1" "set all1 \<subseteq> set all" "booked_groups ps1 \<subseteq> set (check @ [a]) \<union> set all" "sub = LFG_COMPATIBLES_MATCH \<longleftrightarrow> f \<in> booked_groups ps1"
    by auto
  show ?case
  proof (cases "sub = LFG_COMPATIBLES_MATCH")
    case True
    then show ?thesis using 4(3) sub ps1 by (intro exI [of _ ps1]) auto
  next
    case False
    then have loop: "match_loop n e check all1 st1 = Some (found, all', st')" using 4(3) sub by simp
    have f1: "f \<notin> booked_groups ps1" "f \<notin> set gs \<union> set all1" using ps1 False 4(5) by auto
    obtain q1 sh1 where st1: "st1 = (q1, sh1)" by fastforce
    from 4(2) [OF sub [unfolded st1] refl refl False loop [unfolded st1] 4(4) f1(2)]
      steps_no_flip [OF ps1(1) 4(6)] steps_unmatched [OF ps1(1) 4(7) f1(1)]
    obtain ps2 where "steps e st1 st' ps2" "set all' \<subseteq> set all1" "booked_groups ps2 \<subseteq> set check \<union> set all1" "found \<longleftrightarrow> f \<in> booked_groups ps2"
      by (auto simp: st1)
    then show ?thesis
      using steps_trans [OF ps1(1)] ps1(2,3) f1(1) by (intro exI [of _ "ps1 @ ps2"]) auto
  qed
qed simp

lemma list_moves_offer [simp]:
  "offer e (RemoveFromNewQueue g q) = offer e q" "offer e (AddToCurrentQueue g q) = offer e q"
  by (simp_all add: offer_def queue_data_def RemoveFromNewQueue_def AddToCurrentQueue_def fun_eq_iff)

lemma FindGroups_induct [case_names Nil Cons]:
  assumes "\<And>n q sh. newToQueueStore q = [] \<Longrightarrow> FindGroups_loop e n (q, sh) = (n, q, sh) \<Longrightarrow> P n (q, sh)"
    and "\<And>n f rest q sh c all q2 sh2. newToQueueStore q = f # rest
      \<Longrightarrow> FindNewGroups e [f] (currentQueueStore q) (RemoveFromNewQueue f q, sh) = (c, all, q2, sh2)
      \<Longrightarrow> FindGroups_loop e n (q, sh) = (if c = LFG_COMPATIBLES_MATCH then FindGroups_loop e (n + 1) (q2, sh2)
            else FindGroups_loop e n (AddToCurrentQueue f q2, sh2))
      \<Longrightarrow> (c = LFG_COMPATIBLES_MATCH \<Longrightarrow> P (n + 1) (q2, sh2))
      \<Longrightarrow> (c \<noteq> LFG_COMPATIBLES_MATCH \<Longrightarrow> P n (AddToCurrentQueue f q2, sh2)) \<Longrightarrow> P n (q, sh)"
  shows "P n st"
proof (induction "length (newToQueueStore (fst st))" arbitrary: n st rule: less_induct)
  case less
  obtain q sh where st: "st = (q, sh)" by fastforce
  show ?case
  proof (cases "newToQueueStore q")
    case Nil
    then show ?thesis using assms(1) [OF Nil, of n sh] by (simp add: FindGroups_loop.simps [of e n "(q, sh)"] st)
  next
    case (Cons f rest)
    obtain c all q2 sh2 where find: "FindNewGroups e [f] (currentQueueStore q) (RemoveFromNewQueue f q, sh) = (c, all, q2, sh2)"
      by (rule prod_cases4)
    have "length (newToQueueStore q2) < length (newToQueueStore q)" by (rule FindGroups_shrinks [OF Cons find])
    then have IH: "P m (q2, sh2)" "P m (AddToCurrentQueue f q2, sh2)" for m
      using less st by (simp_all add: AddToCurrentQueue_def)
    have "FindGroups_loop e n (q, sh) = (if c = LFG_COMPATIBLES_MATCH then FindGroups_loop e (n + 1) (q2, sh2)
        else FindGroups_loop e n (AddToCurrentQueue f q2, sh2))"
      using Cons find by (simp add: FindGroups_loop.simps [of e n "(q, sh)"] RemoveFromNewQueue_def)
    from assms(2) [OF Cons find this IH] show ?thesis by (simp add: st)
  qed
qed

definition made :: "lfg_env \<Rightarrow> lfg_st \<Rightarrow> lfg_st \<Rightarrow> LfgProposal list \<Rightarrow> bool" where
  "made e st st' ps \<longleftrightarrow> (\<exists>r. snd st' = (add_proposals ps (snd st))\<lparr>rand_pos := r\<rparr>) \<and> offer e (fst st') = offer e (fst st)
     \<and> (bounded e (offer e (fst st)) \<longrightarrow> list_all (proposal_ok e (offer e (fst st))) ps)"

lemma books_made: "books e st st' ps \<Longrightarrow> made e st st' ps"
  by (simp add: books_def made_def)

lemma made_trans: "made e st1 st2 ps \<Longrightarrow> made e st2 st3 ps' \<Longrightarrow> made e st1 st3 (ps @ ps')"
  by (auto simp: made_def add_proposals_rand) (auto simp: add_proposals_def intro: exI)

lemma made_offer: "made e (q, sh) st ps \<Longrightarrow> offer e q' = offer e q \<Longrightarrow> made e (q', sh) st ps"
  by (simp add: made_def)

lemma FindGroups_loop_made:
  "FindGroups_loop e n st = (n', st') \<Longrightarrow> (\<exists>ps. made e st st' ps) \<and> newToQueueStore (fst st') = []"
proof (induction n st rule: FindGroups_induct [of e])
  case (Nil n q sh)
  then show ?case using books_made [OF books_refl, of e "(q, sh)"] by auto
next
  case (Cons n f rest q sh c all q2 sh2)
  obtain ps where "books e (RemoveFromNewQueue f q, sh) (q2, sh2) ps"
    using bookings.FindNewGroups_rel [OF Cons.hyps(2)] by blast
  then have ps: "made e (q, sh) (q2, sh2) ps" "made e (q, sh) (AddToCurrentQueue f q2, sh2) ps"
    using books_made [of e "(RemoveFromNewQueue f q, sh)" "(q2, sh2)" ps] by (auto simp: made_def)
  then show ?case
    using Cons made_trans by (cases "c = LFG_COMPATIBLES_MATCH") (simp, blast)+
qed

text \<open>
  C2: every proposal the queue hands to the manager is one its players asked for: a dungeon all of the
  groups selected, everybody queued, exactly as many players as the dungeon takes, each player of the
  groups once and in a role they offered, a leader among them, and, when several groups were put
  together, roles that fit the dungeon and nobody who ignores another.
\<close>

theorem FindGroups_proposals_ok:
  assumes "FindGroups e (q, sh) = (n, q', sh')" and "bounded e (offer e q)"
  shows "\<exists>ps r. sh' = (fold AddProposal ps sh)\<lparr>rand_pos := r\<rparr> \<and> list_all (proposal_ok e (offer e q)) ps"
  using FindGroups_loop_made [of e 0 "(q, sh)"] assms by (auto simp: FindGroups_def made_def add_proposals_def)

subsection \<open>Nobody gets lost\<close>

definition queue_ready :: "lfg_env \<Rightarrow> lfg_queue \<Rightarrow> bool" where
  "queue_ready e q \<longleftrightarrow> set (newToQueueStore q) \<inter> set (currentQueueStore q) = {} \<and> no_flip e q
     \<and> (\<forall>f\<in>set (newToQueueStore q). unmatched f q)"

lemma FindGroups_loop_run:
  "FindGroups_loop e n st = (n', st') \<Longrightarrow> queue_ready e (fst st) \<Longrightarrow>
    \<exists>ps. made e st st' ps \<and> newToQueueStore (fst st') = []
      \<and> set (currentQueueStore (fst st')) = set (newToQueueStore (fst st)) \<union> set (currentQueueStore (fst st)) - booked_groups ps
      \<and> booked_groups ps \<subseteq> set (newToQueueStore (fst st)) \<union> set (currentQueueStore (fst st))"
proof (induction n st rule: FindGroups_induct [of e])
  case (Nil n q sh)
  then show ?case using books_made [OF books_refl, of e "(q, sh)"] by (intro exI [of _ "[]"]) auto
next
  case (Cons n f rest q sh c all q2 sh2)
  let ?q1 = "RemoveFromNewQueue f q"
  have cache: "GetCompatibles k ?q1 = GetCompatibles k q" for k
    by (simp add: GetCompatibles_def RemoveFromNewQueue_def)
  have ready: "no_flip e ?q1" "unmatched f ?q1" "f \<notin> set (currentQueueStore q)"
    using Cons.prems(2) Cons.hyps(1) by (auto simp: queue_ready_def no_flip_def unmatched_def cache)
  obtain ps where ps: "steps e (?q1, sh) (q2, sh2) ps" "booked_groups ps \<subseteq> insert f (set (currentQueueStore q))"
    "c = LFG_COMPATIBLES_MATCH \<longleftrightarrow> f \<in> booked_groups ps"
    using search_run(1) [OF FindNewGroups_eq [of "currentQueueStore q" e "[f]" "(?q1, sh)", unfolded Cons.hyps(2)], of f "[]"] ready by auto
  have made: "made e (q, sh) (q2, sh2) ps" "made e (q, sh) (AddToCurrentQueue f q2, sh2) ps"
    using books_made [of e "(?q1, sh)" "(q2, sh2)" ps] ps(1) by (auto simp: made_def steps_def)
  have lists: "set (newToQueueStore q2) = set (newToQueueStore q) - {f} - booked_groups ps"
    "set (currentQueueStore q2) = set (currentQueueStore q) - booked_groups ps"
    using ps(1) by (auto simp: steps_def books_def RemoveFromNewQueue_def)
  have no: "no_flip e q2" using steps_no_flip [OF ps(1)] ready by simp
  have un: "unmatched g q2" if "g \<in> set (newToQueueStore q2)" for g
    using steps_unmatched [OF ps(1), of g] that lists(1) Cons.prems(2)
    by (auto simp: queue_ready_def unmatched_def cache)
  show ?case
  proof (cases "c = LFG_COMPATIBLES_MATCH")
    case True
    have "queue_ready e q2" using no un lists Cons.prems(2) by (auto simp: queue_ready_def)
    then obtain ps2 where ps2: "made e (q2, sh2) st' ps2" "newToQueueStore (fst st') = []"
      "set (currentQueueStore (fst st')) = set (newToQueueStore q2) \<union> set (currentQueueStore q2) - booked_groups ps2"
      "booked_groups ps2 \<subseteq> set (newToQueueStore q2) \<union> set (currentQueueStore q2)"
      using Cons True by auto
    then show ?thesis
      using made_trans [OF made(1) ps2(1)] lists ps True Cons.hyps(1) by (intro exI [of _ "ps @ ps2"]) auto
  next
    case False
    have "GetCompatibles k (AddToCurrentQueue f q2) = GetCompatibles k q2" for k
      by (simp add: GetCompatibles_def AddToCurrentQueue_def)
    then have "queue_ready e (AddToCurrentQueue f q2)"
      using no un lists Cons.prems(2) by (auto simp: queue_ready_def AddToCurrentQueue_def no_flip_def unmatched_def)
    then obtain ps2 where ps2: "made e (AddToCurrentQueue f q2, sh2) st' ps2" "newToQueueStore (fst st') = []"
      "set (currentQueueStore (fst st')) = set (newToQueueStore q2) \<union> insert f (set (currentQueueStore q2)) - booked_groups ps2"
      "booked_groups ps2 \<subseteq> set (newToQueueStore q2) \<union> insert f (set (currentQueueStore q2))"
      using Cons False by (auto simp: AddToCurrentQueue_def)
    then show ?thesis
      using made_trans [OF made(2) ps2(1)] lists ps False Cons.hyps(1) by (intro exI [of _ "ps @ ps2"]) auto
  qed
qed

text \<open>
  C11: take a queue whose two lists are disjoint, whose cache has no match with one of the new groups, and no match with
  bad states for groups that are all queued by now.  A search examines every new group and loses none: afterwards
  the list of new groups is empty, and the groups that wait are exactly the groups that waited before less the
  members of the proposals that were made.
\<close>

theorem FindGroups_keeps_everyone:
  assumes "FindGroups e (q, sh) = (n, q', sh')" and "queue_ready e q"
  shows "newToQueueStore q' = [] \<and> (\<exists>ps r. sh' = (fold AddProposal ps sh)\<lparr>rand_pos := r\<rparr>
    \<and> set (currentQueueStore q') = (set (newToQueueStore q) \<union> set (currentQueueStore q)) - booked_groups ps
    \<and> booked_groups ps \<subseteq> set (newToQueueStore q) \<union> set (currentQueueStore q))"
  using FindGroups_loop_run [of e 0 "(q, sh)"] assms by (auto simp: FindGroups_def made_def add_proposals_def)

section \<open>Free places and waiting times\<close>

lemma take_place_single:
  assumes "single_role r"
  shows "take_place r data =
    (if r AND NOT PLAYER_ROLE_LEADER = PLAYER_ROLE_TANK \<and> qd_tanks data \<noteq> 0 then data\<lparr>qd_tanks := qd_tanks data - 1\<rparr>
     else if r AND NOT PLAYER_ROLE_LEADER = PLAYER_ROLE_HEALER \<and> qd_healers data \<noteq> 0 then data\<lparr>qd_healers := qd_healers data - 1\<rparr>
     else if qd_dps data \<noteq> 0 then data\<lparr>qd_dps := qd_dps data - 1\<rparr> else data)"
proof -
  have "has_flag r PLAYER_ROLE_TANK \<longleftrightarrow> r AND NOT PLAYER_ROLE_LEADER = PLAYER_ROLE_TANK"
    "has_flag r PLAYER_ROLE_HEALER \<longleftrightarrow> r AND NOT PLAYER_ROLE_LEADER = PLAYER_ROLE_HEALER"
    using assms by (auto simp: role_bits)
  then show ?thesis by (simp add: take_place_def)
qed

definition places :: "LfgQueueData \<Rightarrow> u8 \<Rightarrow> nat" where
  "places data f = (if f = PLAYER_ROLE_TANK then unat (qd_tanks data) else if f = PLAYER_ROLE_HEALER then unat (qd_healers data)
                    else unat (qd_dps data))"

lemma take_place_places:
  assumes "single_role r" "f \<in> role_flags" "0 < places data (r AND NOT PLAYER_ROLE_LEADER)"
  shows "places (take_place r data) f = places data f - of_bool (r AND NOT PLAYER_ROLE_LEADER = f)"
proof -
  have dec: "unat (w - 1) = unat w - 1" if "w \<noteq> 0" for w :: u8 using that by (simp add: unat_minus_one)
  consider "r AND NOT PLAYER_ROLE_LEADER = PLAYER_ROLE_TANK" | "r AND NOT PLAYER_ROLE_LEADER = PLAYER_ROLE_HEALER"
    | "r AND NOT PLAYER_ROLE_LEADER = PLAYER_ROLE_DAMAGE"
    using assms(1) by (auto simp: single_role_def role_flags_def)
  then show ?thesis
    using assms(2,3) unfolding take_place_single [OF assms(1)]
    by cases (auto simp: places_def role_flags_def role_defs unat_gt_0 dec)
qed

lemma take_places_exact:
  "list_all (single_role \<circ> snd) roles \<Longrightarrow> (\<And>f. f \<in> role_flags \<Longrightarrow> players_as f roles \<le> places data f) \<Longrightarrow> f \<in> role_flags
    \<Longrightarrow> places (fold (\<lambda>(g, role). take_place role) roles data) f = places data f - players_as f roles"
proof (induction roles arbitrary: data)
  case (Cons x roles)
  obtain g r where x: "x = (g, r)" by fastforce
  then have r: "single_role r" "r AND NOT PLAYER_ROLE_LEADER \<in> role_flags" using Cons.prems(1) by (simp_all add: single_role_def)
  have count: "players_as h (x # roles) = of_bool (r AND NOT PLAYER_ROLE_LEADER = h) + players_as h roles" for h
    by (simp add: players_as_def x)
  have "0 < places data (r AND NOT PLAYER_ROLE_LEADER)"
    using Cons.prems(2) [OF r(2)] count by simp
  note step = take_place_places [OF r(1) _ this]
  have "players_as h roles \<le> places (take_place r data) h" if "h \<in> role_flags" for h
    using Cons.prems(2) [OF that] count step [OF that] by simp
  then show ?case
    using Cons.IH [of "take_place r data"] Cons.prems step count [of f] by (simp add: x)
qed (simp add: players_as_def)

text \<open>
  When a larger combination with a valid role assignment becomes the best one of a group, the free
  places shown to the group are exactly the places its first dungeon wants less the players of the
  combination in that role.
\<close>

theorem best_combination_places:
  assumes "qd_dungeons data = i # ds" "env_GetLFGDungeon e i = Some d" "roles_fit roles d"
    and "requiredTanks d < 256" "requiredHeals d < 256" "requiredDamagedealers d < 256"
    and "qd_bestCompatible data = []" "count_list key CHR ''|'' < 255"
    and "data' = UpdateBestCompatibleInQueue e key roles data"
  shows "qd_bestCompatible data' = key
    \<and> unat (qd_tanks data') + players_as PLAYER_ROLE_TANK roles = unat (requiredTanks d)
    \<and> unat (qd_healers data') + players_as PLAYER_ROLE_HEALER roles = unat (requiredHeals d)
    \<and> unat (qd_dps data') + players_as PLAYER_ROLE_DAMAGE roles = unat (requiredDamagedealers d)"
proof -
  let ?data = "InitializeGroupSetup e (data\<lparr>qd_bestCompatible := key\<rparr>)"
  have "unat (of_nat (count_list key CHR ''|'' + 1) :: u8) = count_list key CHR ''|'' + 1"
    using assms(8) by (simp only: unat_of_nat) simp
  then have "(of_nat (count_list key CHR ''|'' + 1) :: u8) \<noteq> 0" by (metis unat_0 add_is_0 one_neq_zero)
  then have data': "data' = fold (\<lambda>(g, role). take_place role) roles ?data"
    using assms(7,9) by (simp add: UpdateBestCompatibleInQueue_def Let_def)
  have narrow: "unat (ucast w :: u8) = unat w" if "w < 256" for w :: u32
    using that by (simp add: unsigned_ucast_eq word_less_nat_alt take_bit_nat_eq_self)
  have init: "places ?data f = unat (required d f)" if "f \<in> role_flags" for f
    using assms(1,2,4-6) that by (auto simp: InitializeGroupSetup_def Let_def places_def required_def role_flags_def narrow role_defs)
  have all: "list_all (single_role \<circ> snd) roles" using assms(3) by (simp add: roles_fit_def)
  have fit: "players_as f roles \<le> places ?data f" if "f \<in> role_flags" for f
    using roles_fit_required [OF assms(3) that] init [OF that] by simp
  have "places data' f + players_as f roles = unat (required d f)" if "f \<in> role_flags" for f
    using take_places_exact [OF all fit that] fit [OF that] init [OF that] data' by simp
  from this [of PLAYER_ROLE_TANK] this [of PLAYER_ROLE_HEALER] this [of PLAYER_ROLE_DAMAGE] show ?thesis
    using data' by (simp add: places_def required_def role_flags_def role_defs take_places_keep InitializeGroupSetup_keeps)
qed

theorem best_combination_places_witness:
  "qd_tanks (UpdateBestCompatibleInQueue ex_env ''5|6'' [(5, 2), (6, 8)] (new_LfgQueueData ex_env 0 [1] [(5, 2)])) = 0
   \<and> players_as PLAYER_ROLE_DAMAGE [(5, 2), (6, 8)] = 1
   \<and> unat (qd_dps (UpdateBestCompatibleInQueue ex_env ''5|6'' [(5, 2), (6, 8)] (new_LfgQueueData ex_env 0 [1] [(5, 2)])))
     + players_as PLAYER_ROLE_DAMAGE [(5, 2), (6, 8)] = unat (requiredDamagedealers five_man)"
proof -
  have "roles_fit [(5, 2), (6, 8)] five_man" by code_simp
  moreover have "qd_dungeons (new_LfgQueueData ex_env 0 [1] [(5, 2)]) = [1]" "qd_bestCompatible (new_LfgQueueData ex_env 0 [1] [(5, 2)]) = []"
    by code_simp+
  ultimately have "unat (qd_dps (UpdateBestCompatibleInQueue ex_env ''5|6'' [(5, 2), (6, 8)] (new_LfgQueueData ex_env 0 [1] [(5, 2)])))
     + players_as PLAYER_ROLE_DAMAGE [(5, 2), (6, 8)] = unat (requiredDamagedealers five_man)"
    by (intro best_combination_places [where i = 1 and ds = "[]" and key = "''5|6''", THEN conjunct2, THEN conjunct2, THEN conjunct2])
      (simp_all add: ex_env_def five_man_def)
  then show ?thesis by (intro conjI) (code_simp, code_simp, assumption)
qed

lemma average_between:
  fixes t n w :: nat
  shows "min t w \<le> (t * n + w) div (n + 1) \<and> (t * n + w) div (n + 1) \<le> max t w"
proof -
  have "min t w * n \<le> t * n" "t * n \<le> max t w * n" by (simp_all add: mult_le_mono1)
  then have "min t w * (n + 1) \<le> t * n + w" "t * n + w \<le> max t w * (n + 1)"
    by (simp_all add: add.commute add_mono)
  then show ?thesis
    by (metis div_le_mono nonzero_mult_div_cancel_right add_is_0 one_neq_zero)
qed

text \<open>
  While the sum of all waiting times seen fits into 32 bits, the stored time of a dungeon is the
  integer average of the old average, weighted with the number of groups it stands for, and the new
  time: it lies between the two, the count goes up by one, and other dungeons keep their times.
\<close>

theorem UpdateWaitTimeAvg_average:
  assumes "om_find (waitTimesAvgStore q) dungeonId = Some wt"
    and "unat (wt_time wt) * unat (wt_number wt) + unat waitTime < 2 ^ 32" "wt_number wt \<noteq> - 1"
  shows "\<exists>q' wt'. UpdateWaitTimeAvg waitTime dungeonId q = Some q' \<and> om_find (waitTimesAvgStore q') dungeonId = Some wt'
    \<and> unat (wt_number wt') = unat (wt_number wt) + 1
    \<and> unat (wt_time wt') = (unat (wt_time wt) * unat (wt_number wt) + unat waitTime) div (unat (wt_number wt) + 1)
    \<and> min (wt_time wt) waitTime \<le> wt_time wt' \<and> wt_time wt' \<le> max (wt_time wt) waitTime
    \<and> (\<forall>other. other \<noteq> dungeonId \<longrightarrow> om_find (waitTimesAvgStore q') other = om_find (waitTimesAvgStore q) other)"
proof -
  let ?n = "wt_number wt + 1"
  have nz: "?n \<noteq> 0" using assms(3) by (metis add_diff_cancel_right' diff_0)
  then have n: "unat ?n = unat (wt_number wt) + 1" using unatSuc [of "wt_number wt"] by (simp add: add.commute)
  let ?t = "(wt_time wt * wt_number wt + waitTime) div ?n"
  have prod: "unat (wt_time wt * wt_number wt) = unat (wt_time wt) * unat (wt_number wt)"
    using assms(2) by (simp add: unat_word_ariths)
  have "unat (wt_time wt * wt_number wt + waitTime) = unat (wt_time wt) * unat (wt_number wt) + unat waitTime"
    using assms(2) by (simp add: unat_word_ariths(1) prod)
  then have t: "unat ?t = (unat (wt_time wt) * unat (wt_number wt) + unat waitTime) div (unat (wt_number wt) + 1)"
    by (simp add: unat_div_distrib n)
  then have "min (wt_time wt) waitTime \<le> ?t \<and> ?t \<le> max (wt_time wt) waitTime"
    using average_between [of "unat (wt_time wt)" "unat waitTime" "unat (wt_number wt)"]
    by (auto simp: word_le_nat_alt min_def max_def split: if_splits)
  then show ?thesis
    using assms(1) nz n t by (simp add: UpdateWaitTimeAvg_def update_wait_def Let_def om_find_set)
qed

theorem UpdateWaitTimeAvg_average_witness:
  "\<exists>q' wt'. UpdateWaitTimeAvg 50 7 (empty_queue\<lparr>waitTimesAvgStore := [(7, \<lparr>wt_time = 20, wt_number = 2\<rparr>)]\<rparr>) = Some q'
    \<and> om_find (waitTimesAvgStore q') 7 = Some wt' \<and> unat (wt_time wt') = 30"
  using UpdateWaitTimeAvg_average [of "empty_queue\<lparr>waitTimesAvgStore := [(7, \<lparr>wt_time = 20, wt_number = 2\<rparr>)]\<rparr>" 7 "\<lparr>wt_time = 20, wt_number = 2\<rparr>" 50]
  by (auto simp: om_find_def)

section \<open>A queue with five groups\<close>

text \<open>
  A tank (5) queued for dungeon 2; a group \<open>g1\<close> of a tank and a healer for dungeon 1; two groups \<open>g2\<close> and
  \<open>g3\<close> of three damage dealers for either dungeon; a damage dealer (6) for dungeon 1.
\<close>

definition g1 :: guid where "g1 = 0x1F50000000000001"
definition g2 :: guid where "g2 = 0x1F50000000000002"
definition g3 :: guid where "g3 = 0x1F50000000000003"

definition ex_queue :: lfg_queue where
  "ex_queue = AddQueueData ex_env 6 0 [1] [(6, 8)] (AddQueueData ex_env g3 0 [1, 2] [(31, 8), (32, 8), (33, 8)]
     (AddQueueData ex_env g2 0 [1, 2] [(21, 8), (22, 8), (23, 8)] (AddQueueData ex_env g1 0 [1] [(11, 2), (12, 4)]
     (AddQueueData ex_env 5 0 [2] [(5, 2)] empty_queue))))"

definition no_proposals :: lfg_shared where
  "no_proposals = \<lparr>m_lfgProposalId = 0, ProposalsStore = [], rand_pos = 0\<rparr>"

text \<open>
  One search can put a group into two proposals.  The group \<open>g1\<close> with either of \<open>g2\<close> and \<open>g3\<close> is a full
  group, but neither pair is found when \<open>g2\<close> and \<open>g3\<close> join, since the search with the tank 5 takes all
  groups from the list it shares with its caller; when the damage dealer 6 joins, the check of the
  groups other than the newest makes both proposals, one after the other, with \<open>g1\<close> in each, and reports
  that none was made.
\<close>

lemma FindGroups_double_booking:
  "(case FindGroups ex_env (ex_queue, no_proposals) of (n, q, sh) \<Rightarrow>
     (n, map (\<lambda>(i, p). pr_queues p) (ProposalsStore sh), currentQueueStore q)) = (0, [[g1, g2], [g1, g3]], [5, 6])"
  by code_simp

text \<open>The assumptions of the search theorems hold for this queue.\<close>

lemma bounded_storeI:
  assumes "\<And>i d. env_GetLFGDungeon e i = Some d \<Longrightarrow> GetMaxGroupSize d \<le> 100"
    and "list_all (\<lambda>(g, d). om_wf (qd_roles d) \<and> length (qd_roles d) \<le> 100) (QueueDataStore q)"
  shows "bounded e (offer e q)"
proof -
  have "om_wf (snd (offer e q g)) \<and> length (snd (offer e q g)) \<le> 100" for g
  proof (cases "om_find (QueueDataStore q) g")
    case None
    then have "offer e q g = ([], [])"
      using InitializeGroupSetup_keeps(1) [of e]
      by (simp add: offer_def queue_data_def default_LfgQueueData_def new_LfgQueueData_def) (simp add: data_offer_def)
    then show ?thesis by simp
  next
    case (Some d)
    then show ?thesis
      using assms(2) om_find_in [OF Some] by (auto simp: offer_def data_offer_def queue_data_def list_all_iff)
  qed
  then show ?thesis using assms(1) by (simp add: bounded_def)
qed

lemma ex_queue_bounded: "bounded ex_env (offer ex_env ex_queue)"
proof (rule bounded_storeI)
  fix i d assume "env_GetLFGDungeon ex_env i = Some d"
  then show "GetMaxGroupSize d \<le> 100"
    by (auto simp: ex_env_def five_man_def GetMaxGroupSize_def split: if_splits)
qed code_simp

theorem FindGroups_proposals_ok_witness:
  "\<exists>n q' ps r. FindGroups ex_env (ex_queue, no_proposals) = (n, q', (fold AddProposal ps no_proposals)\<lparr>rand_pos := r\<rparr>)
     \<and> list_all (proposal_ok ex_env (offer ex_env ex_queue)) ps \<and> ps \<noteq> []"
proof -
  obtain n q' sh' where run: "FindGroups ex_env (ex_queue, no_proposals) = (n, q', sh')" by (rule prod_cases3)
  have "ProposalsStore sh' \<noteq> []" using FindGroups_double_booking run by auto
  with FindGroups_proposals_ok [OF run ex_queue_bounded] run show ?thesis by (auto simp: no_proposals_def)
qed

theorem FindGroups_keeps_everyone_witness:
  "\<exists>n q' sh' ps. FindGroups ex_env (ex_queue, no_proposals) = (n, q', sh') \<and> newToQueueStore q' = []
     \<and> set (currentQueueStore q') = {5, g1, g2, g3, 6} - booked_groups ps \<and> currentQueueStore q' = [5, 6]"
proof -
  obtain n q' sh' where run: "FindGroups ex_env (ex_queue, no_proposals) = (n, q', sh')" by (rule prod_cases3)
  have lists: "newToQueueStore ex_queue = [5, g1, g2, g3, 6]" "currentQueueStore ex_queue = []" "CompatibleMapStore ex_queue = []"
    by code_simp+
  then have "queue_ready ex_env ex_queue"
    by (simp add: queue_ready_def no_flip_def unmatched_def GetCompatibles_def)
  moreover have "currentQueueStore q' = [5, 6]" using FindGroups_double_booking run by auto
  ultimately show ?thesis using FindGroups_keeps_everyone [OF run] run lists by auto
qed

section \<open>A match without a proposal\<close>

lemma stale_match:
  assumes "GetCompatibles (ConcatenateGuids check) q = LFG_COMPATIBLES_BAD_STATES" "AllQueued e check"
  shows "FindNewGroups_fuel n e check all (q, sh) = Some (LFG_COMPATIBLES_MATCH, all, SetCompatibles (ConcatenateGuids check) LFG_COMPATIBLES_MATCH q, sh)"
  using assms by (simp add: cached_or_checked_def)

lemma known_incompatible:
  assumes "GetCompatibles (ConcatenateGuids check) q = c" "c \<noteq> LFG_COMPATIBILITY_PENDING" "c < LFG_COMPATIBLES_WITH_LESS_PLAYERS"
  shows "FindNewGroups_fuel n e check all (q, sh) = Some (c, all, q, sh) \<and> c \<noteq> LFG_COMPATIBLES_MATCH"
  using assms by (cases c) (auto simp: cached_or_checked_def less_LfgCompatibility_def)

lemma match_loop_stale:
  assumes "GetCompatibles (ConcatenateGuids (check @ [h])) q = LFG_COMPATIBLES_BAD_STATES" "AllQueued e (check @ [h])"
  shows "\<forall>x\<in>set pre. GetCompatibles (ConcatenateGuids (check @ [x])) q \<noteq> LFG_COMPATIBILITY_PENDING
        \<and> GetCompatibles (ConcatenateGuids (check @ [x])) q < LFG_COMPATIBLES_WITH_LESS_PLAYERS \<Longrightarrow>
    match_loop (length (pre @ h # rest)) e check (pre @ h # rest) (q, sh) =
      Some (True, rest, SetCompatibles (ConcatenateGuids (check @ [h])) LFG_COMPATIBLES_MATCH q, sh)"
proof (induction pre)
  case Nil
  then show ?case using stale_match [OF assms] by simp
next
  case (Cons x pre)
  then show ?case using known_incompatible [of "check @ [x]" q _ "length (pre @ h # rest)" e "pre @ h # rest" sh] by simp
qed

text \<open>
  C38: a group is lost when a match with bad states is cached for it and a waiting group, and both are queued by now.
  If the cache says of the groups that wait before the other one that they do not fit, the search reports a match; but
  it makes no proposal, the new group is in neither list any more, and the other one goes on waiting.
\<close>

theorem FindGroups_loses_bad_states:
  assumes "newToQueueStore q = [g]" "currentQueueStore q = pre @ h # rest" "g \<notin> set (currentQueueStore q)"
    and "GetCompatibles (ConcatenateGuids [g]) q = LFG_COMPATIBLES_WITH_LESS_PLAYERS"
    and "\<forall>x\<in>set pre. GetCompatibles (ConcatenateGuids [g, x]) q \<noteq> LFG_COMPATIBILITY_PENDING
        \<and> GetCompatibles (ConcatenateGuids [g, x]) q < LFG_COMPATIBLES_WITH_LESS_PLAYERS"
    and "GetCompatibles (ConcatenateGuids [g, h]) q = LFG_COMPATIBLES_BAD_STATES" "AllQueued e [g, h]"
    and "FindGroups e (q, sh) = (n, q', sh')"
  shows "n = 1 \<and> sh' = sh \<and> newToQueueStore q' = [] \<and> currentQueueStore q' = currentQueueStore q \<and> g \<notin> set (currentQueueStore q')"
proof -
  let ?q1 = "RemoveFromNewQueue g q"
  let ?q2 = "SetCompatibles (ConcatenateGuids [g, h]) LFG_COMPATIBLES_MATCH ?q1"
  have cache: "GetCompatibles k ?q1 = GetCompatibles k q" for k
    by (simp add: GetCompatibles_def RemoveFromNewQueue_def)
  have "match_loop (length (pre @ h # rest)) e [g] (pre @ h # rest) (?q1, sh) = Some (True, rest, ?q2, sh)"
    using match_loop_stale [of "[g]" h ?q1 e pre rest sh] assms(5-7) by (simp add: cache)
  then have find: "FindNewGroups e [g] (pre @ h # rest) (?q1, sh) = (LFG_COMPATIBLES_MATCH, rest, ?q2, sh)"
    using assms(4) unfolding FindNewGroups_def by (simp add: cached_or_checked_def cache)
  have lists: "newToQueueStore ?q2 = []" "currentQueueStore ?q1 = pre @ h # rest" "currentQueueStore ?q2 = pre @ h # rest"
    using assms(1,2) by (simp_all add: RemoveFromNewQueue_def)
  then have "FindGroups e (q, sh) = (1, ?q2, sh)"
    using assms(1) find by (simp add: FindGroups_def FindGroups_loop.simps [of e 0 "(q, sh)"] FindGroups_loop.simps [of e 1 "(?q2, sh)"])
  then show ?thesis using assms(2,3,8) lists by auto
qed

text \<open>
  How the queue gets there: \<open>g2\<close> waits but is not in the state of a queued group when \<open>g1\<close> joins, so the match of the two
  is cached with bad states.  Then \<open>g3\<close> joins and is proposed with \<open>g1\<close>; it declines, which takes it from the queue and
  adds \<open>g1\<close> again, as \<^verbatim>\<open>RemoveProposal\<close> does, and by then \<open>g2\<close> is queued.
\<close>

definition busy_env :: lfg_env where
  "busy_env = ex_env\<lparr>env_GetState := \<lambda>g. if g = g2 then LFG_STATE_ROLECHECK else LFG_STATE_QUEUED\<rparr>"

definition searched :: "lfg_env \<Rightarrow> lfg_queue \<Rightarrow> lfg_queue" where
  "searched e q = fst (snd (FindGroups e (q, no_proposals)))"

definition stale_queue :: lfg_queue where
  "stale_queue =
     (let q = searched busy_env (AddQueueData busy_env g1 0 [1] [(11, 2), (12, 4)]
                (AddQueueData busy_env g2 0 [1] [(21, 8), (22, 8), (23, 8)] empty_queue));
          q = searched busy_env (AddQueueData busy_env g3 0 [1] [(31, 8), (32, 8), (33, 8)] q)
      in AddToQueue g1 (RemoveFromQueue busy_env g3 q))"

definition queue_view :: "guid list list \<Rightarrow> lfg_queue \<Rightarrow> guid list \<times> guid list \<times> LfgCompatibility list" where
  "queue_view keys q = (newToQueueStore q, currentQueueStore q, map (\<lambda>k. GetCompatibles (ConcatenateGuids k) q) keys)"

theorem FindGroups_loses_bad_states_witness:
  "\<exists>n q' sh'. FindGroups ex_env (stale_queue, no_proposals) = (n, q', sh') \<and> newToQueueStore stale_queue = [g1]
     \<and> ProposalsStore sh' = [] \<and> newToQueueStore q' = [] \<and> g1 \<notin> set (currentQueueStore q')"
proof -
  obtain n q' sh' where run: "FindGroups ex_env (stale_queue, no_proposals) = (n, q', sh')" by (rule prod_cases3)
  have "queue_view [[g1], [g1, g2]] stale_queue = ([g1], [g2], [LFG_COMPATIBLES_WITH_LESS_PLAYERS, LFG_COMPATIBLES_BAD_STATES])"
    by code_simp
  then have start: "newToQueueStore stale_queue = [g1]" "currentQueueStore stale_queue = [] @ g2 # []" "g1 \<notin> set (currentQueueStore stale_queue)"
    "GetCompatibles (ConcatenateGuids [g1]) stale_queue = LFG_COMPATIBLES_WITH_LESS_PLAYERS"
    and pair: "GetCompatibles (ConcatenateGuids [g1, g2]) stale_queue = LFG_COMPATIBLES_BAD_STATES" "AllQueued ex_env [g1, g2]"
    by (auto simp: queue_view_def g1_def g2_def AllQueued_def ex_env_def)
  from FindGroups_loses_bad_states [OF start _ pair run] start run show ?thesis by (auto simp: no_proposals_def)
qed

text \<open>
  GUIDs are searched for as digits anywhere in a key: when the player 1 leaves, the result for 12 and 34 is
  forgotten, and the best combination of the player 1 can be one of other players.
\<close>

theorem substring_matches:
  "GetCompatibles (ConcatenateGuids [12, 34])
     (RemoveFromCompatibles 1 (SetCompatibles (ConcatenateGuids [12, 34]) LFG_COMPATIBLES_WITH_LESS_PLAYERS empty_queue))
     = LFG_COMPATIBILITY_PENDING
   \<and> qd_bestCompatible (FindBestCompatibleInQueue ex_env
       (SetCompatibles (ConcatenateGuids [12, 34]) LFG_COMPATIBLES_WITH_LESS_PLAYERS empty_queue) 1
       (new_LfgQueueData ex_env 0 [1] [(1, 8)])) = ConcatenateGuids [12, 34]"
  by (intro conjI) code_simp+

end
