(* ===== verification/LfgData.thy ===== *)
theory LfgData
  imports LfgQueue Complex_Main
begin

text \<open>
  The data of the dungeon finder manager (\<^verbatim>\<open>src/server/game/DungeonFinding/LFGMgr.h\<close>, \<^verbatim>\<open>LFG.h\<close>,
  \<^verbatim>\<open>LFGPlayerData.cpp\<close>, \<^verbatim>\<open>LFGGroupData.cpp\<close>) and the accessors of \<^verbatim>\<open>LFGMgr.cpp\<close>.  The manager is the
  record \<open>lfg_mgr\<close> with the stores of the class; packets and calls to other objects are appended to its
  field \<open>mgr_out\<close>.  Players and groups of the world are the records \<open>lfg_char\<close> and \<open>lfg_group\<close>, what the
  manager asks of the rest of the server is the record \<open>mgr_env\<close>.  A player without an entry is read as
  the default entry; an entry of a group carries the time it was made, so reading makes it (\<open>touch_group\<close>).
  The dungeon store is unordered in the code; here it is kept by id, which shows nowhere, since only sets are built from it.
\<close>

section \<open>Enumerations and packet data\<close>

datatype LfgUpdateType = LFG_UPDATETYPE_DEFAULT | LFG_UPDATETYPE_LEADER_UNK1 | LFG_UPDATETYPE_ROLECHECK_ABORTED | LFG_UPDATETYPE_JOIN_QUEUE
  | LFG_UPDATETYPE_ROLECHECK_FAILED | LFG_UPDATETYPE_REMOVED_FROM_QUEUE | LFG_UPDATETYPE_PROPOSAL_FAILED
  | LFG_UPDATETYPE_PROPOSAL_DECLINED | LFG_UPDATETYPE_GROUP_FOUND | LFG_UPDATETYPE_ADDED_TO_QUEUE
  | LFG_UPDATETYPE_PROPOSAL_BEGIN | LFG_UPDATETYPE_UPDATE_STATUS | LFG_UPDATETYPE_GROUP_MEMBER_OFFLINE
  | LFG_UPDATETYPE_GROUP_DISBAND_UNK16 | LFG_UPDATETYPE_JOIN_QUEUE_INITIAL | LFG_UPDATETYPE_DUNGEON_FINISHED
  | LFG_UPDATETYPE_PARTY_ROLE_NOT_AVAILABLE | LFG_UPDATETYPE_JOIN_LFG_OBJECT_FAILED

datatype LfgLockStatusType = LFG_LOCKSTATUS_NONE | LFG_LOCKSTATUS_INSUFFICIENT_EXPANSION | LFG_LOCKSTATUS_TOO_LOW_LEVEL
  | LFG_LOCKSTATUS_TOO_HIGH_LEVEL | LFG_LOCKSTATUS_TOO_LOW_GEAR_SCORE | LFG_LOCKSTATUS_TOO_HIGH_GEAR_SCORE
  | LFG_LOCKSTATUS_RAID_LOCKED | LFG_LOCKSTATUS_ATTUNEMENT_TOO_LOW_LEVEL | LFG_LOCKSTATUS_ATTUNEMENT_TOO_HIGH_LEVEL
  | LFG_LOCKSTATUS_QUEST_NOT_COMPLETED | LFG_LOCKSTATUS_MISSING_ITEM | LFG_LOCKSTATUS_NOT_IN_SEASON
  | LFG_LOCKSTATUS_MISSING_ACHIEVEMENT

datatype LfgJoinResult = LFG_JOIN_OK | LFG_JOIN_FAILED | LFG_JOIN_GROUPFULL | LFG_JOIN_INTERNAL_ERROR | LFG_JOIN_NOT_MEET_REQS
  | LFG_JOIN_MIXED_RAID_DUNGEON | LFG_JOIN_MULTI_REALM | LFG_JOIN_DISCONNECTED | LFG_JOIN_PARTY_INFO_FAILED | LFG_JOIN_DUNGEON_INVALID | LFG_JOIN_DESERTER
  | LFG_JOIN_PARTY_DESERTER | LFG_JOIN_RANDOM_COOLDOWN | LFG_JOIN_PARTY_RANDOM_COOLDOWN | LFG_JOIN_TOO_MUCH_MEMBERS
  | LFG_JOIN_USING_BG_SYSTEM | LFG_JOIN_ROLE_CHECK_FAILED

datatype LfgRoleCheckState = LFG_ROLECHECK_DEFAULT | LFG_ROLECHECK_FINISHED | LFG_ROLECHECK_INITIALITING
  | LFG_ROLECHECK_MISSING_ROLE | LFG_ROLECHECK_WRONG_ROLES | LFG_ROLECHECK_ABORTED | LFG_ROLECHECK_NO_ROLE

definition LFG_TYPE_NONE :: u8 where "LFG_TYPE_NONE = 0"
definition LFG_TYPE_DUNGEON :: u8 where "LFG_TYPE_DUNGEON = 1"
definition LFG_TYPE_RAID :: u8 where "LFG_TYPE_RAID = 2"
definition LFG_TYPE_RANDOM :: u8 where "LFG_TYPE_RANDOM = 6"

definition LFG_OPTION_ENABLE_DUNGEON_FINDER :: u32 where "LFG_OPTION_ENABLE_DUNGEON_FINDER = 1"
definition LFG_OPTION_ENABLE_RAID_BROWSER :: u32 where "LFG_OPTION_ENABLE_RAID_BROWSER = 2"

definition LFG_TIME_ROLECHECK :: int where "LFG_TIME_ROLECHECK = 45"
definition LFG_TIME_BOOT :: int where "LFG_TIME_BOOT = 120"
definition LFG_QUEUEUPDATE_INTERVAL :: u32 where "LFG_QUEUEUPDATE_INTERVAL = 15000"
definition LFG_SPELL_DUNGEON_COOLDOWN :: u32 where "LFG_SPELL_DUNGEON_COOLDOWN = 71328"
definition LFG_SPELL_DUNGEON_DESERTER :: u32 where "LFG_SPELL_DUNGEON_DESERTER = 71041"
definition LFG_SPELL_LUCK_OF_THE_DRAW :: u32 where "LFG_SPELL_LUCK_OF_THE_DRAW = 72221"
definition LFG_GROUP_KICK_VOTES_NEEDED :: nat where "LFG_GROUP_KICK_VOTES_NEEDED = 3"
definition LFR_GROUP_KICK_VOTES_NEEDED :: nat where "LFR_GROUP_KICK_VOTES_NEEDED = 15"
definition LFG_GROUP_MAX_KICKS :: u8 where "LFG_GROUP_MAX_KICKS = 3"

definition VOTE_KICK_COOLDOWN :: int where "VOTE_KICK_COOLDOWN = 900"

record LockData =
  ld_locktyp :: LfgLockStatusType
  ld_neededItemlevel :: u32
  ld_averageItemlevel :: u32

type_synonym lock_map = "(u32, LockData) omap"
type_synonym lock_party_map = "(guid, lock_map) omap"

record LfgJoinResultData =
  jr_result :: LfgJoinResult
  jr_state :: LfgRoleCheckState
  jr_lockmap :: lock_party_map

record LfgUpdateData =
  ud_updateType :: LfgUpdateType
  ud_state :: LfgState
  ud_dungeons :: "u32 list"
  ud_comment :: string

definition update_data :: "LfgUpdateType \<Rightarrow> LfgUpdateData" where
  "update_data t = \<lparr>ud_updateType = t, ud_state = LFG_STATE_NONE, ud_dungeons = [], ud_comment = []\<rparr>"

definition update_data_with :: "LfgUpdateType \<Rightarrow> u32 list \<Rightarrow> string \<Rightarrow> LfgUpdateData" where
  "update_data_with t dungeons comment =
     \<lparr>ud_updateType = t, ud_state = LFG_STATE_NONE, ud_dungeons = dungeons, ud_comment = comment\<rparr>"

record LfgReward =
  rw_maxLevel :: u32
  rw_firstQuest :: u32
  rw_otherQuest :: u32

record LfgRoleCheck =
  rc_cancelTime :: int
  rc_roles :: roles_map
  rc_state :: LfgRoleCheckState
  rc_dungeons :: "u32 list"
  rc_rDungeonId :: u32
  rc_leader :: guid
  rc_isBeginning :: bool

record LfgPlayerBoot =
  bt_cancelTime :: int
  bt_inProgress :: bool
  bt_votes :: "(guid, LfgAnswer) omap"
  bt_victim :: guid
  bt_reason :: string

text \<open>\<^verbatim>\<open>LfgAnswer(accept)\<close>: the answers deny and agree are 0 and 1.\<close>

definition answer_of :: "bool \<Rightarrow> LfgAnswer" where
  "answer_of accept = (if accept then LFG_ANSWER_AGREE else LFG_ANSWER_DENY)"

section \<open>Data of a player\<close>

record LfgPlayerData =
  pd_State :: LfgState
  pd_OldState :: LfgState
  pd_Team :: u8
  pd_Group :: guid
  pd_Roles :: u8
  pd_Comment :: string
  pd_SelectedDungeons :: "u32 list"
  pd_LockedDungeons :: lock_map

definition new_LfgPlayerData :: LfgPlayerData where
  "new_LfgPlayerData = \<lparr>pd_State = LFG_STATE_NONE, pd_OldState = LFG_STATE_NONE, pd_Team = 0, pd_Group = 0, pd_Roles = 0,
     pd_Comment = [], pd_SelectedDungeons = [], pd_LockedDungeons = []\<rparr>"

text \<open>The cases fall through: what a state clears, what it remembers, and the state itself.\<close>

definition player_SetState :: "LfgState \<Rightarrow> LfgPlayerData \<Rightarrow> LfgPlayerData" where
  "player_SetState state d =
     (let d = (if state = LFG_STATE_NONE \<or> state = LFG_STATE_FINISHED_DUNGEON
               then d\<lparr>pd_Roles := 0, pd_SelectedDungeons := [], pd_Comment := []\<rparr> else d);
          d = (if state = LFG_STATE_NONE \<or> state = LFG_STATE_FINISHED_DUNGEON \<or> state = LFG_STATE_DUNGEON
               then d\<lparr>pd_OldState := state\<rparr> else d)
      in d\<lparr>pd_State := state\<rparr>)"

definition player_RestoreState :: "LfgPlayerData \<Rightarrow> LfgPlayerData" where
  "player_RestoreState d =
     (let d = (if pd_OldState d = LFG_STATE_NONE then d\<lparr>pd_SelectedDungeons := [], pd_Roles := 0\<rparr> else d)
      in d\<lparr>pd_State := pd_OldState d\<rparr>)"

section \<open>Data of a group\<close>

record LfgGroupData =
  gd_State :: LfgState
  gd_OldState :: LfgState
  gd_Leader :: guid
  gd_Players :: "guid list"
  gd_Dungeon :: u32
  gd_KicksLeft :: u8
  gd_VoteKickActive :: bool
  gd_VoteKickCooldown :: u32

definition new_LfgGroupData :: "int \<Rightarrow> LfgGroupData" where
  "new_LfgGroupData now = \<lparr>gd_State = LFG_STATE_NONE, gd_OldState = LFG_STATE_NONE, gd_Leader = 0, gd_Players = [],
     gd_Dungeon = 0, gd_KicksLeft = LFG_GROUP_MAX_KICKS, gd_VoteKickActive = False,
     gd_VoteKickCooldown = word_of_int (now + VOTE_KICK_COOLDOWN)\<rparr>"

definition group_SetState :: "LfgState \<Rightarrow> LfgGroupData \<Rightarrow> LfgGroupData" where
  "group_SetState state d =
     (let d = (if state = LFG_STATE_NONE then d\<lparr>gd_Dungeon := 0, gd_KicksLeft := LFG_GROUP_MAX_KICKS\<rparr> else d);
          d = (if state = LFG_STATE_NONE \<or> state = LFG_STATE_FINISHED_DUNGEON \<or> state = LFG_STATE_DUNGEON
               then d\<lparr>gd_OldState := state\<rparr> else d)
      in d\<lparr>gd_State := state\<rparr>)"

definition group_RestoreState :: "LfgGroupData \<Rightarrow> LfgGroupData" where
  "group_RestoreState d = d\<lparr>gd_State := gd_OldState d\<rparr>"

definition group_IsLfgGroup :: "LfgGroupData \<Rightarrow> bool" where
  "group_IsLfgGroup d \<longleftrightarrow> gd_OldState d \<noteq> LFG_STATE_NONE"

text \<open>\<^verbatim>\<open>std::set\<close> as a sorted list without duplicates.\<close>

definition group_AddPlayer :: "guid \<Rightarrow> LfgGroupData \<Rightarrow> LfgGroupData" where
  "group_AddPlayer guid d = d\<lparr>gd_Players := insort_insert guid (gd_Players d)\<rparr>"

definition group_RemovePlayer :: "guid \<Rightarrow> LfgGroupData \<Rightarrow> LfgGroupData" where
  "group_RemovePlayer guid d = d\<lparr>gd_Players := remove1 guid (gd_Players d)\<rparr>"

definition group_GetPlayerCount :: "LfgGroupData \<Rightarrow> u8" where
  "group_GetPlayerCount d = of_nat (length (gd_Players d))"

definition group_GetDungeon :: "bool \<Rightarrow> LfgGroupData \<Rightarrow> u32" where
  "group_GetDungeon asId d = (if asId then gd_Dungeon d AND 0x00FFFFFF else gd_Dungeon d)"

definition group_DecreaseKicksLeft :: "LfgGroupData \<Rightarrow> LfgGroupData" where
  "group_DecreaseKicksLeft d = (if gd_KicksLeft d \<noteq> 0 then d\<lparr>gd_KicksLeft := gd_KicksLeft d - 1\<rparr> else d)"

lemmas lfg_data_defs = player_SetState_def player_RestoreState_def group_SetState_def group_RestoreState_def
  group_AddPlayer_def group_RemovePlayer_def group_DecreaseKicksLeft_def

section \<open>The world\<close>

record lfg_char =
  ch_guid :: guid
  ch_InBattleground :: bool
  ch_InArena :: bool
  ch_InBattlegroundQueue :: bool
  ch_InSoloQueue :: bool
  ch_HasAura :: "u32 \<Rightarrow> bool"
  ch_HasIgnore :: "u32 \<Rightarrow> bool"
  ch_IsInWorld :: bool
  ch_MapId :: u32
  ch_MapIsDungeon :: bool
  ch_MapDifficulty :: u32
  ch_level :: u8
  ch_Expansion :: u8
  ch_Team :: u32
  ch_AverageItemLevel :: rat
  ch_BoundInstance :: "u16 \<Rightarrow> u32 \<Rightarrow> bool \<Rightarrow> bool"
  ch_HasAchieved :: "u32 \<Rightarrow> bool"
  ch_QuestRewardStatus :: "u32 \<Rightarrow> bool"
  ch_HasItem :: "u32 \<Rightarrow> bool"
  ch_CanRewardQuest :: "u32 \<Rightarrow> bool"
  ch_ValorOnWeek :: u32
  ch_CallToArmsTempRoles :: u8
  ch_Disconnected :: bool

record lfg_group =
  gr_guid :: guid
  gr_leader :: guid
  gr_members :: "lfg_char option list"
  gr_MembersCount :: u32
  gr_isLFG :: bool
  gr_isLFR :: bool
  gr_LfgRoles :: "guid \<Rightarrow> u8"

record AccessRequirement =
  ar_item :: u32
  ar_item2 :: u32
  ar_quest_A :: u32
  ar_quest_H :: u32
  ar_achievement :: u32

record mgr_env =
  me_FindPlayer :: "guid \<Rightarrow> lfg_char option"
  me_GetGroupByGUID :: "u32 \<Rightarrow> lfg_group option"
  me_PlayerGroup :: "guid \<Rightarrow> lfg_group option"
  me_now :: int
  me_BRandom :: "nat \<Rightarrow> u32"
  me_HasQuest :: "u32 \<Rightarrow> bool"
  me_TwoSideGroup :: bool
  me_TwoSideLfg :: bool
  me_MaxPlayerLevel :: u32
  me_HolidayActive :: "u32 \<Rightarrow> bool"
  me_MapDisabled :: "u16 \<Rightarrow> guid \<Rightarrow> u32 \<Rightarrow> bool"
  me_AccessRequirement :: "u16 \<Rightarrow> u32 \<Rightarrow> AccessRequirement option"

text \<open>What the manager sends to a player's session, and what it asks other objects to do.\<close>

datatype lfg_out =
    SendRoleChosen guid guid u8
  | SendRoleCheckUpdate guid LfgRoleCheck
  | SendUpdateStatus guid LfgUpdateData bool
  | SendJoinResult guid LfgJoinResultData
  | SendBootProposalUpdate guid LfgPlayerBoot
  | SendUpdateProposal guid LfgProposal
  | SendQueueStatus guid LfgQueueStatusData
  | SendPlayerReward guid u32 u32 bool u32
  | SendOfferContinue guid u32
  | SendLfrList guid bool
  | SendKickReasonNeeded guid guid
  | SendNameQuery guid guid
  | MakeNewGroup LfgProposal
  | KickFromGroup guid guid
  | RewardQuest guid u32
  | UpdateLfdCriteria guid
  | ClearCallToArmsRoles guid
  | CastSpell guid u32
  | RemoveAuras guid u32
  | TeleportOut guid
  | TeleportHome guid

section \<open>The manager\<close>

record lfg_mgr =
  QueuesStore :: "(u8, lfg_queue) omap"
  CachedDungeonMapStore :: "(u8, u32 list) omap"
  RewardMapStore :: "(u32 \<times> LfgReward) list"
  LfgDungeonStore :: "(u32, LFGDungeonData) omap"
  RoleChecksStore :: "(guid, LfgRoleCheck) omap"
  BootsStore :: "(guid, LfgPlayerBoot) omap"
  PlayersStore :: "(guid, LfgPlayerData) omap"
  GroupsStore :: "(guid, LfgGroupData) omap"
  shared :: lfg_shared
  m_QueueTimer :: u32
  m_options :: u32
  callToArmsRoles :: u8
  mgr_out :: "lfg_out list"

definition new_LFGQueue :: lfg_queue where
  "new_LFGQueue = \<lparr>QueueDataStore = [], CompatibleMapStore = [], waitTimesAvgStore = [], waitTimesTankStore = [],
     waitTimesHealerStore = [], waitTimesDpsStore = [], currentQueueStore = [], newToQueueStore = []\<rparr>"

definition new_LFGMgr :: "u32 \<Rightarrow> lfg_mgr" where
  "new_LFGMgr options = \<lparr>QueuesStore = [], CachedDungeonMapStore = [], RewardMapStore = [], LfgDungeonStore = [],
     RoleChecksStore = [], BootsStore = [], PlayersStore = [], GroupsStore = [],
     shared = \<lparr>m_lfgProposalId = 1, ProposalsStore = [], rand_pos = 0\<rparr>, m_QueueTimer = 0, m_options = options,
     callToArmsRoles = PLAYER_ROLE_TANK OR PLAYER_ROLE_HEALER, mgr_out = []\<rparr>"

definition emit :: "lfg_out \<Rightarrow> lfg_mgr \<Rightarrow> lfg_mgr" where
  "emit x m = m\<lparr>mgr_out := mgr_out m @ [x]\<rparr>"

text \<open>The \<^verbatim>\<open>SendLfg...\<close> functions of the manager reach a player only if \<^verbatim>\<open>FindPlayer\<close> finds one.\<close>

definition send_to :: "mgr_env \<Rightarrow> guid \<Rightarrow> lfg_out \<Rightarrow> lfg_mgr \<Rightarrow> lfg_mgr" where
  "send_to e guid x m = (case me_FindPlayer e guid of None \<Rightarrow> m | Some _ \<Rightarrow> emit x m)"

subsection \<open>Entries\<close>

definition player_data :: "lfg_mgr \<Rightarrow> guid \<Rightarrow> LfgPlayerData" where
  "player_data m guid = (case om_find (PlayersStore m) guid of None \<Rightarrow> new_LfgPlayerData | Some d \<Rightarrow> d)"

definition on_player :: "guid \<Rightarrow> (LfgPlayerData \<Rightarrow> LfgPlayerData) \<Rightarrow> lfg_mgr \<Rightarrow> lfg_mgr" where
  "on_player guid f m = m\<lparr>PlayersStore := om_modify new_LfgPlayerData guid f (PlayersStore m)\<rparr>"

definition group_data :: "mgr_env \<Rightarrow> lfg_mgr \<Rightarrow> guid \<Rightarrow> LfgGroupData" where
  "group_data e m guid = (case om_find (GroupsStore m) guid of None \<Rightarrow> new_LfgGroupData (me_now e) | Some d \<Rightarrow> d)"

definition on_group :: "mgr_env \<Rightarrow> guid \<Rightarrow> (LfgGroupData \<Rightarrow> LfgGroupData) \<Rightarrow> lfg_mgr \<Rightarrow> lfg_mgr" where
  "on_group e guid f m = m\<lparr>GroupsStore := om_modify (new_LfgGroupData (me_now e)) guid f (GroupsStore m)\<rparr>"

definition touch_group :: "mgr_env \<Rightarrow> guid \<Rightarrow> lfg_mgr \<Rightarrow> lfg_mgr" where
  "touch_group e guid m = on_group e guid id m"

text \<open>The entry a state is read from.\<close>

definition touch_entry :: "mgr_env \<Rightarrow> guid \<Rightarrow> lfg_mgr \<Rightarrow> lfg_mgr" where
  "touch_entry e guid m = (if IS_GROUP_GUID guid then touch_group e guid m else on_player guid id m)"

subsection \<open>Accessors\<close>

definition GetState :: "mgr_env \<Rightarrow> lfg_mgr \<Rightarrow> guid \<Rightarrow> LfgState" where
  "GetState e m guid = (if IS_GROUP_GUID guid then gd_State (group_data e m guid) else pd_State (player_data m guid))"

definition GetOldState :: "mgr_env \<Rightarrow> lfg_mgr \<Rightarrow> guid \<Rightarrow> LfgState" where
  "GetOldState e m guid = (if IS_GROUP_GUID guid then gd_OldState (group_data e m guid) else pd_OldState (player_data m guid))"

definition SetState :: "mgr_env \<Rightarrow> guid \<Rightarrow> LfgState \<Rightarrow> lfg_mgr \<Rightarrow> lfg_mgr" where
  "SetState e guid state m =
     (if IS_GROUP_GUID guid then on_group e guid (group_SetState state) m else on_player guid (player_SetState state) m)"

definition RestoreState :: "mgr_env \<Rightarrow> guid \<Rightarrow> lfg_mgr \<Rightarrow> lfg_mgr" where
  "RestoreState e guid m =
     (if IS_GROUP_GUID guid then on_group e guid group_RestoreState m else on_player guid player_RestoreState m)"

definition GetDungeon :: "mgr_env \<Rightarrow> lfg_mgr \<Rightarrow> bool \<Rightarrow> guid \<Rightarrow> u32" where
  "GetDungeon e m asId guid = group_GetDungeon asId (group_data e m guid)"

definition SetDungeon :: "mgr_env \<Rightarrow> guid \<Rightarrow> u32 \<Rightarrow> lfg_mgr \<Rightarrow> lfg_mgr" where
  "SetDungeon e guid dungeon m = on_group e guid (gd_Dungeon_update (\<lambda>_. dungeon)) m"

definition SetVoteKick :: "mgr_env \<Rightarrow> guid \<Rightarrow> bool \<Rightarrow> lfg_mgr \<Rightarrow> lfg_mgr" where
  "SetVoteKick e gguid active m = on_group e gguid (gd_VoteKickActive_update (\<lambda>_. active)) m"

definition IsVoteKickActive :: "mgr_env \<Rightarrow> lfg_mgr \<Rightarrow> guid \<Rightarrow> bool" where
  "IsVoteKickActive e m gguid = gd_VoteKickActive (group_data e m gguid)"

definition SetVoteKickCooldown :: "mgr_env \<Rightarrow> guid \<Rightarrow> u32 \<Rightarrow> lfg_mgr \<Rightarrow> lfg_mgr" where
  "SetVoteKickCooldown e guid t m = on_group e guid (gd_VoteKickCooldown_update (\<lambda>_. t)) m"

definition IsKickCooldownActive :: "mgr_env \<Rightarrow> lfg_mgr \<Rightarrow> guid \<Rightarrow> bool" where
  "IsKickCooldownActive e m gguid \<longleftrightarrow> uint (gd_VoteKickCooldown (group_data e m gguid)) > me_now e"

definition DecreaseKicksLeft :: "mgr_env \<Rightarrow> guid \<Rightarrow> lfg_mgr \<Rightarrow> lfg_mgr" where
  "DecreaseKicksLeft e guid m = on_group e guid group_DecreaseKicksLeft m"

definition GetKicksLeft :: "mgr_env \<Rightarrow> lfg_mgr \<Rightarrow> guid \<Rightarrow> u8" where
  "GetKicksLeft e m guid = gd_KicksLeft (group_data e m guid)"

definition GetRoles :: "lfg_mgr \<Rightarrow> guid \<Rightarrow> u8" where
  "GetRoles m guid = pd_Roles (player_data m guid)"

definition SetRoles :: "guid \<Rightarrow> u8 \<Rightarrow> lfg_mgr \<Rightarrow> lfg_mgr" where
  "SetRoles guid roles m = on_player guid (pd_Roles_update (\<lambda>_. roles)) m"

definition GetComment :: "lfg_mgr \<Rightarrow> guid \<Rightarrow> string" where
  "GetComment m guid = pd_Comment (player_data m guid)"

definition SetComment :: "guid \<Rightarrow> string \<Rightarrow> lfg_mgr \<Rightarrow> lfg_mgr" where
  "SetComment guid comment m = on_player guid (pd_Comment_update (\<lambda>_. comment)) m"

definition GetSelectedDungeons :: "lfg_mgr \<Rightarrow> guid \<Rightarrow> u32 list" where
  "GetSelectedDungeons m guid = pd_SelectedDungeons (player_data m guid)"

definition SetSelectedDungeons :: "guid \<Rightarrow> u32 list \<Rightarrow> lfg_mgr \<Rightarrow> lfg_mgr" where
  "SetSelectedDungeons guid dungeons m = on_player guid (pd_SelectedDungeons_update (\<lambda>_. dungeons)) m"

definition GetLockedDungeons :: "lfg_mgr \<Rightarrow> guid \<Rightarrow> lock_map" where
  "GetLockedDungeons m guid = pd_LockedDungeons (player_data m guid)"

definition SetLockedDungeons :: "guid \<Rightarrow> lock_map \<Rightarrow> lfg_mgr \<Rightarrow> lfg_mgr" where
  "SetLockedDungeons guid lock m = on_player guid (pd_LockedDungeons_update (\<lambda>_. lock)) m"

definition GetTeam :: "lfg_mgr \<Rightarrow> guid \<Rightarrow> u8" where
  "GetTeam m guid = pd_Team (player_data m guid)"

definition SetTeam :: "mgr_env \<Rightarrow> guid \<Rightarrow> u8 \<Rightarrow> lfg_mgr \<Rightarrow> lfg_mgr" where
  "SetTeam e guid team m =
     (let team = (if me_TwoSideGroup e \<or> me_TwoSideLfg e then 0 else team) in on_player guid (pd_Team_update (\<lambda>_. team)) m)"

definition GetGroup :: "lfg_mgr \<Rightarrow> guid \<Rightarrow> guid" where
  "GetGroup m guid = pd_Group (player_data m guid)"

definition SetGroup :: "guid \<Rightarrow> guid \<Rightarrow> lfg_mgr \<Rightarrow> lfg_mgr" where
  "SetGroup guid grp m = on_player guid (pd_Group_update (\<lambda>_. grp)) m"

definition GetPlayers :: "mgr_env \<Rightarrow> lfg_mgr \<Rightarrow> guid \<Rightarrow> guid list" where
  "GetPlayers e m guid = gd_Players (group_data e m guid)"

definition GetPlayerCount :: "mgr_env \<Rightarrow> lfg_mgr \<Rightarrow> guid \<Rightarrow> u8" where
  "GetPlayerCount e m guid = group_GetPlayerCount (group_data e m guid)"

definition GetLeader :: "mgr_env \<Rightarrow> lfg_mgr \<Rightarrow> guid \<Rightarrow> guid" where
  "GetLeader e m guid = gd_Leader (group_data e m guid)"

definition SetLeader :: "mgr_env \<Rightarrow> guid \<Rightarrow> guid \<Rightarrow> lfg_mgr \<Rightarrow> lfg_mgr" where
  "SetLeader e gguid leader m = on_group e gguid (gd_Leader_update (\<lambda>_. leader)) m"

definition AddPlayerToGroup :: "mgr_env \<Rightarrow> guid \<Rightarrow> guid \<Rightarrow> lfg_mgr \<Rightarrow> lfg_mgr" where
  "AddPlayerToGroup e gguid guid m = on_group e gguid (group_AddPlayer guid) m"

text \<open>The number of players left, and the new state.\<close>

definition RemovePlayerFromGroup :: "mgr_env \<Rightarrow> guid \<Rightarrow> guid \<Rightarrow> lfg_mgr \<Rightarrow> u8 \<times> lfg_mgr" where
  "RemovePlayerFromGroup e gguid guid m =
     (let m = on_group e gguid (group_RemovePlayer guid) m in (GetPlayerCount e m gguid, m))"

definition IsLfgGroup :: "mgr_env \<Rightarrow> lfg_mgr \<Rightarrow> guid \<Rightarrow> bool" where
  "IsLfgGroup e m guid \<longleftrightarrow> guid \<noteq> 0 \<and> IS_GROUP_GUID guid \<and> group_IsLfgGroup (group_data e m guid)"

definition isOptionEnabled :: "lfg_mgr \<Rightarrow> u32 \<Rightarrow> bool" where
  "isOptionEnabled m option \<longleftrightarrow> m_options m AND option \<noteq> 0"

definition lfg_enabled :: "lfg_mgr \<Rightarrow> bool" where
  "lfg_enabled m \<longleftrightarrow> isOptionEnabled m (LFG_OPTION_ENABLE_DUNGEON_FINDER OR LFG_OPTION_ENABLE_RAID_BROWSER)"

subsection \<open>Queues\<close>

definition GetQueueId :: "mgr_env \<Rightarrow> lfg_mgr \<Rightarrow> guid \<Rightarrow> u8" where
  "GetQueueId e m guid =
     (if IS_GROUP_GUID guid then
        (case GetPlayers e m guid of
           [] \<Rightarrow> GetTeam m guid
         | pguid # _ \<Rightarrow> if pguid \<noteq> 0 then GetTeam m pguid else GetTeam m guid)
      else GetTeam m guid)"

text \<open>What a queue asks of the manager.\<close>

definition queue_env :: "mgr_env \<Rightarrow> lfg_mgr \<Rightarrow> lfg_env" where
  "queue_env e m = \<lparr>env_GetLFGDungeon = om_find (LfgDungeonStore m), env_IsLfgGroup = IsLfgGroup e m,
     env_online = (\<lambda>g. me_FindPlayer e g \<noteq> None),
     env_ignores = (\<lambda>g low. case me_FindPlayer e g of None \<Rightarrow> False | Some p \<Rightarrow> ch_HasIgnore p low),
     env_GetState = GetState e m, env_GetOldState = GetOldState e m, env_GetPlayerCount = GetPlayerCount e m,
     env_GetRoles = GetRoles m, env_now = me_now e, env_BRandom = me_BRandom e\<rparr>"

text \<open>\<^verbatim>\<open>QueuesStore[queueId]\<close>: a missing queue is made on access.\<close>

definition queue_of :: "lfg_mgr \<Rightarrow> u8 \<Rightarrow> lfg_queue" where
  "queue_of m queueId = (case om_find (QueuesStore m) queueId of None \<Rightarrow> new_LFGQueue | Some q \<Rightarrow> q)"

definition on_queue :: "u8 \<Rightarrow> (lfg_queue \<Rightarrow> lfg_queue) \<Rightarrow> lfg_mgr \<Rightarrow> lfg_mgr" where
  "on_queue queueId f m = m\<lparr>QueuesStore := om_modify new_LFGQueue queueId f (QueuesStore m)\<rparr>"

definition GetQueueJoinTime :: "mgr_env \<Rightarrow> lfg_mgr \<Rightarrow> guid \<Rightarrow> int" where
  "GetQueueJoinTime e m guid = (case om_find (QueuesStore m) (GetQueueId e m guid) of None \<Rightarrow> 0 | Some q \<Rightarrow> GetJoinTime guid q)"

subsection \<open>Dungeons\<close>

definition GetLFGDungeon :: "lfg_mgr \<Rightarrow> u32 \<Rightarrow> LFGDungeonData option" where
  "GetLFGDungeon m dungeonId = om_find (LfgDungeonStore m) dungeonId"

definition GetDungeonType :: "lfg_mgr \<Rightarrow> u32 \<Rightarrow> u8" where
  "GetDungeonType m dungeonId = (case GetLFGDungeon m dungeonId of None \<Rightarrow> LFG_TYPE_NONE | Some d \<Rightarrow> dg_type d)"

definition GetDungeonsByRandom :: "lfg_mgr \<Rightarrow> u32 \<Rightarrow> u32 list" where
  "GetDungeonsByRandom m randomdungeon =
     (let grp = (case GetLFGDungeon m randomdungeon of None \<Rightarrow> 0 | Some d \<Rightarrow> dg_group d)
      in case om_find (CachedDungeonMapStore m) grp of None \<Rightarrow> [] | Some ds \<Rightarrow> ds)"

definition GetLFGDungeonEntry :: "lfg_mgr \<Rightarrow> u32 \<Rightarrow> u32" where
  "GetLFGDungeonEntry m dungeonId =
     (if dungeonId = 0 then 0 else case GetLFGDungeon m dungeonId of None \<Rightarrow> 0 | Some d \<Rightarrow> dg_Entry d)"

definition GetDungeonMapId :: "mgr_env \<Rightarrow> lfg_mgr \<Rightarrow> guid \<Rightarrow> u32" where
  "GetDungeonMapId e m guid =
     (let dungeonId = GetDungeon e m True guid
      in if dungeonId = 0 then 0 else case GetLFGDungeon m dungeonId of None \<Rightarrow> 0 | Some d \<Rightarrow> ucast (dg_map d))"

end
