(* ===== verification/LfgMgr.thy ===== *)
theory LfgMgr
  imports LfgData
begin

text \<open>
  The operations of the dungeon finder manager (\<^verbatim>\<open>src/server/game/DungeonFinding/LFGMgr.cpp\<close>): joining and
  leaving, the role check, proposals, votes to kick a player, and the periodic update.  The formation of a
  group out of an accepted proposal is done by the group code of the server; here it is the output
  \<open>MakeNewGroup\<close>, and what it does to the manager are the operations \<open>group_created\<close>, \<open>group_formed\<close> and the
  callbacks of the theory \<open>LfgScripts\<close>.  In the same way a kick is the output \<open>KickFromGroup\<close>, and what the group code
  then calls is a step of its own.  One call reads the clock once.
\<close>

section \<open>Role check\<close>

definition set_rolecheck :: "guid \<Rightarrow> LfgRoleCheck \<Rightarrow> lfg_mgr \<Rightarrow> lfg_mgr" where
  "set_rolecheck gguid rc m = m\<lparr>RoleChecksStore := om_set gguid rc (RoleChecksStore m)\<rparr>"

definition erase_rolecheck :: "guid \<Rightarrow> lfg_mgr \<Rightarrow> lfg_mgr" where
  "erase_rolecheck gguid m = m\<lparr>RoleChecksStore := om_erase gguid (RoleChecksStore m)\<rparr>"

definition rolecheck_dungeons :: "LfgRoleCheck \<Rightarrow> u32 list" where
  "rolecheck_dungeons rc = (if rc_rDungeonId rc \<noteq> 0 then [rc_rDungeonId rc] else rc_dungeons rc)"

text \<open>The answer of a player, and the state of the role check after it.\<close>

definition answer_rolecheck :: "lfg_mgr \<Rightarrow> guid \<Rightarrow> u8 \<Rightarrow> LfgRoleCheck \<Rightarrow> LfgRoleCheck" where
  "answer_rolecheck m guid roles rc =
     (if guid = 0 then rc\<lparr>rc_state := LFG_ROLECHECK_ABORTED\<rparr>
      else if roles < PLAYER_ROLE_TANK then rc\<lparr>rc_state := LFG_ROLECHECK_NO_ROLE\<rparr>
      else
        let rc = rc\<lparr>rc_roles := om_set guid roles (rc_roles rc)\<rparr> in
        if list_all (\<lambda>x. snd x \<noteq> PLAYER_ROLE_NONE) (rc_roles rc) then
          let dungeon = (case rolecheck_dungeons rc of [] \<Rightarrow> None | d # _ \<Rightarrow> GetLFGDungeon m d);
              ok = (case dungeon of None \<Rightarrow> False | Some d \<Rightarrow> fst (CheckGroupRoles (rc_roles rc) d))
          in rc\<lparr>rc_state := if ok then LFG_ROLECHECK_FINISHED else LFG_ROLECHECK_WRONG_ROLES\<rparr>
        else rc)"

definition rolecheck_result :: "LfgRoleCheckState \<Rightarrow> LfgJoinResultData" where
  "rolecheck_result state =
     \<lparr>jr_result = if state = LFG_ROLECHECK_MISSING_ROLE \<or> state = LFG_ROLECHECK_WRONG_ROLES
                  then LFG_JOIN_ROLE_CHECK_FAILED else LFG_JOIN_FAILED,
      jr_state = state, jr_lockmap = []\<rparr>"

text \<open>What one player of the group is told, and what becomes of the state of the player.\<close>

definition rolecheck_player :: "mgr_env \<Rightarrow> LfgRoleCheck \<Rightarrow> guid \<Rightarrow> u8 \<Rightarrow> bool \<Rightarrow> guid \<times> u8 \<Rightarrow> lfg_mgr \<Rightarrow> lfg_mgr" where
  "rolecheck_player e rc guid roles sendRoleChosen x m =
     (let pguid = fst x;
          m = (if sendRoleChosen \<and> guid \<noteq> rc_leader rc then send_to e pguid (SendRoleChosen pguid guid roles) m else m);
          m = send_to e pguid (SendRoleCheckUpdate pguid rc) m
      in case rc_state rc of
           LFG_ROLECHECK_INITIALITING \<Rightarrow> m
         | LFG_ROLECHECK_FINISHED \<Rightarrow>
             let m = SetRoles pguid (snd x) (SetState e pguid LFG_STATE_QUEUED m)
             in send_to e pguid (SendUpdateStatus pguid
                  (update_data_with LFG_UPDATETYPE_ADDED_TO_QUEUE (rolecheck_dungeons rc) (GetComment m pguid)) True) m
         | _ \<Rightarrow>
             let m = (if rc_leader rc = pguid then send_to e pguid (SendJoinResult pguid (rolecheck_result (rc_state rc))) m else m);
                 m = send_to e pguid (SendUpdateStatus pguid (update_data LFG_UPDATETYPE_ROLECHECK_FAILED) True) m
             in RestoreState e pguid m)"

definition UpdateRoleCheck :: "mgr_env \<Rightarrow> guid \<Rightarrow> guid \<Rightarrow> u8 \<Rightarrow> lfg_mgr \<Rightarrow> lfg_mgr" where
  "UpdateRoleCheck e gguid guid roles m =
     (if gguid = 0 then m else
      case om_find (RoleChecksStore m) gguid of
        None \<Rightarrow> m
      | Some rc0 \<Rightarrow>
          let sendRoleChosen = (rc_state rc0 \<noteq> LFG_ROLECHECK_DEFAULT \<and> guid \<noteq> 0);
              rc = answer_rolecheck m guid roles rc0;
              m = set_rolecheck gguid rc m;
              m = fold (rolecheck_player e rc guid roles sendRoleChosen) (rc_roles rc) m;
              m = set_rolecheck gguid (rc\<lparr>rc_isBeginning := False\<rparr>) m
          in if rc_state rc = LFG_ROLECHECK_FINISHED then
               let m = SetState e gguid LFG_STATE_QUEUED m;
                   m = on_queue (GetQueueId e m gguid)
                         (AddQueueData (queue_env e m) gguid (me_now e) (rc_dungeons rc) (rc_roles rc)) m
               in erase_rolecheck gguid m
             else if rc_state rc \<noteq> LFG_ROLECHECK_INITIALITING then
               erase_rolecheck gguid (RestoreState e gguid m)
             else m)"

section \<open>Proposals\<close>

definition set_proposal :: "u32 \<Rightarrow> LfgProposal \<Rightarrow> lfg_mgr \<Rightarrow> lfg_mgr" where
  "set_proposal pid p m = m\<lparr>shared := (shared m)\<lparr>ProposalsStore := om_set pid p (ProposalsStore (shared m))\<rparr>\<rparr>"

definition erase_proposal :: "u32 \<Rightarrow> lfg_mgr \<Rightarrow> lfg_mgr" where
  "erase_proposal pid m = m\<lparr>shared := (shared m)\<lparr>ProposalsStore := om_erase pid (ProposalsStore (shared m))\<rparr>\<rparr>"

text \<open>The group a player queued with, or the player.\<close>

definition queued_as :: "guid \<times> LfgProposalPlayer \<Rightarrow> guid" where
  "queued_as x = (if pp_group (snd x) \<noteq> 0 then pp_group (snd x) else fst x)"

definition deny_unanswered :: "LfgUpdateType \<Rightarrow> guid \<times> LfgProposalPlayer \<Rightarrow> guid \<times> LfgProposalPlayer" where
  "deny_unanswered ty x =
     (if ty = LFG_UPDATETYPE_PROPOSAL_FAILED \<and> pp_accept (snd x) = LFG_ANSWER_PENDING
      then (fst x, (snd x)\<lparr>pp_accept := LFG_ANSWER_DENY\<rparr>) else x)"

definition refuses :: "LfgUpdateType \<Rightarrow> LfgProposalPlayer \<Rightarrow> bool" where
  "refuses ty p \<longleftrightarrow> pp_accept p \<noteq> LFG_ANSWER_AGREE \<and> (pp_accept p = LFG_ANSWER_DENY \<or> ty = LFG_UPDATETYPE_PROPOSAL_FAILED)"

definition mark_refusal :: "LfgUpdateType \<Rightarrow> guid \<times> LfgProposalPlayer \<Rightarrow> guid \<times> LfgProposalPlayer" where
  "mark_refusal ty x = (if refuses ty (snd x) then (fst x, (snd x)\<lparr>pp_accept := LFG_ANSWER_DENY\<rparr>) else x)"

definition to_remove :: "LfgUpdateType \<Rightarrow> (guid, LfgProposalPlayer) omap \<Rightarrow> guid list" where
  "to_remove ty players = fold (\<lambda>x s. if refuses ty (snd x) then insort_insert (queued_as x) s else s) players []"

text \<open>One player of a failed proposal: back to the state before, or back to the queue.\<close>

definition release_player :: "mgr_env \<Rightarrow> LfgUpdateType \<Rightarrow> LfgProposal \<Rightarrow> guid list \<Rightarrow> guid \<times> LfgProposalPlayer \<Rightarrow> lfg_mgr \<Rightarrow> lfg_mgr" where
  "release_player e ty proposal toRemove x m =
     (let guid = fst x;
          gguid = queued_as x;
          m = send_to e guid (SendUpdateProposal guid proposal) m
      in if gguid \<in> set toRemove then
           let updateData = update_data (if pp_accept (snd x) = LFG_ANSWER_DENY then ty else LFG_UPDATETYPE_REMOVED_FROM_QUEUE);
               m = RestoreState e guid m
           in if gguid \<noteq> guid then
                send_to e guid (SendUpdateStatus guid updateData True) (RestoreState e (pp_group (snd x)) m)
              else send_to e guid (SendUpdateStatus guid updateData False) m
         else
           let m = SetState e guid LFG_STATE_QUEUED m;
               m = (if gguid \<noteq> guid then SetState e gguid LFG_STATE_QUEUED m else m)
           in send_to e guid (SendUpdateStatus guid
                (update_data_with LFG_UPDATETYPE_ADDED_TO_QUEUE (GetSelectedDungeons m guid) (GetComment m guid)) (gguid \<noteq> guid)) m)"

text \<open>
  \<^verbatim>\<open>GetQueue(proposal.players.begin()->first)\<close> dereferences the end of the map when the proposal has no players:
  \<open>None\<close>.
\<close>

definition RemoveProposal :: "mgr_env \<Rightarrow> u32 \<Rightarrow> LfgUpdateType \<Rightarrow> lfg_mgr \<Rightarrow> lfg_mgr option" where
  "RemoveProposal e pid ty m =
     (case om_find (ProposalsStore (shared m)) pid of
        None \<Rightarrow> Some m
      | Some proposal \<Rightarrow>
          let players = map (deny_unanswered ty) (pr_players proposal);
              toRemove = to_remove ty players;
              proposal = proposal\<lparr>pr_state := LFG_PROPOSAL_FAILED, pr_players := map (mark_refusal ty) players\<rparr>;
              m = fold (release_player e ty proposal toRemove) (pr_players proposal) m
          in case pr_players proposal of
               [] \<Rightarrow> None
             | x # _ \<Rightarrow>
                 let m = on_queue (GetQueueId e m (fst x))
                           (\<lambda>q. fold AddToQueue (filter (\<lambda>g. g \<notin> set toRemove) (pr_queues proposal))
                                  (fold (RemoveFromQueue (queue_env e m)) toRemove q)) m
                 in Some (erase_proposal pid m))"

text \<open>The members of the new group, the leader first, and those of them to be teleported.\<close>

definition group_order :: "LfgProposal \<Rightarrow> guid list" where
  "group_order proposal =
     foldl (\<lambda>players guid. if guid = pr_leader proposal then guid # players else players @ [guid]) [] (map fst (pr_players proposal))"

definition to_teleport :: "lfg_mgr \<Rightarrow> LfgProposal \<Rightarrow> guid list" where
  "to_teleport m proposal = filter (\<lambda>guid. pr_isNew proposal \<or> GetGroup m guid \<noteq> pr_group proposal) (map fst (pr_players proposal))"

text \<open>A new group while it is filled, and the group when it enters the dungeon.\<close>

definition group_created :: "mgr_env \<Rightarrow> guid \<Rightarrow> lfg_mgr \<Rightarrow> lfg_mgr" where
  "group_created e gguid m = SetState e gguid LFG_STATE_PROPOSAL m"

definition group_formed :: "mgr_env \<Rightarrow> guid \<Rightarrow> LFGDungeonData \<Rightarrow> lfg_mgr \<Rightarrow> lfg_mgr" where
  "group_formed e gguid dungeon m = SetState e gguid LFG_STATE_DUNGEON (SetDungeon e gguid (dg_Entry dungeon) m)"

text \<open>\<^verbatim>\<open>int32((joinTime - queue.GetJoinTime(guid)) / IN_MILLISECONDS)\<close>, a division that truncates.\<close>

definition wait_time :: "mgr_env \<Rightarrow> lfg_queue \<Rightarrow> guid \<Rightarrow> u32" where
  "wait_time e q guid = (let d = me_now e - GetJoinTime guid q in word_of_int (if d < 0 then - ((- d) div 1000) else d div 1000))"

definition update_wait_time :: "u8 \<Rightarrow> u32 \<Rightarrow> u32 \<Rightarrow> lfg_queue \<Rightarrow> lfg_queue option" where
  "update_wait_time role waitTime dungeonId q =
     (if role = PLAYER_ROLE_DAMAGE then UpdateWaitTimeDps waitTime dungeonId q
      else if role = PLAYER_ROLE_HEALER then UpdateWaitTimeHealer waitTime dungeonId q
      else if role = PLAYER_ROLE_TANK then UpdateWaitTimeTank waitTime dungeonId q
      else UpdateWaitTimeAvg waitTime dungeonId q)"

text \<open>
  One player of an accepted proposal.  The update data is shared by all players, so its type is part of the
  state.  \<open>None\<close> is the dereferenced end of an empty dungeon set or the division by zero of a wrapped counter.
\<close>

definition accept_player :: "mgr_env \<Rightarrow> u8 \<Rightarrow> bool \<Rightarrow> LfgProposal \<Rightarrow> guid \<times> LfgProposalPlayer
    \<Rightarrow> LfgUpdateType \<times> lfg_mgr \<Rightarrow> (LfgUpdateType \<times> lfg_mgr) option" where
  "accept_player e queueId sendUpdate proposal x st =
     (case st of (ty, m) \<Rightarrow>
      case GetSelectedDungeons m (fst x) of
        [] \<Rightarrow> None
      | dungeonId # _ \<Rightarrow>
          let pguid = fst x;
              m = (if sendUpdate then send_to e pguid (SendUpdateProposal pguid proposal) m else m);
              waitTime = wait_time e (queue_of m queueId) (queued_as x);
              m = send_to e pguid (SendUpdateStatus pguid (update_data ty) False) m;
              ty = LFG_UPDATETYPE_REMOVED_FROM_QUEUE;
              m = send_to e pguid (SendUpdateStatus pguid (update_data ty) True) m;
              m = send_to e pguid (SendUpdateStatus pguid (update_data ty) False) m;
              role = GetRoles m pguid AND NOT PLAYER_ROLE_LEADER
          in do { q \<leftarrow> update_wait_time role waitTime dungeonId (queue_of m queueId);
                  Some (ty, SetState e pguid LFG_STATE_DUNGEON (on_queue queueId (\<lambda>_. q) m)) })"

fun accept_players :: "mgr_env \<Rightarrow> u8 \<Rightarrow> bool \<Rightarrow> LfgProposal \<Rightarrow> (guid, LfgProposalPlayer) omap
    \<Rightarrow> LfgUpdateType \<times> lfg_mgr \<Rightarrow> (LfgUpdateType \<times> lfg_mgr) option" where
  "accept_players e queueId sendUpdate proposal [] st = Some st"
| "accept_players e queueId sendUpdate proposal (x # xs) st =
     do { st \<leftarrow> accept_player e queueId sendUpdate proposal x st; accept_players e queueId sendUpdate proposal xs st }"

definition accept_proposal :: "mgr_env \<Rightarrow> u32 \<Rightarrow> guid \<Rightarrow> LfgProposal \<Rightarrow> lfg_mgr \<Rightarrow> lfg_mgr option" where
  "accept_proposal e pid guid proposal m =
     (let sendUpdate = (pr_state proposal \<noteq> LFG_PROPOSAL_SUCCESS);
          proposal = proposal\<lparr>pr_state := LFG_PROPOSAL_SUCCESS\<rparr>;
          m = set_proposal pid proposal m;
          queueId = GetQueueId e m guid
      in do { (_, m) \<leftarrow> accept_players e queueId sendUpdate proposal (pr_players proposal) (LFG_UPDATETYPE_GROUP_FOUND, m);
              let m = on_queue queueId (fold (RemoveFromQueue (queue_env e m)) (pr_queues proposal)) m;
              Some (erase_proposal pid (emit (MakeNewGroup proposal) m)) })"

definition UpdateProposal :: "mgr_env \<Rightarrow> u32 \<Rightarrow> guid \<Rightarrow> bool \<Rightarrow> lfg_mgr \<Rightarrow> lfg_mgr option" where
  "UpdateProposal e pid guid accept m =
     (case om_find (ProposalsStore (shared m)) pid of
        None \<Rightarrow> Some m
      | Some proposal \<Rightarrow>
          (case om_find (pr_players proposal) guid of
             None \<Rightarrow> Some m
           | Some player \<Rightarrow>
               let proposal = proposal\<lparr>pr_players := om_set guid (player\<lparr>pp_accept := answer_of accept\<rparr>) (pr_players proposal)\<rparr>;
                   m = set_proposal pid proposal m
               in if \<not> accept then RemoveProposal e pid LFG_UPDATETYPE_PROPOSAL_DECLINED m
                  else if \<not> list_all (\<lambda>x. pp_accept (snd x) = LFG_ANSWER_AGREE) (pr_players proposal)
                  then Some (fold (\<lambda>x. send_to e (fst x) (SendUpdateProposal (fst x) proposal)) (pr_players proposal) m)
                  else accept_proposal e pid guid proposal m))"

section \<open>Joining\<close>

definition using_bg :: "lfg_char \<Rightarrow> bool" where
  "using_bg p \<longleftrightarrow> ch_InBattleground p \<or> ch_InArena p \<or> ch_InBattlegroundQueue p \<or> ch_InSoloQueue p"

text \<open>The members of a group, until one of them may not join: the result, the count and the players.\<close>

fun check_members :: "lfg_char option list \<Rightarrow> u8 \<Rightarrow> guid list \<Rightarrow> LfgJoinResult \<times> u8 \<times> guid list" where
  "check_members [] n players = (LFG_JOIN_OK, n, players)"
| "check_members (None # ms) n players = check_members ms n players"
| "check_members (Some p # ms) n players =
     (let result = (if ch_HasAura p LFG_SPELL_DUNGEON_DESERTER then LFG_JOIN_PARTY_DESERTER
                    else if ch_HasAura p LFG_SPELL_DUNGEON_COOLDOWN then LFG_JOIN_PARTY_RANDOM_COOLDOWN
                    else if using_bg p then LFG_JOIN_USING_BG_SYSTEM
                    else LFG_JOIN_OK);
          n = n + 1;
          players = insort_insert (ch_guid p) players
      in if result = LFG_JOIN_OK then check_members ms n players else (result, n, players))"

definition too_many_members :: "lfg_mgr \<Rightarrow> lfg_group \<Rightarrow> u32 list \<Rightarrow> bool" where
  "too_many_members m grp dungeons \<longleftrightarrow>
     list_ex (\<lambda>d. case GetLFGDungeon m d of None \<Rightarrow> False | Some dungeon \<Rightarrow> gr_MembersCount grp > GetMaxGroupSize dungeon) dungeons"

text \<open>The restrictions of the player and the group: the result and the players to check for locked dungeons.\<close>

definition join_restrictions :: "lfg_mgr \<Rightarrow> lfg_char \<Rightarrow> lfg_group option \<Rightarrow> u32 list \<Rightarrow> LfgJoinResult \<times> guid list" where
  "join_restrictions m player grp dungeons =
     (if using_bg player then (LFG_JOIN_USING_BG_SYSTEM, [])
      else if ch_HasAura player LFG_SPELL_DUNGEON_DESERTER then (LFG_JOIN_DESERTER, [])
      else if ch_HasAura player LFG_SPELL_DUNGEON_COOLDOWN then (LFG_JOIN_RANDOM_COOLDOWN, [])
      else if dungeons = [] then (LFG_JOIN_NOT_MEET_REQS, [])
      else case grp of
        None \<Rightarrow> (LFG_JOIN_OK, [ch_guid player])
      | Some g \<Rightarrow>
          if too_many_members m g dungeons then (LFG_JOIN_TOO_MUCH_MEMBERS, [])
          else let (result, n, players) = check_members (gr_members g) 0 []
               in (if result = LFG_JOIN_OK \<and> ucast n \<noteq> gr_MembersCount g then LFG_JOIN_DISCONNECTED else result, players))"

text \<open>The kinds of the chosen dungeons: the result, whether they are raids, and the random dungeon among them.\<close>

fun check_types :: "lfg_mgr \<Rightarrow> u32 list \<Rightarrow> u32 list \<Rightarrow> bool \<Rightarrow> bool \<Rightarrow> u32 \<Rightarrow> LfgJoinResult \<times> bool \<times> u32" where
  "check_types m dungeons [] isRaid isDungeon rDungeonId = (LFG_JOIN_OK, isRaid, rDungeonId)"
| "check_types m dungeons (d # ds) isRaid isDungeon rDungeonId =
     (let ty = GetDungeonType m d in
      if ty = LFG_TYPE_RANDOM \<or> ty = LFG_TYPE_DUNGEON then
        let (result, rDungeonId) = (if ty = LFG_TYPE_RANDOM then
               if length dungeons > 1 then (LFG_JOIN_DUNGEON_INVALID, rDungeonId) else (LFG_JOIN_OK, hd dungeons)
             else (LFG_JOIN_OK, rDungeonId));
            result = (if isRaid then LFG_JOIN_MIXED_RAID_DUNGEON else result)
        in if result = LFG_JOIN_OK then check_types m dungeons ds isRaid True rDungeonId else (result, isRaid, rDungeonId)
      else if ty = LFG_TYPE_RAID then
        if isDungeon then (LFG_JOIN_MIXED_RAID_DUNGEON, True, rDungeonId)
        else check_types m dungeons ds True isDungeon rDungeonId
      else (LFG_JOIN_DUNGEON_INVALID, isRaid, rDungeonId))"

text \<open>One lock of one player; the loops stop when no dungeon is left, where this changes nothing.\<close>

definition apply_lock :: "bool \<Rightarrow> guid \<Rightarrow> u32 \<times> LockData \<Rightarrow> u32 list \<times> lock_party_map \<Rightarrow> u32 list \<times> lock_party_map" where
  "apply_lock isContinue guid l st =
     (case st of (dungeons, lockMap) \<Rightarrow>
      let dungeonId = fst l AND 0x00FFFFFF in
      if dungeonId \<in> set dungeons \<and> \<not> (ld_locktyp (snd l) = LFG_LOCKSTATUS_RAID_LOCKED \<and> isContinue)
      then (remove1 dungeonId dungeons, om_modify [] guid (om_set dungeonId (snd l)) lockMap) else st)"

definition GetCompatibleDungeons :: "lfg_mgr \<Rightarrow> u32 list \<Rightarrow> guid list \<Rightarrow> bool \<Rightarrow> u32 list \<times> lock_party_map" where
  "GetCompatibleDungeons m dungeons players isContinue =
     (let (ds, lockMap) = fold (\<lambda>guid. fold (apply_lock isContinue guid) (GetLockedDungeons m guid)) players (dungeons, [])
      in (if ds = [] then dungeons else ds, []))"

text \<open>Everything that is checked before anything is changed for the join.\<close>

definition check_join :: "lfg_mgr \<Rightarrow> lfg_char \<Rightarrow> lfg_group option \<Rightarrow> bool \<Rightarrow> bool \<Rightarrow> u32 list
    \<Rightarrow> LfgJoinResultData \<times> bool \<times> u32 \<times> u32 list" where
  "check_join m player grp queued isContinue dungeons =
     (let (result, players) = (if queued then (LFG_JOIN_OK, []) else join_restrictions m player grp dungeons);
          (result, isRaid, rDungeonId) = (if result = LFG_JOIN_OK then check_types m dungeons dungeons False False 0
                                          else (result, False, 0))
      in if result \<noteq> LFG_JOIN_OK then
           (\<lparr>jr_result = result, jr_state = LFG_ROLECHECK_DEFAULT, jr_lockmap = []\<rparr>, isRaid, rDungeonId, dungeons)
         else
           let dungeons = (if rDungeonId \<noteq> 0 then GetDungeonsByRandom m rDungeonId else dungeons);
               (dungeons, lockmap) = GetCompatibleDungeons m dungeons players isContinue;
               result = (if dungeons = [] then (case grp of None \<Rightarrow> LFG_JOIN_NOT_MEET_REQS | Some _ \<Rightarrow> LFG_JOIN_INTERNAL_ERROR)
                         else LFG_JOIN_OK);
               lockmap = (if result \<noteq> LFG_JOIN_OK \<and> dungeons \<noteq> [] then [] else lockmap)
           in (\<lparr>jr_result = result, jr_state = LFG_ROLECHECK_DEFAULT, jr_lockmap = lockmap\<rparr>, isRaid, rDungeonId, dungeons))"

text \<open>A member of the group enters the role check.\<close>

definition begin_member :: "mgr_env \<Rightarrow> guid \<Rightarrow> bool \<Rightarrow> LfgUpdateData \<Rightarrow> u32 list \<Rightarrow> lfg_char option \<Rightarrow> lfg_mgr \<Rightarrow> lfg_mgr" where
  "begin_member e gguid isContinue updateData dungeons mem m =
     (case mem of
        None \<Rightarrow> m
      | Some p \<Rightarrow>
          let pguid = ch_guid p;
              m = emit (SendUpdateStatus pguid updateData True) m;
              m = SetState e pguid LFG_STATE_ROLECHECK m;
              m = (if isContinue then m else SetSelectedDungeons pguid dungeons m)
          in case om_find (RoleChecksStore m) gguid of
               None \<Rightarrow> m
             | Some rc \<Rightarrow> set_rolecheck gguid (rc\<lparr>rc_roles := om_set pguid 0 (rc_roles rc)\<rparr>) m)"

definition begin_rolecheck :: "mgr_env \<Rightarrow> lfg_group \<Rightarrow> guid \<Rightarrow> u8 \<Rightarrow> u32 \<Rightarrow> u32 list \<Rightarrow> bool \<Rightarrow> string \<Rightarrow> lfg_mgr \<Rightarrow> lfg_mgr" where
  "begin_rolecheck e grp guid roles rDungeonId dungeons isContinue comment m =
     (let gguid = gr_guid grp;
          old = (case om_find (RoleChecksStore m) gguid of None \<Rightarrow> [] | Some rc \<Rightarrow> rc_roles rc);
          m = set_rolecheck gguid \<lparr>rc_cancelTime = me_now e + LFG_TIME_ROLECHECK, rc_roles = old,
                rc_state = LFG_ROLECHECK_INITIALITING, rc_dungeons = dungeons, rc_rDungeonId = rDungeonId,
                rc_leader = guid, rc_isBeginning = True\<rparr> m;
          dungeons = (if rDungeonId \<noteq> 0 then [rDungeonId] else dungeons);
          m = SetState e gguid LFG_STATE_ROLECHECK m;
          updateData = update_data_with LFG_UPDATETYPE_JOIN_QUEUE dungeons comment;
          m = fold (begin_member e gguid isContinue updateData dungeons) (gr_members grp) m
      in UpdateRoleCheck e gguid guid roles m)"

definition join_alone :: "mgr_env \<Rightarrow> guid \<Rightarrow> u8 \<Rightarrow> u32 \<Rightarrow> u32 list \<Rightarrow> LfgJoinResultData \<Rightarrow> string \<Rightarrow> lfg_mgr \<Rightarrow> lfg_mgr" where
  "join_alone e guid roles rDungeonId dungeons joinData comment m =
     (let m = on_queue (GetQueueId e m guid) (AddQueueData (queue_env e m) guid (me_now e) dungeons [(guid, roles)]) m;
          dungeons = (if rDungeonId \<noteq> 0 then [rDungeonId] else dungeons);
          m = SetSelectedDungeons guid dungeons m;
          m = emit (SendJoinResult guid joinData) m;
          m = emit (SendUpdateStatus guid (update_data_with LFG_UPDATETYPE_JOIN_QUEUE dungeons comment) False) m
      in SetRoles guid roles (SetState e guid LFG_STATE_QUEUED m))"

text \<open>\<open>player\<close> has a session; a player without one is the caller's early return.\<close>

definition JoinLfg :: "mgr_env \<Rightarrow> lfg_char \<Rightarrow> lfg_group option \<Rightarrow> u8 \<Rightarrow> u32 list \<Rightarrow> string \<Rightarrow> lfg_mgr \<Rightarrow> lfg_mgr" where
  "JoinLfg e player grp roles dungeons comment m =
     (if dungeons = [] then m else
      let guid = ch_guid player;
          gguid = (case grp of None \<Rightarrow> guid | Some g \<Rightarrow> gr_guid g);
          m = touch_entry e gguid m;
          isContinue = (case grp of None \<Rightarrow> False | Some g \<Rightarrow> gr_isLFG g \<and> GetState e m gguid \<noteq> LFG_STATE_FINISHED_DUNGEON);
          dungeons = (if isContinue then [GetDungeon e m True gguid] else dungeons);
          queued = (GetState e m gguid = LFG_STATE_QUEUED);
          m = (if queued then on_queue (GetQueueId e m gguid) (RemoveFromQueue (queue_env e m) gguid) m else m);
          (joinData, isRaid, rDungeonId, dungeons) = check_join m player grp queued isContinue dungeons
      in if jr_result joinData \<noteq> LFG_JOIN_OK then emit (SendJoinResult guid joinData) m
         else
           let m = SetComment guid comment m in
           if isRaid then m
           else case grp of
             Some g \<Rightarrow> begin_rolecheck e g guid roles rDungeonId dungeons isContinue comment m
           | None \<Rightarrow> join_alone e guid roles rDungeonId dungeons joinData comment m)"

section \<open>Leaving\<close>

definition leave_member :: "mgr_env \<Rightarrow> guid \<Rightarrow> lfg_mgr \<Rightarrow> lfg_mgr" where
  "leave_member e guid m =
     send_to e guid (SendUpdateStatus guid (update_data LFG_UPDATETYPE_REMOVED_FROM_QUEUE) True) (SetState e guid LFG_STATE_NONE m)"

definition leave_queue :: "mgr_env \<Rightarrow> guid \<Rightarrow> guid \<Rightarrow> lfg_mgr \<Rightarrow> lfg_mgr" where
  "leave_queue e guid gguid m =
     (if gguid \<noteq> 0 then
        let m = on_queue (GetQueueId e m gguid) (RemoveFromQueue (queue_env e m) gguid) m;
            m = SetState e gguid LFG_STATE_NONE m
        in fold (leave_member e) (GetPlayers e m gguid) m
      else
        let m = on_queue (GetQueueId e m guid) (RemoveFromQueue (queue_env e m) guid) m;
            m = send_to e guid (SendUpdateStatus guid (update_data LFG_UPDATETYPE_REMOVED_FROM_QUEUE) False) m
        in SetState e guid LFG_STATE_NONE m)"

text \<open>The first proposal with the player, if any, is refused.\<close>

definition leave_proposal :: "mgr_env \<Rightarrow> guid \<Rightarrow> lfg_mgr \<Rightarrow> lfg_mgr option" where
  "leave_proposal e pguid m =
     (case find (\<lambda>x. om_find (pr_players (snd x)) pguid \<noteq> None) (ProposalsStore (shared m)) of
        None \<Rightarrow> Some m
      | Some (pid, proposal) \<Rightarrow>
          let player = the (om_find (pr_players proposal) pguid);
              proposal = proposal\<lparr>pr_players := om_set pguid (player\<lparr>pp_accept := LFG_ANSWER_DENY\<rparr>) (pr_players proposal)\<rparr>
          in RemoveProposal e pid LFG_UPDATETYPE_PROPOSAL_DECLINED (set_proposal pid proposal m))"

definition LeaveLfg :: "mgr_env \<Rightarrow> guid \<Rightarrow> bool \<Rightarrow> lfg_mgr \<Rightarrow> lfg_mgr option" where
  "LeaveLfg e guid disconnected m =
     (let gguid = (if IS_GROUP_GUID guid then guid else GetGroup m guid);
          m = touch_entry e guid m
      in case GetState e m guid of
           LFG_STATE_QUEUED \<Rightarrow> Some (leave_queue e guid gguid m)
         | LFG_STATE_ROLECHECK \<Rightarrow> Some (if gguid \<noteq> 0 then UpdateRoleCheck e gguid 0 PLAYER_ROLE_NONE m else m)
         | LFG_STATE_PROPOSAL \<Rightarrow> leave_proposal e (if gguid = guid then GetLeader e m gguid else guid) m
         | LFG_STATE_NONE \<Rightarrow> Some m
         | LFG_STATE_RAIDBROWSER \<Rightarrow> Some m
         | _ \<Rightarrow> Some (if guid \<noteq> gguid \<and> \<not> disconnected then SetState e guid LFG_STATE_NONE m else m))"

section \<open>Votes to kick a player\<close>

definition set_boot :: "guid \<Rightarrow> LfgPlayerBoot \<Rightarrow> lfg_mgr \<Rightarrow> lfg_mgr" where
  "set_boot gguid boot m = m\<lparr>BootsStore := om_set gguid boot (BootsStore m)\<rparr>"

definition erase_boot :: "guid \<Rightarrow> lfg_mgr \<Rightarrow> lfg_mgr" where
  "erase_boot gguid m = m\<lparr>BootsStore := om_erase gguid (BootsStore m)\<rparr>"

definition InitBoot :: "mgr_env \<Rightarrow> guid \<Rightarrow> guid \<Rightarrow> guid \<Rightarrow> string \<Rightarrow> lfg_mgr \<Rightarrow> lfg_mgr" where
  "InitBoot e gguid kicker victim reason m =
     (let m = SetVoteKick e gguid True m;
          old = (case om_find (BootsStore m) gguid of None \<Rightarrow> [] | Some boot \<Rightarrow> bt_votes boot);
          players = GetPlayers e m gguid;
          votes = fold (\<lambda>guid. om_set guid LFG_ANSWER_PENDING) players old;
          votes = om_set kicker LFG_ANSWER_AGREE (om_set victim LFG_ANSWER_DENY votes);
          boot = \<lparr>bt_cancelTime = me_now e + LFG_TIME_BOOT, bt_inProgress = True, bt_votes = votes, bt_victim = victim,
                  bt_reason = reason\<rparr>
      in fold (\<lambda>guid. send_to e guid (SendBootProposalUpdate guid boot)) players (set_boot gguid boot m))"

text \<open>Everybody who has a vote, other than the victim, is told.\<close>

definition tell_voters :: "mgr_env \<Rightarrow> LfgPlayerBoot \<Rightarrow> lfg_mgr \<Rightarrow> lfg_mgr" where
  "tell_voters e boot m =
     fold (\<lambda>v m. if fst v \<noteq> bt_victim boot then send_to e (fst v) (SendBootProposalUpdate (fst v) boot) m else m) (bt_votes boot) m"

definition votes_cast :: "(guid, LfgAnswer) omap \<Rightarrow> u8" where
  "votes_cast votes = of_nat (length (filter (\<lambda>v. snd v \<noteq> LFG_ANSWER_PENDING) votes))"

definition votes_agree :: "(guid, LfgAnswer) omap \<Rightarrow> u8" where
  "votes_agree votes = of_nat (length (filter (\<lambda>v. snd v = LFG_ANSWER_AGREE) votes))"

text \<open>
  \<^verbatim>\<open>boot.votes[guid]\<close> makes an entry with the value 0, which is the answer deny, for a player who has none.
\<close>

definition UpdateBoot :: "mgr_env \<Rightarrow> guid \<Rightarrow> bool \<Rightarrow> lfg_mgr \<Rightarrow> lfg_mgr" where
  "UpdateBoot e guid accept m =
     (let gguid = GetGroup m guid in
      if gguid = 0 then m else
      case om_find (BootsStore m) gguid of
        None \<Rightarrow> m
      | Some boot \<Rightarrow>
          let votes = om_modify LFG_ANSWER_DENY guid id (bt_votes boot) in
          if om_find votes guid \<noteq> Some LFG_ANSWER_PENDING then set_boot gguid (boot\<lparr>bt_votes := votes\<rparr>) m
          else
            let boot = boot\<lparr>bt_votes := om_set guid (answer_of accept) votes\<rparr>;
                m = set_boot gguid boot m;
                votesNum = unat (votes_cast (bt_votes boot));
                agreeNum = unat (votes_agree (bt_votes boot));
                grp = me_GetGroupByGUID e (GUID_LOPART gguid);
                isLfrGroup = (case grp of None \<Rightarrow> False | Some g \<Rightarrow> gr_isLFR g);
                needed = (if isLfrGroup then LFR_GROUP_KICK_VOTES_NEEDED else LFG_GROUP_KICK_VOTES_NEEDED)
            in if agreeNum < needed \<and> int votesNum - int agreeNum < int needed then m
               else
                 let boot = boot\<lparr>bt_inProgress := False\<rparr>;
                     m = SetVoteKick e gguid False (tell_voters e boot (set_boot gguid boot m));
                     m = (if agreeNum = needed then
                            let m = (case grp of None \<Rightarrow> m | Some _ \<Rightarrow> emit (KickFromGroup gguid (bt_victim boot)) m);
                                m = (if isLfrGroup then m else DecreaseKicksLeft e gguid m)
                            in SetVoteKickCooldown e gguid (word_of_int (me_now e + VOTE_KICK_COOLDOWN)) m
                          else m)
                 in erase_boot gguid m)"

section \<open>The periodic update\<close>

definition expire_member :: "mgr_env \<Rightarrow> LfgRoleCheck \<Rightarrow> guid \<Rightarrow> lfg_mgr \<Rightarrow> lfg_mgr" where
  "expire_member e rc guid m =
     (let m = RestoreState e guid m;
          m = send_to e guid (SendRoleCheckUpdate guid rc) m
      in if guid = rc_leader rc then
           send_to e guid (SendJoinResult guid \<lparr>jr_result = LFG_JOIN_ROLE_CHECK_FAILED, jr_state = LFG_ROLECHECK_MISSING_ROLE,
             jr_lockmap = []\<rparr>) m
         else m)"

definition expire_rolecheck :: "mgr_env \<Rightarrow> guid \<times> LfgRoleCheck \<Rightarrow> lfg_mgr \<Rightarrow> lfg_mgr" where
  "expire_rolecheck e x m =
     (if me_now e < rc_cancelTime (snd x) then m
      else let rc = (snd x)\<lparr>rc_state := LFG_ROLECHECK_MISSING_ROLE\<rparr>;
               m = fold (expire_member e rc) (map fst (rc_roles rc)) m
           in erase_rolecheck (fst x) (RestoreState e (fst x) m))"

definition expire_proposal :: "mgr_env \<Rightarrow> u32 \<times> LfgProposal \<Rightarrow> lfg_mgr \<Rightarrow> lfg_mgr option" where
  "expire_proposal e x m =
     (if pr_cancelTime (snd x) < me_now e then RemoveProposal e (fst x) LFG_UPDATETYPE_PROPOSAL_FAILED m else Some m)"

fun expire_proposals :: "mgr_env \<Rightarrow> (u32 \<times> LfgProposal) list \<Rightarrow> lfg_mgr \<Rightarrow> lfg_mgr option" where
  "expire_proposals e [] m = Some m"
| "expire_proposals e (x # xs) m = do { m \<leftarrow> expire_proposal e x m; expire_proposals e xs m }"

definition expire_boot :: "mgr_env \<Rightarrow> guid \<times> LfgPlayerBoot \<Rightarrow> lfg_mgr \<Rightarrow> lfg_mgr" where
  "expire_boot e x m =
     (if bt_cancelTime (snd x) < me_now e
      then erase_boot (fst x) (SetVoteKick e (fst x) False (tell_voters e ((snd x)\<lparr>bt_inProgress := False\<rparr>) m)) else m)"

definition search_queue :: "mgr_env \<Rightarrow> u8 \<Rightarrow> lfg_mgr \<Rightarrow> lfg_mgr" where
  "search_queue e queueId m =
     (case FindGroups (queue_env e m) (queue_of m queueId, shared m) of
        (_, q, sh) \<Rightarrow> on_queue queueId (\<lambda>_. q) (m\<lparr>shared := sh\<rparr>))"

text \<open>A player of a new proposal.\<close>

definition announce_player :: "mgr_env \<Rightarrow> LfgProposal \<Rightarrow> guid \<Rightarrow> lfg_mgr \<Rightarrow> lfg_mgr" where
  "announce_player e proposal guid m =
     (let m = SetState e guid LFG_STATE_PROPOSAL m;
          gguid = GetGroup m guid;
          m = (if gguid \<noteq> 0 then SetState e gguid LFG_STATE_PROPOSAL m else m);
          m = send_to e guid (SendUpdateStatus guid
                (update_data_with LFG_UPDATETYPE_PROPOSAL_BEGIN (GetSelectedDungeons m guid) (GetComment m guid)) (gguid \<noteq> 0)) m
      in send_to e guid (SendUpdateProposal guid proposal) m)"

definition announce_proposal :: "mgr_env \<Rightarrow> u32 \<times> LfgProposal \<Rightarrow> lfg_mgr \<Rightarrow> lfg_mgr option" where
  "announce_proposal e x m =
     (let guids = map fst (pr_players (snd x));
          m = fold (announce_player e (snd x)) guids m
      in if pr_state (snd x) = LFG_PROPOSAL_SUCCESS then UpdateProposal e (fst x) (if guids = [] then 0 else last guids) True m
         else Some m)"

fun announce_proposals :: "mgr_env \<Rightarrow> (u32 \<times> LfgProposal) list \<Rightarrow> lfg_mgr \<Rightarrow> lfg_mgr option" where
  "announce_proposals e [] m = Some m"
| "announce_proposals e (x # xs) m = do { m \<leftarrow> announce_proposal e x m; announce_proposals e xs m }"

text \<open>From \<^verbatim>\<open>ProposalsStore.find(m_lfgProposalId)\<close> to the end, if a proposal was made.\<close>

definition announce_new :: "mgr_env \<Rightarrow> u32 \<Rightarrow> lfg_mgr \<Rightarrow> lfg_mgr option" where
  "announce_new e lastProposalId m =
     (if lastProposalId = m_lfgProposalId (shared m) then Some m
      else announce_proposals e (dropWhile (\<lambda>x. fst x \<noteq> m_lfgProposalId (shared m)) (ProposalsStore (shared m))) m)"

definition update_timers_of :: "mgr_env \<Rightarrow> u8 \<Rightarrow> role_counts \<times> lfg_mgr \<Rightarrow> role_counts \<times> lfg_mgr" where
  "update_timers_of e queueId st =
     (case st of (n, m) \<Rightarrow>
      case UpdateQueueTimers (queue_env e m) queueId (me_now e) n (queue_of m queueId) of
        (q, n, out) \<Rightarrow> (n, fold (\<lambda>x. send_to e (fst x) (SendQueueStatus (fst x) (snd x))) out (on_queue queueId (\<lambda>_. q) m)))"

definition call_to_arms :: "role_counts \<Rightarrow> u8 \<Rightarrow> u8" where
  "call_to_arms n roles =
     (case n of (tankCount, healerCount, dpsCount) \<Rightarrow>
      let roles = clear_flag (clear_flag (clear_flag roles PLAYER_ROLE_HEALER) PLAYER_ROLE_TANK) PLAYER_ROLE_DAMAGE;
          roles = (if tankCount = 0 \<or> tankCount < dpsCount then set_flag roles PLAYER_ROLE_TANK else roles);
          roles = (if healerCount = 0 \<or> healerCount < dpsCount then set_flag roles PLAYER_ROLE_HEALER else roles)
      in if dpsCount \<noteq> 0 \<and> (dpsCount < tankCount \<or> dpsCount < healerCount) then set_flag roles PLAYER_ROLE_DAMAGE else roles)"

definition update_timers :: "mgr_env \<Rightarrow> u32 \<Rightarrow> lfg_mgr \<Rightarrow> lfg_mgr" where
  "update_timers e diff m =
     (if m_QueueTimer m > LFG_QUEUEUPDATE_INTERVAL then
        let m = m\<lparr>m_QueueTimer := 0\<rparr>;
            (n, m) = fold (update_timers_of e) (map fst (QueuesStore m)) ((0, 0, 0), m)
        in m\<lparr>callToArmsRoles := call_to_arms n (callToArmsRoles m)\<rparr>
      else m\<lparr>m_QueueTimer := m_QueueTimer m + diff\<rparr>)"

definition expire :: "mgr_env \<Rightarrow> lfg_mgr \<Rightarrow> lfg_mgr option" where
  "expire e m =
     (let m = fold (expire_rolecheck e) (RoleChecksStore m) m
      in do { m \<leftarrow> expire_proposals e (ProposalsStore (shared m)) m;
              Some (fold (expire_boot e) (BootsStore m) m) })"

definition Update :: "mgr_env \<Rightarrow> u32 \<Rightarrow> lfg_mgr \<Rightarrow> lfg_mgr option" where
  "Update e diff m =
     (if \<not> lfg_enabled m then Some m else
      do { m \<leftarrow> expire e m;
           let lastProposalId = m_lfgProposalId (shared m);
           let m = fold (search_queue e) (map fst (QueuesStore m)) m;
           m \<leftarrow> announce_new e lastProposalId m;
           Some (update_timers e diff m) })"

end
