(* ===== verification/LfgRewards.thy ===== *)
theory LfgRewards
  imports LfgData
begin

text \<open>
  Dungeons, locks and rewards of the dungeon finder (\<^verbatim>\<open>src/server/game/DungeonFinding/LFGMgr.cpp\<close>): loading the
  dungeon store, its cache by kind and the reward table, the locked dungeons of a player, and the end of a
  dungeon with its rewards.  Rows of the client and of the database are arguments.  Of the coordinates of an
  entrance only whether they are zero matters here.
\<close>

section \<open>Dungeons\<close>

definition IsSeasonActive :: "mgr_env \<Rightarrow> u32 \<Rightarrow> bool" where
  "IsSeasonActive e dungeonId =
     (if dungeonId = 285 then me_HolidayActive e 324
      else if dungeonId = 286 then me_HolidayActive e 341
      else if dungeonId = 287 then me_HolidayActive e 372
      else if dungeonId = 288 then me_HolidayActive e 423
      else False)"

definition GetRandomAndSeasonalDungeons :: "mgr_env \<Rightarrow> lfg_mgr \<Rightarrow> u8 \<Rightarrow> u8 \<Rightarrow> u32 list" where
  "GetRandomAndSeasonalDungeons e m level expansion =
     fold (\<lambda>(_, d) s.
            if (dg_type d = LFG_TYPE_RANDOM \<or> dg_seasonal d \<and> IsSeasonActive e (dg_id d) \<or> dg_isLFR d)
               \<and> dg_expansion d \<le> expansion \<and> dg_minlevel d \<le> level \<and> level \<le> dg_maxlevel d
            then insort_insert (dg_Entry d) s else s) (LfgDungeonStore m) []"

definition selectedRandomLfgDungeon :: "mgr_env \<Rightarrow> lfg_mgr \<Rightarrow> guid \<Rightarrow> bool" where
  "selectedRandomLfgDungeon e m guid =
     (GetState e m guid \<noteq> LFG_STATE_NONE \<and>
      (case GetSelectedDungeons m guid of
         [] \<Rightarrow> False
       | d # _ \<Rightarrow> (case GetLFGDungeon m d of None \<Rightarrow> False | Some dungeon \<Rightarrow> dg_type dungeon = LFG_TYPE_RANDOM \<or> dg_seasonal dungeon)))"

definition inLfgDungeonMap :: "mgr_env \<Rightarrow> lfg_mgr \<Rightarrow> guid \<Rightarrow> u32 \<Rightarrow> u32 \<Rightarrow> bool" where
  "inLfgDungeonMap e m guid mapId difficulty =
     (let guid = (if IS_GROUP_GUID guid then guid else GetGroup m guid);
          dungeonId = GetDungeon e m True guid
      in dungeonId \<noteq> 0 \<and>
         (case GetLFGDungeon m dungeonId of None \<Rightarrow> False | Some d \<Rightarrow> ucast (dg_map d) = mapId \<and> dg_difficulty d = difficulty))"

definition IsCallToArmEligible :: "u32 \<Rightarrow> u32 \<Rightarrow> bool" where
  "IsCallToArmEligible level dungeonId \<longleftrightarrow> level = 85 \<and> (dungeonId = 301 \<or> dungeonId = 434)"

definition IsPermanentLFGDungeon :: "lfg_mgr \<Rightarrow> guid \<Rightarrow> bool" where
  "IsPermanentLFGDungeon m gguid =
     (case om_find (GroupsStore m) gguid of
        None \<Rightarrow> True
      | Some g \<Rightarrow>
          \<not> (case GetLFGDungeon m (group_GetDungeon True g) of None \<Rightarrow> False | Some d \<Rightarrow> dg_difficulty d = 0 \<or> dg_isLFR d) \<and>
          \<not> list_ex (\<lambda>p. case om_find (PlayersStore m) p of
                None \<Rightarrow> False
              | Some d \<Rightarrow>
                  (let rDungeonId = (case pd_SelectedDungeons d of [] \<Rightarrow> 0 | r # _ \<Rightarrow> r)
                   in case GetLFGDungeon m rDungeonId of None \<Rightarrow> False | Some dungeon \<Rightarrow> dg_type dungeon = LFG_TYPE_RANDOM)) (gd_Players g))"

section \<open>Locked dungeons\<close>

definition ALLIANCE :: u32 where "ALLIANCE = 469"
definition HORDE :: u32 where "HORDE = 67"

definition access_lock :: "lfg_char \<Rightarrow> AccessRequirement \<Rightarrow> LfgLockStatusType" where
  "access_lock p ar =
     (if ar_achievement ar \<noteq> 0 \<and> \<not> ch_HasAchieved p (ar_achievement ar) then LFG_LOCKSTATUS_MISSING_ACHIEVEMENT
      else if ch_Team p = ALLIANCE \<and> ar_quest_A ar \<noteq> 0 \<and> \<not> ch_QuestRewardStatus p (ar_quest_A ar) then LFG_LOCKSTATUS_QUEST_NOT_COMPLETED
      else if ch_Team p = HORDE \<and> ar_quest_H ar \<noteq> 0 \<and> \<not> ch_QuestRewardStatus p (ar_quest_H ar) then LFG_LOCKSTATUS_QUEST_NOT_COMPLETED
      else if ar_item ar \<noteq> 0 then
        if \<not> ch_HasItem p (ar_item ar) \<and> (ar_item2 ar = 0 \<or> \<not> ch_HasItem p (ar_item2 ar)) then LFG_LOCKSTATUS_MISSING_ITEM
        else LFG_LOCKSTATUS_NONE
      else if ar_item2 ar \<noteq> 0 \<and> \<not> ch_HasItem p (ar_item2 ar) then LFG_LOCKSTATUS_MISSING_ITEM
      else LFG_LOCKSTATUS_NONE)"

definition dungeon_lock :: "mgr_env \<Rightarrow> lfg_char \<Rightarrow> u8 \<Rightarrow> LFGDungeonData \<Rightarrow> LfgLockStatusType" where
  "dungeon_lock e p level d =
     (if dg_neededILevel d \<noteq> 0 \<and> rat_of_int (uint (dg_neededILevel d)) > ch_AverageItemLevel p then LFG_LOCKSTATUS_TOO_LOW_GEAR_SCORE
      else if dg_expansion d > ch_Expansion p then LFG_LOCKSTATUS_INSUFFICIENT_EXPANSION
      else if me_MapDisabled e (dg_map d) (ch_guid p) (dg_difficulty d) then LFG_LOCKSTATUS_RAID_LOCKED
      else if dg_difficulty d > 0 \<and> ch_BoundInstance p (dg_map d) (dg_difficulty d) (dg_isLFR d) then LFG_LOCKSTATUS_RAID_LOCKED
      else if dg_minlevel d > level then LFG_LOCKSTATUS_TOO_LOW_LEVEL
      else if dg_maxlevel d < level then LFG_LOCKSTATUS_TOO_HIGH_LEVEL
      else if dg_seasonal d \<and> \<not> IsSeasonActive e (dg_id d) then LFG_LOCKSTATUS_NOT_IN_SEASON
      else (case me_AccessRequirement e (dg_map d) (dg_difficulty d) of
              None \<Rightarrow> LFG_LOCKSTATUS_NONE
            | Some ar \<Rightarrow> access_lock p ar))"

definition lock_dungeon :: "mgr_env \<Rightarrow> lfg_mgr \<Rightarrow> lfg_char \<Rightarrow> u8 \<Rightarrow> u32 \<Rightarrow> lock_map \<Rightarrow> lock_map" where
  "lock_dungeon e m p level dungeonId lock =
     (case GetLFGDungeon m dungeonId of
        None \<Rightarrow> lock
      | Some d \<Rightarrow>
          let lockData = dungeon_lock e p level d
          in if lockData = LFG_LOCKSTATUS_NONE then lock
             else om_set (dg_Entry d) \<lparr>ld_locktyp = lockData, ld_neededItemlevel = ucast (dg_neededILevel d),
                    ld_averageItemlevel = word_of_int \<lfloor>ch_AverageItemLevel p\<rfloor>\<rparr> lock)"

text \<open>\<open>level\<close> 0 stands for the level of the player.\<close>

definition InitializeLockedDungeons :: "mgr_env \<Rightarrow> lfg_char \<Rightarrow> u8 \<Rightarrow> lfg_mgr \<Rightarrow> lfg_mgr" where
  "InitializeLockedDungeons e p level m =
     (let level = (if level = 0 then ch_level p else level)
      in SetLockedDungeons (ch_guid p) (fold (lock_dungeon e m p level) (GetDungeonsByRandom m 0) []) m)"

section \<open>Loading the dungeons\<close>

record lfg_entrance =
  en_dungeonId :: u32
  en_atOrigin :: bool
  en_neededILevel :: u16

definition load_dungeon :: "LFGDungeonData \<Rightarrow> (u32, LFGDungeonData) omap \<Rightarrow> (u32, LFGDungeonData) omap" where
  "load_dungeon d store =
     (if dg_type d = LFG_TYPE_DUNGEON \<or> dg_type d = LFG_TYPE_RAID \<or> dg_type d = LFG_TYPE_RANDOM
      then (case om_find store (dg_id d) of None \<Rightarrow> om_set (dg_id d) d store | Some _ \<Rightarrow> store) else store)"

definition load_entrance :: "lfg_entrance \<Rightarrow> (u32, LFGDungeonData) omap \<times> u32 list \<Rightarrow> (u32, LFGDungeonData) omap \<times> u32 list" where
  "load_entrance r st =
     (case st of (store, placed) \<Rightarrow>
      case om_find store (en_dungeonId r) of
        None \<Rightarrow> (store, placed)
      | Some d \<Rightarrow> (om_set (en_dungeonId r) (d\<lparr>dg_neededILevel := en_neededILevel r\<rparr>) store,
                   if en_atOrigin r then removeAll (en_dungeonId r) placed else en_dungeonId r # placed))"

definition cache_insert :: "u8 \<Rightarrow> u32 \<Rightarrow> lfg_mgr \<Rightarrow> lfg_mgr" where
  "cache_insert grp dungeonId m = m\<lparr>CachedDungeonMapStore := om_modify [] grp (insort_insert dungeonId) (CachedDungeonMapStore m)\<rparr>"

text \<open>
  The entrance of a dungeon without coordinates is looked up, a dungeon without any is skipped, every other one is
  put into the cache under its kind and under 0.
\<close>

definition cache_dungeon :: "(u16 \<Rightarrow> u16 option) \<Rightarrow> u32 list \<Rightarrow> u32 \<times> LFGDungeonData \<Rightarrow> lfg_mgr \<Rightarrow> lfg_mgr" where
  "cache_dungeon entranceMap placed x m =
     (let d = snd x;
          fill = (\<lambda>d m.
            let m = m\<lparr>LfgDungeonStore := om_set (fst x) d (LfgDungeonStore m)\<rparr>;
                m = (if dg_type d \<noteq> LFG_TYPE_RANDOM then
                       let m = cache_insert (dg_group d) (dg_id d) m
                       in if dg_id d = 435 \<or> dg_id d = 437 \<or> dg_id d = 439 then cache_insert 33 (dg_id d) m else m
                     else m)
            in cache_insert 0 (dg_id d) m)
      in if dg_type d \<noteq> LFG_TYPE_RANDOM \<and> fst x \<notin> set placed then
           (case entranceMap (dg_map d) of None \<Rightarrow> m | Some mapId \<Rightarrow> fill (d\<lparr>dg_map := mapId\<rparr>) m)
         else fill d m)"

definition LoadLFGDungeons :: "mgr_env \<Rightarrow> LFGDungeonData list \<Rightarrow> lfg_entrance list \<Rightarrow> (u16 \<Rightarrow> u16 option) \<Rightarrow> bool \<Rightarrow> lfg_mgr \<Rightarrow> lfg_mgr" where
  "LoadLFGDungeons e dbc entrances entranceMap reload m =
     (let store = fold load_dungeon dbc [] in
      if entrances = [] then m\<lparr>LfgDungeonStore := store\<rparr>
      else
        let (store, placed) = fold load_entrance entrances (store, []);
            m = fold (cache_dungeon entranceMap placed) store (m\<lparr>LfgDungeonStore := store\<rparr>)
        in if reload then
             fold (\<lambda>x m. case me_FindPlayer e (fst x) of None \<Rightarrow> m | Some p \<Rightarrow> InitializeLockedDungeons e p 0 m)
               (PlayersStore m) (m\<lparr>CachedDungeonMapStore := []\<rparr>)
           else m)"

section \<open>Rewards\<close>

text \<open>\<^verbatim>\<open>std::multimap::insert\<close>: behind the entries with the same key.\<close>

fun mm_insert :: "'k::linorder \<Rightarrow> 'v \<Rightarrow> ('k \<times> 'v) list \<Rightarrow> ('k \<times> 'v) list" where
  "mm_insert k v [] = [(k, v)]"
| "mm_insert k v (x # xs) = (if fst x \<le> k then x # mm_insert k v xs else (k, v) # x # xs)"

record lfg_reward_row =
  rr_dungeonId :: u32
  rr_maxLevel :: u8
  rr_firstQuestId :: u32
  rr_otherQuestId :: u32

definition load_reward :: "mgr_env \<Rightarrow> lfg_mgr \<Rightarrow> lfg_reward_row \<Rightarrow> (u32 \<times> LfgReward) list \<Rightarrow> (u32 \<times> LfgReward) list" where
  "load_reward e m r store =
     (if GetLFGDungeonEntry m (rr_dungeonId r) = 0 then store
      else
        let maxLevel = ucast (rr_maxLevel r);
            maxLevel = (if maxLevel = 0 \<or> maxLevel > me_MaxPlayerLevel e then me_MaxPlayerLevel e else maxLevel)
        in if rr_firstQuestId r = 0 \<or> \<not> me_HasQuest e (rr_firstQuestId r) then store
           else
             let otherQuestId = (if rr_otherQuestId r \<noteq> 0 \<and> \<not> me_HasQuest e (rr_otherQuestId r) then 0 else rr_otherQuestId r)
             in mm_insert (rr_dungeonId r) \<lparr>rw_maxLevel = maxLevel, rw_firstQuest = rr_firstQuestId r, rw_otherQuest = otherQuestId\<rparr> store)"

definition LoadRewards :: "mgr_env \<Rightarrow> lfg_reward_row list \<Rightarrow> lfg_mgr \<Rightarrow> lfg_mgr" where
  "LoadRewards e rows m = m\<lparr>RewardMapStore := fold (load_reward e m) rows []\<rparr>"

text \<open>The loop over the rewards of a dungeon: the first one for the level, otherwise the last one.\<close>

fun pick_reward :: "u8 \<Rightarrow> LfgReward list \<Rightarrow> LfgReward option \<Rightarrow> LfgReward option" where
  "pick_reward level [] rew = rew"
| "pick_reward level (r # rs) rew = (if rw_maxLevel r \<ge> ucast level then Some r else pick_reward level rs (Some r))"

definition GetRandomDungeonReward :: "lfg_mgr \<Rightarrow> u32 \<Rightarrow> u8 \<Rightarrow> LfgReward option" where
  "GetRandomDungeonReward m dungeon level =
     pick_reward level (map snd (filter (\<lambda>x. fst x = dungeon AND 0x00FFFFFF) (RewardMapStore m))) None"

section \<open>The end of a dungeon\<close>

definition LFG_CALL_TO_ARMS_QUEST :: u32 where "LFG_CALL_TO_ARMS_QUEST = 29339"

text \<open>
  The reward of one player who is there.  \<open>None\<close> is the missing template of the call-to-arms quest, which the
  code dereferences.
\<close>

definition give_reward :: "mgr_env \<Rightarrow> guid \<Rightarrow> lfg_char \<Rightarrow> u32 \<Rightarrow> LFGDungeonData \<Rightarrow> LfgReward \<Rightarrow> lfg_mgr \<Rightarrow> lfg_mgr option" where
  "give_reward e gguid p rDungeonId dungeon reward m =
     (let guid = ch_guid p;
          first = rw_firstQuest reward;
          forceValor = (dg_type dungeon = LFG_TYPE_RANDOM \<and> dg_difficulty dungeon = 1 \<and> ch_ValorOnWeek p < 1000);
          done = \<not> (forceValor \<or> ch_CanRewardQuest p first);
          quest = (if done then rw_otherQuest reward else first)
      in if \<not> me_HasQuest e first \<or> \<not> me_HasQuest e quest then Some m
         else
           let m = emit (RewardQuest guid quest) m;
               tmpRole = (case me_PlayerGroup e guid of None \<Rightarrow> 0 | Some g \<Rightarrow> gr_LfgRoles g guid);
               bonus = (IsCallToArmEligible (ucast (ch_level p)) (rDungeonId AND 0x00FFFFFF) \<and> has_flag (ch_CallToArmsTempRoles p) tmpRole)
           in if bonus \<and> \<not> me_HasQuest e LFG_CALL_TO_ARMS_QUEST then None
              else
                let m = (if bonus then emit (RewardQuest guid LFG_CALL_TO_ARMS_QUEST) m else m);
                    m = emit (ClearCallToArmsRoles guid) m
                in Some (emit (SendPlayerReward guid (dg_Entry dungeon) (GetDungeon e m False gguid) done quest) m))"

definition finish_player :: "mgr_env \<Rightarrow> guid \<Rightarrow> bool \<Rightarrow> u32 \<Rightarrow> guid \<Rightarrow> lfg_mgr \<Rightarrow> lfg_mgr option" where
  "finish_player e gguid skip doneId guid m =
     (if GetState e m guid = LFG_STATE_FINISHED_DUNGEON then Some m
      else
        let rDungeonId = (case GetSelectedDungeons m guid of [] \<Rightarrow> 0 | r # _ \<Rightarrow> r);
            m = SetState e guid LFG_STATE_FINISHED_DUNGEON m
        in case GetLFGDungeon m rDungeonId of
             None \<Rightarrow> Some m
           | Some dungeon \<Rightarrow>
               if \<not> skip \<and> dg_type dungeon \<noteq> LFG_TYPE_RANDOM \<and> \<not> dg_seasonal dungeon then Some m
               else case me_FindPlayer e guid of
                 None \<Rightarrow> Some m
               | Some p \<Rightarrow>
                   let mapId = (case GetLFGDungeon m doneId of None \<Rightarrow> 0 | Some d \<Rightarrow> ucast (dg_map d)) in
                   if \<not> ch_IsInWorld p \<or> ch_MapId p \<noteq> mapId then Some m
                   else
                     let m = (if dg_difficulty dungeon = 1 then emit (UpdateLfdCriteria guid) m else m)
                     in case GetRandomDungeonReward m rDungeonId (ch_level p) of
                          None \<Rightarrow> Some m
                        | Some reward \<Rightarrow> give_reward e gguid p rDungeonId dungeon reward m)"

fun finish_players :: "mgr_env \<Rightarrow> guid \<Rightarrow> bool \<Rightarrow> u32 \<Rightarrow> guid list \<Rightarrow> lfg_mgr \<Rightarrow> lfg_mgr option" where
  "finish_players e gguid skip doneId [] m = Some m"
| "finish_players e gguid skip doneId (guid # guids) m =
     do { m \<leftarrow> finish_player e gguid skip doneId guid m; finish_players e gguid skip doneId guids m }"

text \<open>The raid with several dungeons: a member on its map is enough.\<close>

definition raid_finder_map :: "mgr_env \<Rightarrow> lfg_mgr \<Rightarrow> guid \<Rightarrow> bool" where
  "raid_finder_map e m gguid \<longleftrightarrow>
     (GetDungeon e m True gguid = 416 \<or> GetDungeon e m True gguid = 417) \<and>
     list_ex (\<lambda>g. case me_FindPlayer e g of None \<Rightarrow> False | Some p \<Rightarrow> ch_MapId p = 967) (GetPlayers e m gguid)"

definition FinishDungeon :: "mgr_env \<Rightarrow> guid \<Rightarrow> u32 \<Rightarrow> lfg_mgr \<Rightarrow> lfg_mgr option" where
  "FinishDungeon e gguid dungeonId m =
     (let m = touch_group e gguid m;
          gDungeonId = GetDungeon e m True gguid;
          skip = raid_finder_map e m gguid
      in if \<not> skip \<and> gDungeonId \<noteq> dungeonId then Some m
         else if GetState e m gguid = LFG_STATE_FINISHED_DUNGEON then Some m
         else
           let m = SetState e gguid LFG_STATE_FINISHED_DUNGEON m
           in finish_players e gguid skip (if skip then gDungeonId else dungeonId) (GetPlayers e m gguid) m)"

end
