(* ===== verification/LfgScripts.thy ===== *)
theory LfgScripts
  imports LfgMgr LfgRewards
begin

text \<open>
  The callbacks through which the rest of the server drives the dungeon finder
  (\<^verbatim>\<open>src/server/game/DungeonFinding/LFGScripts.cpp\<close>) with the operations of \<^verbatim>\<open>LFGMgr.cpp\<close> they use, and the
  manager as a state machine: its steps are all operations and callbacks, with any arguments, in any order.
\<close>

section \<open>Data kept in step with groups\<close>

definition RemovePlayerData :: "guid \<Rightarrow> lfg_mgr \<Rightarrow> lfg_mgr" where
  "RemovePlayerData guid m = m\<lparr>PlayersStore := om_erase guid (PlayersStore m)\<rparr>"

definition orphan_player :: "mgr_env \<Rightarrow> LfgState \<Rightarrow> guid \<Rightarrow> lfg_mgr \<Rightarrow> lfg_mgr" where
  "orphan_player e state guid m =
     (let m = SetGroup guid 0 m in
      if state \<noteq> LFG_STATE_PROPOSAL then
        send_to e guid (SendUpdateStatus guid (update_data LFG_UPDATETYPE_REMOVED_FROM_QUEUE) True) (SetState e guid LFG_STATE_NONE m)
      else m)"

definition erase_group :: "guid \<Rightarrow> lfg_mgr \<Rightarrow> lfg_mgr" where
  "erase_group gguid m = m\<lparr>GroupsStore := om_erase gguid (GroupsStore m)\<rparr>"

definition RemoveGroupData :: "mgr_env \<Rightarrow> guid \<Rightarrow> lfg_mgr \<Rightarrow> lfg_mgr" where
  "RemoveGroupData e gguid m =
     (case om_find (GroupsStore m) gguid of
        None \<Rightarrow> m
      | Some d \<Rightarrow> erase_group gguid (fold (orphan_player e (GetState e m gguid)) (gd_Players d) m))"

definition SetupGroupMember :: "mgr_env \<Rightarrow> guid \<Rightarrow> guid \<Rightarrow> lfg_mgr \<Rightarrow> lfg_mgr" where
  "SetupGroupMember e guid gguid m =
     (let m = touch_entry e gguid (touch_group e gguid m);
          m = SetSelectedDungeons guid [GetDungeon e m True gguid] m;
          m = SetState e guid (GetState e m gguid) m
      in AddPlayerToGroup e gguid guid (SetGroup guid gguid m))"

text \<open>The row of a group: its leader, the entry of its dungeon and its state, of which only two are taken.\<close>

definition MAKE_PLAYER_GUID :: "u32 \<Rightarrow> guid" where
  "MAKE_PLAYER_GUID low = ucast low"

definition LoadFromDB_lfg :: "mgr_env \<Rightarrow> guid \<Rightarrow> u32 \<Rightarrow> u32 \<Rightarrow> u8 \<Rightarrow> lfg_mgr \<Rightarrow> lfg_mgr" where
  "LoadFromDB_lfg e guid leader dungeon state m =
     (if \<not> IS_GROUP_GUID guid then m
      else
        let m = SetLeader e guid (MAKE_PLAYER_GUID leader) m in
        if dungeon = 0 \<or> state = 0 then m
        else
          let m = SetDungeon e guid dungeon m in
          if state = 5 then SetState e guid LFG_STATE_DUNGEON m
          else if state = 6 then SetState e guid LFG_STATE_FINISHED_DUNGEON m
          else m)"

section \<open>Callbacks of players\<close>

definition OnLevelChanged :: "mgr_env \<Rightarrow> lfg_char \<Rightarrow> lfg_mgr \<Rightarrow> lfg_mgr" where
  "OnLevelChanged e p m = (if \<not> lfg_enabled m then m else InitializeLockedDungeons e p 0 m)"

definition OnLogout :: "mgr_env \<Rightarrow> lfg_char \<Rightarrow> lfg_mgr \<Rightarrow> lfg_mgr option" where
  "OnLogout e p m =
     (if \<not> lfg_enabled m then Some m
      else case me_PlayerGroup e (ch_guid p) of
        None \<Rightarrow> LeaveLfg e (ch_guid p) False (emit (SendLfrList (ch_guid p) False) m)
      | Some _ \<Rightarrow> if ch_Disconnected p then LeaveLfg e (ch_guid p) True m else Some m)"

definition OnLogin :: "mgr_env \<Rightarrow> lfg_char \<Rightarrow> lfg_mgr \<Rightarrow> lfg_mgr" where
  "OnLogin e p m =
     (if \<not> lfg_enabled m then m
      else
        let guid = ch_guid p;
            m = (case me_PlayerGroup e guid of
                   None \<Rightarrow> m
                 | Some g \<Rightarrow> if GetGroup m guid \<noteq> gr_guid g then SetupGroupMember e guid (gr_guid g) m else m)
        in SetTeam e guid (ucast (ch_Team p)) (InitializeLockedDungeons e p 0 m))"

definition OnBindToInstance :: "mgr_env \<Rightarrow> lfg_char \<Rightarrow> u32 \<Rightarrow> bool \<Rightarrow> lfg_mgr \<Rightarrow> lfg_mgr" where
  "OnBindToInstance e p difficulty isDungeon m =
     (if isDungeon \<and> difficulty > 0 then InitializeLockedDungeons e p 0 m else m)"

definition OnMapChanged :: "mgr_env \<Rightarrow> lfg_char \<Rightarrow> lfg_mgr \<Rightarrow> lfg_mgr option" where
  "OnMapChanged e p m =
     (let guid = ch_guid p;
          m = touch_group e (if IS_GROUP_GUID guid then guid else GetGroup m guid) m
      in if inLfgDungeonMap e m guid (ch_MapId p) (ch_MapDifficulty p) then
           (case me_PlayerGroup e guid of
              None \<Rightarrow>
                do { m \<leftarrow> LeaveLfg e guid False m;
                     Some (emit (TeleportHome guid) (emit (RemoveAuras guid LFG_SPELL_LUCK_OF_THE_DRAW) m)) }
            | Some g \<Rightarrow>
                let m = fold (\<lambda>mem m. case mem of None \<Rightarrow> m | Some q \<Rightarrow> emit (SendNameQuery guid (ch_guid q)) m) (gr_members g) m
                in Some (if selectedRandomLfgDungeon e m guid then emit (CastSpell guid LFG_SPELL_LUCK_OF_THE_DRAW) m else m))
         else Some (emit (RemoveAuras guid LFG_SPELL_LUCK_OF_THE_DRAW) m))"

section \<open>Callbacks of groups\<close>

datatype RemoveMethod = GROUP_REMOVEMETHOD_DEFAULT | GROUP_REMOVEMETHOD_KICK | GROUP_REMOVEMETHOD_LEAVE | GROUP_REMOVEMETHOD_KICK_LFG

definition OnAddMember :: "mgr_env \<Rightarrow> lfg_group \<Rightarrow> guid \<Rightarrow> lfg_mgr \<Rightarrow> lfg_mgr option" where
  "OnAddMember e grp guid m =
     (if \<not> lfg_enabled m then Some m
      else
        let gguid = gr_guid grp in
        do { m \<leftarrow> (if gr_leader grp = guid then Some (SetLeader e gguid guid m)
                  else
                    let m = touch_entry e guid (touch_entry e gguid m);
                        gstate = GetState e m gguid;
                        state = GetState e m guid
                    in do { m \<leftarrow> (if state = LFG_STATE_QUEUED then LeaveLfg e guid False m else Some m);
                            if gstate = LFG_STATE_QUEUED then LeaveLfg e gguid False m else Some m });
             Some (AddPlayerToGroup e gguid guid (SetGroup guid gguid m)) })"

text \<open>
  \<^verbatim>\<open>strlen(reason)\<close> of a missing reason is undefined: \<open>None\<close>.  The lookup of the name of a kicked player for the
  message to the kicker, which may end the callback early, is left to the session.
\<close>

definition OnRemoveMember :: "mgr_env \<Rightarrow> lfg_group \<Rightarrow> guid \<Rightarrow> RemoveMethod \<Rightarrow> guid \<Rightarrow> string option \<Rightarrow> lfg_mgr \<Rightarrow> lfg_mgr option" where
  "OnRemoveMember e grp guid method kicker reason m =
     (if \<not> lfg_enabled m then Some m
      else
        let gguid = gr_guid grp; isLFG = gr_isLFG grp in
        if isLFG \<and> method = GROUP_REMOVEMETHOD_KICK then
          (case reason of
             None \<Rightarrow> None
           | Some r \<Rightarrow> Some (if r \<noteq> [] then InitBoot e gguid kicker guid r m else send_to e kicker (SendKickReasonNeeded kicker guid) m))
        else
          let m = touch_entry e gguid m;
              state = GetState e m gguid
          in if state = LFG_STATE_PROPOSAL \<and> method = GROUP_REMOVEMETHOD_DEFAULT then
               Some (snd (RemovePlayerFromGroup e gguid guid (SetGroup guid 0 m)))
             else
               do { m \<leftarrow> LeaveLfg e guid False m;
                    let (players, m) = RemovePlayerFromGroup e gguid guid (SetGroup guid 0 m);
                        m = (case me_FindPlayer e guid of
                               None \<Rightarrow> m
                             | Some p \<Rightarrow>
                                 let m = (if method = GROUP_REMOVEMETHOD_LEAVE \<and> state = LFG_STATE_DUNGEON
                                             \<and> unat players \<ge> LFG_GROUP_KICK_VOTES_NEEDED
                                          then emit (CastSpell guid LFG_SPELL_DUNGEON_DESERTER) m else m);
                                     m = emit (SendUpdateStatus guid (update_data LFG_UPDATETYPE_LEADER_UNK1) True) m
                                 in if isLFG \<and> ch_MapIsDungeon p then emit (TeleportOut guid) m else m);
                        leader = GetLeader e m gguid
                    in Some (if isLFG \<and> state \<noteq> LFG_STATE_FINISHED_DUNGEON
                             then send_to e leader (SendOfferContinue leader (GetDungeon e m False gguid)) m else m) })"

definition OnDisband :: "mgr_env \<Rightarrow> lfg_group \<Rightarrow> lfg_mgr \<Rightarrow> lfg_mgr" where
  "OnDisband e grp m = (if \<not> lfg_enabled m then m else RemoveGroupData e (gr_guid grp) m)"

definition OnChangeLeader :: "mgr_env \<Rightarrow> lfg_group \<Rightarrow> guid \<Rightarrow> lfg_mgr \<Rightarrow> lfg_mgr" where
  "OnChangeLeader e grp newLeader m = (if \<not> lfg_enabled m then m else SetLeader e (gr_guid grp) newLeader m)"

definition OnInviteMember :: "mgr_env \<Rightarrow> lfg_group \<Rightarrow> lfg_mgr \<Rightarrow> lfg_mgr option" where
  "OnInviteMember e grp m =
     (if \<not> lfg_enabled m then Some m
      else if gr_leader grp \<noteq> 0 \<and> gr_guid grp = 0 then LeaveLfg e (gr_leader grp) False m else Some m)"

section \<open>Debugging and the comment packet\<close>

text \<open>
  \<^verbatim>\<open>Clean\<close> and \<^verbatim>\<open>SetOptions\<close> are called by the commands for game masters; the comment packet stores its text
  for the player of the session.
\<close>

definition Clean :: "lfg_mgr \<Rightarrow> lfg_mgr" where
  "Clean m = m\<lparr>QueuesStore := []\<rparr>"

definition SetOptions :: "u32 \<Rightarrow> lfg_mgr \<Rightarrow> lfg_mgr" where
  "SetOptions options m = m\<lparr>m_options := options\<rparr>"

definition HandleLfgSetCommentOpcode :: "guid \<Rightarrow> string \<Rightarrow> lfg_mgr \<Rightarrow> lfg_mgr" where
  "HandleLfgSetCommentOpcode guid comment m = SetComment guid comment m"

section \<open>The manager as a state machine\<close>

datatype lfg_event =
    Ev_Load "LFGDungeonData list" "lfg_entrance list" "u16 \<Rightarrow> u16 option" bool
  | Ev_LoadRewards "lfg_reward_row list"
  | Ev_LoadGroup guid u32 u32 u8
  | Ev_Join lfg_char "lfg_group option" u8 "u32 list" string
  | Ev_Leave guid bool
  | Ev_Role guid guid u8
  | Ev_Answer u32 guid bool
  | Ev_Vote guid bool
  | Ev_Update u32
  | Ev_Finish guid u32
  | Ev_Created guid
  | Ev_Formed guid LFGDungeonData
  | Ev_Level lfg_char
  | Ev_Logout lfg_char
  | Ev_Login lfg_char
  | Ev_Bind lfg_char u32 bool
  | Ev_Map lfg_char
  | Ev_AddMember lfg_group guid
  | Ev_RemoveMember lfg_group guid RemoveMethod guid "string option"
  | Ev_Disband lfg_group
  | Ev_Leader lfg_group guid
  | Ev_Invite lfg_group
  | Ev_RemovePlayer guid
  | Ev_Clean
  | Ev_Options u32
  | Ev_Comment guid string

fun lfg_handle :: "mgr_env \<Rightarrow> lfg_event \<Rightarrow> lfg_mgr \<Rightarrow> lfg_mgr option" where
  "lfg_handle e (Ev_Load dbc entrances entranceMap reload) m = Some (LoadLFGDungeons e dbc entrances entranceMap reload m)"
| "lfg_handle e (Ev_LoadRewards rows) m = Some (LoadRewards e rows m)"
| "lfg_handle e (Ev_LoadGroup guid leader dungeon state) m = Some (LoadFromDB_lfg e guid leader dungeon state m)"
| "lfg_handle e (Ev_Join p grp roles dungeons comment) m = Some (JoinLfg e p grp roles dungeons comment m)"
| "lfg_handle e (Ev_Leave guid disconnected) m = LeaveLfg e guid disconnected m"
| "lfg_handle e (Ev_Role gguid guid roles) m = Some (UpdateRoleCheck e gguid guid roles m)"
| "lfg_handle e (Ev_Answer pid guid accept) m = UpdateProposal e pid guid accept m"
| "lfg_handle e (Ev_Vote guid accept) m = Some (UpdateBoot e guid accept m)"
| "lfg_handle e (Ev_Update diff) m = Update e diff m"
| "lfg_handle e (Ev_Finish gguid dungeonId) m = FinishDungeon e gguid dungeonId m"
| "lfg_handle e (Ev_Created gguid) m = Some (group_created e gguid m)"
| "lfg_handle e (Ev_Formed gguid d) m = Some (group_formed e gguid d m)"
| "lfg_handle e (Ev_Level p) m = Some (OnLevelChanged e p m)"
| "lfg_handle e (Ev_Logout p) m = OnLogout e p m"
| "lfg_handle e (Ev_Login p) m = Some (OnLogin e p m)"
| "lfg_handle e (Ev_Bind p difficulty isDungeon) m = Some (OnBindToInstance e p difficulty isDungeon m)"
| "lfg_handle e (Ev_Map p) m = OnMapChanged e p m"
| "lfg_handle e (Ev_AddMember grp guid) m = OnAddMember e grp guid m"
| "lfg_handle e (Ev_RemoveMember grp guid method kicker reason) m = OnRemoveMember e grp guid method kicker reason m"
| "lfg_handle e (Ev_Disband grp) m = Some (OnDisband e grp m)"
| "lfg_handle e (Ev_Leader grp newLeader) m = Some (OnChangeLeader e grp newLeader m)"
| "lfg_handle e (Ev_Invite grp) m = OnInviteMember e grp m"
| "lfg_handle e (Ev_RemovePlayer guid) m = Some (RemovePlayerData guid m)"
| "lfg_handle e Ev_Clean m = Some (Clean m)"
| "lfg_handle e (Ev_Options options) m = Some (SetOptions options m)"
| "lfg_handle e (Ev_Comment guid comment) m = Some (HandleLfgSetCommentOpcode guid comment m)"

text \<open>Each event comes with the world it happens in.\<close>

inductive lfg_step :: "lfg_mgr \<Rightarrow> mgr_env \<times> lfg_event \<Rightarrow> lfg_mgr \<Rightarrow> bool" where
  handled: "lfg_handle e ev m = Some m' \<Longrightarrow> lfg_step m (e, ev) m'"

inductive_simps lfg_step_iff: "lfg_step m (e, ev) m'"

definition lfg_initial :: "lfg_mgr \<Rightarrow> bool" where
  "lfg_initial m \<longleftrightarrow> (\<exists>options. m = new_LFGMgr options)"

end
