(* ===== verification/LfgMgrInv.thy ===== *)
theory LfgMgrInv
  imports LfgScripts
begin

text \<open>
  Invariants of the dungeon finder manager.  The stores of players, groups and votes change only through a few
  primitive steps; the locale \<open>entry_invariant\<close> lists them and lifts a predicate they keep to every operation
  and callback.  It is interpreted for the data of players and for the data of groups with the votes.
  The role checks and proposals that are stored are treated after that.
\<close>

section \<open>What a primitive step leaves alone\<close>

lemma emit_frame [simp]:
  "QueuesStore (emit x m) = QueuesStore m" "LfgDungeonStore (emit x m) = LfgDungeonStore m"
  "RoleChecksStore (emit x m) = RoleChecksStore m" "BootsStore (emit x m) = BootsStore m"
  "PlayersStore (emit x m) = PlayersStore m" "GroupsStore (emit x m) = GroupsStore m" "shared (emit x m) = shared m"
  by (simp_all add: emit_def)

lemma send_to_frame [simp]:
  "QueuesStore (send_to e g x m) = QueuesStore m" "LfgDungeonStore (send_to e g x m) = LfgDungeonStore m"
  "RoleChecksStore (send_to e g x m) = RoleChecksStore m" "BootsStore (send_to e g x m) = BootsStore m"
  "PlayersStore (send_to e g x m) = PlayersStore m" "GroupsStore (send_to e g x m) = GroupsStore m"
  "shared (send_to e g x m) = shared m"
  by (simp_all add: send_to_def split: option.splits)

lemma on_player_frame [simp]:
  "QueuesStore (on_player g f m) = QueuesStore m" "LfgDungeonStore (on_player g f m) = LfgDungeonStore m"
  "RoleChecksStore (on_player g f m) = RoleChecksStore m" "BootsStore (on_player g f m) = BootsStore m"
  "GroupsStore (on_player g f m) = GroupsStore m" "shared (on_player g f m) = shared m"
  by (simp_all add: on_player_def)

lemma on_group_frame [simp]:
  "QueuesStore (on_group e g f m) = QueuesStore m" "LfgDungeonStore (on_group e g f m) = LfgDungeonStore m"
  "RoleChecksStore (on_group e g f m) = RoleChecksStore m" "BootsStore (on_group e g f m) = BootsStore m"
  "PlayersStore (on_group e g f m) = PlayersStore m" "shared (on_group e g f m) = shared m"
  by (simp_all add: on_group_def)

lemma on_queue_frame [simp]:
  "LfgDungeonStore (on_queue k f m) = LfgDungeonStore m" "RoleChecksStore (on_queue k f m) = RoleChecksStore m"
  "BootsStore (on_queue k f m) = BootsStore m" "PlayersStore (on_queue k f m) = PlayersStore m"
  "GroupsStore (on_queue k f m) = GroupsStore m" "shared (on_queue k f m) = shared m"
  by (simp_all add: on_queue_def)

lemma set_rolecheck_frame [simp]:
  "QueuesStore (set_rolecheck g rc m) = QueuesStore m" "LfgDungeonStore (set_rolecheck g rc m) = LfgDungeonStore m"
  "BootsStore (set_rolecheck g rc m) = BootsStore m" "PlayersStore (set_rolecheck g rc m) = PlayersStore m"
  "GroupsStore (set_rolecheck g rc m) = GroupsStore m" "shared (set_rolecheck g rc m) = shared m"
  by (simp_all add: set_rolecheck_def)

lemma erase_rolecheck_frame [simp]:
  "QueuesStore (erase_rolecheck g m) = QueuesStore m" "LfgDungeonStore (erase_rolecheck g m) = LfgDungeonStore m"
  "BootsStore (erase_rolecheck g m) = BootsStore m" "PlayersStore (erase_rolecheck g m) = PlayersStore m"
  "GroupsStore (erase_rolecheck g m) = GroupsStore m" "shared (erase_rolecheck g m) = shared m"
  by (simp_all add: erase_rolecheck_def)

lemma set_proposal_frame [simp]:
  "QueuesStore (set_proposal pid p m) = QueuesStore m" "LfgDungeonStore (set_proposal pid p m) = LfgDungeonStore m"
  "RoleChecksStore (set_proposal pid p m) = RoleChecksStore m" "BootsStore (set_proposal pid p m) = BootsStore m"
  "PlayersStore (set_proposal pid p m) = PlayersStore m" "GroupsStore (set_proposal pid p m) = GroupsStore m"
  by (simp_all add: set_proposal_def)

lemma erase_proposal_frame [simp]:
  "QueuesStore (erase_proposal pid m) = QueuesStore m" "LfgDungeonStore (erase_proposal pid m) = LfgDungeonStore m"
  "RoleChecksStore (erase_proposal pid m) = RoleChecksStore m" "BootsStore (erase_proposal pid m) = BootsStore m"
  "PlayersStore (erase_proposal pid m) = PlayersStore m" "GroupsStore (erase_proposal pid m) = GroupsStore m"
  by (simp_all add: erase_proposal_def)

lemma set_boot_frame [simp]:
  "QueuesStore (set_boot g b m) = QueuesStore m" "LfgDungeonStore (set_boot g b m) = LfgDungeonStore m"
  "RoleChecksStore (set_boot g b m) = RoleChecksStore m" "PlayersStore (set_boot g b m) = PlayersStore m"
  "GroupsStore (set_boot g b m) = GroupsStore m" "shared (set_boot g b m) = shared m"
  by (simp_all add: set_boot_def)

lemma erase_boot_frame [simp]:
  "QueuesStore (erase_boot g m) = QueuesStore m" "LfgDungeonStore (erase_boot g m) = LfgDungeonStore m"
  "RoleChecksStore (erase_boot g m) = RoleChecksStore m" "PlayersStore (erase_boot g m) = PlayersStore m"
  "GroupsStore (erase_boot g m) = GroupsStore m" "shared (erase_boot g m) = shared m"
  by (simp_all add: erase_boot_def)

lemma SetState_frame [simp]:
  "QueuesStore (SetState e g s m) = QueuesStore m" "LfgDungeonStore (SetState e g s m) = LfgDungeonStore m"
  "RoleChecksStore (SetState e g s m) = RoleChecksStore m" "BootsStore (SetState e g s m) = BootsStore m"
  "shared (SetState e g s m) = shared m"
  by (simp_all add: SetState_def)

lemma RestoreState_frame [simp]:
  "QueuesStore (RestoreState e g m) = QueuesStore m" "LfgDungeonStore (RestoreState e g m) = LfgDungeonStore m"
  "RoleChecksStore (RestoreState e g m) = RoleChecksStore m" "BootsStore (RestoreState e g m) = BootsStore m"
  "shared (RestoreState e g m) = shared m"
  by (simp_all add: RestoreState_def)

lemma touch_entry_frame [simp]:
  "QueuesStore (touch_entry e g m) = QueuesStore m" "LfgDungeonStore (touch_entry e g m) = LfgDungeonStore m"
  "RoleChecksStore (touch_entry e g m) = RoleChecksStore m" "BootsStore (touch_entry e g m) = BootsStore m"
  "shared (touch_entry e g m) = shared m"
  by (simp_all add: touch_entry_def touch_group_def)

lemmas player_setters = SetRoles_def SetComment_def SetSelectedDungeons_def SetLockedDungeons_def SetGroup_def SetTeam_def

lemmas group_setters = SetDungeon_def SetVoteKick_def SetVoteKickCooldown_def DecreaseKicksLeft_def SetLeader_def
  AddPlayerToGroup_def touch_group_def

section \<open>Predicates and the steps that change entries\<close>

text \<open>Changes of an entry that concern neither its state nor what depends on it.\<close>

definition player_detail :: "(LfgPlayerData \<Rightarrow> LfgPlayerData) \<Rightarrow> bool" where
  "player_detail f \<longleftrightarrow> (\<forall>d. pd_State (f d) = pd_State d \<and> pd_OldState (f d) = pd_OldState d \<and> pd_Roles (f d) = pd_Roles d
     \<and> pd_SelectedDungeons (f d) = pd_SelectedDungeons d)"

definition group_detail :: "(LfgGroupData \<Rightarrow> LfgGroupData) \<Rightarrow> bool" where
  "group_detail f \<longleftrightarrow> (\<forall>d. gd_State (f d) = gd_State d \<and> gd_OldState (f d) = gd_OldState d
     \<and> gd_VoteKickActive (f d) = gd_VoteKickActive d \<and> gd_KicksLeft (f d) \<le> gd_KicksLeft d
     \<and> (sorted (gd_Players d) \<and> distinct (gd_Players d) \<longrightarrow> sorted (gd_Players (f d)) \<and> distinct (gd_Players (f d))))"

text \<open>The predicate along the structure of a definition.\<close>

locale mgr_shape =
  fixes I :: "lfg_mgr \<Rightarrow> bool"
begin

lemma fold_keeps: "(\<And>x m. x \<in> set xs \<Longrightarrow> I m \<Longrightarrow> I (f x m)) \<Longrightarrow> I m \<Longrightarrow> I (fold f xs m)"
  by (induction xs arbitrary: m) simp_all

lemma keeps_let: "I t \<Longrightarrow> (\<And>m. I m \<Longrightarrow> I (f m)) \<Longrightarrow> I (Let t f)"
  by (simp add: Let_def)

lemma keeps_let_pair: "I (snd t) \<Longrightarrow> (\<And>a m. I m \<Longrightarrow> I (f a m)) \<Longrightarrow> I (let (a, m) = t in f a m)"
  by (simp add: Let_def case_prod_beta)

lemma keeps_let_value: "(\<And>v. I (f v)) \<Longrightarrow> I (Let t f)"
  by (simp add: Let_def)

lemma keeps_if: "(b \<Longrightarrow> I x) \<Longrightarrow> (\<not> b \<Longrightarrow> I y) \<Longrightarrow> I (if b then x else y)"
  by simp

lemma keeps_option: "(v = None \<Longrightarrow> I a) \<Longrightarrow> (\<And>x. v = Some x \<Longrightarrow> I (f x)) \<Longrightarrow> I (case v of None \<Rightarrow> a | Some x \<Rightarrow> f x)"
  by (cases v) simp_all

lemma keeps_list: "I a \<Longrightarrow> (\<And>x xs. I (f x xs)) \<Longrightarrow> I (case v of [] \<Rightarrow> a | x # xs \<Rightarrow> f x xs)"
  by (cases v) simp_all

lemma keeps_prod: "(\<And>a b. I (f a b)) \<Longrightarrow> I (case v of (a, b) \<Rightarrow> f a b)"
  by (cases v) simp

lemmas shape = keeps_let keeps_let_pair keeps_let_value keeps_if keeps_option keeps_list keeps_prod fold_keeps

abbreviation keeps_opt :: "lfg_mgr option \<Rightarrow> bool" where
  "keeps_opt \<equiv> pred_option I"

lemma opt_Some: "I m \<Longrightarrow> keeps_opt (Some m)" "keeps_opt None"
  by simp_all

lemma opt_let: "I t \<Longrightarrow> (\<And>m. I m \<Longrightarrow> keeps_opt (f m)) \<Longrightarrow> keeps_opt (Let t f)"
  by (simp add: Let_def)

lemma opt_let_pair: "I (snd t) \<Longrightarrow> (\<And>a m. I m \<Longrightarrow> keeps_opt (f a m)) \<Longrightarrow> keeps_opt (let (a, m) = t in f a m)"
  by (simp add: Let_def case_prod_beta)

lemma opt_let_value: "(\<And>v. keeps_opt (f v)) \<Longrightarrow> keeps_opt (Let t f)"
  by (simp add: Let_def)

lemma opt_if: "(b \<Longrightarrow> keeps_opt x) \<Longrightarrow> (\<not> b \<Longrightarrow> keeps_opt y) \<Longrightarrow> keeps_opt (if b then x else y)"
  by simp

lemma opt_option: "keeps_opt a \<Longrightarrow> (\<And>x. keeps_opt (f x)) \<Longrightarrow> keeps_opt (case v of None \<Rightarrow> a | Some x \<Rightarrow> f x)"
  by (cases v) simp_all

lemma opt_bind: "keeps_opt r \<Longrightarrow> (\<And>m. I m \<Longrightarrow> keeps_opt (f m)) \<Longrightarrow> keeps_opt (Option.bind r f)"
  by (cases r) simp_all

lemma opt_list: "keeps_opt a \<Longrightarrow> (\<And>x xs. keeps_opt (f x xs)) \<Longrightarrow> keeps_opt (case v of [] \<Rightarrow> a | x # xs \<Rightarrow> f x xs)"
  by (cases v) simp_all

lemma opt_prod: "(\<And>a b. keeps_opt (f a b)) \<Longrightarrow> keeps_opt (case v of (a, b) \<Rightarrow> f a b)"
  by (cases v) simp

lemmas opt_shape = opt_Some opt_let opt_let_pair opt_let_value opt_if opt_option opt_list opt_prod opt_bind

end

text \<open>
  The primitive steps on players, groups and votes, in the combinations the code uses them in, and what follows for
  the operations made of them.
\<close>

locale entry_steps = mgr_shape +
  assumes unrelated: "I m \<Longrightarrow> PlayersStore m' = PlayersStore m \<Longrightarrow> GroupsStore m' = GroupsStore m \<Longrightarrow> BootsStore m' = BootsStore m
      \<Longrightarrow> RoleChecksStore m' = RoleChecksStore m \<Longrightarrow> shared m' = shared m \<Longrightarrow> I m'"
    and state: "I m \<Longrightarrow> I (SetState e g s m)"
    and restore: "I m \<Longrightarrow> I (RestoreState e g m)"
    and state_roles: "I m \<Longrightarrow> I (SetRoles g r (SetState e g LFG_STATE_QUEUED m))"
    and select_state: "I m \<Longrightarrow> I (SetState e g s (SetSelectedDungeons g ds m))"
    and joined: "I m \<Longrightarrow> I (SetRoles g r (SetState e g LFG_STATE_QUEUED (SetSelectedDungeons g ds m)))"
    and state_select: "I m \<Longrightarrow> I (SetSelectedDungeons g ds (SetState e g LFG_STATE_ROLECHECK m))"
    and player_change: "player_detail f \<Longrightarrow> I m \<Longrightarrow> I (on_player g f m)"
    and group_change: "group_detail h \<Longrightarrow> I m \<Longrightarrow> I (on_group e g h m)"
    and player_gone: "I m \<Longrightarrow> I (RemovePlayerData g m)"
    and group_gone: "I m \<Longrightarrow> I (erase_group g m)"
    and vote_start: "I m \<Longrightarrow> I (set_boot g b (SetVoteKick e g True m))"
    and vote_change: "I m \<Longrightarrow> om_find (BootsStore m) g \<noteq> None \<Longrightarrow> I (set_boot g b m)"
    and vote_end: "I m \<Longrightarrow> I (erase_boot g (SetVoteKick e g False m))"
begin

lemma framed:
  assumes "I m"
  shows "I (emit x m)" "I (send_to e g x m)" "I (on_queue k q m)"
  by (rule unrelated [OF assms]; simp)+

lemma kick_used: "(k :: u8) \<noteq> 0 \<Longrightarrow> k - 1 \<le> k"
  by (simp add: word_le_nat_alt unat_minus_one)

lemma details:
  assumes "I m"
  shows "I (SetComment g c m)" "I (SetLockedDungeons g l m)" "I (SetGroup g h m)" "I (SetTeam e g t m)"
    "I (SetDungeon e g d m)" "I (SetVoteKickCooldown e g t' m)" "I (DecreaseKicksLeft e g m)" "I (SetLeader e g h m)"
    "I (AddPlayerToGroup e g h m)" "I (touch_group e g m)" "I (snd (RemovePlayerFromGroup e g h m))"
  using assms
  by (auto intro!: player_change group_change simp: player_setters group_setters player_detail_def group_detail_def lfg_data_defs
      RemovePlayerFromGroup_def Let_def sorted_insort_insert distinct_insort_insert sorted_remove1 kick_used)

lemma touched: "I m \<Longrightarrow> I (touch_entry e g m)"
  using details(10) player_change [of id] by (auto simp: touch_entry_def player_detail_def)

lemmas primitive = framed details touched state restore state_roles

lemma join_alone_keeps:
  assumes "I m"
  shows "I (join_alone e guid roles r ds jd comment m)"
proof -
  have comm: "SetState e guid s (emit x m) = emit x (SetState e guid s m)" "SetRoles guid roles (emit x m) = emit x (SetRoles guid roles m)"
    "SetSelectedDungeons guid l (on_queue k f m) = on_queue k f (SetSelectedDungeons guid l m)"
    "SetState e guid s (on_queue k f m) = on_queue k f (SetState e guid s m)"
    "SetRoles guid roles (on_queue k f m) = on_queue k f (SetRoles guid roles m)" for s x m l k f
    by (simp_all add: SetState_def SetRoles_def SetSelectedDungeons_def emit_def on_queue_def on_player_def on_group_def)
  show ?thesis
    unfolding join_alone_def Let_def comm by (intro framed joined assms)
qed

lemma leave_queue_keeps: "I m \<Longrightarrow> I (leave_queue e guid gguid m)"
  unfolding leave_queue_def leave_member_def by (intro shape primitive)

lemma tell_voters_keeps: "I m \<Longrightarrow> I (tell_voters e b m)"
  unfolding tell_voters_def by (intro shape framed)

lemma InitBoot_keeps: "I m \<Longrightarrow> I (InitBoot e g k v r m)"
  unfolding InitBoot_def Let_def by (intro fold_keeps framed vote_start)

lemma vote_end_commutes:
  "erase_boot g (SetVoteKickCooldown e g t m) = SetVoteKickCooldown e g t (erase_boot g m)"
  "erase_boot g (DecreaseKicksLeft e g m) = DecreaseKicksLeft e g (erase_boot g m)"
  "erase_boot g (emit x m) = emit x (erase_boot g m)"
  "erase_boot g (if b then m else m2) = (if b then erase_boot g m else erase_boot g m2)"
  "erase_boot g (case v of None \<Rightarrow> m | Some (x :: lfg_group) \<Rightarrow> m2) = (case v of None \<Rightarrow> erase_boot g m | Some x \<Rightarrow> erase_boot g m2)"
  by (simp_all add: erase_boot_def SetVoteKickCooldown_def DecreaseKicksLeft_def emit_def on_group_def split: option.splits)

lemma UpdateBoot_keeps:
  assumes "I m"
  shows "I (UpdateBoot e guid b m)"
proof (cases "om_find (BootsStore m) (GetGroup m guid)")
  case (Some boot)
  define g where "g = GetGroup m guid"
  have set: "I (set_boot g b m)" for b using vote_change [OF assms] Some by (simp add: g_def)
  then have set2: "I (set_boot g b' (set_boot g b m))" for b b'
    by (intro vote_change set) (simp add: set_boot_def om_find_set)
  note voted = vote_end [OF tell_voters_keeps [OF set2]]
  show ?thesis
    using assms unfolding UpdateBoot_def g_def [symmetric] Some [folded g_def]
    by (simp only: Let_def option.case vote_end_commutes)
      (intro keeps_if keeps_option voted details framed set assms)
qed (simp add: UpdateBoot_def Let_def assms)

lemma update_timers_keeps:
  assumes "I m"
  shows "I (update_timers e diff m)"
proof -
  have "I (snd (update_timers_of e k (n, m)))" if "I m" for k n m
    using that unfolding update_timers_of_def by (auto split: prod.splits intro!: fold_keeps framed)
  then have "I (snd (fold (update_timers_of e) ks (n, m)))" if "I m" for ks n m
    using that by (induction ks arbitrary: n m) (simp, metis fold_simps(2) prod.collapse)
  note timers = this
  have m: "I (m\<lparr>m_QueueTimer := t\<rparr>)" for t by (rule unrelated [OF assms]) simp_all
  have roles: "I (m\<lparr>callToArmsRoles := r\<rparr>)" if "I m" for r m by (rule unrelated [OF that]) simp_all
  show ?thesis
    unfolding update_timers_def by (intro shape roles timers m)
qed

subsection \<open>Dungeons and callbacks\<close>

lemma InitializeLockedDungeons_keeps: "I m \<Longrightarrow> I (InitializeLockedDungeons e p l m)"
  unfolding InitializeLockedDungeons_def by (intro shape details)

lemma LoadLFGDungeons_keeps:
  assumes "I m"
  shows "I (LoadLFGDungeons e dbc ens emap reload m)"
proof -
  have [simp]: "PlayersStore (cache_insert k d m) = PlayersStore m" "GroupsStore (cache_insert k d m) = GroupsStore m"
    "BootsStore (cache_insert k d m) = BootsStore m" "RoleChecksStore (cache_insert k d m) = RoleChecksStore m"
    "shared (cache_insert k d m) = shared m" for k d m
    by (simp_all add: cache_insert_def)
  have cache: "I (cache_dungeon emap pl x m)" if "I m" for pl x m
    by (rule unrelated [OF that]) (auto simp: cache_dungeon_def Let_def split: option.splits)
  have store: "I (m\<lparr>LfgDungeonStore := st\<rparr>)" for st by (rule unrelated [OF assms]) simp_all
  have clear: "I (m\<lparr>CachedDungeonMapStore := []\<rparr>)" if "I m" for m by (rule unrelated [OF that]) simp_all
  show ?thesis
    unfolding LoadLFGDungeons_def by (intro shape cache store clear InitializeLockedDungeons_keeps)
qed

lemma give_reward_keeps: "I m \<Longrightarrow> keeps_opt (give_reward e g p r d rew m)"
  unfolding give_reward_def by (intro opt_shape shape framed)

lemma finish_player_keeps: "I m \<Longrightarrow> keeps_opt (finish_player e g b d guid m)"
  unfolding finish_player_def by (intro opt_shape shape primitive give_reward_keeps)

lemma finish_players_keeps: "I m \<Longrightarrow> keeps_opt (finish_players e g b d gs m)"
proof (induction gs arbitrary: m)
  case (Cons x xs)
  then show ?case unfolding finish_players.simps by (intro opt_bind finish_player_keeps)
qed simp

lemma FinishDungeon_keeps: "I m \<Longrightarrow> keeps_opt (FinishDungeon e g d m)"
  unfolding FinishDungeon_def by (intro opt_shape primitive finish_players_keeps)

lemma RemoveGroupData_keeps: "I m \<Longrightarrow> I (RemoveGroupData e g m)"
  unfolding RemoveGroupData_def orphan_player_def by (intro shape group_gone primitive)

lemma SetupGroupMember_keeps: "I m \<Longrightarrow> I (SetupGroupMember e g h m)"
  unfolding SetupGroupMember_def Let_def by (intro details select_state touched)

lemma LoadFromDB_keeps: "I m \<Longrightarrow> I (LoadFromDB_lfg e g l d s m)"
  unfolding LoadFromDB_lfg_def by (intro shape primitive)

lemma LoadRewards_keeps: "I m \<Longrightarrow> I (LoadRewards e rows m)"
  by (rule unrelated) (simp_all add: LoadRewards_def)

lemma OnLevelChanged_keeps: "I m \<Longrightarrow> I (OnLevelChanged e p m)"
  unfolding OnLevelChanged_def by (intro shape InitializeLockedDungeons_keeps)

lemma OnLogin_keeps: "I m \<Longrightarrow> I (OnLogin e p m)"
  unfolding OnLogin_def by (intro shape details InitializeLockedDungeons_keeps SetupGroupMember_keeps)

lemma OnBindToInstance_keeps: "I m \<Longrightarrow> I (OnBindToInstance e p d b m)"
  unfolding OnBindToInstance_def by (intro shape InitializeLockedDungeons_keeps)

lemma OnDisband_keeps: "I m \<Longrightarrow> I (OnDisband e grp m)"
  unfolding OnDisband_def by (intro shape RemoveGroupData_keeps)

lemma OnChangeLeader_keeps: "I m \<Longrightarrow> I (OnChangeLeader e grp g m)"
  unfolding OnChangeLeader_def by (intro shape details)

lemma group_created_keeps: "I m \<Longrightarrow> I (group_created e g m)"
  unfolding group_created_def by (intro shape state)

lemma group_formed_keeps: "I m \<Longrightarrow> I (group_formed e g dg m)"
  unfolding group_formed_def by (intro shape state details)

end

section \<open>Lifting a predicate to all steps\<close>

text \<open>Besides the entries, the operations that change a role check or a proposal as a whole.\<close>

locale mgr_invariant = entry_steps +
  assumes rolecheck_updated: "I m \<Longrightarrow> I (UpdateRoleCheck e gguid guid roles m)"
    and rolecheck_begun: "I m \<Longrightarrow> I (begin_rolecheck e grp guid roles r ds c comment m)"
    and rolecheck_expired: "I m \<Longrightarrow> I (expire_rolecheck e y m)"
    and proposal_removed: "I m \<Longrightarrow> pred_option I (RemoveProposal e pid ty m)"
    and proposal_left: "I m \<Longrightarrow> pred_option I (leave_proposal e guid m)"
    and proposal_answered: "I m \<Longrightarrow> pred_option I (UpdateProposal e pid guid b m)"
    and searched: "I m \<Longrightarrow> I (search_queue e k m)"
begin

lemma JoinLfg_keeps: "I m \<Longrightarrow> I (JoinLfg e p grp roles ds comment m)"
  unfolding JoinLfg_def by (intro shape primitive rolecheck_begun join_alone_keeps)

lemma LeaveLfg_keeps: "I m \<Longrightarrow> keeps_opt (LeaveLfg e guid b m)"
proof -
  have "keeps_opt (case s of LFG_STATE_QUEUED \<Rightarrow> m1 | LFG_STATE_ROLECHECK \<Rightarrow> m2 | LFG_STATE_PROPOSAL \<Rightarrow> m3 | LFG_STATE_NONE \<Rightarrow> m4
      | LFG_STATE_RAIDBROWSER \<Rightarrow> m5 | _ \<Rightarrow> m6)"
    if "keeps_opt m1" "keeps_opt m2" "keeps_opt m3" "keeps_opt m4" "keeps_opt m5" "keeps_opt m6" for s m1 m2 m3 m4 m5 m6
    using that by (cases s) simp_all
  note by_state = this
  show "I m \<Longrightarrow> keeps_opt (LeaveLfg e guid b m)"
    unfolding LeaveLfg_def
    by (intro opt_shape by_state shape primitive leave_queue_keeps rolecheck_updated proposal_left)
qed

lemma expire_proposals_keeps: "I m \<Longrightarrow> keeps_opt (expire_proposals e xs m)"
proof (induction xs arbitrary: m)
  case (Cons x xs)
  then show ?case unfolding expire_proposals.simps expire_proposal_def by (intro opt_bind opt_if opt_Some proposal_removed)
qed simp

lemma expire_keeps: "I m \<Longrightarrow> keeps_opt (expire e m)"
  unfolding expire_def expire_boot_def
  by (intro opt_shape shape rolecheck_expired expire_proposals_keeps vote_end tell_voters_keeps)

lemma announce_proposal_keeps: "I m \<Longrightarrow> keeps_opt (announce_proposal e x m)"
  unfolding announce_proposal_def announce_player_def
  by (intro opt_shape shape primitive proposal_answered)

lemma announce_proposals_keeps: "I m \<Longrightarrow> keeps_opt (announce_proposals e xs m)"
proof (induction xs arbitrary: m)
  case (Cons x xs)
  then show ?case unfolding announce_proposals.simps by (intro opt_bind announce_proposal_keeps)
qed simp

lemma whole_Update_keeps: "I m \<Longrightarrow> keeps_opt (Update e diff m)"
  unfolding Update_def announce_new_def
  by (intro opt_shape shape update_timers_keeps searched announce_proposals_keeps expire_keeps)

lemma OnMapChanged_keeps: "I m \<Longrightarrow> keeps_opt (OnMapChanged e p m)"
  unfolding OnMapChanged_def by (intro opt_shape shape framed LeaveLfg_keeps details)

lemma OnAddMember_keeps: "I m \<Longrightarrow> keeps_opt (OnAddMember e grp g m)"
  unfolding OnAddMember_def by (intro opt_shape shape primitive LeaveLfg_keeps)

lemma OnRemoveMember_keeps: "I m \<Longrightarrow> keeps_opt (OnRemoveMember e grp g meth k r m)"
  unfolding OnRemoveMember_def by (intro opt_shape shape primitive InitBoot_keeps LeaveLfg_keeps)

lemma OnLogout_keeps: "I m \<Longrightarrow> keeps_opt (OnLogout e p m)"
  unfolding OnLogout_def by (intro opt_shape framed LeaveLfg_keeps)

lemma OnInviteMember_keeps: "I m \<Longrightarrow> keeps_opt (OnInviteMember e grp m)"
  unfolding OnInviteMember_def by (intro opt_shape LeaveLfg_keeps)

lemma debug_keeps: "I m \<Longrightarrow> I (Clean m)" "I m \<Longrightarrow> I (SetOptions options m)" "I m \<Longrightarrow> I (HandleLfgSetCommentOpcode g c m)"
proof -
  show "I m \<Longrightarrow> I (Clean m)" by (erule unrelated) (simp_all add: Clean_def)
  show "I m \<Longrightarrow> I (SetOptions options m)" by (erule unrelated) (simp_all add: SetOptions_def)
  show "I m \<Longrightarrow> I (HandleLfgSetCommentOpcode g c m)" by (simp add: HandleLfgSetCommentOpcode_def details)
qed

lemmas callbacks_keep = OnLevelChanged_keeps OnLogout_keeps OnLogin_keeps OnBindToInstance_keeps OnDisband_keeps
  OnChangeLeader_keeps OnInviteMember_keeps group_created_keeps group_formed_keeps LoadRewards_keeps LoadLFGDungeons_keeps
  LoadFromDB_keeps OnMapChanged_keeps OnAddMember_keeps OnRemoveMember_keeps debug_keeps

lemma handle_keeps: "I m \<Longrightarrow> keeps_opt (lfg_handle e ev m)"
  by (cases ev; simp only: lfg_handle.simps)
    (intro opt_Some callbacks_keep JoinLfg_keeps LeaveLfg_keeps rolecheck_updated proposal_answered UpdateBoot_keeps whole_Update_keeps
      FinishDungeon_keeps player_gone; assumption)+

lemma step_keeps: "I m \<Longrightarrow> lfg_step m x m' \<Longrightarrow> I m'"
proof (cases x)
  case (Pair e ev)
  moreover assume "I m" "lfg_step m x m'"
  ultimately show ?thesis using handle_keeps [of m e ev] by (simp add: lfg_step_iff)
qed

end

text \<open>A predicate that only depends on players, groups and votes.\<close>

locale entry_invariant = entry_steps +
  assumes entries_only: "I m \<Longrightarrow> PlayersStore m' = PlayersStore m \<Longrightarrow> GroupsStore m' = GroupsStore m \<Longrightarrow> BootsStore m' = BootsStore m \<Longrightarrow> I m'"
begin

lemma stores:
  assumes "I m"
  shows "I (set_rolecheck g rc m)" "I (erase_rolecheck g m)" "I (set_proposal pid p m)" "I (erase_proposal pid m)" "I (m\<lparr>shared := sh\<rparr>)"
  by (rule entries_only [OF assms]; simp)+

lemma keeps_rolecheck_state:
  "I a \<Longrightarrow> I b \<Longrightarrow> I c \<Longrightarrow> I (case s of LFG_ROLECHECK_INITIALITING \<Rightarrow> a | LFG_ROLECHECK_FINISHED \<Rightarrow> b | _ \<Rightarrow> c)"
  by (cases s) simp_all

lemma rolecheck_player_keeps: "I m \<Longrightarrow> I (rolecheck_player e rc guid roles b x m)"
  unfolding rolecheck_player_def by (intro shape keeps_rolecheck_state primitive)

lemma UpdateRoleCheck_keeps: "I m \<Longrightarrow> I (UpdateRoleCheck e gguid guid roles m)"
  unfolding UpdateRoleCheck_def by (intro shape stores primitive rolecheck_player_keeps)

lemma begin_member_keeps: "I m \<Longrightarrow> I (begin_member e gguid c u ds mem m)"
proof (cases c)
  case False
  moreover assume "I m"
  ultimately show ?thesis
    by (auto simp: begin_member_def Let_def split: option.splits intro!: stores framed state_select)
qed (auto simp: begin_member_def Let_def split: option.splits intro!: stores framed state)

lemma begin_rolecheck_keeps: "I m \<Longrightarrow> I (begin_rolecheck e grp guid roles r ds c comment m)"
  unfolding begin_rolecheck_def by (intro shape UpdateRoleCheck_keeps begin_member_keeps stores primitive)

lemma release_player_keeps: "I m \<Longrightarrow> I (release_player e ty p rm x m)"
  unfolding release_player_def by (intro shape stores primitive)

lemma RemoveProposal_keeps: "I m \<Longrightarrow> keeps_opt (RemoveProposal e pid ty m)"
  unfolding RemoveProposal_def by (intro opt_shape shape stores primitive release_player_keeps)

lemma leave_proposal_keeps: "I m \<Longrightarrow> keeps_opt (leave_proposal e guid m)"
  unfolding leave_proposal_def by (intro opt_shape shape stores primitive RemoveProposal_keeps)

lemma accept_player_keeps:
  assumes "I m" "accept_player e k b p x (ty, m) = Some (ty', m')"
  shows "I m'"
proof -
  obtain d ds where "GetSelectedDungeons m (fst x) = d # ds"
    using assms(2) by (cases "GetSelectedDungeons m (fst x)") (simp_all add: accept_player_def)
  then show ?thesis
    using assms unfolding accept_player_def Let_def
    by (cases b) (auto simp: bind_eq_Some_conv intro!: stores framed state)
qed

lemma accept_players_keeps: "I m \<Longrightarrow> accept_players e k b p xs (ty, m) = Some (ty', m') \<Longrightarrow> I m'"
  by (induction xs arbitrary: ty m) (auto simp: bind_eq_Some_conv intro: accept_player_keeps)

lemma accept_proposal_keeps: "I m \<Longrightarrow> keeps_opt (accept_proposal e pid guid p m)"
  unfolding accept_proposal_def
proof (intro opt_let_value opt_let stores, assumption, goal_cases)
  case (1 b p' m1 k)
  show ?case
  proof (cases "accept_players e k b p' (pr_players p') (LFG_UPDATETYPE_GROUP_FOUND, m1)")
    case (Some st)
    obtain ty m2 where st: "st = (ty, m2)" by (cases st)
    have "I m2" using accept_players_keeps [OF 1(2)] Some st by blast
    then show ?thesis using Some st by (auto simp: Let_def case_prod_beta intro!: stores framed)
  qed simp
qed

lemma UpdateProposal_keeps: "I m \<Longrightarrow> keeps_opt (UpdateProposal e pid guid b m)"
  unfolding UpdateProposal_def by (intro opt_shape shape stores framed RemoveProposal_keeps accept_proposal_keeps)

lemma expire_rolecheck_keeps: "I m \<Longrightarrow> I (expire_rolecheck e y m)"
  unfolding expire_rolecheck_def expire_member_def by (intro shape stores primitive)

lemma search_queue_keeps: "I m \<Longrightarrow> I (search_queue e k m)"
  unfolding search_queue_def by (intro shape stores framed)

end

sublocale entry_invariant \<subseteq> all: mgr_invariant
  by unfold_locales (fact UpdateRoleCheck_keeps begin_rolecheck_keeps expire_rolecheck_keeps RemoveProposal_keeps leave_proposal_keeps
      UpdateProposal_keeps search_queue_keeps)+

end
