(* ===== verification/LfgMgrSpec.thy ===== *)
theory LfgMgrSpec
  imports LfgMgrInv
begin

text \<open>
  Invariants of all reachable states of the dungeon finder manager, for the data of players and groups, the votes, the
  role checks and the proposals, and the completion of the periodic update that follows from them.
\<close>

section \<open>Data of players\<close>

text \<open>
  The remembered state is one a player can go back to, the states of a player who is in no queue or proposal are
  the remembered ones, and a player who does not use the dungeon finder has no roles and no dungeons selected.
\<close>

definition settled_states :: "LfgState set" where
  "settled_states = {LFG_STATE_NONE, LFG_STATE_DUNGEON, LFG_STATE_FINISHED_DUNGEON}"

definition player_ok :: "LfgPlayerData \<Rightarrow> bool" where
  "player_ok d \<longleftrightarrow> pd_OldState d \<in> settled_states \<and> (pd_State d \<in> settled_states \<longrightarrow> pd_State d = pd_OldState d)
     \<and> (pd_State d = LFG_STATE_NONE \<longrightarrow> pd_Roles d = 0 \<and> pd_SelectedDungeons d = [])"

definition players_ok :: "lfg_mgr \<Rightarrow> bool" where
  "players_ok m \<longleftrightarrow> om_wf (PlayersStore m) \<and> (\<forall>g. \<not> IS_GROUP_GUID g \<longrightarrow> player_ok (player_data m g))"

lemma player_data_on_player:
  "player_data (on_player g f m) h = (if h = g then f (player_data m g) else player_data m h)"
  by (auto simp: player_data_def on_player_def om_find_modify)

lemma player_data_SetState:
  "player_data (SetState e g s m) h = (if h = g \<and> \<not> IS_GROUP_GUID g then player_SetState s (player_data m g) else player_data m h)"
  by (auto simp: SetState_def player_data_on_player) (simp add: player_data_def)

lemma player_data_RestoreState:
  "player_data (RestoreState e g m) h = (if h = g \<and> \<not> IS_GROUP_GUID g then player_RestoreState (player_data m g) else player_data m h)"
  by (auto simp: RestoreState_def player_data_on_player) (simp add: player_data_def)

lemmas player_data_simps = player_data_on_player player_data_SetState player_data_RestoreState

lemma players_wf [simp]:
  assumes "om_wf (PlayersStore m)"
  shows "om_wf (PlayersStore (on_player g f m))" "om_wf (PlayersStore (SetState e g s m))" "om_wf (PlayersStore (RestoreState e g m))"
  using assms by (simp_all add: SetState_def RestoreState_def) (simp_all add: on_player_def)

lemma player_ok_SetState: "pd_OldState d \<in> settled_states \<Longrightarrow> player_ok (player_SetState s d)"
  by (cases s) (simp_all add: player_ok_def player_SetState_def settled_states_def)

lemma player_ok_RestoreState: "player_ok d \<Longrightarrow> player_ok (player_RestoreState d)"
  by (auto simp: player_ok_def player_RestoreState_def settled_states_def)

lemma player_ok_roles:
  "pd_OldState d \<in> settled_states \<Longrightarrow> player_ok (player_SetState LFG_STATE_QUEUED d\<lparr>pd_Roles := r\<rparr>)"
  "pd_OldState d \<in> settled_states \<Longrightarrow> player_ok (player_SetState LFG_STATE_ROLECHECK d\<lparr>pd_SelectedDungeons := ds\<rparr>)"
  by (simp_all add: player_ok_def player_SetState_def settled_states_def)

lemma player_ok_old: "player_ok d \<Longrightarrow> pd_OldState d \<in> settled_states"
  by (simp add: player_ok_def)

lemma player_data_cong: "PlayersStore m' = PlayersStore m \<Longrightarrow> player_data m' = player_data m"
  by (simp add: player_data_def fun_eq_iff)

lemma players_ok_cong: "PlayersStore m' = PlayersStore m \<Longrightarrow> players_ok m' = players_ok m"
  using player_data_cong [of m' m] by (simp add: players_ok_def)

lemma players_ok_changed:
  assumes "players_ok m" "om_wf (PlayersStore m')"
    and "\<And>h. \<not> IS_GROUP_GUID h \<Longrightarrow> player_data m' h = (if h = g then d else player_data m h)"
    and "\<not> IS_GROUP_GUID g \<Longrightarrow> player_ok d"
  shows "players_ok m'"
  using assms unfolding players_ok_def by metis

lemma player_of: "players_ok m \<Longrightarrow> \<not> IS_GROUP_GUID g \<Longrightarrow> player_ok (player_data m g)"
  by (simp add: players_ok_def)

interpretation players: entry_invariant players_ok
proof (unfold_locales, goal_cases)
  case (1 m m')
  then show ?case using players_ok_cong [of m' m] by simp
next
  case (2 m e g s)
  then show ?case
    by (intro players_ok_changed [OF 2, of _ g "player_SetState s (player_data m g)"])
      (auto simp: players_ok_def player_data_simps intro!: player_ok_SetState player_ok_old)
next
  case (3 m e g)
  then show ?case
    by (intro players_ok_changed [OF 3, of _ g "player_RestoreState (player_data m g)"])
      (auto simp: players_ok_def player_data_simps intro!: player_ok_RestoreState)
next
  case (4 m g r e)
  show ?case
    by (rule players_ok_changed [OF 4, of _ g "player_SetState LFG_STATE_QUEUED (player_data m g)\<lparr>pd_Roles := r\<rparr>"])
      (use 4 in \<open>auto simp: player_setters player_data_simps players_ok_def intro!: player_ok_roles player_ok_old\<close>)
next
  case (5 m e g s ds)
  show ?case
    by (rule players_ok_changed [OF 5, of _ g "player_SetState s (player_data m g\<lparr>pd_SelectedDungeons := ds\<rparr>)"])
      (use 5 in \<open>auto simp: player_setters player_data_simps players_ok_def player_ok_old intro!: player_ok_SetState\<close>)
next
  case (6 m g r e ds)
  show ?case
    by (rule players_ok_changed [OF 6, of _ g
          "player_SetState LFG_STATE_QUEUED (player_data m g\<lparr>pd_SelectedDungeons := ds\<rparr>)\<lparr>pd_Roles := r\<rparr>"])
      (use 6 in \<open>auto simp: player_setters player_data_simps players_ok_def player_ok_old intro!: player_ok_roles\<close>)
next
  case (7 m g ds e)
  show ?case
    by (rule players_ok_changed [OF 7, of _ g "player_SetState LFG_STATE_ROLECHECK (player_data m g)\<lparr>pd_SelectedDungeons := ds\<rparr>"])
      (use 7 in \<open>auto simp: player_setters player_data_simps players_ok_def intro!: player_ok_roles player_ok_old\<close>)
next
  case (8 f m g)
  show ?case
    by (rule players_ok_changed [OF 8(2), of _ g "f (player_data m g)"])
      (use 8 player_of [OF 8(2), of g] in \<open>auto simp: players_ok_def player_data_simps player_detail_def player_ok_def\<close>)
next
  case (10 m g)
  show ?case
    by (rule players_ok_changed [OF 10, of _ g new_LfgPlayerData])
      (use 10 in \<open>auto simp: players_ok_def RemovePlayerData_def player_data_def om_find_erase player_ok_def settled_states_def
         new_LfgPlayerData_def\<close>)
next
  case (15 m m')
  then show ?case using players_ok_cong [of m' m] by simp
qed (erule players_ok_cong [THEN iffD2, rotated], simp add: group_setters erase_group_def)+

section \<open>Data of groups and votes\<close>

definition group_ok :: "LfgGroupData \<Rightarrow> bool" where
  "group_ok d \<longleftrightarrow> gd_OldState d \<in> settled_states \<and> (gd_State d \<in> settled_states \<longrightarrow> gd_State d = gd_OldState d)
     \<and> gd_KicksLeft d \<le> LFG_GROUP_MAX_KICKS \<and> sorted (gd_Players d) \<and> distinct (gd_Players d)"

definition groups_ok :: "lfg_mgr \<Rightarrow> bool" where
  "groups_ok m \<longleftrightarrow> om_wf (GroupsStore m) \<and> om_wf (BootsStore m) \<and>
     (\<forall>g d. om_find (GroupsStore m) g = Some d \<longrightarrow> group_ok d \<and> (gd_VoteKickActive d \<longrightarrow> om_find (BootsStore m) g \<noteq> None))"

lemma groups_ok_on_group:
  assumes "groups_ok m" and "\<And>d. group_ok d \<Longrightarrow> group_ok (f d) \<and> gd_VoteKickActive (f d) = gd_VoteKickActive d"
  shows "groups_ok (on_group e g f m)"
proof -
  have new: "group_ok (new_LfgGroupData t)" "\<not> gd_VoteKickActive (new_LfgGroupData t)" for t
    by (simp_all add: group_ok_def new_LfgGroupData_def settled_states_def)
  show ?thesis
    using assms new by (auto simp: groups_ok_def on_group_def om_find_modify split: option.splits)
qed

lemma group_ok_SetState: "group_ok d \<Longrightarrow> group_ok (group_SetState s d)" "group_ok d \<Longrightarrow> group_ok (group_RestoreState d)"
  by (cases s; auto simp: group_ok_def group_SetState_def group_RestoreState_def settled_states_def)+

lemma group_ok_detail: "group_detail f \<Longrightarrow> group_ok d \<Longrightarrow> group_ok (f d)"
  unfolding group_detail_def group_ok_def using order_trans by metis

lemma kick_flag_SetState [simp]:
  "gd_VoteKickActive (group_SetState s d) = gd_VoteKickActive d" "gd_VoteKickActive (group_RestoreState d) = gd_VoteKickActive d"
  by (simp_all add: group_SetState_def group_RestoreState_def Let_def)

lemma groups_ok_cong: "GroupsStore m' = GroupsStore m \<Longrightarrow> BootsStore m' = BootsStore m \<Longrightarrow> groups_ok m' = groups_ok m"
  by (simp add: groups_ok_def)

lemma groups_ok_SetVoteKick:
  "groups_ok m \<Longrightarrow> groups_ok (set_boot g b (SetVoteKick e g True m))"
  "groups_ok m \<Longrightarrow> groups_ok (erase_boot g (SetVoteKick e g False m))"
  by (auto simp: groups_ok_def SetVoteKick_def on_group_def set_boot_def erase_boot_def om_find_modify om_find_set om_find_erase
      group_ok_def new_LfgGroupData_def settled_states_def split: option.splits)

lemma groups_ok_on_player [simp]: "groups_ok (on_player g f m) = groups_ok m"
  by (simp add: groups_ok_def)

lemma groups_ok_SetState: "groups_ok m \<Longrightarrow> groups_ok (SetState e g s m)" "groups_ok m \<Longrightarrow> groups_ok (RestoreState e g m)"
  by (auto simp: SetState_def RestoreState_def intro!: groups_ok_on_group group_ok_SetState)

interpretation groups: entry_invariant groups_ok
proof (unfold_locales, goal_cases)
  case (9 h m e g)
  then show ?case by (intro groups_ok_on_group) (auto intro: group_ok_detail simp: group_detail_def)
next
  case (11 m g)
  then show ?case by (auto simp: groups_ok_def erase_group_def om_find_erase)
next
  case (13 m g b)
  then show ?case by (auto simp: groups_ok_def set_boot_def om_find_set)
qed (auto simp: groups_ok_SetVoteKick groups_ok_SetState player_setters RemovePlayerData_def intro: groups_ok_cong [THEN iffD2])

section \<open>Role checks and proposals\<close>

lemma fold_frame: "(\<And>x m. F (f x m) = F m) \<Longrightarrow> F (fold f xs m) = F m"
  by (induction xs arbitrary: m) simp_all

text \<open>
  A role check that is stored waits for somebody; a proposal that is stored has players, and nobody has refused it.
\<close>

definition rolecheck_open :: "LfgRoleCheck \<Rightarrow> bool" where
  "rolecheck_open rc \<longleftrightarrow> rc_state rc = LFG_ROLECHECK_INITIALITING \<and> om_wf (rc_roles rc)"

definition rolecheck_pending :: "guid \<Rightarrow> LfgRoleCheck \<Rightarrow> bool" where
  "rolecheck_pending gguid rc \<longleftrightarrow> rolecheck_open rc \<and> (gguid \<noteq> 0 \<longrightarrow> list_ex (\<lambda>x. snd x = PLAYER_ROLE_NONE) (rc_roles rc))"

definition proposal_pending :: "LfgProposal \<Rightarrow> bool" where
  "proposal_pending p \<longleftrightarrow> pr_state p = LFG_PROPOSAL_INITIATING \<and> om_wf (pr_players p) \<and> pr_players p \<noteq> []
     \<and> list_all (\<lambda>x. pp_accept (snd x) \<noteq> LFG_ANSWER_DENY) (pr_players p)"

definition rolechecks_pending :: "(guid, LfgRoleCheck) omap \<Rightarrow> bool" where
  "rolechecks_pending st \<longleftrightarrow> om_wf st \<and> (\<forall>g rc. om_find st g = Some rc \<longrightarrow> rolecheck_pending g rc)"

definition proposals_pending :: "lfg_shared \<Rightarrow> bool" where
  "proposals_pending sh \<longleftrightarrow> om_wf (ProposalsStore sh) \<and> (\<forall>pid p. om_find (ProposalsStore sh) pid = Some p \<longrightarrow> proposal_pending p)"

definition pending_ok :: "lfg_mgr \<Rightarrow> bool" where
  "pending_ok m \<longleftrightarrow> rolechecks_pending (RoleChecksStore m) \<and> proposals_pending (shared m)"

lemma pending_cong: "RoleChecksStore m' = RoleChecksStore m \<Longrightarrow> shared m' = shared m \<Longrightarrow> pending_ok m \<Longrightarrow> pending_ok m'"
  by (simp add: pending_ok_def)

lemma rolechecks_pending_set:
  "rolechecks_pending st \<Longrightarrow> rolecheck_pending g rc \<Longrightarrow> rolechecks_pending (om_set g rc st)"
  "rolechecks_pending st \<Longrightarrow> rolechecks_pending (om_erase g st)"
  by (auto simp: rolechecks_pending_def om_find_set om_find_erase)

lemma rolechecks_pending_reset: "rolechecks_pending st \<Longrightarrow> rolechecks_pending (om_erase g (om_set g rc st))"
  by (auto simp: rolechecks_pending_def om_find_set om_find_erase)

lemma proposals_pending_set:
  "proposals_pending sh \<Longrightarrow> proposal_pending p \<Longrightarrow> proposals_pending (sh\<lparr>ProposalsStore := om_set pid p (ProposalsStore sh)\<rparr>)"
  "proposals_pending sh \<Longrightarrow> proposals_pending (sh\<lparr>ProposalsStore := om_erase pid (ProposalsStore sh)\<rparr>)"
  by (auto simp: proposals_pending_def om_find_set om_find_erase)

lemma proposals_pending_reset:
  "proposals_pending sh \<Longrightarrow> proposals_pending (sh\<lparr>ProposalsStore := om_erase pid (om_set pid p (ProposalsStore sh))\<rparr>)"
  by (auto simp: proposals_pending_def om_find_set om_find_erase)

subsection \<open>What the operations do to the two stores\<close>

lemma rolecheck_player_stores [simp]:
  "RoleChecksStore (rolecheck_player e rc guid roles b x m) = RoleChecksStore m"
  "shared (rolecheck_player e rc guid roles b x m) = shared m"
  by (cases "rc_state rc"; simp add: rolecheck_player_def Let_def SetRoles_def)+

lemma release_player_stores [simp]:
  "RoleChecksStore (release_player e ty p rm x m) = RoleChecksStore m"
  "shared (release_player e ty p rm x m) = shared m"
  by (simp_all add: release_player_def Let_def)

lemma RemoveProposal_stores:
  assumes "RemoveProposal e pid ty m = Some m'"
  shows "RoleChecksStore m' = RoleChecksStore m \<and>
    shared m' = (if om_find (ProposalsStore (shared m)) pid = None then shared m
       else (shared m)\<lparr>ProposalsStore := om_erase pid (ProposalsStore (shared m))\<rparr>)"
  using assms
  by (auto simp: RemoveProposal_def Let_def fold_frame [where F = RoleChecksStore] erase_proposal_def fold_frame [where F = shared]
      split: option.splits list.splits)

lemma RemoveProposal_defined:
  "(\<And>p. om_find (ProposalsStore (shared m)) pid = Some p \<Longrightarrow> pr_players p \<noteq> []) \<Longrightarrow> \<exists>m'. RemoveProposal e pid ty m = Some m'"
  by (auto simp: RemoveProposal_def Let_def split: option.splits list.splits)

lemma UpdateRoleCheck_shared [simp]: "shared (UpdateRoleCheck e gguid guid roles m) = shared m"
  by (auto simp: UpdateRoleCheck_def Let_def fold_frame [where F = shared] split: option.splits)

lemma UpdateRoleCheck_stores:
  assumes "om_find (RoleChecksStore m) gguid = Some rc" "gguid \<noteq> 0" "answer_rolecheck m guid roles rc = rc'"
  shows "RoleChecksStore (UpdateRoleCheck e gguid guid roles m) =
    (let st = om_set gguid (rc'\<lparr>rc_isBeginning := False\<rparr>) (om_set gguid rc' (RoleChecksStore m))
     in if rc_state rc' = LFG_ROLECHECK_INITIALITING then st else om_erase gguid st)"
  using assms
  by (auto simp: UpdateRoleCheck_def Let_def set_rolecheck_def erase_rolecheck_def
      fold_frame [where F = RoleChecksStore])

lemma answer_open:
  assumes "rolecheck_open rc" "rc_state (answer_rolecheck m guid roles rc) = LFG_ROLECHECK_INITIALITING"
  shows "rolecheck_pending g (answer_rolecheck m guid roles rc)"
  using assms
  by (auto simp: answer_rolecheck_def Let_def rolecheck_pending_def rolecheck_open_def list_all_iff list_ex_iff split: if_splits)

text \<open>The role check of one group is open, and the others are those of the store \<open>st\<close>.\<close>

definition opened :: "guid \<Rightarrow> (guid, LfgRoleCheck) omap \<Rightarrow> lfg_mgr \<Rightarrow> bool" where
  "opened gguid st m \<longleftrightarrow> om_wf (RoleChecksStore m) \<and> (\<exists>rc. om_find (RoleChecksStore m) gguid = Some rc \<and> rolecheck_open rc)
     \<and> (\<forall>h. h \<noteq> gguid \<longrightarrow> om_find (RoleChecksStore m) h = om_find st h)"

lemma UpdateRoleCheck_pending:
  assumes "opened gguid st m" "rolechecks_pending st"
  shows "rolechecks_pending (RoleChecksStore (UpdateRoleCheck e gguid guid roles m))"
proof (cases "gguid = 0")
  case False
  obtain rc where rc: "om_find (RoleChecksStore m) gguid = Some rc" "rolecheck_open rc" using assms(1) by (auto simp: opened_def)
  let ?rc = "answer_rolecheck m guid roles rc"
  have "rolecheck_pending gguid (?rc\<lparr>rc_isBeginning := False\<rparr>)" if "rc_state ?rc = LFG_ROLECHECK_INITIALITING"
    using answer_open [OF rc(2) that, of gguid] by (simp add: rolecheck_pending_def rolecheck_open_def)
  then show ?thesis
    using assms by (auto simp: UpdateRoleCheck_stores [OF rc(1) False refl] rolechecks_pending_def opened_def Let_def om_find_set om_find_erase)
next
  case True
  then show ?thesis using assms by (auto simp: UpdateRoleCheck_def opened_def rolechecks_pending_def rolecheck_pending_def) (metis option.sel)+
qed

lemma begin_member_shared [simp]: "shared (begin_member e gguid c u ds mem m) = shared m"
  by (simp add: begin_member_def Let_def SetSelectedDungeons_def split: option.splits)

lemma begin_rolecheck_shared [simp]: "shared (begin_rolecheck e grp guid roles r ds c comment m) = shared m"
  by (simp add: begin_rolecheck_def Let_def fold_frame [where F = shared])

lemma opened_member: "opened gguid st m \<Longrightarrow> opened gguid st (begin_member e gguid c u ds mem m)"
  by (auto simp: opened_def begin_member_def Let_def SetSelectedDungeons_def set_rolecheck_def om_find_set rolecheck_open_def
      split: option.splits)

lemma opened_members: "opened gguid st m \<Longrightarrow> opened gguid st (fold (begin_member e gguid c u ds) ms m)"
  by (induction ms arbitrary: m) (simp_all add: opened_member)

lemma begin_rolecheck_pending:
  assumes "rolechecks_pending (RoleChecksStore m)"
  shows "rolechecks_pending (RoleChecksStore (begin_rolecheck e grp guid roles r ds c comment m))"
proof -
  let ?g = "gr_guid grp"
  define old where "old = (case om_find (RoleChecksStore m) ?g of None \<Rightarrow> [] | Some rc \<Rightarrow> rc_roles rc)"
  have "om_wf old"
    using assms by (auto simp: old_def rolechecks_pending_def rolecheck_pending_def rolecheck_open_def split: option.splits)
  then have "opened ?g (RoleChecksStore m) (SetState e ?g LFG_STATE_ROLECHECK (set_rolecheck ?g \<lparr>rc_cancelTime = t, rc_roles = old,
      rc_state = LFG_ROLECHECK_INITIALITING, rc_dungeons = ds, rc_rDungeonId = r, rc_leader = guid, rc_isBeginning = True\<rparr> m))" for t
    using assms by (simp add: opened_def rolechecks_pending_def set_rolecheck_def om_find_set rolecheck_open_def)
  from opened_members [OF this] have op: "opened ?g (RoleChecksStore m) (fold (begin_member e ?g c u ds') (gr_members grp)
      (SetState e ?g LFG_STATE_ROLECHECK (set_rolecheck ?g \<lparr>rc_cancelTime = t, rc_roles = old, rc_state = LFG_ROLECHECK_INITIALITING,
       rc_dungeons = ds, rc_rDungeonId = r, rc_leader = guid, rc_isBeginning = True\<rparr> m)))" for t u ds' .
  show ?thesis
    unfolding begin_rolecheck_def Let_def old_def [symmetric] by (rule UpdateRoleCheck_pending [OF op assms])
qed

lemma expire_rolecheck_stores:
  "RoleChecksStore (expire_rolecheck e x m) = (if me_now e < rc_cancelTime (snd x) then RoleChecksStore m else om_erase (fst x) (RoleChecksStore m))"
  "shared (expire_rolecheck e x m) = shared m"
  by (simp_all add: expire_rolecheck_def expire_member_def Let_def erase_rolecheck_def fold_frame [where F = RoleChecksStore]
      fold_frame [where F = shared])

lemma accept_players_stores:
  "accept_players e k b p xs (ty, m) = Some (ty', m') \<Longrightarrow> RoleChecksStore m' = RoleChecksStore m \<and> shared m' = shared m"
proof (induction xs arbitrary: ty m)
  case (Cons x xs)
  have "RoleChecksStore m2 = RoleChecksStore m \<and> shared m2 = shared m" if "accept_player e k b p x (ty, m) = Some (ty2, m2)" for ty2 m2
    using that by (auto simp: accept_player_def Let_def bind_eq_Some_conv split: list.splits)
  then show ?case using Cons by (auto simp: bind_eq_Some_conv)
qed simp

lemma accept_proposal_stores:
  assumes "accept_proposal e pid guid p m = Some m'"
  shows "RoleChecksStore m' = RoleChecksStore m"
    "shared m' = (shared m)\<lparr>ProposalsStore := om_erase pid (om_set pid (p\<lparr>pr_state := LFG_PROPOSAL_SUCCESS\<rparr>) (ProposalsStore (shared m)))\<rparr>"
  using assms
  by (auto simp: accept_proposal_def Let_def bind_eq_Some_conv erase_proposal_def set_proposal_def dest!: accept_players_stores)

lemma pending_om_set:
  "om_wf ps \<Longrightarrow> list_all (\<lambda>x. pp_accept (snd x) \<noteq> LFG_ANSWER_DENY) ps \<Longrightarrow> pp_accept d \<noteq> LFG_ANSWER_DENY \<Longrightarrow>
    list_all (\<lambda>x. pp_accept (snd x) \<noteq> LFG_ANSWER_DENY) (om_set g d ps)"
  unfolding list_all_iff by (metis (no_types, lifting) om_find_in om_find_set om_in_find om_wf_set option.inject prod.collapse)

lemma UpdateProposal_pending:
  assumes "pending_ok m"
  shows "pred_option pending_ok (UpdateProposal e pid guid b m)"
proof (cases "om_find (ProposalsStore (shared m)) pid")
  case (Some p)
  have p: "proposal_pending p" using assms Some by (simp add: pending_ok_def proposals_pending_def)
  show ?thesis
  proof (cases "om_find (pr_players p) guid")
    case player: (Some d)
    define p' where "p' = p\<lparr>pr_players := om_set guid (d\<lparr>pp_accept := answer_of b\<rparr>) (pr_players p)\<rparr>"
    have "proposal_pending p'" if b
      using p that by (simp add: p'_def proposal_pending_def pending_om_set answer_of_def)
    then have tally: "pending_ok (fold (\<lambda>x. send_to e (fst x) (f x)) xs (set_proposal pid p' m))" if b for f xs
      using assms that by (simp add: pending_ok_def fold_frame [where F = RoleChecksStore] fold_frame [where F = shared])
        (simp add: set_proposal_def proposals_pending_set)
    have deny: "pending_ok m'" if "RemoveProposal e pid LFG_UPDATETYPE_PROPOSAL_DECLINED (set_proposal pid p' m) = Some m'" for m'
      using assms RemoveProposal_stores [OF that] by (simp add: pending_ok_def set_proposal_def om_find_set proposals_pending_reset)
    have "pending_ok m'" if "accept_proposal e pid guid p' (set_proposal pid p' m) = Some m'" for m'
      using accept_proposal_stores [OF that] assms
      by (auto simp: pending_ok_def proposals_pending_def set_proposal_def om_find_set om_find_erase)
    then show ?thesis
      using tally deny unfolding UpdateProposal_def Some option.case player Let_def p'_def [symmetric]
      by (auto simp: option.pred_set)
  qed (use Some assms in \<open>simp add: UpdateProposal_def\<close>)
qed (simp add: UpdateProposal_def assms)

lemma leave_proposal_pending: "pending_ok m \<Longrightarrow> pred_option pending_ok (leave_proposal e guid m)"
  by (auto simp: leave_proposal_def Let_def option.pred_set pending_ok_def set_proposal_def om_find_set proposals_pending_reset
      dest!: RemoveProposal_stores split: option.splits prod.splits)

subsection \<open>The search makes pending proposals\<close>

lemma urand_proposals [simp]: "ProposalsStore (snd (urand e lo hi sh)) = ProposalsStore sh"
  by (simp add: urand_def Let_def)

lemma select_dungeon_proposals [simp]: "ProposalsStore (snd (select_dungeon e ds sh)) = ProposalsStore sh"
proof (induction e ds sh rule: select_dungeon.induct)
  case (1 e ds sh)
  have "ProposalsStore (snd (random_index e n sh)) = ProposalsStore sh" for n
    using urand_proposals [of e 0 _ sh] by (simp add: random_index_def case_prod_beta)
  then show ?case
    using 1 by (subst select_dungeon.simps) (auto simp: Let_def split: prod.splits option.splits; metis snd_conv)
qed

lemma draw_leaders_proposals: "ProposalsStore (snd (snd (fold (draw_leader e) xs st))) = ProposalsStore (snd (snd st))"
proof (induction xs arbitrary: st)
  case (Cons x xs)
  have "ProposalsStore (snd (snd (draw_leader e x st))) = ProposalsStore (snd (snd st))"
    by (auto simp: draw_leader_def keep_or_draw_def Let_def split: prod.splits if_splits) (metis snd_conv urand_proposals)+
  then show ?case using Cons by simp
qed simp

lemma new_players_pending:
  "om_wf m \<and> list_all (\<lambda>x. pp_accept (snd x) \<noteq> LFG_ANSWER_DENY) m \<Longrightarrow>
    om_wf (fold (\<lambda>pr m. case proposal_player isNew grp pg pr of (p, d) \<Rightarrow> om_set p d m) roles m) \<and>
    list_all (\<lambda>x. pp_accept (snd x) \<noteq> LFG_ANSWER_DENY) (fold (\<lambda>pr m. case proposal_player isNew grp pg pr of (p, d) \<Rightarrow> om_set p d m) roles m)"
  by (induction roles arbitrary: m) (simp_all add: proposal_player_def Let_def pending_om_set)

lemma new_players_some:
  "roles \<noteq> [] \<or> m \<noteq> [] \<Longrightarrow> fold (\<lambda>pr m. case proposal_player isNew grp pg pr of (p, d) \<Rightarrow> om_set p d m) roles m \<noteq> []"
  by (induction roles arbitrary: m) (simp_all add: case_prod_beta)

lemma AddProposal_pending: "proposals_pending sh \<Longrightarrow> proposal_pending p \<Longrightarrow> proposals_pending (AddProposal p sh)"
  by (auto simp: AddProposal_def Let_def proposals_pending_def om_find_set proposal_pending_def)

lemma make_proposal_pending:
  assumes "proposals_pending sh" "roles \<noteq> []"
  shows "proposals_pending (snd (make_proposal e check d n grp pg roles (q, sh)))"
proof -
  have "proposals_pending (snd (snd (fold (draw_leader e) roles (False, 0, sh))))"
    using assms(1) draw_leaders_proposals [of e roles "(False, 0, sh)"] by (simp add: proposals_pending_def)
  then show ?thesis
    by (auto simp: make_proposal_def Let_def case_prod_beta proposal_pending_def new_players_some [unfolded case_prod_beta] assms(2)
        new_players_pending [unfolded case_prod_beta] intro!: AddProposal_pending)
qed

lemma finish_check_pending:
  "proposals_pending sh \<Longrightarrow> (ucast (fst hc) = GetMaxGroupSize dg \<Longrightarrow> roles \<noteq> []) \<Longrightarrow>
    proposals_pending (snd (snd (finish_check e check d dg hc roles (q, sh))))"
  using make_proposal_pending [of sh roles]
  by (cases hc) (auto simp: finish_check_def Let_def case_prod_beta)

text \<open>A dungeon for a combination of groups is one for somebody, so a full combination has players.\<close>

lemma kept_roles: "snd (CheckGroupRoles roles d) = [] \<longleftrightarrow> roles = []"
  using narrows_length [OF CheckGroupRoles_narrows, of roles d] by auto

lemma check_roles_pending:
  assumes "proposals_pending sh" "GetMaxGroupSize dg \<noteq> 0" "check \<noteq> []"
    and single: "\<And>g. check = [g] \<Longrightarrow> fst hc = of_nat (length (qd_roles (queue_data e q g)))"
  shows "proposals_pending (snd (snd (check_roles e check d dg hc (q, sh))))"
proof (cases "length check > 1")
  case True
  obtain roles q' where g: "gather_roles e check [] q = (roles, q')" by fastforce
  have "snd (CheckGroupRoles roles dg) \<noteq> []" if "fst hc - of_nat (length roles) = 0" "ucast (fst hc) = GetMaxGroupSize dg"
    using that assms(2) by (auto simp: kept_roles)
  then show ?thesis
    using True assms(1) g
    by (auto simp: check_roles_def Let_def case_prod_beta intro!: finish_check_pending)
next
  case False
  then obtain g where g: "check = [g]" using assms(3) by (cases check) auto
  have "snd (CheckGroupRoles (qd_roles (queue_data e q g)) dg) \<noteq> []" if "ucast (fst hc) = GetMaxGroupSize dg"
    using that assms(2) single [OF g] by (auto simp: kept_roles)
  then show ?thesis
    using assms(1) g by (simp add: check_roles_def Let_def finish_check_pending)
qed

lemma check_players_pending:
  assumes "proposals_pending sh" "check \<noteq> []"
  shows "proposals_pending (snd (snd (check_players e check d dg (q, sh))))"
proof (cases "length check > unat (GetMaxGroupSize dg)")
  case False
  then have "GetMaxGroupSize dg \<noteq> 0" using assms(2) by auto
  moreover have "fst hc = of_nat (length (qd_roles (queue_data e q g)))"
    if "count_players e dg q [g] (0, 0, 0, []) = Inr hc" for g hc
    using that by (auto simp: Let_def queue_data_def split: option.splits)
  ultimately have roles: "proposals_pending (snd (snd (check_roles e check d dg hc (q, sh))))"
    if "count_players e dg q check (0, 0, 0, []) = Inr hc" for hc
    using that assms by (intro check_roles_pending) auto
  show ?thesis
  proof (cases "count_players e dg q check (0, 0, 0, [])")
    case (Inr hc)
    then show ?thesis using roles [OF Inr] assms(1) False by (cases hc) (simp add: check_players_def Let_def)
  qed (use False assms(1) in \<open>simp add: check_players_def Let_def\<close>)
qed (simp add: check_players_def assms(1))

lemma check_group_pending:
  assumes "check \<noteq> []" "proposals_pending (snd st)"
  shows "proposals_pending (snd (snd (check_group e check st)))"
proof -
  obtain q sh where st: "st = (q, sh)" by fastforce
  then have "proposals_pending (snd (select_dungeon e ds sh))" for ds
    using assms(2) by (simp add: proposals_pending_def)
  then show ?thesis
    using st check_players_pending [OF _ assms(1)]
    by (auto simp: check_group_def Let_def case_prod_beta split: prod.splits option.splits)
qed

text \<open>The property is one the search keeps.\<close>

interpretation pending_search: search_rel e "\<lambda>st st'. proposals_pending (snd st) \<longrightarrow> proposals_pending (snd st')"
  by unfold_locales (simp_all add: check_group_pending)

lemma FindGroups_pending: "proposals_pending (snd st) \<Longrightarrow> proposals_pending (snd (snd (FindGroups_loop e n st)))"
proof (induction e n st rule: FindGroups_loop.induct)
  case (1 e n st)
  show ?case
  proof (cases "newToQueueStore (fst st)")
    case (Cons f rest)
    let ?q = "RemoveFromNewQueue f (fst st)"
    obtain c all q2 sh2 where new: "FindNewGroups e [f] (currentQueueStore ?q) (?q, snd st) = (c, all, q2, sh2)"
      by (rule prod_cases4)
    then have "proposals_pending sh2" using pending_search.FindNewGroups_rel [OF new] 1(3) by simp
    then show ?thesis
      using 1(1) [OF Cons refl] 1(2) [OF Cons refl] new Cons
      by (subst FindGroups_loop.simps) (simp add: Let_def)
  qed (subst FindGroups_loop.simps, simp add: 1(3))
qed

lemma search_queue_pending: "pending_ok m \<Longrightarrow> pending_ok (search_queue e k m)"
  using FindGroups_pending [of "(queue_of m k, shared m)" "queue_env e m" 0]
  by (auto simp: search_queue_def FindGroups_def pending_ok_def split: prod.splits)

interpretation pending: mgr_invariant pending_ok
proof (unfold_locales, goal_cases)
  case (15 m e gguid guid roles)
  show ?case
  proof (cases "om_find (RoleChecksStore m) gguid")
    case (Some rc)
    then have "opened gguid (RoleChecksStore m) m"
      using 15 by (auto simp: pending_ok_def opened_def rolechecks_pending_def rolecheck_pending_def)
    then show ?thesis using 15 UpdateRoleCheck_pending by (auto simp: pending_ok_def)
  qed (use 15 in \<open>simp add: UpdateRoleCheck_def\<close>)
next
  case (16 m e grp guid roles r ds c comment)
  then show ?case by (simp add: pending_ok_def begin_rolecheck_pending)
next
  case (17 m e y)
  then show ?case by (simp add: pending_ok_def expire_rolecheck_stores rolechecks_pending_set)
next
  case (18 m e pid ty)
  then show ?case by (auto simp: option.pred_set pending_ok_def proposals_pending_set dest!: RemoveProposal_stores)
qed (auto simp: leave_proposal_pending UpdateProposal_pending search_queue_pending player_setters group_setters RemovePlayerData_def
    erase_group_def intro: pending_cong)

section \<open>A small world\<close>

text \<open>
  Two players in a group, one dungeon, and the calls that load it and tell the manager of the players: the
  start of the concrete runs below.
\<close>

definition ex_char :: "guid \<Rightarrow> lfg_char" where
  "ex_char g = \<lparr>ch_guid = g, ch_InBattleground = False, ch_InArena = False, ch_InBattlegroundQueue = False, ch_InSoloQueue = False,
     ch_HasAura = (\<lambda>_. False), ch_HasIgnore = (\<lambda>_. False), ch_IsInWorld = True, ch_MapId = 36, ch_MapIsDungeon = True,
     ch_MapDifficulty = 0, ch_level = 20, ch_Expansion = 3, ch_Team = 469, ch_AverageItemLevel = 100,
     ch_BoundInstance = (\<lambda>_ _ _. False), ch_HasAchieved = (\<lambda>_. True), ch_QuestRewardStatus = (\<lambda>_. True),
     ch_HasItem = (\<lambda>_. True), ch_CanRewardQuest = (\<lambda>_. True), ch_ValorOnWeek = 0, ch_CallToArmsTempRoles = 0, ch_Disconnected = False\<rparr>"

definition ex_group_guid :: guid where "ex_group_guid = 0x1F50000000000009"

definition ex_group :: lfg_group where
  "ex_group = \<lparr>gr_guid = ex_group_guid, gr_leader = 1, gr_members = [Some (ex_char 1), Some (ex_char 2)], gr_MembersCount = 2, gr_isLFG = False,
     gr_isLFR = False, gr_LfgRoles = (\<lambda>_. 0)\<rparr>"

definition ex_world :: mgr_env where
  "ex_world = \<lparr>me_FindPlayer = (\<lambda>g. if g < 100 then Some (ex_char g) else None), me_GetGroupByGUID = (\<lambda>_. Some ex_group),
     me_PlayerGroup = (\<lambda>_. None), me_now = 1000, me_BRandom = (\<lambda>_. 0), me_HasQuest = (\<lambda>q. q \<noteq> 0), me_TwoSideGroup = False,
     me_TwoSideLfg = False, me_MaxPlayerLevel = 85, me_HolidayActive = (\<lambda>_. False), me_MapDisabled = (\<lambda>_ _ _. False),
     me_AccessRequirement = (\<lambda>_ _. None)\<rparr>"

definition ex_dungeon :: LFGDungeonData where
  "ex_dungeon = \<lparr>dg_id = 6, dg_map = 36, dg_type = 1, dg_expansion = 0, dg_group = 1, dg_minlevel = 15, dg_maxlevel = 25,
     dg_difficulty = 0, dg_seasonal = False, dg_isLFR = False, dg_neededILevel = 0, requiredTanks = 1, requiredHeals = 1, requiredDamagedealers = 3\<rparr>"

fun lfg_run :: "mgr_env \<Rightarrow> lfg_event list \<Rightarrow> lfg_mgr \<Rightarrow> lfg_mgr option" where
  "lfg_run e [] m = Some m"
| "lfg_run e (x # xs) m = do { m \<leftarrow> lfg_handle e x m; lfg_run e xs m }"

lemma lfg_run_reachable: "lfg_run e xs m = Some m' \<Longrightarrow> reachable lfg_initial lfg_step m \<Longrightarrow> reachable lfg_initial lfg_step m'"
  by (induction xs arbitrary: m) (auto simp: bind_eq_Some_conv, metis lfg_step.handled reach_step)

definition ex_events :: "lfg_event list" where
  "ex_events = [Ev_Load [ex_dungeon] [\<lparr>en_dungeonId = 6, en_atOrigin = False, en_neededILevel = 0\<rparr>] (\<lambda>_. None) False,
     Ev_Login (ex_char 1), Ev_Login (ex_char 2), Ev_AddMember ex_group 1, Ev_AddMember ex_group 2]"

lemma initial_reachable: "reachable lfg_initial lfg_step (new_LFGMgr options)"
  by (rule reach_init) (auto simp: lfg_initial_def)

lemma run_reachable: "lfg_run e xs (new_LFGMgr options) = Some m \<Longrightarrow> reachable lfg_initial lfg_step m"
  using lfg_run_reachable initial_reachable by blast

definition ex_kick :: "lfg_event list" where
  "ex_kick = ex_events @ [Ev_RemoveMember (ex_group\<lparr>gr_isLFG := True\<rparr>) 2 GROUP_REMOVEMETHOD_KICK 1 (Some ''afk'')]"

definition ex_join :: "lfg_event list" where
  "ex_join = ex_events @ [Ev_Join (ex_char 1) (Some ex_group) 2 [6] []]"

section \<open>Reachable states\<close>

definition lfg_inv :: "lfg_mgr \<Rightarrow> bool" where
  "lfg_inv m \<longleftrightarrow> players_ok m \<and> groups_ok m \<and> pending_ok m"

lemma lfg_inv_initial: "lfg_inv (new_LFGMgr options)"
  by (simp add: lfg_inv_def new_LFGMgr_def players_ok_def player_data_def player_ok_def new_LfgPlayerData_def settled_states_def
      groups_ok_def pending_ok_def rolechecks_pending_def proposals_pending_def)

interpretation lfg: state_machine lfg_initial lfg_step lfg_inv
proof (unfold_locales, goal_cases)
  case (1 m)
  then show ?case using lfg_inv_initial by (auto simp: lfg_initial_def)
next
  case (2 m x m')
  then show ?case
    by (auto simp: lfg_inv_def intro: players.all.step_keeps groups.all.step_keeps pending.step_keeps)
qed

text \<open>
  C12: in every state the dungeon finder can reach, through any sequence of requests, callbacks and updates, a player in
  the state \<open>LFG_STATE_NONE\<close> has no roles and no selected dungeons, a player or group that waits for nothing is in the
  state that is remembered for it, what is remembered is a state to go back to, the players of a group are a set,
  a group never has more kicks than it started with, and a group is only marked as voting while a vote is stored.
\<close>

theorem lfg_entries_consistent:
  assumes "reachable lfg_initial lfg_step m"
  shows "(\<not> IS_GROUP_GUID g \<longrightarrow>
        (pd_State (player_data m g) = LFG_STATE_NONE \<longrightarrow> pd_Roles (player_data m g) = 0 \<and> pd_SelectedDungeons (player_data m g) = []) \<and>
        pd_OldState (player_data m g) \<in> {LFG_STATE_NONE, LFG_STATE_DUNGEON, LFG_STATE_FINISHED_DUNGEON} \<and>
        (pd_State (player_data m g) \<in> {LFG_STATE_NONE, LFG_STATE_DUNGEON, LFG_STATE_FINISHED_DUNGEON} \<longrightarrow>
           pd_OldState (player_data m g) = pd_State (player_data m g)))
    \<and> (\<forall>d. om_find (GroupsStore m) g = Some d \<longrightarrow>
        gd_OldState d \<in> {LFG_STATE_NONE, LFG_STATE_DUNGEON, LFG_STATE_FINISHED_DUNGEON} \<and>
        (gd_State d \<in> {LFG_STATE_NONE, LFG_STATE_DUNGEON, LFG_STATE_FINISHED_DUNGEON} \<longrightarrow> gd_OldState d = gd_State d) \<and>
        gd_KicksLeft d \<le> LFG_GROUP_MAX_KICKS \<and> sorted (gd_Players d) \<and> distinct (gd_Players d) \<and>
        (gd_VoteKickActive d \<longrightarrow> (\<exists>boot. om_find (BootsStore m) g = Some boot)))"
proof -
  have "lfg_inv m" by (rule lfg.reachable_invar [OF assms])
  then show ?thesis
    by (auto simp: lfg_inv_def players_ok_def player_ok_def groups_ok_def group_ok_def settled_states_def)
qed

theorem lfg_entries_consistent_witness:
  "\<exists>m d boot. lfg_run ex_world ex_kick (new_LFGMgr 3) = Some m \<and> om_find (GroupsStore m) ex_group_guid = Some d
     \<and> gd_VoteKickActive d \<and> gd_KicksLeft d \<le> LFG_GROUP_MAX_KICKS \<and> om_find (BootsStore m) ex_group_guid = Some boot"
proof -
  have run: "map_option (\<lambda>m. map_option gd_VoteKickActive (om_find (GroupsStore m) ex_group_guid))
      (lfg_run ex_world ex_kick (new_LFGMgr 3)) = Some (Some True)"
    by code_simp
  then obtain m d where m: "lfg_run ex_world ex_kick (new_LFGMgr 3) = Some m" "om_find (GroupsStore m) ex_group_guid = Some d" "gd_VoteKickActive d"
    by auto
  then show ?thesis using lfg_entries_consistent [OF run_reachable [OF m(1)], of ex_group_guid] by blast
qed

text \<open>
  C3: in every reachable state each stored role check is open and waits for the choice of somebody, and each stored
  proposal is open and refused by nobody: a role check or proposal that is decided is not left behind.
\<close>

theorem lfg_requests_pending:
  assumes "reachable lfg_initial lfg_step m"
  shows "(\<forall>rc. om_find (RoleChecksStore m) g = Some rc \<and> g \<noteq> 0 \<longrightarrow>
        rc_state rc = LFG_ROLECHECK_INITIALITING \<and> (\<exists>p. om_find (rc_roles rc) p = Some PLAYER_ROLE_NONE))
    \<and> (\<forall>p. om_find (ProposalsStore (shared m)) pid = Some p \<longrightarrow>
        pr_state p = LFG_PROPOSAL_INITIATING \<and> (\<forall>x\<in>set (pr_players p). pp_accept (snd x) \<noteq> LFG_ANSWER_DENY))"
proof -
  have "lfg_inv m" by (rule lfg.reachable_invar [OF assms])
  then show ?thesis
    by (auto simp: lfg_inv_def pending_ok_def rolechecks_pending_def rolecheck_pending_def rolecheck_open_def proposals_pending_def
        proposal_pending_def list_all_iff list_ex_iff) (metis om_in_find prod.collapse)+
qed

theorem lfg_requests_pending_witness:
  "\<exists>m rc p. lfg_run ex_world ex_join (new_LFGMgr 3) = Some m \<and> om_find (RoleChecksStore m) ex_group_guid = Some rc
     \<and> rc_state rc = LFG_ROLECHECK_INITIALITING \<and> om_find (rc_roles rc) p = Some PLAYER_ROLE_NONE"
proof -
  have run: "map_option (\<lambda>m. om_find (RoleChecksStore m) ex_group_guid \<noteq> None) (lfg_run ex_world ex_join (new_LFGMgr 3)) = Some True"
    by code_simp
  then obtain m rc where m: "lfg_run ex_world ex_join (new_LFGMgr 3) = Some m" "om_find (RoleChecksStore m) ex_group_guid = Some rc"
    by auto
  moreover have "ex_group_guid \<noteq> 0" by (simp add: ex_group_guid_def)
  ultimately show ?thesis using lfg_requests_pending [OF run_reachable [OF m(1)], of ex_group_guid] by blast
qed

lemma announce_pending: "pr_state (snd x) = LFG_PROPOSAL_INITIATING \<Longrightarrow> announce_proposal e x m = Some (fold (announce_player e (snd x)) (map fst (pr_players (snd x))) m)"
  by (simp add: announce_proposal_def Let_def)

lemma announce_all_pending: "\<forall>x\<in>set xs. pr_state (snd x) = LFG_PROPOSAL_INITIATING \<Longrightarrow> \<exists>m'. announce_proposals e xs m = Some m'"
  by (induction xs arbitrary: m) (simp_all add: announce_pending)

lemma pending_proposals: "pending_ok m \<Longrightarrow> x \<in> set (ProposalsStore (shared m)) \<Longrightarrow> proposal_pending (snd x)"
  unfolding pending_ok_def proposals_pending_def by (metis om_in_find prod.collapse)

lemma removal_defined: "pending_ok m \<Longrightarrow> \<exists>m'. RemoveProposal e pid ty m = Some m' \<and> pending_ok m'"
  using pending.proposal_removed [of m e pid ty] RemoveProposal_defined [of m pid e ty]
  by (auto simp: pending_ok_def proposals_pending_def proposal_pending_def)

lemma expire_proposals_defined: "pending_ok m \<Longrightarrow> \<exists>m'. expire_proposals e xs m = Some m' \<and> pending_ok m'"
proof (induction xs arbitrary: m)
  case (Cons x xs)
  have "\<exists>m1. expire_proposal e x m = Some m1 \<and> pending_ok m1"
    using removal_defined [OF Cons.prems] Cons.prems by (simp add: expire_proposal_def)
  then show ?case using Cons.IH by auto
qed simp

lemma expire_defined: "pending_ok m \<Longrightarrow> \<exists>m'. expire e m = Some m' \<and> pending_ok m'"
proof -
  assume "pending_ok m"
  let ?m = "fold (expire_rolecheck e) (RoleChecksStore m) m"
  have "pending_ok ?m" using \<open>pending_ok m\<close> by (intro pending.fold_keeps pending.rolecheck_expired)
  then obtain m0 where "expire_proposals e (ProposalsStore (shared ?m)) ?m = Some m0" using expire_proposals_defined by blast
  then have "\<exists>m1. expire e m = Some m1" by (simp add: expire_def Let_def)
  then show ?thesis using pending.expire_keeps [OF \<open>pending_ok m\<close>, of e] by auto
qed

lemma leave_proposal_defined: "pending_ok m \<Longrightarrow> \<exists>m'. leave_proposal e guid m = Some m'"
  unfolding leave_proposal_def
  by (auto simp: Let_def set_proposal_def om_find_set split: option.splits prod.splits intro!: RemoveProposal_defined)

lemma LeaveLfg_defined: "pending_ok m \<Longrightarrow> \<exists>m'. LeaveLfg e guid b m = Some m'"
  using leave_proposal_defined [OF pending.touched]
  by (auto simp: LeaveLfg_def Let_def split: LfgState.splits)

lemma decline_defined: "\<exists>m'. UpdateProposal e pid guid False m = Some m'"
  unfolding UpdateProposal_def
  by (auto simp: Let_def set_proposal_def om_find_set split: option.splits intro!: RemoveProposal_defined)

text \<open>
  C20: in a reachable state the periodic update completes, and so do leaving the dungeon finder and declining a proposal:
  every stored proposal has players, so the queue of its first player can be looked up when it expires or is refused,
  and the update never announces a proposal that it would have to accept itself.
\<close>

theorem Update_completes:
  assumes "reachable lfg_initial lfg_step m"
  shows "(\<exists>m'. Update e diff m = Some m') \<and> (\<exists>m'. LeaveLfg e guid disconnected m = Some m')
    \<and> (\<exists>m'. UpdateProposal e pid guid False m = Some m')
    \<and> (\<forall>x\<in>set (ProposalsStore (shared m)). pr_players (snd x) \<noteq> [])"
proof -
  have pending: "pending_ok m" using lfg.reachable_invar [OF assms] by (simp add: lfg_inv_def)
  obtain m1 where m1: "expire e m = Some m1" "pending_ok m1" using expire_defined [OF pending] by blast
  define m2 where "m2 = fold (search_queue e) (map fst (QueuesStore m1)) m1"
  have "pending_ok m2" unfolding m2_def by (intro pending.fold_keeps pending.searched m1(2))
  then obtain m3 where "announce_new e (m_lfgProposalId (shared m1)) m2 = Some m3"
    unfolding announce_new_def using announce_all_pending set_dropWhileD pending_proposals [of m2]
    by (metis (no_types, lifting) proposal_pending_def)
  then have "\<exists>m'. Update e diff m = Some m'" using m1(1) by (simp add: Update_def Let_def m2_def)
  then show ?thesis
    using LeaveLfg_defined [OF pending] decline_defined pending_proposals [OF pending] unfolding proposal_pending_def by blast
qed

text \<open>Two players who join alone for a dungeon of two and are found by a search, and the world when their time is up.\<close>

definition ex_pair :: "lfg_event list" where
  "ex_pair = [Ev_Load [ex_dungeon\<lparr>requiredHeals := 0, requiredDamagedealers := 1\<rparr>]
       [\<lparr>en_dungeonId = 6, en_atOrigin = False, en_neededILevel = 0\<rparr>] (\<lambda>_. None) False,
     Ev_Login (ex_char 1), Ev_Login (ex_char 2), Ev_Join (ex_char 1) None 2 [6] [], Ev_Join (ex_char 2) None 8 [6] [], Ev_Update 100]"

theorem Update_completes_witness:
  "\<exists>m p m'. lfg_run ex_world ex_pair (new_LFGMgr 3) = Some m \<and> ProposalsStore (shared m) = [(2, p)] \<and> pr_players p \<noteq> []
     \<and> pr_cancelTime p < me_now (ex_world\<lparr>me_now := 100000\<rparr>) \<and> Update (ex_world\<lparr>me_now := 100000\<rparr>) 100 m = Some m'"
proof -
  have "map_option (\<lambda>m. map (\<lambda>x. (fst x, pr_cancelTime (snd x) < 100000)) (ProposalsStore (shared m)))
      (lfg_run ex_world ex_pair (new_LFGMgr 3)) = Some [(2, True)]" by code_simp
  then obtain m p where m: "lfg_run ex_world ex_pair (new_LFGMgr 3) = Some m" "ProposalsStore (shared m) = [(2, p)]" "pr_cancelTime p < 100000"
    by auto
  from Update_completes [OF run_reachable [OF m(1)], of "ex_world\<lparr>me_now := 100000\<rparr>" 100] m show ?thesis by auto
qed

end
