(* ===== verification/LfgOutcomes.thy ===== *)
theory LfgOutcomes
  imports LfgMgrSpec LfgQueueSpec
begin

text \<open>
  What single operations of the dungeon finder manager do: the end of a proposal, of a role check, of a vote and of a
  dungeon, the dungeons a party may join for, and the defects found on the way.
\<close>

section \<open>States of players and groups\<close>

lemma group_data_on_group: "group_data e' (on_group e g f m) h = (if h = g then f (group_data e m g) else group_data e' m h)"
  by (auto simp: group_data_def on_group_def om_find_modify)

lemma group_data_on_player [simp]: "group_data e (on_player g f m) = group_data e m"
  by (simp add: group_data_def fun_eq_iff)

lemma player_data_on_group [simp]: "player_data (on_group e g f m) = player_data m"
  by (simp add: player_data_def fun_eq_iff)

lemma data_framed [simp]:
  "player_data (emit x m) = player_data m" "player_data (send_to e g x m) = player_data m" "player_data (on_queue k f m) = player_data m"
  "group_data e' (emit x m) = group_data e' m" "group_data e' (send_to e g x m) = group_data e' m"
  "group_data e' (on_queue k f m) = group_data e' m"
  by (simp_all add: player_data_def group_data_def fun_eq_iff)

lemma state_framed [simp]:
  "GetState e' (emit x m) = GetState e' m" "GetState e' (send_to e g x m) = GetState e' m" "GetState e' (on_queue k f m) = GetState e' m"
  "GetOldState e' (emit x m) = GetOldState e' m" "GetOldState e' (send_to e g x m) = GetOldState e' m"
  "GetOldState e' (on_queue k f m) = GetOldState e' m"
  by (simp_all add: GetState_def GetOldState_def fun_eq_iff)

lemma GetState_SetState: "GetState e' (SetState e g s m) h = (if h = g then s else GetState e' m h)"
  by (simp add: GetState_def SetState_def group_data_on_group player_data_on_player player_SetState_def group_SetState_def Let_def)

lemma GetOldState_SetState:
  "s \<notin> settled_states \<Longrightarrow> GetOldState e (SetState e g s m) h = GetOldState e m h"
  by (simp add: GetOldState_def SetState_def group_data_on_group player_data_on_player player_SetState_def group_SetState_def Let_def
      settled_states_def)

lemma GetState_RestoreState: "GetState e (RestoreState e g m) h = (if h = g then GetOldState e m g else GetState e m h)"
  by (simp add: GetState_def GetOldState_def RestoreState_def group_data_on_group player_data_on_player player_RestoreState_def
      group_RestoreState_def Let_def)

lemma GetOldState_RestoreState: "GetOldState e (RestoreState e g m) h = GetOldState e m h"
  by (simp add: GetOldState_def RestoreState_def group_data_on_group player_data_on_player player_RestoreState_def
      group_RestoreState_def Let_def)

lemma GetTeam_states [simp]: "GetTeam (SetState e g s m) h = GetTeam m h" "GetTeam (RestoreState e g m) h = GetTeam m h"
  "GetTeam (send_to e g x m) h = GetTeam m h"
  by (simp_all add: GetTeam_def SetState_def RestoreState_def player_data_on_player player_SetState_def player_RestoreState_def Let_def)

lemma settled_queued [simp]: "LFG_STATE_QUEUED \<notin> settled_states"
  by (simp add: settled_states_def)

lemmas state_simps = GetState_SetState GetOldState_SetState GetState_RestoreState GetOldState_RestoreState

section \<open>The end of a proposal\<close>

definition touches :: "guid \<times> LfgProposalPlayer \<Rightarrow> guid \<Rightarrow> bool" where
  "touches x k \<longleftrightarrow> k = fst x \<or> k = queued_as x"

lemma release_player_state:
  "GetState e (release_player e ty p rm x m) k =
     (if touches x k then if queued_as x \<in> set rm then GetOldState e m k else LFG_STATE_QUEUED else GetState e m k)"
  "GetOldState e (release_player e ty p rm x m) k = GetOldState e m k"
  "GetTeam (release_player e ty p rm x m) k = GetTeam m k"
  by (auto simp: release_player_def Let_def state_simps touches_def queued_as_def)

lemma release_players_state:
  assumes "\<And>x. x \<in> set xs \<Longrightarrow> touches x k \<Longrightarrow> queued_as x \<in> set rm \<longleftrightarrow> v"
  shows "GetState e (fold (release_player e ty p rm) xs m) k =
     (if \<exists>x\<in>set xs. touches x k then if v then GetOldState e m k else LFG_STATE_QUEUED else GetState e m k)"
  using assms by (induction xs arbitrary: m) (auto simp: release_player_state)

lemma release_players_other:
  "QueuesStore (fold (release_player e ty p rm) xs m) = QueuesStore m"
  "GetTeam (fold (release_player e ty p rm) xs m) k = GetTeam m k"
proof -
  have "QueuesStore (release_player e ty p rm x m) = QueuesStore m" for x m by (simp add: release_player_def Let_def)
  then show "QueuesStore (fold (release_player e ty p rm) xs m) = QueuesStore m" by (rule fold_frame)
  show "GetTeam (fold (release_player e ty p rm) xs m) k = GetTeam m k"
    by (rule fold_frame [where F = "\<lambda>m. GetTeam m k"]) (rule release_player_state)
qed

lemma to_remove_set: "set (to_remove ty players) = queued_as ` {x \<in> set players. refuses ty (snd x)}"
proof -
  have "set (fold (\<lambda>x s. if refuses ty (snd x) then insort_insert (queued_as x) s else s) xs s) =
      set s \<union> queued_as ` {x \<in> set xs. refuses ty (snd x)}" for xs s
    by (induction xs arbitrary: s) (auto simp: set_insort_insert)
  then show ?thesis by (simp add: to_remove_def)
qed

lemma queued_as_marks [simp]: "queued_as (deny_unanswered ty x) = queued_as x" "queued_as (mark_refusal ty x) = queued_as x"
  "fst (deny_unanswered ty x) = fst x" "fst (mark_refusal ty x) = fst x"
  by (auto simp: queued_as_def deny_unanswered_def mark_refusal_def)

lemma refuses_denied [simp]: "refuses ty (snd (deny_unanswered ty x)) = refuses ty (snd x)"
  by (auto simp: refuses_def deny_unanswered_def)

lemma RemoveFromQueue_step:
  assumes "om_wf (QueueDataStore q)"
  shows "om_wf (QueueDataStore (RemoveFromQueue e g q))"
    "currentQueueStore (RemoveFromQueue e g q) = removeAll g (currentQueueStore q)"
    "om_find (QueueDataStore (RemoveFromQueue e g q)) h = None \<longleftrightarrow> h = g \<or> om_find (QueueDataStore q) h = None"
proof -
  have "map fst (map (refresh_best e q' g) st) = map fst st" for q' st by (simp add: refresh_best_def)
  then have "om_wf (map (refresh_best e q' g) (QueueDataStore q))" for q' using assms by (simp only: om_wf_def)
  then show "om_wf (QueueDataStore (RemoveFromQueue e g q))"
    by (simp add: RemoveFromQueue_def Let_def queue_updates)
  show "currentQueueStore (RemoveFromQueue e g q) = removeAll g (currentQueueStore q)"
    by (simp add: RemoveFromQueue_def Let_def queue_updates)
  show "om_find (QueueDataStore (RemoveFromQueue e g q)) h = None \<longleftrightarrow> h = g \<or> om_find (QueueDataStore q) h = None"
    using RemoveFromQueue_data(1) [OF assms, of e g] RemoveFromQueue_data(2) [OF assms, of h g e] by (metis option.map_disc_iff)
qed

lemma RemoveFromQueue_all:
  assumes "om_wf (QueueDataStore q)"
  shows "newToQueueStore (fold (RemoveFromQueue e) gs q) = filter (\<lambda>g. g \<notin> set gs) (newToQueueStore q)"
    "currentQueueStore (fold (RemoveFromQueue e) gs q) = filter (\<lambda>g. g \<notin> set gs) (currentQueueStore q)"
    "om_find (QueueDataStore (fold (RemoveFromQueue e) gs q)) h = None \<longleftrightarrow> h \<in> set gs \<or> om_find (QueueDataStore q) h = None"
  using assms
  by (induction gs arbitrary: q)
    (auto simp: RemoveFromQueue_step RemoveFromQueue_new removeAll_filter_not_eq conj_commute intro!: filter_cong)

lemma AddToQueue_all:
  "newToQueueStore (fold AddToQueue gs q) = newToQueueStore q @ filter (\<lambda>g. om_find (QueueDataStore q) g \<noteq> None) gs"
  "currentQueueStore (fold AddToQueue gs q) = currentQueueStore q" "QueueDataStore (fold AddToQueue gs q) = QueueDataStore q"
  by (induction gs arbitrary: q) (auto simp: AddToQueue_def AddToNewQueue_def split: option.splits)

lemma queue_of_on_queue: "queue_of (on_queue k f m) j = (if j = k then f (queue_of m k) else queue_of m j)"
  by (auto simp: queue_of_def on_queue_def om_find_modify)

lemma queue_of_framed [simp]: "queue_of (erase_proposal pid m) = queue_of m" "queue_of (SetState e g s m) = queue_of m"
  "GetState e (erase_proposal pid m) = GetState e m"
  by (simp_all add: queue_of_def GetState_def player_data_def group_data_def fun_eq_iff)

text \<open>The proposal as it is announced, and the state when all its players were told.\<close>

definition failed_proposal :: "LfgUpdateType \<Rightarrow> LfgProposal \<Rightarrow> LfgProposal" where
  "failed_proposal ty p = p\<lparr>pr_state := LFG_PROPOSAL_FAILED,
     pr_players := map (mark_refusal ty) (map (deny_unanswered ty) (pr_players p))\<rparr>"

definition told_all :: "mgr_env \<Rightarrow> LfgUpdateType \<Rightarrow> LfgProposal \<Rightarrow> lfg_mgr \<Rightarrow> lfg_mgr" where
  "told_all e ty p m = fold (release_player e ty (failed_proposal ty p) (to_remove ty (map (deny_unanswered ty) (pr_players p))))
     (pr_players (failed_proposal ty p)) m"

lemma RemoveProposal_eq:
  assumes "om_find (ProposalsStore (shared m)) pid = Some p" "pr_players p = x0 # xs0" "\<not> IS_GROUP_GUID (fst x0)"
    and "rm = to_remove ty (map (deny_unanswered ty) (pr_players p))" "m1 = told_all e ty p m"
  shows "RemoveProposal e pid ty m = Some (erase_proposal pid (on_queue (GetTeam m (fst x0))
      (\<lambda>q. fold AddToQueue (filter (\<lambda>g. g \<notin> set rm) (pr_queues p)) (fold (RemoveFromQueue (queue_env e m1)) rm q)) m1))"
proof -
  have team: "GetQueueId e m1 (fst x0) = GetTeam m (fst x0)"
    using assms(3) by (simp add: GetQueueId_def assms(5) told_all_def release_players_other)
  have p': "pr_queues (failed_proposal ty p) = pr_queues p"
    "pr_players (failed_proposal ty p) = mark_refusal ty (deny_unanswered ty x0) # map (mark_refusal ty \<circ> deny_unanswered ty) xs0"
    by (simp_all add: failed_proposal_def assms(2))
  show ?thesis
    unfolding RemoveProposal_def Let_def assms(1) option.case failed_proposal_def [symmetric] assms(4) [symmetric]
      told_all_def [of e ty p m, folded assms(4), symmetric] assms(5) [symmetric]
    by (simp add: p' team)
qed

lemma told_all_state:
  assumes "distinct (map fst (pr_players p))"
    and guids: "\<forall>x\<in>set (pr_players p). \<not> IS_GROUP_GUID (fst x) \<and> (pp_group (snd x) \<noteq> 0 \<longrightarrow> IS_GROUP_GUID (pp_group (snd x)))"
    and x: "x \<in> set (pr_players p)" and g: "g \<in> {fst x, queued_as x}"
  shows "GetState e (told_all e ty p m) g =
    (if queued_as x \<in> set (to_remove ty (map (deny_unanswered ty) (pr_players p))) then GetOldState e m g else LFG_STATE_QUEUED)"
proof -
  have same: "queued_as y = queued_as x" if "y \<in> set (pr_players p)" "g = fst y \<or> g = queued_as y" for y
  proof (cases "g = fst x")
    case True
    then have "g = fst y" using guids x that by (metis queued_as_def)
    then have "y = x" using True assms(1) x that(1) by (metis distinct_map inj_onD)
    then show ?thesis by simp
  next
    case False
    then have "g = queued_as x" and "IS_GROUP_GUID g" using g guids x by (auto simp: queued_as_def split: if_splits)
    then show ?thesis using guids that by metis
  qed
  have t: "touches (mark_refusal ty (deny_unanswered ty y)) g \<longleftrightarrow> g = fst y \<or> g = queued_as y" for y by (simp add: touches_def)
  have "GetState e (told_all e ty p m) g = (if \<exists>y\<in>set (pr_players (failed_proposal ty p)). touches y g
      then if queued_as x \<in> set (to_remove ty (map (deny_unanswered ty) (pr_players p))) then GetOldState e m g else LFG_STATE_QUEUED
      else GetState e m g)"
    unfolding told_all_def
    by (rule release_players_state) (auto simp: failed_proposal_def t dest: same)
  moreover have "\<exists>y\<in>set (pr_players (failed_proposal ty p)). touches y g" using x g t by (auto simp: failed_proposal_def)
  ultimately show ?thesis by simp
qed

text \<open>
  C8: when a proposal fails or is declined it is gone; everybody who queued with somebody who refused is back in the state
  before and out of the queue, with the group; everybody else is queued again, with the group, and those of
  them whose queue data is still there are in the list of new groups.
\<close>

theorem RemoveProposal_outcome:
  assumes "om_find (ProposalsStore (shared m)) pid = Some p" "om_wf (ProposalsStore (shared m))" "distinct (map fst (pr_players p))"
    and guids: "\<forall>x\<in>set (pr_players p). \<not> IS_GROUP_GUID (fst x) \<and> (pp_group (snd x) \<noteq> 0 \<longrightarrow> IS_GROUP_GUID (pp_group (snd x)))"
    and first: "pr_players p = x0 # xs0" "q = queue_of m (GetTeam m (fst x0))" "om_wf (QueueDataStore q)"
    and leavers: "leavers = queued_as ` {x \<in> set (pr_players p). refuses ty (snd x)}"
  shows "\<exists>m' q'. RemoveProposal e pid ty m = Some m' \<and> q' = queue_of m' (GetTeam m (fst x0))
    \<and> om_find (ProposalsStore (shared m')) pid = None
    \<and> (\<forall>x\<in>set (pr_players p). \<forall>g\<in>{fst x, queued_as x}.
         GetState e m' g = (if queued_as x \<in> leavers then GetOldState e m g else LFG_STATE_QUEUED))
    \<and> (\<forall>g\<in>leavers. g \<notin> set (newToQueueStore q') \<and> g \<notin> set (currentQueueStore q') \<and> om_find (QueueDataStore q') g = None)
    \<and> (\<forall>g\<in>set (pr_queues p) - leavers. om_find (QueueDataStore q) g \<noteq> None \<longrightarrow> g \<in> set (newToQueueStore q'))"
proof -
  define rm where "rm = to_remove ty (map (deny_unanswered ty) (pr_players p))"
  define m1 where "m1 = told_all e ty p m"
  have rm: "set rm = leavers"
    unfolding rm_def to_remove_set leavers
    by (auto simp: image_iff simp del: split_paired_Ex split_paired_All) (metis queued_as_marks(1) refuses_denied snd_conv)
  obtain m' where m': "m' = erase_proposal pid (on_queue (GetTeam m (fst x0))
      (\<lambda>q. fold AddToQueue (filter (\<lambda>g. g \<notin> set rm) (pr_queues p)) (fold (RemoveFromQueue (queue_env e m1)) rm q)) m1)" by blast
  then have res: "RemoveProposal e pid ty m = Some m'"
    using RemoveProposal_eq [OF assms(1) first(1) _ rm_def m1_def] guids first(1) by simp
  define q' where "q' = queue_of m' (GetTeam m (fst x0))"
  have "queue_of m1 = queue_of m" by (simp add: m1_def told_all_def queue_of_def release_players_other fun_eq_iff)
  then have q': "q' = fold AddToQueue (filter (\<lambda>g. g \<notin> set rm) (pr_queues p)) (fold (RemoveFromQueue (queue_env e m1)) rm q)"
    by (simp add: q'_def m' queue_of_on_queue first(2))
  have "GetState e m' g = (if queued_as x \<in> leavers then GetOldState e m g else LFG_STATE_QUEUED)"
    if "x \<in> set (pr_players p)" "g \<in> {fst x, queued_as x}" for x g
    using told_all_state [OF assms(3) guids that, of e ty m] by (simp add: m' m1_def rm [symmetric] rm_def)
  moreover have "om_find (ProposalsStore (shared m')) pid = None"
    using RemoveProposal_stores [OF res] assms(1,2) by (simp add: om_find_erase)
  moreover note removed = RemoveFromQueue_all [OF first(3), of "queue_env e m1" rm]
  have "g \<notin> set (newToQueueStore q') \<and> g \<notin> set (currentQueueStore q') \<and> om_find (QueueDataStore q') g = None" if "g \<in> leavers" for g
    using that removed unfolding q' AddToQueue_all rm [symmetric] by auto
  moreover have "g \<in> set (newToQueueStore q')" if "g \<in> set (pr_queues p) - leavers" "om_find (QueueDataStore q) g \<noteq> None" for g
    using that removed(3) unfolding q' AddToQueue_all rm [symmetric] by auto
  ultimately show ?thesis using res q'_def by blast
qed

text \<open>Two players with a proposal, the first of whom has given the answer \<open>a\<close>.\<close>

definition ex_proposal :: "LfgAnswer \<Rightarrow> LfgProposal" where
  "ex_proposal a = \<lparr>pr_id = 1, pr_dungeonId = 6, pr_state = LFG_PROPOSAL_INITIATING, pr_group = 0, pr_leader = 1, pr_cancelTime = 2000,
     pr_encounters = 0, pr_isNew = True, pr_queues = [1, 2], pr_showorder = [1, 2],
     pr_players = [(1, \<lparr>pp_role = 2, pp_accept = a, pp_group = 0\<rparr>), (2, \<lparr>pp_role = 8, pp_accept = LFG_ANSWER_AGREE, pp_group = 0\<rparr>)]\<rparr>"

definition ex_waiting :: "u8 \<Rightarrow> LfgPlayerData" where
  "ex_waiting roles = new_LfgPlayerData\<lparr>pd_State := LFG_STATE_PROPOSAL, pd_Roles := roles, pd_SelectedDungeons := [6]\<rparr>"

definition ex_proposed :: "LfgAnswer \<Rightarrow> lfg_mgr" where
  "ex_proposed a = (new_LFGMgr 3)\<lparr>shared := \<lparr>m_lfgProposalId = 2, ProposalsStore = [(1, ex_proposal a)], rand_pos = 0\<rparr>,
     PlayersStore := [(1, ex_waiting 2), (2, ex_waiting 8)],
     QueuesStore := [(0, AddQueueData (queue_env ex_world (new_LFGMgr 3)) 2 0 [6] [(2, 8)]
       (AddQueueData (queue_env ex_world (new_LFGMgr 3)) 1 0 [6] [(1, 2)] new_LFGQueue))]\<rparr>"

theorem RemoveProposal_outcome_witness:
  "\<exists>m'. RemoveProposal ex_world 1 LFG_UPDATETYPE_PROPOSAL_DECLINED (ex_proposed LFG_ANSWER_DENY) = Some m' \<and>
     GetState ex_world m' 2 = LFG_STATE_QUEUED \<and> 2 \<in> set (newToQueueStore (queue_of m' 0)) \<and>
     GetState ex_world m' 1 = LFG_STATE_NONE \<and> 1 \<notin> set (newToQueueStore (queue_of m' 0))"
proof -
  let ?m = "ex_proposed LFG_ANSWER_DENY" and ?p = "ex_proposal LFG_ANSWER_DENY"
  have 1: "om_find (ProposalsStore (shared ?m)) 1 = Some ?p" by code_simp
  have 2: "om_wf (ProposalsStore (shared ?m))" by code_simp
  have 3: "distinct (map fst (pr_players ?p))" by code_simp
  have 4: "\<forall>x\<in>set (pr_players ?p). \<not> IS_GROUP_GUID (fst x) \<and> (pp_group (snd x) \<noteq> 0 \<longrightarrow> IS_GROUP_GUID (pp_group (snd x)))" by code_simp
  have 5: "pr_players ?p = (1, \<lparr>pp_role = 2, pp_accept = LFG_ANSWER_DENY, pp_group = 0\<rparr>) #
      [(2, \<lparr>pp_role = 8, pp_accept = LFG_ANSWER_AGREE, pp_group = 0\<rparr>)]" by (simp add: ex_proposal_def)
  have 6: "om_wf (QueueDataStore (queue_of ?m (GetTeam ?m (fst (1 :: guid, \<lparr>pp_role = 2, pp_accept = LFG_ANSWER_DENY, pp_group = 0\<rparr>)))))" by code_simp
  have team: "GetTeam ?m 1 = 0" by code_simp
  have data: "om_find (QueueDataStore (queue_of ?m 0)) 2 \<noteq> None" by code_simp
  have "{x \<in> set (pr_players ?p). refuses LFG_UPDATETYPE_PROPOSAL_DECLINED (snd x)} =
      {(1, \<lparr>pp_role = 2, pp_accept = LFG_ANSWER_DENY, pp_group = 0\<rparr>)}" by (auto simp: ex_proposal_def refuses_def)
  then have leavers: "{1} = queued_as ` {x \<in> set (pr_players ?p). refuses LFG_UPDATETYPE_PROPOSAL_DECLINED (snd x)}"
    by (simp add: queued_as_def)
  have old: "GetOldState ex_world ?m 1 = LFG_STATE_NONE" by code_simp
  show ?thesis
    using RemoveProposal_outcome [OF 1 2 3 4 5 refl 6 leavers, of ex_world] data old
    by (simp add: team) (auto simp: ex_proposal_def queued_as_def)
qed

section \<open>The end of a role check\<close>

lemma player_data_SetRoles: "player_data (SetRoles g r m) h = (if h = g then player_data m g\<lparr>pd_Roles := r\<rparr> else player_data m h)"
  by (simp add: SetRoles_def player_data_on_player)

lemma group_data_SetRoles [simp]: "group_data e (SetRoles g r m) = group_data e m"
  by (simp add: SetRoles_def)

lemma GetState_SetRoles [simp]: "GetState e (SetRoles g r m) h = GetState e m h" "GetOldState e (SetRoles g r m) h = GetOldState e m h"
  "GetTeam (SetRoles g r m) h = GetTeam m h"
  by (simp_all add: GetState_def GetOldState_def GetTeam_def player_data_SetRoles)

lemma SetRoles_queues [simp]: "QueuesStore (SetRoles g r m) = QueuesStore m"
  by (simp add: SetRoles_def)

lemma GetQueueId_cong:
  assumes "\<And>k. GetTeam m' k = GetTeam m k" "\<And>k. GetPlayers e m' k = GetPlayers e m k"
  shows "GetQueueId e m' k = GetQueueId e m k"
proof -
  have "GetTeam m' = GetTeam m" using assms(1) by (rule ext)
  then show ?thesis using assms(2) by (simp add: GetQueueId_def split: list.split)
qed

lemma GetRoles_simps:
  "GetRoles (SetRoles g r m) h = (if h = g then r else GetRoles m h)"
  "h \<noteq> g \<Longrightarrow> GetRoles (SetState e g s m) h = GetRoles m h" "GetRoles (send_to e g x m) h = GetRoles m h"
  "GetRoles (on_queue k q m) h = GetRoles m h"
  by (simp_all add: GetRoles_def player_data_SetRoles SetState_def player_data_on_player)

lemma GetPlayers_states [simp]: "GetPlayers e (SetState e g s m) h = GetPlayers e m h" "GetPlayers e (RestoreState e g m) h = GetPlayers e m h"
  "GetPlayers e (SetRoles g r m) h = GetPlayers e m h" "GetPlayers e (send_to e' g x m) h = GetPlayers e m h"
  by (simp_all add: GetPlayers_def SetState_def RestoreState_def group_data_on_group group_SetState_def group_RestoreState_def Let_def)

text \<open>What becomes of a player and a group depends on whether the role check has finished.\<close>

definition rolecheck_fate :: "mgr_env \<Rightarrow> LfgRoleCheckState \<Rightarrow> lfg_mgr \<Rightarrow> guid \<Rightarrow> LfgState" where
  "rolecheck_fate e s m k = (if s = LFG_ROLECHECK_FINISHED then LFG_STATE_QUEUED else GetOldState e m k)"

lemma rolecheck_player_data:
  assumes "rc_state rc \<noteq> LFG_ROLECHECK_INITIALITING"
  shows "GetState e (rolecheck_player e rc guid roles b x m) k =
      (if k = fst x then rolecheck_fate e (rc_state rc) m k else GetState e m k)"
    "GetOldState e (rolecheck_player e rc guid roles b x m) k = GetOldState e m k"
    "k \<noteq> fst x \<Longrightarrow> rc_state rc = LFG_ROLECHECK_FINISHED \<Longrightarrow> GetRoles (rolecheck_player e rc guid roles b x m) k = GetRoles m k"
    "rc_state rc = LFG_ROLECHECK_FINISHED \<Longrightarrow> GetRoles (rolecheck_player e rc guid roles b x m) (fst x) = snd x"
    "GetTeam (rolecheck_player e rc guid roles b x m) k = GetTeam m k"
    "GetPlayers e (rolecheck_player e rc guid roles b x m) k = GetPlayers e m k"
    "QueuesStore (rolecheck_player e rc guid roles b x m) = QueuesStore m"
  using assms
  by (cases "rc_state rc"; simp add: rolecheck_player_def Let_def state_simps rolecheck_fate_def GetRoles_simps)+

lemma rolecheck_players_data:
  assumes "rc_state rc \<noteq> LFG_ROLECHECK_INITIALITING"
  shows "GetState e (fold (rolecheck_player e rc guid roles b) xs m) k = (if k \<in> fst ` set xs then rolecheck_fate e (rc_state rc) m k else GetState e m k)"
    "GetOldState e (fold (rolecheck_player e rc guid roles b) xs m) k = GetOldState e m k"
    "rc_state rc = LFG_ROLECHECK_FINISHED \<Longrightarrow> k \<notin> fst ` set xs \<Longrightarrow> GetRoles (fold (rolecheck_player e rc guid roles b) xs m) k = GetRoles m k"
    "GetQueueId e (fold (rolecheck_player e rc guid roles b) xs m) k = GetQueueId e m k"
    "QueuesStore (fold (rolecheck_player e rc guid roles b) xs m) = QueuesStore m"
proof -
  note player = rolecheck_player_data [OF assms]
  show "GetState e (fold (rolecheck_player e rc guid roles b) xs m) k =
      (if k \<in> fst ` set xs then rolecheck_fate e (rc_state rc) m k else GetState e m k)"
    by (induction xs arbitrary: m) (auto simp: player rolecheck_fate_def)
  show "GetRoles (fold (rolecheck_player e rc guid roles b) xs m) k = GetRoles m k"
    if "rc_state rc = LFG_ROLECHECK_FINISHED" "k \<notin> fst ` set xs"
    using that by (induction xs arbitrary: m) (auto simp: player)
  show "GetOldState e (fold (rolecheck_player e rc guid roles b) xs m) k = GetOldState e m k"
    by (rule fold_frame [where F = "\<lambda>m. GetOldState e m k"]) (rule player)
  show "GetQueueId e (fold (rolecheck_player e rc guid roles b) xs m) k = GetQueueId e m k"
    by (rule fold_frame [where F = "\<lambda>m. GetQueueId e m k"]) (rule GetQueueId_cong; rule player)
  show "QueuesStore (fold (rolecheck_player e rc guid roles b) xs m) = QueuesStore m"
    by (rule fold_frame) (rule player)
qed

lemma rolecheck_players_roles:
  assumes "rc_state rc = LFG_ROLECHECK_FINISHED" "distinct (map fst xs)" "x \<in> set xs"
  shows "GetRoles (fold (rolecheck_player e rc guid roles b) xs m) (fst x) = snd x"
proof -
  have unfinished: "rc_state rc \<noteq> LFG_ROLECHECK_INITIALITING" using assms(1) by simp
  show ?thesis
    using assms(2,3)
  proof (induction xs arbitrary: m)
    case (Cons y ys)
    then show ?case
      using rolecheck_players_data(3) [OF unfinished assms(1)] rolecheck_player_data(4) [OF unfinished assms(1)]
      by (cases "x = y") auto
  qed simp
qed

lemma set_rolecheck_reads [simp]:
  "GetState e (set_rolecheck g rc m) k = GetState e m k" "GetOldState e (set_rolecheck g rc m) k = GetOldState e m k"
  "GetRoles (set_rolecheck g rc m) k = GetRoles m k" "GetTeam (set_rolecheck g rc m) k = GetTeam m k"
  "GetPlayers e (set_rolecheck g rc m) k = GetPlayers e m k"
  "GetState e (erase_rolecheck g m) k = GetState e m k" "GetRoles (erase_rolecheck g m) k = GetRoles m k"
  "queue_of (erase_rolecheck g m) = queue_of m"
  by (simp_all add: GetState_def GetOldState_def GetRoles_def GetTeam_def GetPlayers_def player_data_def group_data_def
      queue_of_def fun_eq_iff)

lemma GetQueueId_framed [simp]: "GetQueueId e (SetState e g s m) k = GetQueueId e m k"
  "GetQueueId e (set_rolecheck g rc m) k = GetQueueId e m k"
  by (rule GetQueueId_cong; simp)+

lemma AddQueueData_result:
  "om_find (QueueDataStore (AddQueueData e g t ds roles q)) g = Some (new_LfgQueueData e t ds roles)"
  "newToQueueStore (AddQueueData e g t ds roles q) = newToQueueStore q @ [g]"
  by (simp_all add: AddQueueData_def AddToQueue_def AddToNewQueue_def om_find_set)

lemma new_data_offer: "data_offer (new_LfgQueueData e t ds roles) = (ds, roles)"
  by (simp add: new_LfgQueueData_def InitializeGroupSetup_def data_offer_def Let_def split: list.splits option.splits)

lemma answer_rolecheck_complete:
  assumes "guid \<noteq> 0" "PLAYER_ROLE_TANK \<le> roles" "all = om_set guid roles (rc_roles rc)" "\<forall>x\<in>set all. snd x \<noteq> PLAYER_ROLE_NONE"
    "rolecheck_dungeons rc = d0 # ds0"
  shows "answer_rolecheck m guid roles rc = rc\<lparr>rc_roles := all,
    rc_state := if (case GetLFGDungeon m d0 of None \<Rightarrow> False | Some d \<Rightarrow> fst (CheckGroupRoles all d))
                then LFG_ROLECHECK_FINISHED else LFG_ROLECHECK_WRONG_ROLES\<rparr>"
proof -
  have "rolecheck_dungeons (rc\<lparr>rc_roles := all\<rparr>) = d0 # ds0"
    using assms(5) by (simp add: rolecheck_dungeons_def split: if_splits)
  then show ?thesis
    using assms(1,2,4) unfolding answer_rolecheck_def assms(3) [symmetric]
    by (simp add: Let_def list_all_iff not_less [symmetric] cong: option.case_cong)
qed

text \<open>The last answer finishes the role check exactly if the roles on offer can be given out.\<close>

lemma last_answer_state:
  assumes "guid \<noteq> 0" "PLAYER_ROLE_TANK \<le> roles" "all = om_set guid roles (rc_roles rc)" "\<forall>x\<in>set all. snd x \<noteq> PLAYER_ROLE_NONE"
    and "length all < 256" "rolecheck_dungeons rc = d0 # ds0" "rc' = answer_rolecheck m guid roles rc"
  shows "rc_state rc' = (if \<exists>d a. GetLFGDungeon m d0 = Some d \<and> narrows a all \<and> roles_fit a d
      then LFG_ROLECHECK_FINISHED else LFG_ROLECHECK_WRONG_ROLES)"
    "rc_roles rc' = all" "rc_dungeons rc' = rc_dungeons rc"
proof -
  have "all \<noteq> []" by (simp add: assms(3))
  then have search: "fst (CheckGroupRoles all d) = solvable all d" for d
    using CheckGroupRoles_ok [of all d] assms(5) by (auto simp: search_ok_def solvable_def split: if_splits)
  then show "rc_state rc' = (if \<exists>d a. GetLFGDungeon m d0 = Some d \<and> narrows a all \<and> roles_fit a d
      then LFG_ROLECHECK_FINISHED else LFG_ROLECHECK_WRONG_ROLES)"
    "rc_roles rc' = all" "rc_dungeons rc' = rc_dungeons rc"
    using answer_rolecheck_complete [OF assms(1-4,6), of m] by (auto simp: assms(7) solvable_def split: option.splits)
qed

text \<open>
  C6: when the last player of a group chooses, the role check is over.  If everybody can be given one of the roles they
  chose, the group and all its players are queued, with the roles and dungeons of the role check, at the end of the list
  of new groups; otherwise the group and all its players are back in the state before.
\<close>

theorem role_check_decides:
  assumes rc: "om_find (RoleChecksStore m) gguid = Some rc" "rc_state rc = LFG_ROLECHECK_INITIALITING" "om_wf (rc_roles rc)"
      "rolecheck_dungeons rc = d0 # ds0"
    and answer: "guid \<noteq> 0" "PLAYER_ROLE_TANK \<le> roles" "all = om_set guid roles (rc_roles rc)"
      "\<forall>x\<in>set all. snd x \<noteq> PLAYER_ROLE_NONE" "length all < 256"
    and guids: "gguid \<noteq> 0" "IS_GROUP_GUID gguid" "\<forall>x\<in>set all. \<not> IS_GROUP_GUID (fst x)" "om_wf (RoleChecksStore m)"
    and res: "m' = UpdateRoleCheck e gguid guid roles m" "q = queue_of m (GetQueueId e m gguid)" "q' = queue_of m' (GetQueueId e m gguid)"
  shows "om_find (RoleChecksStore m') gguid = None \<and>
    (if \<exists>d a. GetLFGDungeon m d0 = Some d \<and> narrows a all \<and> roles_fit a d
     then (\<forall>g\<in>insert gguid (fst ` set all). GetState e m' g = LFG_STATE_QUEUED)
        \<and> (\<forall>x\<in>set all. GetRoles m' (fst x) = snd x)
        \<and> map_option data_offer (om_find (QueueDataStore q') gguid) = Some (rc_dungeons rc, all)
        \<and> newToQueueStore q' = newToQueueStore q @ [gguid]
     else \<forall>g\<in>insert gguid (fst ` set all). GetState e m' g = GetOldState e m g)"
proof -
  define ok where "ok \<longleftrightarrow> (\<exists>d a. GetLFGDungeon m d0 = Some d \<and> narrows a all \<and> roles_fit a d)"
  define rc' where "rc' = answer_rolecheck m guid roles rc"
  note rc' = last_answer_state [OF answer rc(4) rc'_def, folded ok_def]
  then have decided: "rc_state rc' \<noteq> LFG_ROLECHECK_INITIALITING" by simp
  let ?run = "\<lambda>b. set_rolecheck gguid (rc'\<lparr>rc_isBeginning := False\<rparr>)
    (fold (rolecheck_player e rc' guid roles b) all (set_rolecheck gguid rc' m))"
  let ?b = "rc_state rc \<noteq> LFG_ROLECHECK_DEFAULT \<and> guid \<noteq> 0"
  have m': "m' = (if ok then let m = SetState e gguid LFG_STATE_QUEUED (?run ?b) in
        erase_rolecheck gguid (on_queue (GetQueueId e m gguid)
          (AddQueueData (queue_env e m) gguid (me_now e) (rc_dungeons rc) all) m)
      else erase_rolecheck gguid (RestoreState e gguid (?run ?b)))"
    unfolding res(1) UpdateRoleCheck_def using guids(1) rc(1) rc' by (simp add: Let_def rc'_def [symmetric])
  have gone: "om_find (RoleChecksStore m') gguid = None"
    using guids(4) UpdateRoleCheck_stores [OF rc(1) guids(1) rc'_def [symmetric]] decided
    by (simp add: res(1) Let_def om_find_erase)
  have gone': "gguid \<notin> fst ` set all" using guids by auto
  have dist: "distinct (map fst all)" using om_wf_distinct [OF om_wf_set [OF rc(3)]] answer(3) by simp
  note data = rolecheck_players_data [OF decided, where xs = all and b = ?b and m = "set_rolecheck gguid rc' m" and e = e]
  show ?thesis
  proof (cases ok)
    case True
    then have fin: "rc_state rc' = LFG_ROLECHECK_FINISHED" using rc' by simp
    have states: "GetState e m' g = LFG_STATE_QUEUED" if "g \<in> insert gguid (fst ` set all)" for g
      using that True data(1) fin by (auto simp: m' Let_def GetState_SetState rolecheck_fate_def)
    have roles: "GetRoles m' (fst x) = snd x" if "x \<in> set all" for x
    proof -
      have "fst x \<noteq> gguid" using that gone' by auto
      then show ?thesis using True rolecheck_players_roles [OF fin dist that] by (simp add: m' Let_def GetRoles_simps)
    qed
    have "queue_of (?run ?b) = queue_of m" using data(5) by (simp add: queue_of_def fun_eq_iff)
    then have "q' = AddQueueData (queue_env e (SetState e gguid LFG_STATE_QUEUED (?run ?b))) gguid (me_now e) (rc_dungeons rc) all q"
      using True data(4) unfolding res(2,3) m' by (simp add: Let_def queue_of_on_queue)
    then show ?thesis
      using True states roles gone unfolding ok_def [symmetric] by (simp add: AddQueueData_result new_data_offer)
  next
    case False
    then have "rc_state rc' \<noteq> LFG_ROLECHECK_FINISHED" using rc' by simp
    then have "GetState e m' g = GetOldState e m g" if "g \<in> insert gguid (fst ` set all)" for g
      using that False data(1,2) by (auto simp: m' GetState_RestoreState rolecheck_fate_def)
    then show ?thesis using False gone unfolding ok_def [symmetric] by simp
  qed
qed

theorem role_check_decides_witness:
  "\<exists>m. lfg_run ex_world ex_join (new_LFGMgr 3) = Some m
     \<and> (\<forall>g\<in>{ex_group_guid, 1, 2}. GetState ex_world (UpdateRoleCheck ex_world ex_group_guid 2 8 m) g = LFG_STATE_QUEUED)"
proof -
  define m where "m = the (lfg_run ex_world ex_join (new_LFGMgr 3))"
  define rc where "rc = the (om_find (RoleChecksStore m) ex_group_guid)"
  have "map_option (\<lambda>m. (\<lambda>rc. (rc_state rc, om_wf (rc_roles rc), rolecheck_dungeons rc, om_set 2 8 (rc_roles rc)))
        (the (om_find (RoleChecksStore m) ex_group_guid))) (lfg_run ex_world ex_join (new_LFGMgr 3)) =
      Some (LFG_ROLECHECK_INITIALITING, True, [6], [(1, 2), (2, 8)])"
    by code_simp
  then have rc: "rc_state rc = LFG_ROLECHECK_INITIALITING" "om_wf (rc_roles rc)" "rolecheck_dungeons rc = 6 # []"
      "[(1, 2), (2, 8)] = om_set 2 8 (rc_roles rc)" and run: "lfg_run ex_world ex_join (new_LFGMgr 3) = Some m"
    by (auto simp: m_def rc_def)
  have "map_option (\<lambda>m. (om_find (RoleChecksStore m) ex_group_guid \<noteq> None, om_wf (RoleChecksStore m), GetLFGDungeon m 6))
      (lfg_run ex_world ex_join (new_LFGMgr 3)) = Some (True, True, Some ex_dungeon)"
    by code_simp
  then have stores: "om_find (RoleChecksStore m) ex_group_guid = Some rc" "om_wf (RoleChecksStore m)" "GetLFGDungeon m 6 = Some ex_dungeon"
    using run by (auto simp: rc_def)
  have fit: "narrows [(1, 2), (2, 8)] [(1, 2), (2, 8)]" "roles_fit [(1, 2), (2, 8)] ex_dungeon" by code_simp+
  have guids: "IS_GROUP_GUID ex_group_guid" "\<forall>x\<in>set [(1 :: guid, 2 :: u8), (2, 8)]. \<not> IS_GROUP_GUID (fst x)"
    "\<forall>x\<in>set [(1 :: guid, 2 :: u8), (2, 8)]. snd x \<noteq> PLAYER_ROLE_NONE" "PLAYER_ROLE_TANK \<le> 8" by code_simp+
  have nz: "ex_group_guid \<noteq> 0" "(2 :: guid) \<noteq> 0" "length [(1 :: guid, 2 :: u8), (2, 8)] < 256" by (simp_all add: ex_group_guid_def)
  have ok: "\<exists>d a. GetLFGDungeon m 6 = Some d \<and> narrows a [(1, 2), (2, 8)] \<and> roles_fit a d" using fit stores(3) by blast
  note decided = role_check_decides [OF stores(1) rc(1,2,3) nz(2) guids(4) rc(4) guids(3) nz(3,1) guids(1,2) stores(2) refl refl refl, of ex_world]
  show ?thesis
    using run conjunct2 [OF decided, unfolded if_P [OF ok]] by simp
qed

end
