(* ===== verification/LfgRequests.thy ===== *)
theory LfgRequests
  imports LfgOutcomes
begin

text \<open>
  Votes to kick a player, joins and the end of a dungeon: what each of them does on every branch, and the
  defects found on the way.
\<close>

lemma om_set_set [simp]: "om_set k v (om_set k u m) = om_set k v m"
  by (induction m) auto

lemma mgr_out_framed [simp]: "mgr_out (on_player g f m) = mgr_out m" "mgr_out (on_group e g h m) = mgr_out m"
  "mgr_out (on_queue k q m) = mgr_out m"
  by (simp_all add: on_player_def on_group_def on_queue_def)

section \<open>Votes\<close>

definition answers :: "LfgAnswer \<Rightarrow> (guid, LfgAnswer) omap \<Rightarrow> nat" where
  "answers a votes = length (filter (\<lambda>v. snd v = a) votes)"

definition kick_votes_needed :: "mgr_env \<Rightarrow> guid \<Rightarrow> nat" where
  "kick_votes_needed e gguid =
     (case me_GetGroupByGUID e (GUID_LOPART gguid) of
        Some g \<Rightarrow> if gr_isLFR g then LFR_GROUP_KICK_VOTES_NEEDED else LFG_GROUP_KICK_VOTES_NEEDED
      | None \<Rightarrow> LFG_GROUP_KICK_VOTES_NEEDED)"

lemma votes_count:
  assumes "length votes < 256"
  shows "unat (votes_agree votes) = answers LFG_ANSWER_AGREE votes"
    "int (unat (votes_cast votes)) - int (unat (votes_agree votes)) = int (answers LFG_ANSWER_DENY votes)"
proof -
  have small: "unat (of_nat (length (filter P votes)) :: 8 word) = length (filter P votes)" for P
    using assms le_less_trans [OF length_filter_le [of P votes]] by (simp add: unat_of_nat take_bit_eq_mod)
  show agree: "unat (votes_agree votes) = answers LFG_ANSWER_AGREE votes"
    unfolding votes_agree_def answers_def by (rule small)
  have "length (filter (\<lambda>v. snd v \<noteq> LFG_ANSWER_PENDING) votes) = answers LFG_ANSWER_AGREE votes + answers LFG_ANSWER_DENY votes"
    unfolding answers_def by (induction votes) (auto intro: LfgAnswer.exhaust)
  then show "int (unat (votes_cast votes)) - int (unat (votes_agree votes)) = int (answers LFG_ANSWER_DENY votes)"
    unfolding agree votes_cast_def small by simp
qed

lemma tell_voters_out:
  "\<exists>out. tell_voters e boot m = m\<lparr>mgr_out := mgr_out m @ out\<rparr> \<and> (\<forall>x\<in>set out. \<exists>g b. x = SendBootProposalUpdate g b)"
proof -
  have "\<exists>out. fold (\<lambda>v m. if fst v \<noteq> bt_victim boot then send_to e (fst v) (SendBootProposalUpdate (fst v) boot) m else m) vs m =
      m\<lparr>mgr_out := mgr_out m @ out\<rparr> \<and> (\<forall>x\<in>set out. \<exists>g b. x = SendBootProposalUpdate g b)" for vs
  proof (induction vs arbitrary: m)
    case Nil
    show ?case by (rule exI [of _ "[]"]) simp
  next
    case (Cons v vs)
    let ?m = "if fst v \<noteq> bt_victim boot then send_to e (fst v) (SendBootProposalUpdate (fst v) boot) m else m"
    obtain out1 where "?m = m\<lparr>mgr_out := mgr_out m @ out1\<rparr>" "\<forall>x\<in>set out1. \<exists>g b. x = SendBootProposalUpdate g b"
      by (rule that [of "if fst v \<noteq> bt_victim boot \<and> me_FindPlayer e (fst v) \<noteq> None then [SendBootProposalUpdate (fst v) boot] else []"])
        (auto simp: send_to_def emit_def split: option.split)
    moreover obtain out2 where "fold (\<lambda>v m. if fst v \<noteq> bt_victim boot then send_to e (fst v) (SendBootProposalUpdate (fst v) boot) m else m) vs ?m =
        ?m\<lparr>mgr_out := mgr_out ?m @ out2\<rparr>" "\<forall>x\<in>set out2. \<exists>g b. x = SendBootProposalUpdate g b"
      using Cons by blast
    ultimately show ?case by (intro exI [of _ "out1 @ out2"]) auto
  qed
  then show ?thesis by (simp add: tell_voters_def)
qed

text \<open>The end of a vote: the consequences for the victim and the group, and the whole of what is done.\<close>

definition is_lfr :: "mgr_env \<Rightarrow> guid \<Rightarrow> bool" where
  "is_lfr e gguid = (case me_GetGroupByGUID e (GUID_LOPART gguid) of None \<Rightarrow> False | Some g \<Rightarrow> gr_isLFR g)"

definition carry_out :: "mgr_env \<Rightarrow> guid \<Rightarrow> guid \<Rightarrow> bool \<Rightarrow> lfg_mgr \<Rightarrow> lfg_mgr" where
  "carry_out e gguid victim passed m = (if passed then
     let m = (case me_GetGroupByGUID e (GUID_LOPART gguid) of None \<Rightarrow> m | Some _ \<Rightarrow> emit (KickFromGroup gguid victim) m);
         m = (if is_lfr e gguid then m else DecreaseKicksLeft e gguid m)
     in SetVoteKickCooldown e gguid (word_of_int (me_now e + VOTE_KICK_COOLDOWN)) m else m)"

definition vote_over :: "mgr_env \<Rightarrow> guid \<Rightarrow> LfgPlayerBoot \<Rightarrow> bool \<Rightarrow> lfg_mgr \<Rightarrow> lfg_mgr" where
  "vote_over e gguid boot passed m =
     erase_boot gguid (carry_out e gguid (bt_victim boot) passed (SetVoteKick e gguid False (tell_voters e boot (set_boot gguid boot m))))"

lemma carry_out_effects:
  "BootsStore (carry_out e gguid v passed m) = BootsStore m"
  "mgr_out (carry_out e gguid v passed m) =
     mgr_out m @ (if passed \<and> me_GetGroupByGUID e (GUID_LOPART gguid) \<noteq> None then [KickFromGroup gguid v] else [])"
  "gd_VoteKickActive (group_data e (carry_out e gguid v passed m) gguid) = gd_VoteKickActive (group_data e m gguid)"
  "gd_KicksLeft (group_data e (carry_out e gguid v passed m) gguid) =
     (if passed \<and> \<not> is_lfr e gguid then gd_KicksLeft (group_DecreaseKicksLeft (group_data e m gguid)) else gd_KicksLeft (group_data e m gguid))"
proof -
  note votekick_defs = carry_out_def Let_def SetVoteKickCooldown_def DecreaseKicksLeft_def
  show "BootsStore (carry_out e gguid v passed m) = BootsStore m"
    "mgr_out (carry_out e gguid v passed m) =
       mgr_out m @ (if passed \<and> me_GetGroupByGUID e (GUID_LOPART gguid) \<noteq> None then [KickFromGroup gguid v] else [])"
    by (auto simp: votekick_defs emit_def split: option.split)
qed (auto simp: carry_out_def Let_def SetVoteKickCooldown_def DecreaseKicksLeft_def group_data_on_group group_DecreaseKicksLeft_def
    split: option.split)

lemma vote_over_outcome:
  assumes "om_wf (BootsStore m)" "m' = vote_over e gguid boot passed m"
  shows "om_find (BootsStore m') gguid = None" "\<not> IsVoteKickActive e m' gguid"
    "\<exists>out. mgr_out m' = mgr_out m @ out \<and>
       (KickFromGroup gguid (bt_victim boot) \<in> set out \<longleftrightarrow> passed \<and> me_GetGroupByGUID e (GUID_LOPART gguid) \<noteq> None)"
    "GetKicksLeft e m' gguid = (if passed \<and> \<not> is_lfr e gguid \<and> GetKicksLeft e m gguid \<noteq> 0
       then GetKicksLeft e m gguid - 1 else GetKicksLeft e m gguid)"
proof -
  obtain out where out: "tell_voters e boot (set_boot gguid boot m) = (set_boot gguid boot m)\<lparr>mgr_out := mgr_out m @ out\<rparr>"
    "\<forall>x\<in>set out. \<exists>g b. x = SendBootProposalUpdate g b"
    using tell_voters_out [of e boot "set_boot gguid boot m"] by (auto simp: set_boot_def)
  let ?m = "SetVoteKick e gguid False ((set_boot gguid boot m)\<lparr>mgr_out := mgr_out m @ out\<rparr>)"
  have m': "m' = erase_boot gguid (carry_out e gguid (bt_victim boot) passed ?m)" by (simp add: assms(2) vote_over_def out(1))
  show "om_find (BootsStore m') gguid = None"
    using assms(1) by (simp add: m' erase_boot_def carry_out_effects SetVoteKick_def set_boot_def om_find_erase)
  have "mgr_out m' = mgr_out m @ out @
      (if passed \<and> me_GetGroupByGUID e (GUID_LOPART gguid) \<noteq> None then [KickFromGroup gguid (bt_victim boot)] else [])"
    by (simp add: m' erase_boot_def carry_out_effects SetVoteKick_def)
  moreover have "KickFromGroup gguid (bt_victim boot) \<notin> set out" using out(2) by auto
  ultimately show "\<exists>out. mgr_out m' = mgr_out m @ out \<and>
       (KickFromGroup gguid (bt_victim boot) \<in> set out \<longleftrightarrow> passed \<and> me_GetGroupByGUID e (GUID_LOPART gguid) \<noteq> None)" by auto
  have group: "group_data e ?m gguid = (group_data e m gguid)\<lparr>gd_VoteKickActive := False\<rparr>"
    by (simp add: SetVoteKick_def group_data_on_group) (simp add: group_data_def set_boot_def)
  have "group_data e m' gguid = group_data e (carry_out e gguid (bt_victim boot) passed ?m) gguid"
    by (simp add: m' group_data_def erase_boot_def)
  then show "\<not> IsVoteKickActive e m' gguid"
    and "GetKicksLeft e m' gguid = (if passed \<and> \<not> is_lfr e gguid \<and> GetKicksLeft e m gguid \<noteq> 0
       then GetKicksLeft e m gguid - 1 else GetKicksLeft e m gguid)"
    by (auto simp: IsVoteKickActive_def GetKicksLeft_def carry_out_effects group group_DecreaseKicksLeft_def)
qed

text \<open>
  C16: a vote of a player who has not voted yet counts.  The vote to kick goes on, with the group and everybody else
  untouched, as long as both the agreements and the refusals are fewer than needed; otherwise it is over and no longer
  stored or active, and the victim is removed from the group, at the cost of one of the kicks left unless it is a raid
  group, exactly if the agreements are those needed.
\<close>

theorem UpdateBoot_decides:
  assumes boot: "gguid = GetGroup m guid" "gguid \<noteq> 0" "om_find (BootsStore m) gguid = Some boot" "om_wf (BootsStore m)"
    and vote: "om_find (bt_votes boot) guid = Some LFG_ANSWER_PENDING" "votes = om_set guid (answer_of accept) (bt_votes boot)"
      "length votes < 256"
    and res: "m' = UpdateBoot e guid accept m" "needed = kick_votes_needed e gguid" "passed = (answers LFG_ANSWER_AGREE votes = needed)"
  shows "if answers LFG_ANSWER_AGREE votes < needed \<and> answers LFG_ANSWER_DENY votes < needed
    then m' = m\<lparr>BootsStore := om_set gguid (boot\<lparr>bt_votes := votes\<rparr>) (BootsStore m)\<rparr>
    else om_find (BootsStore m') gguid = None \<and> \<not> IsVoteKickActive e m' gguid
      \<and> (\<exists>out. mgr_out m' = mgr_out m @ out \<and>
           (KickFromGroup gguid (bt_victim boot) \<in> set out \<longleftrightarrow> passed \<and> me_GetGroupByGUID e (GUID_LOPART gguid) \<noteq> None))
      \<and> GetKicksLeft e m' gguid = (if passed \<and> needed = LFG_GROUP_KICK_VOTES_NEEDED \<and> GetKicksLeft e m gguid \<noteq> 0
                                    then GetKicksLeft e m gguid - 1 else GetKicksLeft e m gguid)"
proof -
  define boot' where "boot' = boot\<lparr>bt_votes := votes\<rparr>"
  have needed: "needed = (if is_lfr e gguid then LFR_GROUP_KICK_VOTES_NEEDED else LFG_GROUP_KICK_VOTES_NEEDED)"
    by (auto simp: res(2) kick_votes_needed_def is_lfr_def split: option.splits)
  have entry: "om_find (om_modify LFG_ANSWER_DENY guid id (bt_votes boot)) guid = Some LFG_ANSWER_PENDING"
    "om_set guid (answer_of accept) (om_modify LFG_ANSWER_DENY guid id (bt_votes boot)) = votes"
    using vote(1,2) by (simp_all add: om_modify_def om_find_set)
  have m': "m' = (if answers LFG_ANSWER_AGREE votes < needed \<and> answers LFG_ANSWER_DENY votes < needed then set_boot gguid boot' m
      else vote_over e gguid (boot'\<lparr>bt_inProgress := False\<rparr>) passed (set_boot gguid boot' m))"
    unfolding res(1,3) UpdateBoot_def Let_def boot(1) [symmetric] boot(3) option.case entry
      boot'_def vote_over_def carry_out_def needed is_lfr_def
    using boot(2) votes_count [OF vote(3)] by (simp cong: option.case_cong)
  show ?thesis
  proof (cases "answers LFG_ANSWER_AGREE votes < needed \<and> answers LFG_ANSWER_DENY votes < needed")
    case True
    then show ?thesis by (simp add: m' set_boot_def boot'_def)
  next
    case False
    have wf: "om_wf (BootsStore (set_boot gguid boot' m))" using boot(4) by (simp add: set_boot_def)
    note over = vote_over_outcome [OF wf m' [unfolded if_not_P [OF False]]]
    have same: "GetKicksLeft e (set_boot gguid boot' m) gguid = GetKicksLeft e m gguid" "mgr_out (set_boot gguid boot' m) = mgr_out m"
      by (simp_all add: GetKicksLeft_def group_data_def set_boot_def)
    have "needed = LFG_GROUP_KICK_VOTES_NEEDED \<longleftrightarrow> \<not> is_lfr e gguid"
      by (simp add: needed LFR_GROUP_KICK_VOTES_NEEDED_def LFG_GROUP_KICK_VOTES_NEEDED_def)
    then show ?thesis
      using over unfolding if_not_P [OF False] same by (simp add: boot'_def)
  qed
qed

definition ex_boot :: LfgPlayerBoot where
  "ex_boot = \<lparr>bt_cancelTime = 2000, bt_inProgress = True,
     bt_votes = [(1, LFG_ANSWER_AGREE), (3, LFG_ANSWER_DENY), (4, LFG_ANSWER_AGREE), (5, LFG_ANSWER_PENDING)], bt_victim = 3, bt_reason = ''afk''\<rparr>"

definition ex_vote :: lfg_mgr where
  "ex_vote = (new_LFGMgr 3)\<lparr>PlayersStore := [(5, new_LfgPlayerData\<lparr>pd_Group := ex_group_guid\<rparr>)], BootsStore := [(ex_group_guid, ex_boot)]\<rparr>"

theorem UpdateBoot_decides_witness:
  "om_find (BootsStore (UpdateBoot ex_world 5 True ex_vote)) ex_group_guid = None
   \<and> KickFromGroup ex_group_guid 3 \<in> set (mgr_out (UpdateBoot ex_world 5 True ex_vote))"
proof -
  have boot: "ex_group_guid = GetGroup ex_vote 5" "ex_group_guid \<noteq> 0" "om_find (BootsStore ex_vote) ex_group_guid = Some ex_boot"
    "om_wf (BootsStore ex_vote)" by code_simp+
  have vote: "om_find (bt_votes ex_boot) 5 = Some LFG_ANSWER_PENDING" "length (om_set 5 (answer_of True) (bt_votes ex_boot)) < 256" by code_simp+
  have enough: "\<not> (answers LFG_ANSWER_AGREE (om_set 5 (answer_of True) (bt_votes ex_boot)) < kick_votes_needed ex_world ex_group_guid \<and>
      answers LFG_ANSWER_DENY (om_set 5 (answer_of True) (bt_votes ex_boot)) < kick_votes_needed ex_world ex_group_guid)"
    "answers LFG_ANSWER_AGREE (om_set 5 (answer_of True) (bt_votes ex_boot)) = kick_votes_needed ex_world ex_group_guid"
    "me_GetGroupByGUID ex_world (GUID_LOPART ex_group_guid) \<noteq> None" "mgr_out ex_vote = []" "bt_victim ex_boot = 3" by code_simp+
  note res = UpdateBoot_decides [OF boot vote(1) refl vote(2) refl refl refl, of ex_world, unfolded if_not_P [OF enough(1)]]
  then show ?thesis using enough by auto
qed

text \<open>
  A member of the group who has no vote, having joined after the vote began, can only refuse: whatever the member
  answers, a refusal is stored, and it is not counted before somebody else votes.
\<close>

lemma late_member_refuses:
  assumes "GetGroup m guid \<noteq> 0" "om_find (BootsStore m) (GetGroup m guid) = Some boot" "om_find (bt_votes boot) guid = None"
  shows "UpdateBoot e guid accept m =
    m\<lparr>BootsStore := om_set (GetGroup m guid) (boot\<lparr>bt_votes := om_set guid LFG_ANSWER_DENY (bt_votes boot)\<rparr>) (BootsStore m)\<rparr>"
  using assms by (simp add: UpdateBoot_def Let_def om_modify_def om_find_set set_boot_def)

section \<open>Dungeons a party may join for\<close>

definition locked_for :: "lfg_mgr \<Rightarrow> guid list \<Rightarrow> bool \<Rightarrow> u32 \<Rightarrow> bool" where
  "locked_for m players isContinue d \<longleftrightarrow>
     (\<exists>p\<in>set players. \<exists>l\<in>set (GetLockedDungeons m p).
        fst l AND 0x00FFFFFF = d \<and> \<not> (ld_locktyp (snd l) = LFG_LOCKSTATUS_RAID_LOCKED \<and> isContinue))"

lemma apply_locks:
  assumes "distinct ds"
  shows "fst (fold (apply_lock c g) ls (ds, lm)) =
    filter (\<lambda>d. \<not> (\<exists>l\<in>set ls. fst l AND 0x00FFFFFF = d \<and> \<not> (ld_locktyp (snd l) = LFG_LOCKSTATUS_RAID_LOCKED \<and> c))) ds"
  using assms
proof (induction ls arbitrary: ds lm)
  case (Cons l ls)
  obtain ds' lm' where step: "apply_lock c g l (ds, lm) = (ds', lm')" by fastforce
  then have ds': "ds' = filter (\<lambda>d. \<not> (fst l AND 0x00FFFFFF = d \<and> \<not> (ld_locktyp (snd l) = LFG_LOCKSTATUS_RAID_LOCKED \<and> c))) ds"
    using Cons(2) by (auto simp: apply_lock_def Let_def distinct_remove1_removeAll removeAll_filter_not_eq filter_id_conv
        split: if_splits intro!: filter_cong)
  then have "distinct ds'" using Cons(2) by simp
  then show ?case using Cons(1) [of ds' lm'] step by (auto simp: ds' intro!: filter_cong)
qed simp

lemma apply_all_locks:
  assumes "distinct ds"
  shows "fst (fold (\<lambda>g. fold (apply_lock c g) (GetLockedDungeons m g)) ps (ds, lm)) = filter (\<lambda>d. \<not> locked_for m ps c d) ds"
  using assms
proof (induction ps arbitrary: ds lm)
  case (Cons p ps)
  obtain ds' lm' where step: "fold (apply_lock c p) (GetLockedDungeons m p) (ds, lm) = (ds', lm')" by fastforce
  then have ds': "ds' = filter (\<lambda>d. \<not> locked_for m [p] c d) ds"
    using apply_locks [OF Cons(2), of c p "GetLockedDungeons m p" lm] by (simp add: locked_for_def)
  then have "distinct ds'" using Cons(2) by simp
  then show ?case using Cons(1) [of ds' lm'] step by (auto simp: ds' locked_for_def intro!: filter_cong)
qed (simp add: locked_for_def)

text \<open>
  C29: the dungeons a party may join for are those chosen that no member is locked out of; but if there is none, they are
  all those chosen, locked or not, and the map of locks reported back is always empty.
\<close>

theorem GetCompatibleDungeons_spec:
  assumes "distinct dungeons"
  shows "GetCompatibleDungeons m dungeons players isContinue =
    (let free = filter (\<lambda>d. \<not> locked_for m players isContinue d) dungeons in (if free = [] then dungeons else free, []))"
  using apply_all_locks [OF assms, of isContinue m players "[]"]
  by (auto simp: GetCompatibleDungeons_def Let_def case_prod_beta)

definition ex_locked :: lfg_mgr where
  "ex_locked = (new_LFGMgr 3)\<lparr>PlayersStore := [(1, new_LfgPlayerData\<lparr>pd_LockedDungeons :=
     [(0x01000006, \<lparr>ld_locktyp = LFG_LOCKSTATUS_TOO_LOW_LEVEL, ld_neededItemlevel = 0, ld_averageItemlevel = 0\<rparr>)]\<rparr>)]\<rparr>"

theorem GetCompatibleDungeons_spec_witness:
  "GetCompatibleDungeons ex_locked [6, 7] [1] False = ([7], []) \<and> GetCompatibleDungeons ex_locked [6] [1] False = ([6], [])"
proof -
  have locks: "locked_for ex_locked [1] False 6" "\<not> locked_for ex_locked [1] False 7" by code_simp+
  show ?thesis
    using GetCompatibleDungeons_spec [of "[6, 7]" ex_locked "[1]" False] GetCompatibleDungeons_spec [of "[6]" ex_locked "[1]" False] locks by simp
qed

section \<open>Joining alone\<close>

lemma check_types_dungeons: "\<forall>d\<in>set xs. GetDungeonType m d = LFG_TYPE_DUNGEON \<Longrightarrow> check_types m ds xs False b 0 = (LFG_JOIN_OK, False, 0)"
  by (induction xs arbitrary: b) (simp_all add: LFG_TYPE_DUNGEON_def LFG_TYPE_RANDOM_def)

lemma check_types_known:
  "fst (check_types m ds xs a b r) = LFG_JOIN_OK \<Longrightarrow> d \<in> set xs \<Longrightarrow> GetDungeonType m d \<in> {LFG_TYPE_RANDOM, LFG_TYPE_DUNGEON, LFG_TYPE_RAID}"
  by (induction m ds xs a b r rule: check_types.induct) (auto simp: Let_def split: if_splits)

lemma touched_reads [simp]:
  "player_data (touch_entry e g m) = player_data m" "queue_of (touch_entry e g m) = queue_of m"
  "GetLFGDungeon (touch_entry e g m) = GetLFGDungeon m" "mgr_out (touch_entry e g m) = mgr_out m"
  "GetState e (touch_entry e g m) h = GetState e m h"
proof -
  have "on_player g id m = m\<lparr>PlayersStore := om_set g (player_data m g) (PlayersStore m)\<rparr>"
    by (simp add: on_player_def om_modify_def player_data_def split: option.split)
  then show "player_data (touch_entry e g m) = player_data m"
    by (auto simp: touch_entry_def touch_group_def player_data_def om_find_set on_group_def fun_eq_iff)
  then show "GetState e (touch_entry e g m) h = GetState e m h"
    by (simp add: GetState_def) (simp add: touch_entry_def touch_group_def group_data_on_group)
qed (simp_all add: touch_entry_def touch_group_def on_player_def on_group_def queue_of_def GetLFGDungeon_def fun_eq_iff)

lemma touched_data [simp]:
  "GetLockedDungeons (touch_entry e g m) = GetLockedDungeons m" "GetTeam (touch_entry e g m) = GetTeam m"
  "GetDungeonType (touch_entry e g m) = GetDungeonType m"
  by (simp_all add: GetLockedDungeons_def GetTeam_def GetDungeonType_def fun_eq_iff)

text \<open>
  C27: a player without a group, not queued yet and not barred from the dungeon finder, who joins for dungeons each of
  which is stored as an ordinary dungeon (neither a raid nor a random one), is queued: in the state, with the roles and dungeons, and at the end of the list of new groups.  The dungeons are those
  the player is not locked out of, or, if the player is locked out of all of them, all of them.
\<close>

theorem solo_join_queues:
  assumes guid: "guid = ch_guid player" "\<not> IS_GROUP_GUID guid" "GetState e m guid \<noteq> LFG_STATE_QUEUED"
    and free: "\<not> using_bg player" "\<not> ch_HasAura player LFG_SPELL_DUNGEON_DESERTER" "\<not> ch_HasAura player LFG_SPELL_DUNGEON_COOLDOWN"
    and dungeons: "dungeons \<noteq> []" "distinct dungeons" "\<forall>d\<in>set dungeons. GetDungeonType m d = LFG_TYPE_DUNGEON"
      "unlocked = filter (\<lambda>d. \<not> locked_for m [guid] False d) dungeons" "chosen = (if unlocked = [] then dungeons else unlocked)"
    and res: "m' = JoinLfg e player None roles dungeons comment m" "q = queue_of m (GetTeam m guid)" "q' = queue_of m' (GetTeam m guid)"
  shows "GetState e m' guid = LFG_STATE_QUEUED \<and> GetRoles m' guid = roles \<and> GetSelectedDungeons m' guid = chosen
    \<and> map_option data_offer (om_find (QueueDataStore q') guid) = Some (chosen, [(guid, roles)])
    \<and> newToQueueStore q' = newToQueueStore q @ [guid]"
proof -
  let ?m = "touch_entry e guid m"
  have chosen: "fst (GetCompatibleDungeons ?m dungeons [guid] False) = chosen" "chosen \<noteq> []"
    using apply_all_locks [OF dungeons(2), of False ?m "[guid]" "[]"] dungeons(1,4,5)
    by (auto simp: GetCompatibleDungeons_def Let_def case_prod_beta locked_for_def)
  have "check_join ?m player None False False dungeons =
      (\<lparr>jr_result = LFG_JOIN_OK, jr_state = LFG_ROLECHECK_DEFAULT, jr_lockmap = []\<rparr>, False, 0, chosen)"
    using free dungeons(1,3) chosen check_types_dungeons [of dungeons ?m]
    by (auto simp: check_join_def join_restrictions_def guid(1) [symmetric] GetCompatibleDungeons_def Let_def case_prod_beta)
  then have m': "m' = join_alone e guid roles 0 chosen \<lparr>jr_result = LFG_JOIN_OK, jr_state = LFG_ROLECHECK_DEFAULT, jr_lockmap = []\<rparr>
      comment (SetComment guid comment ?m)"
    using guid(2,3) dungeons(1) unfolding res(1) JoinLfg_def by (simp add: Let_def guid(1) [symmetric])
  have "GetTeam (SetComment guid comment ?m) guid = GetTeam m guid"
    by (simp add: GetTeam_def SetComment_def player_data_on_player)
  then have "q' = AddQueueData (queue_env e (SetComment guid comment ?m)) guid (me_now e) chosen [(guid, roles)] q"
    using guid(2) unfolding res(2,3) m'
    by (simp add: join_alone_def Let_def GetQueueId_def queue_of_def SetRoles_def SetState_def SetSelectedDungeons_def SetComment_def
        emit_def on_queue_def on_player_def om_find_modify touch_entry_def)
  then show ?thesis
    using guid(2)
    by (simp add: AddQueueData_result new_data_offer)
      (simp add: m' join_alone_def Let_def GetRoles_def GetSelectedDungeons_def GetState_def player_data_SetRoles player_data_SetState
        player_SetState_def SetSelectedDungeons_def player_data_on_player)
qed

definition ex_loaded :: lfg_mgr where
  "ex_loaded = (new_LFGMgr 3)\<lparr>LfgDungeonStore := [(6, ex_dungeon)]\<rparr>"

theorem solo_join_queues_witness:
  "GetState ex_world (JoinLfg ex_world (ex_char 1) None 2 [6] [] ex_loaded) 1 = LFG_STATE_QUEUED
   \<and> newToQueueStore (queue_of (JoinLfg ex_world (ex_char 1) None 2 [6] [] ex_loaded) 0) = [1]"
proof -
  have guid: "1 = ch_guid (ex_char 1)" "\<not> IS_GROUP_GUID 1" "GetState ex_world ex_loaded 1 \<noteq> LFG_STATE_QUEUED" by code_simp+
  have free: "\<not> using_bg (ex_char 1)" "\<not> ch_HasAura (ex_char 1) LFG_SPELL_DUNGEON_DESERTER" "\<not> ch_HasAura (ex_char 1) LFG_SPELL_DUNGEON_COOLDOWN"
    by code_simp+
  have dungeons: "[6 :: u32] \<noteq> []" "distinct [6 :: u32]" "\<forall>d\<in>set [6]. GetDungeonType ex_loaded d = LFG_TYPE_DUNGEON" by code_simp+
  have team: "GetTeam ex_loaded 1 = 0" "newToQueueStore (queue_of ex_loaded 0) = []" by code_simp+
  show ?thesis
    using solo_join_queues [OF guid free dungeons refl refl refl refl refl, of 2 "[]"] by (simp add: team)
qed

text \<open>
  C31: a queued player who joins again for a dungeon that does not exist is refused but keeps the state of a queued player,
  without being in the queue any more.
\<close>

theorem refused_rejoin_lost:
  assumes guid: "guid = ch_guid player" "\<not> IS_GROUP_GUID guid" "GetState e m guid = LFG_STATE_QUEUED"
    and dungeons: "d \<in> set dungeons" "GetDungeonType m d \<notin> {LFG_TYPE_RANDOM, LFG_TYPE_DUNGEON, LFG_TYPE_RAID}"
    and res: "m' = JoinLfg e player None roles dungeons comment m" "q = queue_of m (GetTeam m guid)" "q' = queue_of m' (GetTeam m guid)"
      "om_wf (QueueDataStore q)"
  shows "GetState e m' guid = LFG_STATE_QUEUED
    \<and> guid \<notin> set (newToQueueStore q') \<and> guid \<notin> set (currentQueueStore q') \<and> om_find (QueueDataStore q') guid = None
    \<and> (\<exists>r. mgr_out m' = mgr_out m @ [SendJoinResult guid r] \<and> jr_result r \<noteq> LFG_JOIN_OK)"
proof -
  let ?m = "touch_entry e guid m"
  define m1 where "m1 = on_queue (GetTeam m guid) (RemoveFromQueue (queue_env e ?m) guid) ?m"
  have same_type: "GetDungeonType m1 d = GetDungeonType m d"
    by (simp add: m1_def GetDungeonType_def GetLFGDungeon_def touch_entry_def touch_group_def)
  have types: "fst (check_types m1 dungeons dungeons False False 0) \<noteq> LFG_JOIN_OK"
    using check_types_known [of m1 dungeons dungeons False False 0 d] dungeons same_type by auto
  obtain r x where join: "check_join m1 player None True False dungeons = (r, x)" by (cases "check_join m1 player None True False dungeons") auto
  then have r: "jr_result r \<noteq> LFG_JOIN_OK" using types by (auto simp: check_join_def case_prod_beta)
  have m': "m' = emit (SendJoinResult guid r) m1"
    using guid(2,3) dungeons(1) r join unfolding res(1) JoinLfg_def by (auto simp: Let_def guid(1) [symmetric] GetQueueId_def m1_def case_prod_beta)
  have "q' = RemoveFromQueue (queue_env e ?m) guid q"
    unfolding res(2,3) m' by (simp add: queue_of_def emit_def) (simp add: m1_def queue_of_on_queue [unfolded queue_of_def])
  then show ?thesis
    using RemoveFromQueue_all [OF res(4), of _ "[guid]"] r guid(3) by (simp add: m') (simp add: m1_def emit_def)
qed

definition ex_queued :: lfg_mgr where
  "ex_queued = JoinLfg ex_world (ex_char 1) None 2 [6] [] ex_loaded"

theorem refused_rejoin_lost_witness:
  "GetState ex_world (JoinLfg ex_world (ex_char 1) None 2 [99] [] ex_queued) 1 = LFG_STATE_QUEUED
   \<and> om_find (QueueDataStore (queue_of (JoinLfg ex_world (ex_char 1) None 2 [99] [] ex_queued) (GetTeam ex_queued 1))) 1 = None"
proof -
  have guid: "1 = ch_guid (ex_char 1)" "\<not> IS_GROUP_GUID 1" "GetState ex_world ex_queued 1 = LFG_STATE_QUEUED" by code_simp+
  have type: "GetDungeonType ex_queued 99 \<notin> {LFG_TYPE_RANDOM, LFG_TYPE_DUNGEON, LFG_TYPE_RAID}" by code_simp
  have wf: "om_wf (QueueDataStore (queue_of ex_queued (GetTeam ex_queued 1)))" by code_simp
  have dungeon: "99 \<in> set [99 :: u32]" by simp
  show ?thesis
    using refused_rejoin_lost [OF guid dungeon type refl refl refl wf, of 2 "[]"] by blast
qed

end
