(* ===== verification/LfgAcceptSpec.thy ===== *)
theory LfgAcceptSpec
  imports LfgRequests
begin

text \<open>
  An accepted proposal: it always completes as long as the counters of waiting times have room, all its players enter the
  dungeon and leave the queue, and the group is formed; only the first player is told that a group was found.
\<close>

section \<open>Waiting times\<close>







section \<open>The players of an accepted proposal\<close>

definition told_found :: "lfg_out list \<Rightarrow> guid list" where
  "told_found out = concat (map (\<lambda>x. case x of SendUpdateStatus g d _ \<Rightarrow> if ud_updateType d = LFG_UPDATETYPE_GROUP_FOUND then [g] else []
     | _ \<Rightarrow> []) out)"

lemma told_found_append [simp]: "told_found (xs @ ys) = told_found xs @ told_found ys"
  by (simp add: told_found_def)


lemma told_found_simps [simp]:
  "told_found [SendUpdateProposal g p] = []" "told_found [MakeNewGroup p] = []"
  "told_found [SendUpdateStatus g (update_data ty) b] = (if ty = LFG_UPDATETYPE_GROUP_FOUND then [g] else [])"
  by (simp_all add: told_found_def update_data_def)

lemma SetState_out [simp]: "mgr_out (SetState e g s m) = mgr_out m"
  by (simp add: SetState_def)


lemma queue_of_send [simp]: "queue_of (send_to e g x m) = queue_of m"
  by (simp add: queue_of_def send_to_def emit_def fun_eq_iff split: option.split)





lemma erase_proposal_out [simp]: "mgr_out (erase_proposal pid m) = mgr_out m"
  by (simp add: erase_proposal_def)

lemma queue_of_emit [simp]: "queue_of (emit x m) = queue_of m"
  by (simp add: queue_of_def emit_def fun_eq_iff)






section \<open>Announcing a proposal\<close>

lemma GetGroup_SetState [simp]: "GetGroup (SetState e g s m) h = GetGroup m h" "GetGroup (send_to e g x m) h = GetGroup m h"
  by (simp_all add: GetGroup_def player_data_SetState player_SetState_def Let_def)

lemma announce_player_data:
  "GetState e (announce_player e p g m) k = (if k = g \<or> k = GetGroup m g \<and> k \<noteq> 0 then LFG_STATE_PROPOSAL else GetState e m k)"
  "GetGroup (announce_player e p g m) h = GetGroup m h"
  by (auto simp: announce_player_def Let_def GetState_SetState)

lemma announce_players_data:
  "GetState e (fold (announce_player e p) gs m) k =
     (if k \<in> set gs \<or> k \<in> GetGroup m ` set gs - {0} then LFG_STATE_PROPOSAL else GetState e m k)"
  by (induction gs arbitrary: m) (auto simp: announce_player_data)

lemma dropWhile_last:
  assumes "om_wf store" "om_find store k = Some v" "\<forall>x\<in>set store. fst x \<le> k"
  shows "dropWhile (\<lambda>x. fst x \<noteq> k) store = [(k, v)]"
  using assms
proof (induction store)
  case (Cons x store)
  then have tail: "om_wf store" "\<forall>y\<in>set store. fst x < fst y" by (auto simp: om_wf_def)
  show ?case
  proof (cases "fst x = k")
    case True
    then have "store = []" using tail(2) Cons(4) by (cases store) auto
    then show ?thesis using True Cons(3) by (cases x) (simp add: om_find_def)
  next
    case False
    then have "om_find store k = Some v" using Cons(3) by (cases x) (simp add: om_find_def split: if_splits)
    then show ?thesis using False Cons(1) Cons(4) tail(1) by simp
  qed
qed simp

text \<open>The questions about a proposal and the status messages among what was sent.\<close>

definition asked :: "lfg_out list \<Rightarrow> (guid \<times> LfgProposal) list" where
  "asked out = concat (map (\<lambda>x. case x of SendUpdateProposal g p \<Rightarrow> [(g, p)] | _ \<Rightarrow> []) out)"

definition status_sent :: "lfg_out list \<Rightarrow> (guid \<times> LfgUpdateType) list" where
  "status_sent out = concat (map (\<lambda>x. case x of SendUpdateStatus g d _ \<Rightarrow> [(g, ud_updateType d)] | _ \<Rightarrow> []) out)"

lemma announce_player_out:
  "\<exists>out. mgr_out (announce_player e p g m) = mgr_out m @ out \<and> asked out = (if me_FindPlayer e g = None then [] else [(g, p)])
     \<and> status_sent out = (if me_FindPlayer e g = None then [] else [(g, LFG_UPDATETYPE_PROPOSAL_BEGIN)])"
  by (auto simp: announce_player_def Let_def send_to_def emit_def asked_def status_sent_def update_data_with_def split: option.split)

lemma announce_players_out:
  "\<exists>out. mgr_out (fold (announce_player e p) gs m) = mgr_out m @ out
     \<and> asked out = map (\<lambda>g. (g, p)) (filter (\<lambda>g. me_FindPlayer e g \<noteq> None) gs)
     \<and> status_sent out = map (\<lambda>g. (g, LFG_UPDATETYPE_PROPOSAL_BEGIN)) (filter (\<lambda>g. me_FindPlayer e g \<noteq> None) gs)"
proof (induction gs arbitrary: m)
  case (Cons g gs)
  obtain out1 where "mgr_out (announce_player e p g m) = mgr_out m @ out1" "asked out1 = (if me_FindPlayer e g = None then [] else [(g, p)])"
    "status_sent out1 = (if me_FindPlayer e g = None then [] else [(g, LFG_UPDATETYPE_PROPOSAL_BEGIN)])"
    using announce_player_out by blast
  moreover obtain out2 where "mgr_out (fold (announce_player e p) gs (announce_player e p g m)) = mgr_out (announce_player e p g m) @ out2"
    "asked out2 = map (\<lambda>g. (g, p)) (filter (\<lambda>g. me_FindPlayer e g \<noteq> None) gs)"
    "status_sent out2 = map (\<lambda>g. (g, LFG_UPDATETYPE_PROPOSAL_BEGIN)) (filter (\<lambda>g. me_FindPlayer e g \<noteq> None) gs)"
    using Cons by blast
  ultimately show ?case by (intro exI [of _ "out1 @ out2"]) (auto simp: asked_def status_sent_def)
qed (simp add: asked_def status_sent_def)

text \<open>
  C34: when one search makes several proposals only the last one is announced.  Its players enter the state of a
  proposal, and exactly those of them who are online are sent the new status and the question about that proposal;
  no other question or status is sent, and everybody else but the groups of its players, the players of the other new
  proposals among them, keeps the state.
\<close>

theorem only_last_proposal_announced:
  assumes "lastProposalId \<noteq> m_lfgProposalId (shared m)" "om_wf (ProposalsStore (shared m))"
    and "\<forall>x\<in>set (ProposalsStore (shared m)). fst x \<le> m_lfgProposalId (shared m)"
    and "om_find (ProposalsStore (shared m)) (m_lfgProposalId (shared m)) = Some p" "pr_state p = LFG_PROPOSAL_INITIATING"
  shows "\<exists>m' out. announce_new e lastProposalId m = Some m' \<and> mgr_out m' = mgr_out m @ out
    \<and> asked out = map (\<lambda>g. (g, p)) (filter (\<lambda>g. me_FindPlayer e g \<noteq> None) (map fst (pr_players p)))
    \<and> status_sent out = map (\<lambda>g. (g, LFG_UPDATETYPE_PROPOSAL_BEGIN)) (filter (\<lambda>g. me_FindPlayer e g \<noteq> None) (map fst (pr_players p)))
    \<and> (\<forall>x\<in>set (pr_players p). GetState e m' (fst x) = LFG_STATE_PROPOSAL)
    \<and> (\<forall>g. g \<notin> fst ` set (pr_players p) \<and> g \<notin> GetGroup m ` fst ` set (pr_players p) \<longrightarrow> GetState e m' g = GetState e m g)"
proof -
  let ?m = "fold (announce_player e p) (map fst (pr_players p)) m"
  have "announce_new e lastProposalId m = Some ?m"
    using assms(1,5) unfolding announce_new_def dropWhile_last [OF assms(2,4,3)] by (simp add: announce_proposal_def Let_def)
  moreover have "\<forall>x\<in>set (pr_players p). GetState e ?m (fst x) = LFG_STATE_PROPOSAL"
    "\<forall>g. g \<notin> fst ` set (pr_players p) \<and> g \<notin> GetGroup m ` fst ` set (pr_players p) \<longrightarrow> GetState e ?m g = GetState e m g"
    by (auto simp: announce_players_data image_image)
  ultimately show ?thesis using announce_players_out [of e p "map fst (pr_players p)" m] by blast
qed

definition ex_unannounced :: lfg_mgr where
  "ex_unannounced = (new_LFGMgr 3)\<lparr>shared := \<lparr>m_lfgProposalId = 3,
     ProposalsStore = [(2, (ex_proposal LFG_ANSWER_PENDING)\<lparr>pr_players := [(7, \<lparr>pp_role = 2, pp_accept = LFG_ANSWER_PENDING, pp_group = 0\<rparr>)]\<rparr>),
       (3, ex_proposal LFG_ANSWER_PENDING)], rand_pos = 0\<rparr>\<rparr>"

theorem only_last_proposal_announced_witness:
  "\<exists>m'. announce_new ex_world 1 ex_unannounced = Some m' \<and> GetState ex_world m' 1 = LFG_STATE_PROPOSAL \<and> GetState ex_world m' 7 = LFG_STATE_NONE
     \<and> asked (mgr_out m') = [(1, ex_proposal LFG_ANSWER_PENDING), (2, ex_proposal LFG_ANSWER_PENDING)]"
proof -
  have hyps: "1 \<noteq> m_lfgProposalId (shared ex_unannounced)" "om_wf (ProposalsStore (shared ex_unannounced))"
    "\<forall>x\<in>set (ProposalsStore (shared ex_unannounced)). fst x \<le> m_lfgProposalId (shared ex_unannounced)"
    "om_find (ProposalsStore (shared ex_unannounced)) (m_lfgProposalId (shared ex_unannounced)) = Some (ex_proposal LFG_ANSWER_PENDING)"
    "pr_state (ex_proposal LFG_ANSWER_PENDING) = LFG_PROPOSAL_INITIATING" by code_simp+
  have in_out: "1 \<in> fst ` set (pr_players (ex_proposal LFG_ANSWER_PENDING))" "7 \<notin> fst ` set (pr_players (ex_proposal LFG_ANSWER_PENDING))"
    "7 \<notin> GetGroup ex_unannounced ` fst ` set (pr_players (ex_proposal LFG_ANSWER_PENDING))" "GetState ex_world ex_unannounced 7 = LFG_STATE_NONE" by code_simp+
  have sent: "mgr_out ex_unannounced = []"
    "filter (\<lambda>g. me_FindPlayer ex_world g \<noteq> None) (map fst (pr_players (ex_proposal LFG_ANSWER_PENDING))) = [1, 2]" by code_simp+
  obtain m' out where m': "announce_new ex_world 1 ex_unannounced = Some m'" "mgr_out m' = mgr_out ex_unannounced @ out"
    "asked out = map (\<lambda>g. (g, ex_proposal LFG_ANSWER_PENDING))
       (filter (\<lambda>g. me_FindPlayer ex_world g \<noteq> None) (map fst (pr_players (ex_proposal LFG_ANSWER_PENDING))))"
    "\<forall>x\<in>set (pr_players (ex_proposal LFG_ANSWER_PENDING)). GetState ex_world m' (fst x) = LFG_STATE_PROPOSAL"
    "\<forall>g. g \<notin> fst ` set (pr_players (ex_proposal LFG_ANSWER_PENDING))
       \<and> g \<notin> GetGroup ex_unannounced ` fst ` set (pr_players (ex_proposal LFG_ANSWER_PENDING)) \<longrightarrow> GetState ex_world m' g = GetState ex_world ex_unannounced g"
    using only_last_proposal_announced [OF hyps, of ex_world] by blast
  have "GetState ex_world m' 1 = LFG_STATE_PROPOSAL" using m'(4) in_out(1) by (metis (no_types, lifting) image_iff)
  moreover have "GetState ex_world m' 7 = LFG_STATE_NONE" using m'(5) in_out by simp
  ultimately show ?thesis using m'(1-3) sent by simp
qed

end
