(* ===== verification/LfgRewardSpec.thy ===== *)
theory LfgRewardSpec
  imports LfgRequests
begin

text \<open>
  Properties of the dungeons, locks and rewards of the dungeon finder: what a reload of the dungeons loses, which
  dungeons a player is locked out of, which reward is given, and that a dungeon is finished once.
\<close>

section \<open>Locked dungeons\<close>

lemma lock_dungeons_keys:
  "fst ` set (fold (lock_dungeon e m p l) ids lock) =
     fst ` set lock \<union> {dg_Entry d | d i. i \<in> set ids \<and> GetLFGDungeon m i = Some d \<and> dungeon_lock e p l d \<noteq> LFG_LOCKSTATUS_NONE}"
proof (induction ids arbitrary: lock)
  case (Cons i ids)
  have "fst ` set (lock_dungeon e m p l i lock) = fst ` set lock \<union>
      {dg_Entry d | d. GetLFGDungeon m i = Some d \<and> dungeon_lock e p l d \<noteq> LFG_LOCKSTATUS_NONE}"
    by (auto simp: lock_dungeon_def Let_def om_set_keys [unfolded set_map] split: option.splits)
  then show ?case using Cons by auto
qed simp

text \<open>
  After the locks of a player are computed, the locked dungeons are exactly the loaded ones that the player, at the
  level given or the level of the player, fails a requirement of.
\<close>

lemma InitializeLockedDungeons_exact:
  "fst ` set (GetLockedDungeons (InitializeLockedDungeons e p level m) (ch_guid p)) =
     {dg_Entry d | d i. i \<in> set (GetDungeonsByRandom m 0) \<and> GetLFGDungeon m i = Some d
        \<and> dungeon_lock e p (if level = 0 then ch_level p else level) d \<noteq> LFG_LOCKSTATUS_NONE}"
  by (simp add: InitializeLockedDungeons_def Let_def SetLockedDungeons_def GetLockedDungeons_def player_data_on_player lock_dungeons_keys)

section \<open>Reloading the dungeons\<close>

lemma init_locks_reads [simp]: "CachedDungeonMapStore (InitializeLockedDungeons e p level m) = CachedDungeonMapStore m"
  "LfgDungeonStore (InitializeLockedDungeons e p level m) = LfgDungeonStore m"
  by (simp_all add: InitializeLockedDungeons_def Let_def SetLockedDungeons_def on_player_def)

lemma init_locks_data:
  "player_data (InitializeLockedDungeons e p level m) g =
     (if g = ch_guid p then player_data m g\<lparr>pd_LockedDungeons := fold (lock_dungeon e m p (if level = 0 then ch_level p else level))
        (GetDungeonsByRandom m 0) []\<rparr> else player_data m g)"
  by (simp add: InitializeLockedDungeons_def Let_def SetLockedDungeons_def player_data_on_player)

lemma empty_cache: "CachedDungeonMapStore m = [] \<Longrightarrow> GetDungeonsByRandom m r = []"
  by (simp add: GetDungeonsByRandom_def)

lemma init_all_locks:
  assumes "CachedDungeonMapStore m = []" "\<And>g p. me_FindPlayer e g = Some p \<Longrightarrow> ch_guid p = g"
    and "m' = fold (\<lambda>x m. case me_FindPlayer e (fst x) of None \<Rightarrow> m | Some p \<Rightarrow> InitializeLockedDungeons e p 0 m) xs m"
  shows "CachedDungeonMapStore m' = []"
    "pd_LockedDungeons (player_data m' g) =
      (if g \<in> fst ` set xs \<and> me_FindPlayer e g \<noteq> None then [] else pd_LockedDungeons (player_data m g))"
proof -
  show "CachedDungeonMapStore m' = []"
    unfolding assms(3) using assms(1) by (subst fold_frame [where F = CachedDungeonMapStore]) (simp_all split: option.split)
  show "pd_LockedDungeons (player_data m' g) =
      (if g \<in> fst ` set xs \<and> me_FindPlayer e g \<noteq> None then [] else pd_LockedDungeons (player_data m g))"
    unfolding assms(3) using assms(1)
  proof (induction xs arbitrary: m)
    case (Cons x xs)
    show ?case
      using Cons by (cases "me_FindPlayer e (fst x)") (auto simp: init_locks_data empty_cache dest: assms(2))
  qed simp
qed

lemma cache_dungeon_players [simp]: "PlayersStore (cache_dungeon em placed x m) = PlayersStore m"
  by (simp add: cache_dungeon_def Let_def cache_insert_def split: option.split)

text \<open>
  C32: reloading the dungeons empties the table of dungeons by kind after filling it.  From then on no random dungeon has a
  dungeon to choose from, and every player who is online counts as locked out of nothing.
\<close>

theorem reload_forgets_dungeons:
  assumes "entrances \<noteq> []" "\<And>g p. me_FindPlayer e g = Some p \<Longrightarrow> ch_guid p = g"
    and "m' = LoadLFGDungeons e dbc entrances entranceMap True m"
    and "om_find (PlayersStore m) guid \<noteq> None" "me_FindPlayer e guid \<noteq> None"
  shows "GetDungeonsByRandom m' r = [] \<and> GetLockedDungeons m' guid = []"
proof -
  obtain store placed where st: "fold load_entrance entrances (fold load_dungeon dbc [], []) = (store, placed)" by fastforce
  define m1 where "m1 = fold (cache_dungeon entranceMap placed) store (m\<lparr>LfgDungeonStore := store\<rparr>)"
  have "PlayersStore m1 = PlayersStore m" by (simp add: m1_def fold_frame [where F = PlayersStore])
  then have "guid \<in> fst ` set (PlayersStore m1)" using assms(4) by (auto dest!: om_find_in intro!: rev_image_eqI)
  then show ?thesis
    using init_all_locks [of "m1\<lparr>CachedDungeonMapStore := []\<rparr>" e m' "PlayersStore m1"] assms(1,2,3,5) st
    by (auto simp: LoadLFGDungeons_def Let_def m1_def empty_cache GetLockedDungeons_def)
qed

definition ex_online :: lfg_mgr where
  "ex_online = (new_LFGMgr 3)\<lparr>PlayersStore := [(1, new_LfgPlayerData\<lparr>pd_LockedDungeons :=
     [(0x01000006, \<lparr>ld_locktyp = LFG_LOCKSTATUS_TOO_LOW_LEVEL, ld_neededItemlevel = 0, ld_averageItemlevel = 0\<rparr>)]\<rparr>)]\<rparr>"

theorem reload_forgets_dungeons_witness:
  "GetDungeonsByRandom (LoadLFGDungeons ex_world [ex_dungeon] [\<lparr>en_dungeonId = 6, en_atOrigin = False, en_neededILevel = 0\<rparr>] (\<lambda>_. None) True ex_online) 6 = []"
proof -
  have entrances: "[\<lparr>en_dungeonId = 6, en_atOrigin = False, en_neededILevel = 0\<rparr>] \<noteq> []" by simp
  have players: "ch_guid p = g" if "me_FindPlayer ex_world g = Some p" for g p
    using that by (auto simp: ex_world_def ex_char_def split: if_splits)
  have entry: "om_find (PlayersStore ex_online) 1 \<noteq> None" "me_FindPlayer ex_world 1 \<noteq> None" by code_simp+
  show ?thesis
    using reload_forgets_dungeons [OF entrances players refl entry, where r = 6 and dbc = "[ex_dungeon]" and entranceMap = "\<lambda>_. None"] by blast
qed

section \<open>Rewards\<close>

definition reward_of :: "mgr_env \<Rightarrow> lfg_reward_row \<Rightarrow> LfgReward" where
  "reward_of e r =
     \<lparr>rw_maxLevel = (if rr_maxLevel r = 0 \<or> ucast (rr_maxLevel r) > me_MaxPlayerLevel e then me_MaxPlayerLevel e else ucast (rr_maxLevel r)),
      rw_firstQuest = rr_firstQuestId r,
      rw_otherQuest = if me_HasQuest e (rr_otherQuestId r) then rr_otherQuestId r else 0\<rparr>"

definition valid_reward :: "mgr_env \<Rightarrow> lfg_mgr \<Rightarrow> lfg_reward_row \<Rightarrow> bool" where
  "valid_reward e m r \<longleftrightarrow> GetLFGDungeonEntry m (rr_dungeonId r) \<noteq> 0 \<and> rr_firstQuestId r \<noteq> 0 \<and> me_HasQuest e (rr_firstQuestId r)"

definition rewards_for :: "mgr_env \<Rightarrow> lfg_mgr \<Rightarrow> lfg_reward_row list \<Rightarrow> u32 \<Rightarrow> LfgReward list" where
  "rewards_for e m rows d = map (reward_of e) (filter (\<lambda>r. valid_reward e m r \<and> rr_dungeonId r = d) rows)"

lemma mm_insert_sorted: "sorted (map fst xs) \<Longrightarrow> sorted (map fst (mm_insert k v xs))"
proof (induction xs)
  case (Cons x xs)
  have "fst ` set (mm_insert k v xs) = insert k (fst ` set xs)" for xs by (induction xs) auto
  then show ?case using Cons by auto
qed simp

lemma mm_insert_filter:
  "sorted (map fst xs) \<Longrightarrow> filter (\<lambda>x. fst x = d) (mm_insert k v xs) = filter (\<lambda>x. fst x = d) xs @ (if k = d then [(k, v)] else [])"
proof (induction xs)
  case (Cons x xs)
  have "filter (\<lambda>y. fst y = d) (x # xs) = []" if "d < fst x" using that Cons(2) by (auto simp: filter_empty_conv)
  then show ?case using Cons by (auto simp: not_le)
qed simp

lemma ucast_u8_zero: "(ucast (x :: u8) :: u32) = 0 \<longleftrightarrow> x = 0"
proof -
  have "uint (ucast x :: u32) = uint x" by (rule uint_up_ucast) (simp add: is_up)
  then show ?thesis by (metis uint_0_iff)
qed

lemma load_reward_valid:
  assumes "\<not> me_HasQuest e 0"
  shows "load_reward e m r store = (if valid_reward e m r then mm_insert (rr_dungeonId r) (reward_of e r) store else store)"
  using assms by (auto simp: load_reward_def valid_reward_def reward_of_def Let_def ucast_u8_zero)

lemma load_rewards_filter:
  assumes "\<not> me_HasQuest e 0" "sorted (map fst store)"
  shows "map snd (filter (\<lambda>x. fst x = d) (fold (load_reward e m) rows store)) =
     map snd (filter (\<lambda>x. fst x = d) store) @ rewards_for e m rows d"
  using assms(2)
  by (induction rows arbitrary: store) (auto simp: load_reward_valid [OF assms(1)] rewards_for_def mm_insert_sorted mm_insert_filter)

lemma pick_reward_find:
  "pick_reward level rs rew = (case List.find (\<lambda>r. ucast level \<le> rw_maxLevel r) rs of
     Some r \<Rightarrow> Some r | None \<Rightarrow> if rs = [] then rew else Some (last rs))"
  by (induction level rs rew rule: pick_reward.induct) (auto split: option.split)

text \<open>
  C39: the reward for a dungeon at a level, looked up in the loaded table, is the first valid row for the dungeon, in the
  order of the table, whose highest level is not below that level; if all are, it is the last valid row for the dungeon.
\<close>

theorem reward_lookup_spec:
  assumes "\<not> me_HasQuest e 0" and "rs = rewards_for e m rows (d AND 0x00FFFFFF)"
  shows "GetRandomDungeonReward (LoadRewards e rows m) d level =
    (case List.find (\<lambda>r. ucast level \<le> rw_maxLevel r) rs of
       Some r \<Rightarrow> Some r | None \<Rightarrow> if rs = [] then None else Some (last rs))"
  using load_rewards_filter [OF assms(1), of "[]" "d AND 0x00FFFFFF" m rows]
  unfolding assms(2) by (simp add: GetRandomDungeonReward_def LoadRewards_def pick_reward_find)

definition ex_rewards :: "lfg_reward_row list" where
  "ex_rewards = [\<lparr>rr_dungeonId = 6, rr_maxLevel = 15, rr_firstQuestId = 100, rr_otherQuestId = 101\<rparr>,
     \<lparr>rr_dungeonId = 6, rr_maxLevel = 25, rr_firstQuestId = 200, rr_otherQuestId = 201\<rparr>]"

theorem reward_lookup_spec_witness:
  "map_option rw_firstQuest (GetRandomDungeonReward (LoadRewards ex_world ex_rewards ex_loaded) 6 20) = Some 200"
proof -
  have quest: "\<not> me_HasQuest ex_world 0" by code_simp
  have "map_option rw_firstQuest (List.find (\<lambda>r. ucast (20 :: u8) \<le> rw_maxLevel r)
      (rewards_for ex_world ex_loaded ex_rewards (6 AND 0x00FFFFFF))) = Some 200"
    by code_simp
  then show ?thesis
    using reward_lookup_spec [OF quest refl, of ex_rewards ex_loaded 6 20] by (auto split: option.splits)
qed

section \<open>The end of a dungeon\<close>

lemma give_reward_frame:
  "give_reward e g p r d rew m = Some m' \<Longrightarrow> PlayersStore m' = PlayersStore m \<and> GroupsStore m' = GroupsStore m"
  by (auto simp: give_reward_def Let_def split: if_splits)

lemma give_reward_total: "me_HasQuest e LFG_CALL_TO_ARMS_QUEST \<Longrightarrow> \<exists>m'. give_reward e g p r d rew m = Some m'"
  by (simp add: give_reward_def Let_def)

lemma finish_player_frame:
  assumes "finish_player e g s d p m = Some m'" "GetState e m p \<noteq> LFG_STATE_FINISHED_DUNGEON"
  shows "PlayersStore m' = PlayersStore (SetState e p LFG_STATE_FINISHED_DUNGEON m)
    \<and> GroupsStore m' = GroupsStore (SetState e p LFG_STATE_FINISHED_DUNGEON m)"
  using assms by (auto simp: finish_player_def Let_def split: if_splits option.splits dest!: give_reward_frame)

lemma finish_player_total: "me_HasQuest e LFG_CALL_TO_ARMS_QUEST \<Longrightarrow> \<exists>m'. finish_player e g s d p m = Some m'"
  by (simp add: finish_player_def Let_def give_reward_total split: option.split)

lemma finish_player_state:
  assumes "finish_player e g s d p m = Some m'"
  shows "GetState e m' k = (if k = p then LFG_STATE_FINISHED_DUNGEON else GetState e m k)"
proof (cases "GetState e m p = LFG_STATE_FINISHED_DUNGEON")
  case True
  then show ?thesis using assms by (simp add: finish_player_def)
next
  case False
  have "GetState e m' k = GetState e (SetState e p LFG_STATE_FINISHED_DUNGEON m) k"
    using finish_player_frame [OF assms False] by (simp add: GetState_def player_data_def group_data_def)
  then show ?thesis by (simp add: GetState_SetState)
qed

lemma finish_players_result:
  assumes "me_HasQuest e LFG_CALL_TO_ARMS_QUEST"
  shows "\<exists>m'. finish_players e g s d ps m = Some m' \<and>
    (\<forall>k. GetState e m' k = (if k \<in> set ps then LFG_STATE_FINISHED_DUNGEON else GetState e m k))"
proof (induction ps arbitrary: m)
  case (Cons p ps)
  obtain m1 where m1: "finish_player e g s d p m = Some m1" using finish_player_total [OF assms] by blast
  obtain m2 where "finish_players e g s d ps m1 = Some m2"
    "\<forall>k. GetState e m2 k = (if k \<in> set ps then LFG_STATE_FINISHED_DUNGEON else GetState e m1 k)"
    using Cons by blast
  then show ?case using m1 finish_player_state [OF m1] by auto
qed simp

lemma GetState_env: "GetState e m k = GetState e' m k"
  by (simp add: GetState_def group_data_def new_LfgGroupData_def split: option.split)

lemma touch_group_reads [simp]: "mgr_out (touch_group e g m) = mgr_out m" "GetState e' (touch_group e g m) k = GetState e' m k"
  "GetDungeon e (touch_group e g m) b k = GetDungeon e m b k" "GetPlayers e (touch_group e g m) k = GetPlayers e m k"
proof -
  have "GetState e (touch_group e g m) k = GetState e m k" for e
    by (simp add: GetState_def touch_group_def group_data_on_group)
  then show "GetState e' (touch_group e g m) k = GetState e' m k" by (metis GetState_env)
qed (simp_all add: touch_group_def GetDungeon_def GetPlayers_def group_data_on_group)

lemma FinishDungeon_again:
  "GetState e m g = LFG_STATE_FINISHED_DUNGEON \<Longrightarrow> \<exists>m'. FinishDungeon e g d m = Some m' \<and> mgr_out m' = mgr_out m \<and> PlayersStore m' = PlayersStore m"
  by (auto simp: FinishDungeon_def Let_def) (simp_all add: touch_group_def)

text \<open>
  C24: when a group finishes the dungeon it is in, the group and all its players are marked as having finished it, and from
  then on finishing any dungeon again rewards nobody and changes no player.
\<close>

theorem FinishDungeon_once:
  assumes "GetDungeon e m True gguid = d" "GetState e m gguid \<noteq> LFG_STATE_FINISHED_DUNGEON" "me_HasQuest e LFG_CALL_TO_ARMS_QUEST"
  shows "\<exists>m1. FinishDungeon e gguid d m = Some m1
    \<and> (\<forall>g\<in>insert gguid (set (GetPlayers e m gguid)). GetState e m1 g = LFG_STATE_FINISHED_DUNGEON)
    \<and> (\<forall>e' d'. \<exists>m2. FinishDungeon e' gguid d' m1 = Some m2 \<and> mgr_out m2 = mgr_out m1 \<and> PlayersStore m2 = PlayersStore m1)"
proof -
  let ?m = "SetState e gguid LFG_STATE_FINISHED_DUNGEON (touch_group e gguid m)"
  have players: "GetPlayers e ?m gguid = GetPlayers e m gguid" by simp
  obtain m1 where m1: "finish_players e gguid (raid_finder_map e (touch_group e gguid m) gguid) d (GetPlayers e m gguid) ?m = Some m1"
    "\<forall>k. GetState e m1 k = (if k \<in> set (GetPlayers e m gguid) then LFG_STATE_FINISHED_DUNGEON else GetState e ?m k)"
    using finish_players_result [OF assms(3)] by blast
  have run: "FinishDungeon e gguid d m = Some m1"
    unfolding FinishDungeon_def Let_def using assms(1,2) m1(1)
    by (cases "raid_finder_map e (touch_group e gguid m) gguid") (simp_all add: players)
  have fin: "GetState e m1 gguid = LFG_STATE_FINISHED_DUNGEON" using m1(2) by (simp add: GetState_SetState)
  then have "\<exists>m2. FinishDungeon e' gguid d' m1 = Some m2 \<and> mgr_out m2 = mgr_out m1 \<and> PlayersStore m2 = PlayersStore m1" for e' d'
    using FinishDungeon_again GetState_env by metis
  then show ?thesis using run fin m1(2) by auto
qed

definition ex_running :: lfg_mgr where
  "ex_running = (new_LFGMgr 3)\<lparr>GroupsStore := [(ex_group_guid, (new_LfgGroupData 0)\<lparr>gd_State := LFG_STATE_DUNGEON, gd_OldState := LFG_STATE_DUNGEON,
     gd_Dungeon := 6, gd_Players := [1, 2]\<rparr>)]\<rparr>"

theorem FinishDungeon_once_witness:
  "\<exists>m1. FinishDungeon ex_world ex_group_guid 6 ex_running = Some m1 \<and> GetState ex_world m1 2 = LFG_STATE_FINISHED_DUNGEON
     \<and> (\<exists>m2. FinishDungeon ex_world ex_group_guid 6 m1 = Some m2 \<and> mgr_out m2 = mgr_out m1)"
proof -
  have "GetDungeon ex_world ex_running True ex_group_guid = 6" "GetState ex_world ex_running ex_group_guid \<noteq> LFG_STATE_FINISHED_DUNGEON"
    "me_HasQuest ex_world LFG_CALL_TO_ARMS_QUEST" "GetPlayers ex_world ex_running ex_group_guid = [1, 2]" by code_simp+
  note run = this
  have "2 \<in> insert ex_group_guid (set (GetPlayers ex_world ex_running ex_group_guid))" by (simp add: run(4))
  then show ?thesis using FinishDungeon_once [OF run(1,2,3)] by blast
qed

end
