(* ===== verification/Spec2Isabelle.thy ===== *)
theory Spec2Isabelle
  imports ByteBufferSpec ChannelMgrSpec ReputationSpec CalendarMachine LfgQueueSpec LfgAcceptSpec LfgRewardSpec
begin

text \<open>
  A verification library for a World of Warcraft 4.3.4 game server (C++, src/src/server).

  \<^bold>\<open>The program.\<close> Clients exchange packets with a session (game/Handlers). A packet is a
  \<^verbatim>\<open>ByteBuffer\<close> (shared/Packets). A handler reads it, looks up the objects it names and calls a
  component, which changes its state, sends packets and writes rows to the database. The library models the
  packet buffer, the text routines the handlers use on names, chat channels with their managers and packets, the
  reputation of a player, the calendar and the dungeon finder with its queue and its manager.

  \<^bold>\<open>Theories and sources.\<close>
  \<^item> \<open>Prelude\<close>: integer types of shared/Define.h, flags, \<^verbatim>\<open>std::map\<close> as a sorted association list with its
    contract (locale \<open>keyed_store\<close>, interpreted as \<open>om\<close>), and reachability with inductive invariants
    (locale \<open>state_machine\<close>, interpreted by channels, the chat, the reputation
    manager, the calendar and the dungeon finder).
  \<^item> \<open>ByteBuffer\<close>, \<open>ByteBufferBits\<close>, \<open>ByteBufferCodec\<close>, \<open>ByteBufferSpec\<close>: shared/Packets/ByteBuffer.h. The
    record \<open>byte_buffer\<close> has the class's five fields; every operation returns an exception or a result with the new
    buffer. \<open>ByteBufferBits\<close> abstracts the buffer to lists of bits (written, unread), \<open>ByteBufferCodec\<close> states the
    contract of an encoder and decoder (locale \<open>codec\<close>) and interprets it for integers, strings and packed GUIDs.
    The properties are round trips, refinement of a bit queue, bounds of every read, and the exact effect of overwrites.
  \<^item> \<open>Util\<close>: shared/Utilities/Util.cpp and Util.h (tokenizer, line clean-up, durations, money, case maps, name endings).
  \<^item> \<open>Utf8\<close>: dep/utf8cpp/utf8 (decoder and encoder), the wrappers of Util.cpp, \<^verbatim>\<open>normalizePlayerName\<close> of
    game/Globals/ObjectMgr.cpp. A write past a conversion buffer is an error value.
  \<^item> \<open>Channel\<close>, \<open>ChannelSpec\<close>: game/Chat/Channels/Channel.cpp and Channel.h. The record \<open>channel\<close> has the members
    of the class; an operation returns the new channel and its effects (packets, database writes, calls to the
    player object) in order. Players in the world, configuration, channel table and stored rows are the record \<open>env\<close>.
    Properties: a single owner in every reachable state, requests without standing are refused, bans, the audience
    of a message, agreement of members and players' lists, the hand-over of ownership, persistence.
  \<^item> \<open>ChannelMgr\<close>, \<open>ChannelMgrSpec\<close>: ChannelMgr.cpp, game/Handlers/ChannelHandler.cpp and the channel list of
    Player.cpp. A \<^verbatim>\<open>Channel*\<close> is a reference into a manager, a dangling one is the error \<open>UseAfterFree\<close>. The state
    holds both managers and all players' lists; the whole chat is a state machine over packets, zone changes and
    logouts. Properties: no reference dangles, logout completes and is exact, leave packets are handled to their
    end, names ignore case, packets of two names are read as written.
  \<^item> \<open>Reputation\<close>, \<open>ReputationSpec\<close>: game/Reputation/ReputationMgr.cpp and ReputationMgr.h, the loader of the
    spillover templates in ObjectMgr.cpp, and the packets of game/Handlers/CharacterHandler.cpp that set the war and
    inactive flags. Relations that hold across a change of one faction are lifted to the whole spillover by the
    locale \<open>spill_rel\<close>, interpreted for the invariant and for the tracking of unsaved changes. Properties:
    exact counters, bounds and result of a change, forced flags, no lost change, the rank thresholds.
  \<^item> \<open>Calendar\<close>, \<open>CalendarHandler\<close>, \<open>CalendarSpec\<close>, \<open>CalendarMachine\<close>: game/Calendar/CalendarMgr.cpp and CalendarMgr.h,
    game/Handlers/CalendarHandler.cpp, the member filters of Guild.cpp and ArenaTeam.cpp. Events live at addresses, as in
    the set of pointers of the code; destructors give numbers back. The two pools of numbers satisfy the locale
    \<open>id_pool\<close>; relations that operations keep are composed by the locale \<open>cal_rel\<close>, interpreted for operations that only
    look and for the invariant. Properties: unique numbers and no orphaned invites in every reachable state, the exact
    effect of deleting a character, and two defects (an invalid iterator, a freed number 0).
  \<^item> \<open>LfgRoles\<close>, \<open>LfgQueue\<close>, \<open>LfgQueueSpec\<close>: game/DungeonFinding/LFGQueue.cpp and LFGQueue.h, the role check of
    LFGMgr.cpp. \<open>LfgRoles\<close> proves the backtracking role search equivalent to the existence of an assignment.
    \<open>LfgQueue\<close> has the queue as a record with the fields of the class; a preorder kept by one compatibility check is kept
    by the whole search (locale \<open>search_rel\<close>, interpreted for the termination of the search and for what it books).
    Properties: valid proposals, no group lost, exact invalidation, cache keys, free places, waiting times, and two
    defects (a group booked twice, a match without a proposal).
  \<^item> \<open>LfgData\<close>, \<open>LfgMgr\<close>, \<open>LfgRewards\<close>, \<open>LfgScripts\<close>: LFGMgr.cpp and LFGMgr.h, LFGPlayerData.cpp, LFGGroupData.cpp and
    LFGScripts.cpp of game/DungeonFinding. The record \<open>lfg_mgr\<close> has the stores of the class and a list of what is sent to
    players and asked of other objects. \<open>LfgData\<close> has the data and the accessors, \<open>LfgMgr\<close> joining, leaving, role checks,
    proposals, votes to kick and the periodic update, \<open>LfgRewards\<close> the dungeon and reward tables, locks and the end of a
    dungeon, \<open>LfgScripts\<close> the callbacks of the server, the commands that clear the queues and set the options, the comment
    packet of game/Handlers/LFGHandler.cpp, and the manager as a state machine (\<open>lfg_step\<close>) over all of them.
  \<^item> \<open>LfgMgrInv\<close>, \<open>LfgMgrSpec\<close>: invariants of the manager. A predicate that each primitive change keeps is kept by every
    operation and callback (locales \<open>mgr_shape\<close>, \<open>entry_steps\<close>, \<open>mgr_invariant\<close>; \<open>entry_invariant\<close> for predicates on the entries
    of players and groups, a sublocale), interpreted for the entries of players, of groups, and for pending requests.
    Properties: well-formed entries, open role checks and proposals, and completion: no stored proposal is without players,
    so the periodic update, a leave and a declined proposal never dereference the end of a proposal's player map.
  \<^item> \<open>LfgOutcomes\<close>, \<open>LfgRequests\<close>, \<open>LfgAcceptSpec\<close>, \<open>LfgRewardSpec\<close>: what single operations of the manager do. Properties:
    the end of a role check, of a declined and of an accepted proposal, of a vote and of a dungeon; a join alone; the
    dungeons open to a party; the choice of a reward; and defects (a refused join that loses its place, proposals
    that are never announced, a reload that empties the dungeon table).

  \<^bold>\<open>Conventions.\<close> Unsigned integers are words of their width and wrap around; \<open>size_t\<close> positions and small counts
  are natural numbers; signed 32-bit values are integers with the wrap-around written out (\<open>s32\<close>). Exceptions, failed
  assertions, buffer overruns, undefined shifts, null, end and dangling pointers are error values. Effects are lists in the order the code
  causes them.

  \<^bold>\<open>Bounds and fuel.\<close> \<^verbatim>\<open>CleanupChannels\<close> recurses on the length of the player's list, which each pass shortens; it is
  proved to end with the list empty. The role search of the dungeon finder has the number of roles on offer as fuel and
  the group search the number of groups that wait; both are proved to be enough. The storage limit of a packet (10000000 bytes, an assertion of the code) is a
  hypothesis of the round trips. All other loops are structural recursions or have a termination proof.

  \<^bold>\<open>Parameters.\<close> The world's players, configuration values, client data tables, stored rows, the local time functions,
  script hooks and floating point operations are arguments; what the dungeon finder asks of the server is the record
  \<open>mgr_env\<close>. The hypotheses on them are named definitions
  (\<open>store_ok\<close> for the faction table) and are satisfied by the samples of the witnesses.

  \<^bold>\<open>Not modelled.\<close> Entities, maps, combat, spells, AI and scripts (floating point and a mutable object graph driven
  by content); of the dungeon finder the formation of the group of an accepted proposal in the group code (an output, with
  its effects on the manager as separate steps), teleports, saving and debugging dumps; the database, network, logging and threading layers (I/O); cryptography (wrappers of OpenSSL);
  the extraction tools and the bundled libraries other than the UTF-8 codec; the other managers (groups, guilds, mail,
  auctions, tickets), to which the library can be extended.
\<close>

end
